(* ===== verification/Prelude.thy ===== *)
theory Prelude
  imports Main "HOL-Library.Word" "HOL-Library.Char_ord"
begin

text \<open>
  Shared vocabulary of the development: the types every component uses (bytes, Go strings,
  points in time), the lemma collections the component proofs draw on, generic facts about
  lists and optional values, and the notion of reachable state with its invariant rule.
\<close>

section \<open>Types\<close>

type_synonym u8 = "8 word"
type_synonym u64 = "64 word"

text \<open>
  A point in time or a duration, in the unit the source counts in (nanoseconds for
  \<open>time.Time\<close>/\<open>time.Duration\<close>, seconds for Unix stamps). Both can be negative.
\<close>

type_synonym gotime = int

section \<open>Lemma collections\<close>

named_theorems str_simps \<open>evaluation of the Go string functions\<close>
named_theorems net_simps \<open>evaluation of the address functions\<close>
named_theorems mw_simps \<open>one equation per middleware branch\<close>
named_theorems inv_intros \<open>operations keep their component's invariant\<close>

section \<open>Lists\<close>

lemma rev_dropWhile_idem:
  "dropWhile P (rev (dropWhile P (rev xs))) = rev (dropWhile P (rev (dropWhile P xs)))"
proof (induction xs rule: rev_induct)
  case Nil
  then show ?case by simp
next
  case (snoc x xs)
  show ?case
  proof (cases "P x")
    case True
    with snoc show ?thesis
      by (auto simp: dropWhile_append dest: set_dropWhileD)
  next
    case False
    then show ?thesis
      by (simp add: dropWhile_append dropWhile_append3)
  qed
qed

lemma take_eq_append_drop: "take n xs = ys \<Longrightarrow> xs = ys @ drop n xs"
  by (metis append_take_drop_id)

lemma find_None_filter: "find P xs = None \<longleftrightarrow> filter P xs = []"
  by (induction xs) auto

lemma list_ex_filter: "list_ex P xs \<longleftrightarrow> filter P xs \<noteq> []"
  by (induction xs) auto

lemma sorted_bounds:
  fixes us :: "'a::linorder list"
  assumes "sorted us" "t \<in> set us"
  shows "hd us \<le> t" "t \<le> last us"
proof -
  show "hd us \<le> t" using assms by (cases us) auto
  show "t \<le> last us" using assms by (induction us) auto
qed

text \<open>Association lists with strictly increasing keys are determined by what they map.\<close>

lemma map_of_filter_key: "map_of (filter (\<lambda>e. P (fst e)) fs) k = (if P k then map_of fs k else None)"
  by (induction fs) auto

lemma map_of_filter_pairs: "map_of (filter (\<lambda>(q, _). P q) es) k = (if P k then map_of es k else None)"
  using map_of_filter_key [of P es k] by (simp add: case_prod_beta')

lemma sorted_alist_eq:
  fixes xs ys :: "('k :: linorder \<times> 'v) list"
  assumes "sorted_wrt (<) (map fst xs)" "sorted_wrt (<) (map fst ys)" "map_of xs = map_of ys"
  shows "xs = ys"
proof -
  have d: "distinct (map fst xs)" "distinct (map fst ys)" using assms strict_sorted_iff by auto
  have keys: "map fst xs = map fst ys"
    using assms d dom_map_of_conv_image_fst [of xs] dom_map_of_conv_image_fst [of ys]
    by (intro sorted_distinct_set_unique) (auto simp: strict_sorted_iff)
  have "xs ! i = ys ! i" if i: "i < length xs" for i
  proof -
    have j: "i < length ys" using keys i by (metis length_map)
    have f: "fst (xs ! i) = fst (ys ! i)" using keys i j by (metis nth_map)
    have "map_of xs (fst (xs ! i)) = Some (snd (xs ! i))" "map_of ys (fst (ys ! i)) = Some (snd (ys ! i))"
      using d i j by (simp_all add: map_of_eq_Some_iff)
    then show ?thesis using assms(3) f by (simp add: prod_eq_iff)
  qed
  then show ?thesis using keys by (metis length_map nth_equalityI)
qed

section \<open>Reachable states\<close>

text \<open>
  A component whose operations interleave is a predicate on initial states and a step
  relation. The rule below is the only induction its invariants need.
\<close>

inductive reachable :: "('s \<Rightarrow> bool) \<Rightarrow> ('s \<Rightarrow> 's \<Rightarrow> bool) \<Rightarrow> 's \<Rightarrow> bool"
  for init :: "'s \<Rightarrow> bool" and step :: "'s \<Rightarrow> 's \<Rightarrow> bool" where
  reach_init: "init s \<Longrightarrow> reachable init step s"
| reach_step: "reachable init step s \<Longrightarrow> step s t \<Longrightarrow> reachable init step t"

locale invariant_system =
  fixes init :: "'s \<Rightarrow> bool"
    and step :: "'s \<Rightarrow> 's \<Rightarrow> bool"
    and inv :: "'s \<Rightarrow> bool"
  assumes inv_init: "init s \<Longrightarrow> inv s"
    and inv_step: "step s t \<Longrightarrow> inv s \<Longrightarrow> inv t"
begin

lemma reachable_inv: "reachable init step s \<Longrightarrow> inv s"
  by (induction rule: reachable.induct) (auto intro: inv_init inv_step)

end

end
