(* ===== verification/GoStrings.thy ===== *)
theory GoStrings
  imports Prelude
begin

text \<open>
  The part of Go's \<open>strings\<close> and \<open>strconv\<close> packages the sources use. A Go string is its
  byte sequence, so it is an Isabelle \<open>string\<close>. Case mapping and white space are those of
  the ASCII range, which is where configuration values, host names, addresses and header
  names live; a byte above 127 is left alone and is never white space.
\<close>

section \<open>Characters\<close>

definition is_space :: "char \<Rightarrow> bool" where
  "is_space c \<longleftrightarrow> (let n = (of_char c :: nat) in n = 32 \<or> (9 \<le> n \<and> n \<le> 13))"

definition is_digit :: "char \<Rightarrow> bool" where
  "is_digit c \<longleftrightarrow> (let n = (of_char c :: nat) in 48 \<le> n \<and> n \<le> 57)"

definition digit_val :: "char \<Rightarrow> nat" where
  "digit_val c = (of_char c :: nat) - 48"

definition lower_char :: "char \<Rightarrow> char" where
  "lower_char c = (let n = (of_char c :: nat) in if 65 \<le> n \<and> n \<le> 90 then char_of (n + 32) else c)"

definition upper_char :: "char \<Rightarrow> char" where
  "upper_char c = (let n = (of_char c :: nat) in if 97 \<le> n \<and> n \<le> 122 then char_of (n - 32) else c)"

section \<open>Package strings\<close>

definition ToLower :: "string \<Rightarrow> string" where
  "ToLower s = map lower_char s"

definition ToUpper :: "string \<Rightarrow> string" where
  "ToUpper s = map upper_char s"

definition EqualFold :: "string \<Rightarrow> string \<Rightarrow> bool" where
  "EqualFold s t \<longleftrightarrow> ToLower s = ToLower t"

definition TrimLeftFunc :: "(char \<Rightarrow> bool) \<Rightarrow> string \<Rightarrow> string" where
  "TrimLeftFunc P s = dropWhile P s"

definition TrimRightFunc :: "(char \<Rightarrow> bool) \<Rightarrow> string \<Rightarrow> string" where
  "TrimRightFunc P s = rev (dropWhile P (rev s))"

definition TrimFunc :: "(char \<Rightarrow> bool) \<Rightarrow> string \<Rightarrow> string" where
  "TrimFunc P s = TrimRightFunc P (TrimLeftFunc P s)"

definition TrimSpace :: "string \<Rightarrow> string" where
  "TrimSpace s = TrimFunc is_space s"

definition Trim :: "string \<Rightarrow> string \<Rightarrow> string" where
  "Trim s cutset = TrimFunc (\<lambda>c. c \<in> set cutset) s"

definition HasPrefix :: "string \<Rightarrow> string \<Rightarrow> bool" where
  "HasPrefix s p \<longleftrightarrow> take (length p) s = p"

definition HasSuffix :: "string \<Rightarrow> string \<Rightarrow> bool" where
  "HasSuffix s p \<longleftrightarrow> length p \<le> length s \<and> drop (length s - length p) s = p"

definition TrimPrefix :: "string \<Rightarrow> string \<Rightarrow> string" where
  "TrimPrefix s p = (if HasPrefix s p then drop (length p) s else s)"

definition TrimSuffix :: "string \<Rightarrow> string \<Rightarrow> string" where
  "TrimSuffix s p = (if HasSuffix s p then take (length s - length p) s else s)"

fun IndexByte :: "string \<Rightarrow> char \<Rightarrow> nat option" where
  "IndexByte [] c = None"
| "IndexByte (x # xs) c = (if x = c then Some 0 else map_option Suc (IndexByte xs c))"

fun Index :: "string \<Rightarrow> string \<Rightarrow> nat option" where
  "Index [] sub = (if sub = [] then Some 0 else None)"
| "Index (x # xs) sub = (if HasPrefix (x # xs) sub then Some 0 else map_option Suc (Index xs sub))"

definition IndexAny :: "string \<Rightarrow> string \<Rightarrow> nat option" where
  "IndexAny s chars = (let n = length (takeWhile (\<lambda>c. c \<notin> set chars) s)
                       in if n < length s then Some n else None)"

definition LastIndexByte :: "string \<Rightarrow> char \<Rightarrow> nat option" where
  "LastIndexByte s c = map_option (\<lambda>k. length s - 1 - k) (IndexByte (rev s) c)"

definition Contains :: "string \<Rightarrow> string \<Rightarrow> bool" where
  "Contains s sub \<longleftrightarrow> Index s sub \<noteq> None"

definition ContainsByte :: "string \<Rightarrow> char \<Rightarrow> bool" where
  "ContainsByte s c \<longleftrightarrow> c \<in> set s"

text \<open>\<open>strings.Split(s, sep)\<close> for a separator of one byte.\<close>

fun SplitByte :: "string \<Rightarrow> char \<Rightarrow> string list" where
  "SplitByte [] c = [[]]"
| "SplitByte (x # xs) c =
     (if x = c then [] # SplitByte xs c
      else (case SplitByte xs c of [] \<Rightarrow> [[x]] | p # ps \<Rightarrow> (x # p) # ps))"

text \<open>\<open>strings.SplitN(s, sep, 2)\<close> for a separator of one byte.\<close>

definition SplitByteN2 :: "string \<Rightarrow> char \<Rightarrow> string list" where
  "SplitByteN2 s c = (case IndexByte s c of None \<Rightarrow> [s] | Some i \<Rightarrow> [take i s, drop (Suc i) s])"

fun Join :: "string list \<Rightarrow> string \<Rightarrow> string" where
  "Join [] sep = []"
| "Join [p] sep = p"
| "Join (p # q # ps) sep = p @ sep @ Join (q # ps) sep"

text \<open>\<open>strings.Fields\<close>: the maximal runs of non-space bytes.\<close>

fun fields_aux :: "string \<Rightarrow> string \<Rightarrow> string list" where
  "fields_aux [] acc = (if acc = [] then [] else [rev acc])"
| "fields_aux (x # xs) acc =
     (if is_space x then (if acc = [] then fields_aux xs [] else rev acc # fields_aux xs [])
      else fields_aux xs (x # acc))"

definition Fields :: "string \<Rightarrow> string list" where
  "Fields s = fields_aux s []"

section \<open>Package strconv\<close>

fun digits_val :: "nat \<Rightarrow> string \<Rightarrow> nat" where
  "digits_val acc [] = acc"
| "digits_val acc (c # cs) = digits_val (acc * 10 + digit_val c) cs"

text \<open>
  \<open>strconv.ParseInt(s, 10, 64)\<close> and, on a 64-bit platform, \<open>strconv.Atoi\<close>: an optional
  sign, at least one digit, and a value in the range of \<open>int64\<close>.
\<close>

definition parse_uint :: "string \<Rightarrow> nat option" where
  "parse_uint s = (if s \<noteq> [] \<and> list_all is_digit s then Some (digits_val 0 s) else None)"

definition ParseInt64 :: "string \<Rightarrow> int option" where
  "ParseInt64 s =
     (case s of
        [] \<Rightarrow> None
      | c # cs \<Rightarrow>
          if c = CHR ''-'' then
            (case parse_uint cs of None \<Rightarrow> None
             | Some n \<Rightarrow> if n \<le> 2 ^ 63 then Some (- int n) else None)
          else
            (case parse_uint (if c = CHR ''+'' then cs else s) of None \<Rightarrow> None
             | Some n \<Rightarrow> if n < 2 ^ 63 then Some (int n) else None))"

fun Itoa :: "nat \<Rightarrow> string" where
  "Itoa n = (if n < 10 then [char_of (48 + n)] else Itoa (n div 10) @ [char_of (48 + n mod 10)])"

declare Itoa.simps [simp del]

section \<open>Facts\<close>

lemmas str_defs [str_simps] =
  is_space_def is_digit_def digit_val_def lower_char_def upper_char_def ToLower_def ToUpper_def
  EqualFold_def TrimLeftFunc_def TrimRightFunc_def TrimFunc_def TrimSpace_def Trim_def
  HasPrefix_def HasSuffix_def TrimPrefix_def TrimSuffix_def IndexAny_def LastIndexByte_def
  Contains_def ContainsByte_def SplitByteN2_def Fields_def parse_uint_def ParseInt64_def

lemma char_of_literal [str_simps]:
  "(char_of (numeral k :: nat) :: char) =
     Char (odd (numeral k :: nat)) (odd ((numeral k :: nat) div 2)) (odd ((numeral k :: nat) div 4))
       (odd ((numeral k :: nat) div 8)) (odd ((numeral k :: nat) div 16)) (odd ((numeral k :: nat) div 32))
       (odd ((numeral k :: nat) div 64)) (odd ((numeral k :: nat) div 128))"
  by (simp add: char_of_def bit_iff_odd)

subsection \<open>Trimming\<close>

lemma TrimFunc_idem [simp]: "TrimFunc P (TrimFunc P s) = TrimFunc P s"
  by (simp add: TrimFunc_def TrimLeftFunc_def TrimRightFunc_def rev_dropWhile_idem)

lemma TrimSpace_idem [simp]: "TrimSpace (TrimSpace s) = TrimSpace s"
  by (simp add: TrimSpace_def)

lemma Trim_idem [simp]: "Trim (Trim s cs) cs = Trim s cs"
  by (simp add: Trim_def)

lemma set_TrimFunc: "set (TrimFunc P s) \<subseteq> set s"
  by (auto simp: TrimFunc_def TrimLeftFunc_def TrimRightFunc_def dest!: set_dropWhileD)

lemma dropWhile_none: "\<forall>c \<in> set t. \<not> P c \<Longrightarrow> dropWhile P t = t"
  by (cases t) auto

lemma TrimFunc_id: "\<forall>c \<in> set s. \<not> P c \<Longrightarrow> TrimFunc P s = s"
  using dropWhile_none [of s P] dropWhile_none [of "rev s" P]
  by (simp add: TrimFunc_def TrimLeftFunc_def TrimRightFunc_def)

subsection \<open>Case mapping\<close>

lemma lower_char_idem [simp]: "lower_char (lower_char c) = lower_char c"
  by (simp add: lower_char_def Let_def)

lemma ToLower_idem [simp]: "ToLower (ToLower s) = ToLower s"
  by (simp add: ToLower_def comp_def)

lemma length_ToLower [simp]: "length (ToLower s) = length s"
  by (simp add: ToLower_def)

subsection \<open>Prefixes, suffixes and substrings\<close>

lemma HasPrefix_iff: "HasPrefix s p \<longleftrightarrow> (\<exists>t. s = p @ t)"
  by (auto simp: HasPrefix_def) (metis append_take_drop_id)

lemma HasPrefix_append [simp]: "HasPrefix (p @ t) p"
  by (simp add: HasPrefix_def)

lemma HasSuffix_iff: "HasSuffix s p \<longleftrightarrow> (\<exists>t. s = t @ p)"
  by (auto simp: HasSuffix_def) (metis append_take_drop_id)

lemma HasSuffix_append [simp]: "HasSuffix (t @ p) p"
  by (auto simp: HasSuffix_iff)

lemma Contains_Cons: "Contains (x # xs) sub \<longleftrightarrow> HasPrefix (x # xs) sub \<or> Contains xs sub"
  by (auto simp: Contains_def)

lemma Contains_iff: "Contains s sub \<longleftrightarrow> (\<exists>a b. s = a @ sub @ b)"
proof (induction s)
  case Nil
  then show ?case by (simp add: Contains_def)
next
  case (Cons x xs)
  have "(\<exists>a b. x # xs = a @ sub @ b) \<longleftrightarrow>
        (\<exists>b. x # xs = sub @ b) \<or> (\<exists>a b. xs = a @ sub @ b)"
  proof
    assume "\<exists>a b. x # xs = a @ sub @ b"
    then obtain a b where ab: "x # xs = a @ sub @ b" by blast
    then show "(\<exists>b. x # xs = sub @ b) \<or> (\<exists>a b. xs = a @ sub @ b)"
      by (cases a) auto
  next
    assume "(\<exists>b. x # xs = sub @ b) \<or> (\<exists>a b. xs = a @ sub @ b)"
    then show "\<exists>a b. x # xs = a @ sub @ b"
      by (metis append_Cons append_Nil)
  qed
  with Cons show ?case by (simp add: Contains_Cons HasPrefix_iff)
qed

lemma Contains_single: "Contains s [c] \<longleftrightarrow> c \<in> set s"
  by (auto simp: Contains_iff in_set_conv_decomp)

lemma Contains_mono: "Contains s sub \<Longrightarrow> Contains (a @ s @ b) sub"
  by (metis Contains_iff append.assoc)

subsection \<open>Positions\<close>

lemma IndexByte_None [simp]: "IndexByte s c = None \<longleftrightarrow> c \<notin> set s"
  by (induction s) auto

lemma IndexByte_Some:
  "IndexByte s c = Some i \<longleftrightarrow> i < length s \<and> s ! i = c \<and> c \<notin> set (take i s)"
proof (induction s arbitrary: i)
  case Nil
  then show ?case by simp
next
  case (Cons x xs)
  then show ?case by (cases i) (auto simp: Cons)
qed

lemma IndexByte_append_notin: "c \<notin> set a \<Longrightarrow> IndexByte (a @ c # b) c = Some (length a)"
  by (induction a) auto

lemma IndexByte_split:
  assumes "IndexByte s c = Some i"
  shows "s = take i s @ c # drop (Suc i) s \<and> c \<notin> set (take i s)"
  using assms by (metis IndexByte_Some id_take_nth_drop)

subsection \<open>Splitting and joining\<close>

lemma SplitByte_not_Nil [simp]: "SplitByte s c \<noteq> []"
  by (cases s) (auto split: list.splits)

lemma SplitByte_notin: "c \<notin> set s \<Longrightarrow> SplitByte s c = [s]"
  by (induction s) auto

lemma SplitByte_append: "SplitByte (a @ c # b) c = SplitByte a c @ SplitByte b c"
  by (induction a) (auto split: list.splits)

lemma SplitByte_pieces: "p \<in> set (SplitByte s c) \<Longrightarrow> c \<notin> set p"
  by (induction s arbitrary: p) (auto split: list.splits if_splits)

lemma Join_Cons: "ps \<noteq> [] \<Longrightarrow> Join (p # ps) sep = p @ sep @ Join ps sep"
  by (cases ps) auto

lemma Join_Cons_head: "Join ((x # p) # ps) sep = x # Join (p # ps) sep"
  by (cases ps) auto

lemma Join_SplitByte [simp]: "Join (SplitByte s c) [c] = s"
proof (induction s)
  case Nil
  then show ?case by simp
next
  case (Cons x xs)
  obtain p ps where *: "SplitByte xs c = p # ps" by (cases "SplitByte xs c") auto
  show ?case
  proof (cases "x = c")
    case True
    with Cons show ?thesis by (simp add: Join_Cons)
  next
    case False
    with Cons * show ?thesis by (simp add: Join_Cons_head)
  qed
qed

lemma SplitByte_Join:
  assumes "ps \<noteq> []" and "\<forall>p \<in> set ps. c \<notin> set p"
  shows "SplitByte (Join ps [c]) c = ps"
  using assms
proof (induction ps)
  case Nil
  then show ?case by simp
next
  case (Cons p ps)
  then show ?case
    by (cases "ps = []") (auto simp: Join_Cons SplitByte_append SplitByte_notin)
qed

subsection \<open>Decimal numbers\<close>

lemma of_char_digit [simp]: "n < 10 \<Longrightarrow> (of_char (char_of (48 + n :: nat)) :: nat) = 48 + n"
  by simp

lemma is_digit_char_of [simp]: "n < 10 \<Longrightarrow> is_digit (char_of (48 + n :: nat))"
  by (simp add: is_digit_def)

lemma digit_val_char_of [simp]: "n < 10 \<Longrightarrow> digit_val (char_of (48 + n :: nat)) = n"
  by (simp add: digit_val_def)

lemma digits_val_append: "digits_val acc (xs @ [c]) = digits_val acc xs * 10 + digit_val c"
  by (induction xs arbitrary: acc) auto

lemma Itoa_digits: "c \<in> set (Itoa n) \<Longrightarrow> is_digit c"
proof (induction n arbitrary: c rule: Itoa.induct)
  case (1 n)
  then show ?case
    by (subst (asm) (2) Itoa.simps) (auto split: if_splits)
qed

lemma Itoa_not_Nil [simp]: "Itoa n \<noteq> []"
  by (subst Itoa.simps) auto

lemma digits_val_Itoa [simp]: "digits_val 0 (Itoa n) = n"
proof (induction n rule: Itoa.induct)
  case (1 n)
  show ?case
  proof (cases "n < 10")
    case True
    then show ?thesis by (simp add: Itoa.simps [of n])
  next
    case False
    with 1 show ?thesis by (simp add: Itoa.simps [of n] digits_val_append)
  qed
qed

lemma parse_uint_Itoa [simp]: "parse_uint (Itoa n) = Some n"
  by (simp add: parse_uint_def list_all_iff Itoa_digits)

lemma ParseInt64_Itoa: "n < 2 ^ 63 \<Longrightarrow> ParseInt64 (Itoa n) = Some (int n)"
proof -
  assume n: "n < 2 ^ 63"
  obtain c cs where s: "Itoa n = c # cs" by (cases "Itoa n") auto
  have "is_digit c" using Itoa_digits [of c n] s by simp
  then have "c \<noteq> CHR ''-''" "c \<noteq> CHR ''+''" by (auto simp: is_digit_def)
  with n s show ?thesis
    using parse_uint_Itoa [of n] by (simp add: ParseInt64_def)
qed

lemma ParseInt64_bounds: "ParseInt64 s = Some n \<Longrightarrow> - (2 ^ 63) \<le> n \<and> n < 2 ^ 63"
  by (auto simp: ParseInt64_def split: list.splits if_splits option.splits)

lemma Itoa_inject: "Itoa m = Itoa n \<Longrightarrow> m = n"
  by (metis digits_val_Itoa)

end
