(* ===== verification/GoNet.thy ===== *)
theory GoNet
  imports GoStrings
begin

unbundle bit_operations_syntax

text \<open>
  The part of Go's \<open>net\<close> and \<open>net/netip\<close> packages the sources use: addresses as byte
  sequences, their parsers and printer, CIDR masks and networks, the address classes, and
  \<open>SplitHostPort\<close>. A \<open>nil\<close> address is \<open>None\<close>; a present one is a list of 4 or 16 bytes.
\<close>

section \<open>Addresses\<close>

type_synonym ip = "u8 list"

definition v4InV6Prefix :: ip where
  "v4InV6Prefix = [0, 0, 0, 0, 0, 0, 0, 0, 0, 0, 0xff, 0xff]"

definition To4 :: "ip \<Rightarrow> ip option" where
  "To4 ip = (if length ip = 4 then Some ip
             else if length ip = 16 \<and> take 12 ip = v4InV6Prefix then Some (drop 12 ip)
             else None)"

definition IP_Equal :: "ip \<Rightarrow> ip \<Rightarrow> bool" where
  "IP_Equal ip x =
     (if length ip = length x then ip = x
      else if length ip = 4 \<and> length x = 16 then take 12 x = v4InV6Prefix \<and> ip = drop 12 x
      else if length ip = 16 \<and> length x = 4 then take 12 ip = v4InV6Prefix \<and> drop 12 ip = x
      else False)"

section \<open>Parsing addresses\<close>

text \<open>
  \<open>netip.parseIPv4Fields\<close>: \<open>val\<close> and \<open>digLen\<close> are the loop's variables, \<open>fs\<close> the fields
  already stored.
\<close>

fun parseIPv4Fields :: "nat \<Rightarrow> nat \<Rightarrow> u8 list \<Rightarrow> string \<Rightarrow> u8 list option" where
  "parseIPv4Fields val digLen fs [] =
     (if length fs < 3 then None else Some (fs @ [of_nat val]))"
| "parseIPv4Fields val digLen fs (c # cs) =
     (if is_digit c then
        (if digLen = 1 \<and> val = 0 then None
         else let v = val * 10 + digit_val c in
              if v > 255 then None else parseIPv4Fields v (Suc digLen) fs cs)
      else if c = CHR ''.'' then
        (if digLen = 0 \<or> cs = [] then None
         else if length fs = 3 then None
         else parseIPv4Fields 0 0 (fs @ [of_nat val]) cs)
      else None)"

definition parseIPv4 :: "string \<Rightarrow> u8 list option" where
  "parseIPv4 s = parseIPv4Fields 0 0 [] s"

definition is_hex :: "char \<Rightarrow> bool" where
  "is_hex c \<longleftrightarrow> (let n = (of_char c :: nat) in
     (48 \<le> n \<and> n \<le> 57) \<or> (97 \<le> n \<and> n \<le> 102) \<or> (65 \<le> n \<and> n \<le> 70))"

definition hex_val :: "char \<Rightarrow> nat" where
  "hex_val c = (let n = (of_char c :: nat) in
     if n \<le> 57 then n - 48 else if n \<le> 70 then n - 55 else n - 87)"

fun hex_num :: "nat \<Rightarrow> string \<Rightarrow> nat" where
  "hex_num acc [] = acc"
| "hex_num acc (c # cs) = hex_num (acc * 16 + hex_val c) cs"

text \<open>
  One turn of the group loop of \<open>netip.parseIPv6\<close>, on the bytes stored so far, the position
  of the ellipsis and the rest of the string. The first component of the result says whether
  the loop goes on; \<open>None\<close> is an error return.
\<close>

type_synonym v6state = "u8 list \<times> nat option \<times> string"

definition parseIPv6Group :: "u8 list \<Rightarrow> nat option \<Rightarrow> string \<Rightarrow> (bool \<times> v6state) option" where
  "parseIPv6Group acc ell s =
     (let ds = takeWhile is_hex s; rest = drop (length ds) s in
      if 4 < length ds \<or> ds = [] then None
      else if HasPrefix rest ''.'' then
        (if ell = None \<and> length acc \<noteq> 12 then None
         else if 16 < length acc + 4 then None
         else case parseIPv4Fields 0 0 [] s of
                None \<Rightarrow> None | Some f \<Rightarrow> Some (False, acc @ f, ell, []))
      else let n = hex_num 0 ds; acc' = acc @ [of_nat (n div 256), of_nat (n mod 256)] in
        (case rest of
           [] \<Rightarrow> Some (False, acc', ell, [])
         | c # r \<Rightarrow>
             if c \<noteq> CHR '':'' then None
             else (case r of
                [] \<Rightarrow> None
              | d # r' \<Rightarrow>
                  if d = CHR '':'' then
                    (if ell \<noteq> None then None
                     else Some (r' \<noteq> [], acc', Some (length acc'), r'))
                  else Some (True, acc', ell, r))))"

lemma parseIPv6Group_grows:
  "parseIPv6Group acc ell s = Some (True, acc', ell', s') \<Longrightarrow> length acc' = length acc + 2"
  by (auto simp: parseIPv6Group_def Let_def split: if_splits option.splits list.splits)

function parseIPv6Loop :: "u8 list \<Rightarrow> nat option \<Rightarrow> string \<Rightarrow> v6state option" where
  "parseIPv6Loop acc ell s =
     (if 16 \<le> length acc then Some (acc, ell, s)
      else case parseIPv6Group acc ell s of
             None \<Rightarrow> None
           | Some (go, acc', ell', s') \<Rightarrow>
               if go then parseIPv6Loop acc' ell' s' else Some (acc', ell', s'))"
  by pat_completeness auto
termination
  by (relation "measure (\<lambda>(acc, ell, s). 16 - length acc)")
     (auto dest!: parseIPv6Group_grows)

declare parseIPv6Loop.simps [simp del]

text \<open>What follows the loop: the whole string used, and the ellipsis expanded.\<close>

definition parseIPv6Finish :: "v6state \<Rightarrow> u8 list option" where
  "parseIPv6Finish r = (case r of (acc, ell, s) \<Rightarrow>
     if s \<noteq> [] then None
     else if length acc < 16 then
       (case ell of None \<Rightarrow> None
        | Some e \<Rightarrow> Some (take e acc @ replicate (16 - length acc) 0 @ drop e acc))
     else if ell \<noteq> None then None
     else Some acc)"

definition parseIPv6Body :: "string \<Rightarrow> u8 list option" where
  "parseIPv6Body s =
     (if HasPrefix s ''::'' then
        (if length s = 2 then Some (replicate 16 0)
         else Option.bind (parseIPv6Loop [] (Some 0) (drop 2 s)) parseIPv6Finish)
      else Option.bind (parseIPv6Loop [] None s) parseIPv6Finish)"

datatype netip_addr = Addr4 "u8 list" | Addr6 "u8 list" string

definition parseIPv6 :: "string \<Rightarrow> netip_addr option" where
  "parseIPv6 s =
     (case IndexByte s (CHR ''%'') of
        None \<Rightarrow> map_option (\<lambda>b. Addr6 b []) (parseIPv6Body s)
      | Some i \<Rightarrow> (let zone = drop (Suc i) s in
          if zone = [] then None
          else map_option (\<lambda>b. Addr6 b zone) (parseIPv6Body (take i s))))"

definition ParseAddr :: "string \<Rightarrow> netip_addr option" where
  "ParseAddr s =
     (case dropWhile (\<lambda>c. c \<noteq> CHR ''.'' \<and> c \<noteq> CHR '':'' \<and> c \<noteq> CHR ''%'') s of
        [] \<Rightarrow> None
      | c # _ \<Rightarrow> if c = CHR ''.'' then map_option Addr4 (parseIPv4 s)
                else if c = CHR '':'' then parseIPv6 s
                else None)"

fun As16 :: "netip_addr \<Rightarrow> ip" where
  "As16 (Addr4 b) = v4InV6Prefix @ b"
| "As16 (Addr6 b z) = b"

fun Zone :: "netip_addr \<Rightarrow> string" where
  "Zone (Addr4 b) = []"
| "Zone (Addr6 b z) = z"

fun BitLen :: "netip_addr \<Rightarrow> nat" where
  "BitLen (Addr4 b) = 32"
| "BitLen (Addr6 b z) = 128"

definition ParseIP :: "string \<Rightarrow> ip option" where
  "ParseIP s = (case ParseAddr s of None \<Rightarrow> None
     | Some a \<Rightarrow> if Zone a \<noteq> [] then None else Some (As16 a))"

section \<open>Networks\<close>

record IPNet =
  net_IP :: ip
  net_Mask :: "u8 list"

fun CIDRMask_bytes :: "nat \<Rightarrow> nat \<Rightarrow> u8 list" where
  "CIDRMask_bytes 0 n = []"
| "CIDRMask_bytes (Suc l) n =
     (if 8 \<le> n then 0xff # CIDRMask_bytes l (n - 8)
      else NOT (drop_bit n 0xff) # CIDRMask_bytes l 0)"

definition CIDRMask :: "nat \<Rightarrow> nat \<Rightarrow> u8 list" where
  "CIDRMask ones bits = CIDRMask_bytes (bits div 8) ones"

definition IP_Mask :: "ip \<Rightarrow> u8 list \<Rightarrow> ip option" where
  "IP_Mask ip msk =
     (let msk' = (if length msk = 16 \<and> length ip = 4 \<and> take 12 msk = replicate 12 0xff
                   then drop 12 msk else msk);
          ip' = (if length msk' = 4 \<and> length ip = 16 \<and> take 12 ip = v4InV6Prefix
                 then drop 12 ip else ip)
      in if length ip' \<noteq> length msk' then None else Some (map2 (AND) ip' msk'))"

definition dtoi :: "string \<Rightarrow> (nat \<times> nat) option" where
  "dtoi s = (let ds = takeWhile is_digit s; n = digits_val 0 ds in
     if ds = [] \<or> 0xFFFFFF \<le> n then None else Some (n, length ds))"

definition ParseCIDR :: "string \<Rightarrow> IPNet option" where
  "ParseCIDR s =
     (case IndexByte s (CHR ''/'') of
        None \<Rightarrow> None
      | Some i \<Rightarrow>
          (let msk = drop (Suc i) s in
           case ParseAddr (take i s) of
             None \<Rightarrow> None
           | Some a \<Rightarrow>
               if Zone a \<noteq> [] then None
               else (case dtoi msk of
                  None \<Rightarrow> None
                | Some (n, k) \<Rightarrow>
                    if k \<noteq> length msk \<or> BitLen a < n then None
                    else let m = CIDRMask n (BitLen a) in
                      (case IP_Mask (As16 a) m of
                         None \<Rightarrow> None
                       | Some b \<Rightarrow> Some \<lparr>net_IP = b, net_Mask = m\<rparr>))))"

definition networkNumberAndMask :: "IPNet \<Rightarrow> (ip \<times> u8 list) option" where
  "networkNumberAndMask n =
     (let ip = (case To4 (net_IP n) of Some b \<Rightarrow> b | None \<Rightarrow> net_IP n); m = net_Mask n in
      if length ip \<noteq> 4 \<and> length ip \<noteq> 16 then None
      else if length m = 4 then (if length ip = 4 then Some (ip, m) else None)
      else if length m = 16 then Some (ip, if length ip = 4 then drop 12 m else m)
      else None)"

definition IPNet_Contains :: "IPNet \<Rightarrow> ip \<Rightarrow> bool" where
  "IPNet_Contains n ip =
     (case networkNumberAndMask n of
        None \<Rightarrow> ip = []
      | Some (nn, m) \<Rightarrow>
          (let ip' = (case To4 ip of Some x \<Rightarrow> x | None \<Rightarrow> ip) in
           length ip' = length nn \<and> map2 (AND) nn m = map2 (AND) ip' m))"

section \<open>Address classes\<close>

definition IsLoopback :: "ip \<Rightarrow> bool" where
  "IsLoopback ip = (case To4 ip of Some b \<Rightarrow> hd b = 127
     | None \<Rightarrow> ip = replicate 15 0 @ [1])"

definition IsLinkLocalUnicast :: "ip \<Rightarrow> bool" where
  "IsLinkLocalUnicast ip = (case To4 ip of Some b \<Rightarrow> b ! 0 = 169 \<and> b ! 1 = 254
     | None \<Rightarrow> length ip = 16 \<and> ip ! 0 = 0xfe \<and> ip ! 1 AND 0xc0 = 0x80)"

definition IsLinkLocalMulticast :: "ip \<Rightarrow> bool" where
  "IsLinkLocalMulticast ip = (case To4 ip of Some b \<Rightarrow> b ! 0 = 224 \<and> b ! 1 = 0 \<and> b ! 2 = 0
     | None \<Rightarrow> length ip = 16 \<and> ip ! 0 = 0xff \<and> ip ! 1 AND 0x0f = 0x02)"

definition IsInterfaceLocalMulticast :: "ip \<Rightarrow> bool" where
  "IsInterfaceLocalMulticast ip \<longleftrightarrow> length ip = 16 \<and> ip ! 0 = 0xff \<and> ip ! 1 AND 0x0f = 0x01"

definition IsMulticast :: "ip \<Rightarrow> bool" where
  "IsMulticast ip = (case To4 ip of Some b \<Rightarrow> b ! 0 AND 0xf0 = 0xe0
     | None \<Rightarrow> length ip = 16 \<and> ip ! 0 = 0xff)"

definition IsUnspecified :: "ip \<Rightarrow> bool" where
  "IsUnspecified ip \<longleftrightarrow> IP_Equal ip (v4InV6Prefix @ [0, 0, 0, 0]) \<or> IP_Equal ip (replicate 16 0)"

definition IsPrivate :: "ip \<Rightarrow> bool" where
  "IsPrivate ip = (case To4 ip of
      Some b \<Rightarrow> b ! 0 = 10 \<or> (b ! 0 = 172 \<and> b ! 1 AND 0xf0 = 16) \<or> (b ! 0 = 192 \<and> b ! 1 = 168)
    | None \<Rightarrow> length ip = 16 \<and> ip ! 0 AND 0xfe = 0xfc)"

definition IsGlobalUnicast :: "ip \<Rightarrow> bool" where
  "IsGlobalUnicast ip \<longleftrightarrow> (length ip = 4 \<or> length ip = 16) \<and>
     \<not> IP_Equal ip (v4InV6Prefix @ [255, 255, 255, 255]) \<and> \<not> IsUnspecified ip \<and>
     \<not> IsLoopback ip \<and> \<not> IsMulticast ip \<and> \<not> IsLinkLocalUnicast ip"

section \<open>Printing addresses\<close>

definition dotted :: "u8 list \<Rightarrow> string" where
  "dotted b = Join (map (\<lambda>x. Itoa (unat x)) b) ''.''"

definition hex_digit :: "nat \<Rightarrow> char" where
  "hex_digit n = (if n < 10 then char_of (48 + n) else char_of (87 + n))"

text \<open>\<open>appendHex\<close>: at most four digits, without leading zeros.\<close>

definition hex_group :: "nat \<Rightarrow> string" where
  "hex_group n =
     (if 4096 \<le> n then [hex_digit (n div 4096)] else []) @
     (if 256 \<le> n then [hex_digit (n div 256 mod 16)] else []) @
     (if 16 \<le> n then [hex_digit (n div 16 mod 16)] else []) @ [hex_digit (n mod 16)]"

fun v6groups :: "u8 list \<Rightarrow> nat list" where
  "v6groups (a # b # bs) = (unat a * 256 + unat b) # v6groups bs"
| "v6groups _ = []"

text \<open>The longest run of at least two zero groups, the first one on a tie.\<close>

fun zero_run :: "nat \<Rightarrow> (nat \<times> nat) \<Rightarrow> nat list \<Rightarrow> nat \<times> nat" where
  "zero_run i best [] = best"
| "zero_run i best (g # gs) =
     (let l = length (takeWhile (\<lambda>x. x = 0) (g # gs)) in
      zero_run (Suc i) (if 2 \<le> l \<and> snd best < l then (i, l) else best) gs)"

definition v6string :: "u8 list \<Rightarrow> string" where
  "v6string b =
     (let gs = v6groups b; (z, l) = zero_run 0 (0, 0) gs in
      if l = 0 then Join (map hex_group gs) '':''
      else Join (map hex_group (take z gs)) '':'' @ ''::'' @
           Join (map hex_group (drop (z + l) gs)) '':'')"

definition IP_String :: "ip \<Rightarrow> string" where
  "IP_String ip =
     (if ip = [] then ''<nil>''
      else if length ip \<noteq> 4 \<and> length ip \<noteq> 16 then
        ''?'' @ concat (map (\<lambda>b. [hex_digit (unat b div 16), hex_digit (unat b mod 16)]) ip)
      else (case To4 ip of Some b \<Rightarrow> dotted b | None \<Rightarrow> v6string ip))"

section \<open>Host and port\<close>

text \<open>\<open>net.SplitHostPort\<close>; its errors differ only in their message, so they are \<open>None\<close>.\<close>

definition SplitHostPort :: "string \<Rightarrow> (string \<times> string) option" where
  "SplitHostPort hp =
     (case LastIndexByte hp (CHR '':'') of
        None \<Rightarrow> None
      | Some i \<Rightarrow>
          if hd hp = CHR ''['' then
            (case IndexByte hp (CHR '']'') of
               None \<Rightarrow> None
             | Some e \<Rightarrow>
                 if Suc e = length hp \<or> Suc e \<noteq> i then None
                 else if CHR ''['' \<in> set (drop 1 hp) \<or> CHR '']'' \<in> set (drop (Suc e) hp) then None
                 else Some (take (e - 1) (drop 1 hp), drop (Suc i) hp))
          else
            (let host = take i hp in
             if CHR '':'' \<in> set host \<or> CHR ''['' \<in> set hp \<or> CHR '']'' \<in> set hp then None
             else Some (host, drop (Suc i) hp)))"

lemmas net_defs [net_simps] =
  v4InV6Prefix_def To4_def IP_Equal_def parseIPv4_def is_hex_def hex_val_def
  parseIPv6Group_def parseIPv6Finish_def parseIPv6Body_def parseIPv6_def ParseAddr_def ParseIP_def
  CIDRMask_def IP_Mask_def dtoi_def ParseCIDR_def networkNumberAndMask_def IPNet_Contains_def
  SplitHostPort_def

text \<open>Numeral versions of the recursive definitions, for evaluation on literals.\<close>

lemma CIDRMask_bytes_numeral [net_simps]:
  "CIDRMask_bytes (numeral k) n =
     (if 8 \<le> n then 0xff # CIDRMask_bytes (pred_numeral k) (n - 8)
      else NOT (drop_bit n 0xff) # CIDRMask_bytes (pred_numeral k) 0)"
  by (simp add: numeral_eq_Suc)

lemma replicate_literal [net_simps]:
  "replicate (numeral k) x = x # replicate (pred_numeral k) x"
  by (simp add: numeral_eq_Suc)

lemmas net_eval = net_simps str_simps parseIPv6Loop.simps

end
