(* ===== verification/GoHttp.thy ===== *)
theory GoHttp
  imports GoNet
begin

text \<open>
  The part of Go's \<open>net/http\<close> the request-processing components use: a request as the
  handlers read it, header access, and the response a handler writes. Header names are
  compared without regard to case, as the canonical form of \<open>net/http\<close> does; \<open>Get\<close> of an
  absent header is the empty string.
\<close>

type_synonym header = "(string \<times> string) list"

definition Header_Get :: "header \<Rightarrow> string \<Rightarrow> string" where
  "Header_Get h name = (case find (\<lambda>(k, v). EqualFold k name) h of None \<Rightarrow> [] | Some (k, v) \<Rightarrow> v)"

definition Header_Set :: "header \<Rightarrow> string \<Rightarrow> string \<Rightarrow> header" where
  "Header_Set h name v = filter (\<lambda>(k, _). \<not> EqualFold k name) h @ [(name, v)]"

record http_request =
  rq_Method :: string
  rq_Path :: string
  rq_Host :: string
  rq_URLHost :: string
  rq_RemoteAddr :: string
  rq_TLS :: bool
  rq_Header :: header

record http_response =
  rs_Status :: nat
  rs_Header :: header
  rs_Body :: string

definition host_of :: "http_request \<Rightarrow> string" where
  "host_of r = (if rq_Host r = [] then rq_URLHost r else rq_Host r)"

text \<open>The first non-empty trimmed value among a list of headers.\<close>

fun first_header :: "header \<Rightarrow> string list \<Rightarrow> string option" where
  "first_header h [] = None"
| "first_header h (n # ns) =
     (let v = TrimSpace (Header_Get h n) in if v \<noteq> [] then Some v else first_header h ns)"

text \<open>\<open>net.SplitHostPort\<close> with the fall back every caller writes out: the whole string.\<close>

definition strip_port :: "string \<Rightarrow> string" where
  "strip_port hp = (case SplitHostPort hp of None \<Rightarrow> hp | Some (h, _) \<Rightarrow> h)"

section \<open>Facts\<close>

lemma EqualFold_refl [simp]: "EqualFold s s"
  by (simp add: EqualFold_def)

lemma EqualFold_trans: "EqualFold a b \<Longrightarrow> EqualFold a c \<longleftrightarrow> EqualFold b c"
  by (simp add: EqualFold_def)

lemma find_append_none: "find P xs = None \<Longrightarrow> find P (xs @ ys) = find P ys"
  by (induction xs) (auto split: if_splits)

lemma Header_Get_Set [simp]: "Header_Get (Header_Set h n v) n = v"
proof -
  have "find (\<lambda>(k, v). EqualFold k n) (filter (\<lambda>(k, _). \<not> EqualFold k n) h) = None"
    by (auto simp: find_None_iff)
  then show ?thesis
    by (simp add: Header_Get_def Header_Set_def find_append_none)
qed

lemma find_filter_imp:
  "(\<And>x. P x \<Longrightarrow> Q x) \<Longrightarrow> find P (filter Q xs) = find P xs"
  by (induction xs) auto

lemma find_append_last: "\<not> P y \<Longrightarrow> find P (xs @ [y]) = find P xs"
  by (induction xs) auto

lemma Header_Get_Set_other:
  assumes "\<not> EqualFold n m"
  shows "Header_Get (Header_Set h n v) m = Header_Get h m"
proof -
  have "find (\<lambda>(k, v). EqualFold k m) (filter (\<lambda>(k, _). \<not> EqualFold k n) h) =
        find (\<lambda>(k, v). EqualFold k m) h"
    by (rule find_filter_imp) (use assms in \<open>auto simp: EqualFold_def\<close>)
  then show ?thesis
    using assms by (simp add: Header_Get_def Header_Set_def find_append_last)
qed

lemma first_header_nonempty: "first_header h ns = Some v \<Longrightarrow> v \<noteq> []"
  by (induction ns) (auto simp: Let_def split: if_splits)

end
