(* ===== verification/Addresses.thy ===== *)
theory Addresses
  imports GoNet
begin

unbundle bit_operations_syntax

text \<open>
  Package \<open>iputil\<close> and the facts about addresses the other components rest on: the decimal
  form of an address (\<open>iputil.ToDecimal\<close>), what the parsers return, and the meaning of a
  CIDR network as the set of addresses that share a decimal prefix.
\<close>

section \<open>iputil/iputil.go\<close>

fun be_nat :: "u8 list \<Rightarrow> nat" where
  "be_nat [] = 0"
| "be_nat (b # bs) = unat b * 256 ^ length bs + be_nat bs"

text \<open>
  \<open>big.Int.SetBytes\<close> reads its argument as a big-endian unsigned number; \<open>ToDecimal\<close> reads
  the 4-byte form when there is one.
\<close>

definition ToDecimal :: "ip \<Rightarrow> nat" where
  "ToDecimal ip = (case To4 ip of Some to4 \<Rightarrow> be_nat to4 | None \<Rightarrow> be_nat ip)"

text \<open>
  \<open>LookupAddr\<close>: \<open>lookup\<close> is the resolver's answer for the printed address, an error or the
  list of names.
\<close>

definition LookupAddr :: "(string \<Rightarrow> 'e + string list) \<Rightarrow> ip \<Rightarrow> string \<times> 'e option" where
  "LookupAddr lookup ip =
     (case lookup (IP_String ip) of
        Inl e \<Rightarrow> ([], Some e)
      | Inr [] \<Rightarrow> ([], None)
      | Inr (n # _) \<Rightarrow> (TrimRightFunc (\<lambda>c. c = CHR ''.'') n, None))"

text \<open>The form of an address the comparisons use: 4 bytes when it has them.\<close>

definition canon :: "ip \<Rightarrow> ip" where
  "canon ip = (case To4 ip of Some b \<Rightarrow> b | None \<Rightarrow> ip)"

section \<open>Masks as decimal prefixes\<close>

lemma be_nat_less: "be_nat bs < 256 ^ length bs"
proof (induction bs)
  case Nil
  then show ?case by simp
next
  case (Cons b bs)
  have "unat b < 256" by (rule order_less_le_trans [OF unsigned_less]) simp
  then have "Suc (unat b) * 256 ^ length bs \<le> 256 * 256 ^ length bs"
    by (intro mult_le_mono1) simp
  with Cons have "unat b * 256 ^ length bs + be_nat bs < 256 * 256 ^ length bs"
    unfolding mult_Suc by linarith
  then show ?case by simp
qed

lemma and_not_mask_eq:
  fixes x y :: "'a::len word"
  shows "x AND NOT (mask k) = y AND NOT (mask k) \<longleftrightarrow> drop_bit k x = drop_bit k y" (is "?l = ?r")
proof
  assume l: ?l
  show ?r
  proof (rule bit_eqI)
    fix n
    have "bit (x AND NOT (mask k)) (k + n) = bit (y AND NOT (mask k)) (k + n)" using l by simp
    then show "bit (drop_bit k x) n = bit (drop_bit k y) n"
      by (auto simp: bit_simps dest: bit_imp_le_length)
  qed
next
  assume r: ?r
  show ?l
  proof (rule bit_eqI)
    fix n
    have "bit (drop_bit k x) (n - k) = bit (drop_bit k y) (n - k)" using r by simp
    then show "bit (x AND NOT (mask k)) n = bit (y AND NOT (mask k)) n"
      by (auto simp: bit_simps)
  qed
qed

lemma cidr_byte: "n < 8 \<Longrightarrow> (drop_bit n 0xff :: u8) = mask (8 - n)"
  by (simp add: less_Suc_eq numeral_eq_Suc) (elim disjE; simp add: mask_eq_exp_minus_1)

lemma byte_mask_eq:
  fixes x y :: u8
  assumes "n < 8"
  shows "x AND NOT (drop_bit n 0xff) = y AND NOT (drop_bit n 0xff) \<longleftrightarrow>
         unat x div 2 ^ (8 - n) = unat y div 2 ^ (8 - n)"
proof -
  have "x AND NOT (drop_bit n 0xff) = y AND NOT (drop_bit n 0xff) \<longleftrightarrow>
        drop_bit (8 - n) x = drop_bit (8 - n) y"
    by (simp only: cidr_byte [OF assms] and_not_mask_eq)
  also have "\<dots> \<longleftrightarrow> unat (drop_bit (8 - n) x) = unat (drop_bit (8 - n) y)"
    by (rule word_unat_eq_iff)
  finally show ?thesis by (simp only: unat_drop_bit_eq) (simp add: drop_bit_eq_div)
qed

lemma CIDRMask_bytes_0: "map2 (AND) xs (CIDRMask_bytes l 0) = replicate (min (length xs) l) 0"
proof (induction l arbitrary: xs)
  case (Suc l)
  have "a AND - 256 = 0" for a :: u8
  proof -
    have "(- 256 :: u8) = 0" by simp
    then show ?thesis by (metis and_zero_eq)
  qed
  with Suc show ?case by (cases xs) auto
qed simp

lemma pow_split: "(256::nat) ^ l = 2 ^ (8 * l)"
  by (simp add: power_mult)

lemma div_pow_head:
  assumes "t < (2::nat) ^ m"
  shows "(x * 2 ^ m + t) div 2 ^ (m + k) = x div 2 ^ k"
  using assms by (simp add: power_add div_mult2_eq)

lemma div_pow_tail:
  assumes "t < (2::nat) ^ m" "u < (2::nat) ^ m" "e \<le> m"
  shows "(x * 2 ^ m + t) div 2 ^ e = (y * 2 ^ m + u) div 2 ^ e \<longleftrightarrow> x = y \<and> t div 2 ^ e = u div 2 ^ e"
proof -
  obtain d where m: "m = e + d" using assms(3) le_Suc_ex by blast
  have eq: "(z * 2 ^ m + v) div 2 ^ e = z * 2 ^ d + v div 2 ^ e" for z v :: nat
    unfolding m by (simp add: power_add div_add1_eq mult.assoc mult.left_commute)
  have b: "t div 2 ^ e < 2 ^ d" "u div 2 ^ e < 2 ^ d"
    using assms unfolding m by (auto simp: power_add less_mult_imp_div_less mult.commute)
  show ?thesis unfolding eq
  proof
    assume h: "x * 2 ^ d + t div 2 ^ e = y * 2 ^ d + u div 2 ^ e"
    from h have "(x * 2 ^ d + t div 2 ^ e) div 2 ^ d = (y * 2 ^ d + u div 2 ^ e) div 2 ^ d" by simp
    with b have "x = y" by simp
    with h show "x = y \<and> t div 2 ^ e = u div 2 ^ e" by simp
  qed simp
qed

lemma mask_eq_div:
  assumes "length xs = l" "length ys = l" "n \<le> 8 * l"
  shows "map2 (AND) xs (CIDRMask_bytes l n) = map2 (AND) ys (CIDRMask_bytes l n) \<longleftrightarrow>
         be_nat xs div 2 ^ (8 * l - n) = be_nat ys div 2 ^ (8 * l - n)"
  using assms
proof (induction l arbitrary: n xs ys)
  case 0
  then show ?case by simp
next
  case (Suc l)
  obtain x xs' y ys' where xy: "xs = x # xs'" "ys = y # ys'" "length xs' = l" "length ys' = l"
    using Suc.prems by (cases xs; cases ys) auto
  have bx: "be_nat xs' < 2 ^ (8 * l)" "be_nat ys' < 2 ^ (8 * l)"
    using be_nat_less [of xs'] be_nat_less [of ys'] xy by (simp_all add: pow_split)
  show ?case
  proof (cases "8 \<le> n")
    case True
    then have e: "8 * Suc l - n = 8 * l - (n - 8)" by simp
    have ff: "z AND 0xff = z" for z :: u8
    proof -
      have "(0xff :: u8) = - 1" by simp
      then show ?thesis by (metis and.right_neutral)
    qed
    show ?thesis
      unfolding xy e using True Suc.IH [OF xy(3,4), of "n - 8"] Suc.prems(3) xy(3,4)
      by (simp add: ff pow_split div_pow_tail [OF bx] word_unat_eq_iff)
  next
    case False
    define k where "k = 8 - n"
    with False have e: "8 * Suc l - n = 8 * l + k" by simp
    have h: "x AND NOT (drop_bit n 0xff) = y AND NOT (drop_bit n 0xff) \<longleftrightarrow>
        unat x div 2 ^ k = unat y div 2 ^ k"
      using byte_mask_eq [of n x y] False by (simp add: k_def)
    show ?thesis
      unfolding xy e using False xy(3,4)
      by (simp add: h CIDRMask_bytes_0 pow_split div_pow_head [OF bx(1)] div_pow_head [OF bx(2)])
  qed
qed

lemma ToDecimal_canon: "ToDecimal ip = be_nat (canon ip)"
  by (simp add: ToDecimal_def canon_def split: option.splits)

lemma length_CIDRMask_bytes [simp]: "length (CIDRMask_bytes l n) = l"
  by (induction l arbitrary: n) auto

lemma drop_CIDRMask_bytes: "drop j (CIDRMask_bytes (j + l) k) = CIDRMask_bytes l (k - 8 * j)"
proof (induction j arbitrary: k)
  case 0
  then show ?case by simp
next
  case (Suc j)
  show ?case
  proof (cases "8 \<le> k")
    case True
    with Suc [of "k - 8"] show ?thesis by (simp add: algebra_simps)
  next
    case False
    with Suc [of 0] show ?thesis by simp
  qed
qed

lemma To4_length: "To4 ip = Some b \<Longrightarrow> length b = 4"
  by (auto simp: To4_def split: if_splits)

lemma IP_Mask_same:
  "length ip = length m \<Longrightarrow> length m = 4 \<or> length m = 16 \<Longrightarrow> IP_Mask ip m = Some (map2 (AND) ip m)"
  by (auto simp: IP_Mask_def)

lemma map2_and_mask_idem:
  fixes m :: "u8 list"
  shows "map2 (AND) (map2 (AND) xs m) m = map2 (AND) xs m"
proof (induction xs arbitrary: m)
  case (Cons x xs)
  then show ?case by (cases m) (auto simp: and.assoc)
qed simp


section \<open>What the parsers return\<close>

lemma parseIPv4Fields_length:
  "parseIPv4Fields v d fs s = Some r \<Longrightarrow> length fs \<le> 3 \<Longrightarrow> length r = 4"
  by (induction v d fs s rule: parseIPv4Fields.induct) (auto simp: Let_def split: if_splits)

lemma parseIPv4_length: "parseIPv4 s = Some r \<Longrightarrow> length r = 4"
  by (simp add: parseIPv4_def parseIPv4Fields_length)

definition v6inv :: "v6state \<Rightarrow> bool" where
  "v6inv st = (case st of (acc, ell, s) \<Rightarrow>
     even (length acc) \<and> length acc \<le> 16 \<and> (\<forall>e. ell = Some e \<longrightarrow> e \<le> length acc))"

lemma parseIPv6Group_inv:
  assumes "parseIPv6Group acc ell s = Some (go, st)" and "v6inv (acc, ell, s)" and "length acc < 16"
  shows "v6inv st"
proof -
  from assms(2,3) have "length acc \<le> 14" "even (length acc)"
    and up: "\<forall>e. ell = Some e \<longrightarrow> e \<le> length acc"
    by (auto simp: v6inv_def less_Suc_eq_le elim!: oddE evenE)
  with assms(1) show ?thesis
    by (auto simp: parseIPv6Group_def Let_def v6inv_def dest!: parseIPv4Fields_length
        split: if_splits option.splits list.splits)
qed

lemma parseIPv6Loop_inv:
  "parseIPv6Loop acc ell s = Some st \<Longrightarrow> v6inv (acc, ell, s) \<Longrightarrow> v6inv st"
proof (induction acc ell s rule: parseIPv6Loop.induct)
  case (1 acc ell s)
  then show ?case
    by (subst (asm) (2) parseIPv6Loop.simps)
       (auto split: if_splits option.splits prod.splits dest: parseIPv6Group_inv)
qed

lemma parseIPv6Finish_length:
  "parseIPv6Finish st = Some r \<Longrightarrow> v6inv st \<Longrightarrow> length r = 16"
  by (auto simp: parseIPv6Finish_def v6inv_def split: if_splits option.splits prod.splits)

lemma parseIPv6Body_length: "parseIPv6Body s = Some r \<Longrightarrow> length r = 16"
proof -
  have *: "length r = 16"
    if "Option.bind (parseIPv6Loop [] ell t) parseIPv6Finish = Some r" and "ell = None \<or> ell = Some 0"
    for ell t
  proof -
    from that obtain st where l: "parseIPv6Loop [] ell t = Some st"
      and f: "parseIPv6Finish st = Some r"
      by (auto simp: Option.bind_eq_Some_conv)
    from that(2) have "v6inv ([], ell, t)" by (auto simp: v6inv_def)
    with l have "v6inv st" by (rule parseIPv6Loop_inv)
    with f show ?thesis by (rule parseIPv6Finish_length)
  qed
  assume "parseIPv6Body s = Some r"
  then show ?thesis
    by (auto simp: parseIPv6Body_def dest: * split: if_splits)
qed

lemma ParseAddr_length:
  assumes "ParseAddr s = Some a"
  shows "length (As16 a) = 16 \<and> (\<forall>b. a = Addr4 b \<longrightarrow> length b = 4)"
  using assms
  by (auto simp: ParseAddr_def parseIPv6_def v4InV6Prefix_def Let_def
      dest!: parseIPv4_length parseIPv6Body_length split: list.splits if_splits option.splits)

lemma ParseIP_length: "ParseIP s = Some ip \<Longrightarrow> length ip = 16"
  by (auto simp: ParseIP_def dest!: ParseAddr_length split: option.splits if_splits)

section \<open>Networks as decimal prefixes\<close>

lemma ParseCIDR_shape:
  assumes "ParseCIDR s = Some n"
  obtains L k where "L = 32 \<or> L = 128" and "k \<le> L" and "net_Mask n = CIDRMask k L"
    and "8 * length (net_IP n) = L"
proof -
  from assms have "\<exists>i a k. ParseAddr (take i s) = Some a \<and> k \<le> BitLen a \<and>
      IP_Mask (As16 a) (CIDRMask k (BitLen a)) = Some (net_IP n) \<and> net_Mask n = CIDRMask k (BitLen a)"
    by (fastforce simp: ParseCIDR_def Let_def not_less split: option.splits if_splits prod.splits)
  then obtain i a k where a: "ParseAddr (take i s) = Some a" and k: "k \<le> BitLen a"
    and m: "IP_Mask (As16 a) (CIDRMask k (BitLen a)) = Some (net_IP n)"
    and nm: "net_Mask n = CIDRMask k (BitLen a)" by blast
  have "8 * length (net_IP n) = BitLen a"
  proof (cases a)
    case (Addr4 b)
    with ParseAddr_length [OF a] m show ?thesis
      by (auto simp: IP_Mask_def CIDRMask_def v4InV6Prefix_def dest!: arg_cong [where f = length]
          split: if_splits)
  next
    case (Addr6 b z)
    with ParseAddr_length [OF a] m show ?thesis
      by (auto simp: IP_Mask_def CIDRMask_def dest!: arg_cong [where f = length] split: if_splits)
  qed
  moreover have "BitLen a = 32 \<or> BitLen a = 128" by (cases a) auto
  ultimately show thesis using that k nm by blast
qed

text \<open>
  The decimal form of an address that the service reports agrees with the networks the access
  lists are written in: an address of a family belongs to a parsed network exactly when the
  decimal forms of the address and of the network address agree above the host bits.
\<close>

theorem network_is_decimal_prefix:
  assumes "ParseCIDR s = Some n"
  shows "\<exists>w k. (w = 32 \<or> w = 128) \<and> k \<le> w \<and>
    (\<forall>ip. length ip = 4 \<or> length ip = 16 \<longrightarrow>
       IPNet_Contains n ip =
         (8 * length (canon ip) = w \<and>
          ToDecimal ip div 2 ^ (w - k) = ToDecimal (net_IP n) div 2 ^ (w - k)))"
proof -
  obtain L k where L: "L = 32 \<or> L = 128" and k: "k \<le> L" and m: "net_Mask n = CIDRMask k L"
    and len: "8 * length (net_IP n) = L"
    using ParseCIDR_shape [OF assms] by blast
  have fit: "(8 * length (canon ip) = 8 * l \<and> map2 (AND) nn (CIDRMask_bytes l k') = map2 (AND) (canon ip) (CIDRMask_bytes l k'))
      \<longleftrightarrow> (8 * length (canon ip) = 8 * l \<and> ToDecimal ip div 2 ^ (8 * l - k') = be_nat nn div 2 ^ (8 * l - k'))"
    if "length nn = l" "k' \<le> 8 * l" for nn l k' ip
    using mask_eq_div [of nn l "canon ip" k'] that by (auto simp: ToDecimal_canon)
  consider (four) "L = 32" | (six) "L = 128" "To4 (net_IP n) = None"
    | (mapped) b where "L = 128" "To4 (net_IP n) = Some b"
    using L by (cases "To4 (net_IP n)") auto
  then show ?thesis
  proof cases
    case four
    with len have l4: "length (net_IP n) = 4" by simp
    then have t: "To4 (net_IP n) = Some (net_IP n)" by (simp add: To4_def)
    have "IPNet_Contains n ip = (8 * length (canon ip) = 32 \<and>
        ToDecimal ip div 2 ^ (32 - k) = ToDecimal (net_IP n) div 2 ^ (32 - k))" for ip
      using fit [OF l4, of k ip] k four l4 m t
      by (simp add: IPNet_Contains_def networkNumberAndMask_def CIDRMask_def ToDecimal_def canon_def)
    with k four show ?thesis by blast
  next
    case six
    with len have l16: "length (net_IP n) = 16" by simp
    have "IPNet_Contains n ip = (8 * length (canon ip) = 128 \<and>
        ToDecimal ip div 2 ^ (128 - k) = ToDecimal (net_IP n) div 2 ^ (128 - k))" for ip
      using fit [OF l16, of k ip] k six l16 m
      by (simp add: IPNet_Contains_def networkNumberAndMask_def CIDRMask_def ToDecimal_def canon_def)
    with k six show ?thesis by blast
  next
    case mapped
    with len have l16: "length (net_IP n) = 16" by simp
    have b4: "length b = 4" using mapped(2) by (rule To4_length)
    have d: "drop 12 (CIDRMask_bytes 16 k) = CIDRMask_bytes 4 (k - 96)"
      using drop_CIDRMask_bytes [of 12 4 k] by simp
    have k': "k - 96 \<le> 8 * 4" using k mapped by simp
    have "IPNet_Contains n ip = (8 * length (canon ip) = 32 \<and>
        ToDecimal ip div 2 ^ (32 - (k - 96)) = ToDecimal (net_IP n) div 2 ^ (32 - (k - 96)))" for ip
      using fit [OF b4 k', of ip] mapped b4 m d
      by (simp add: IPNet_Contains_def networkNumberAndMask_def CIDRMask_def ToDecimal_def canon_def)
    moreover have "k - 96 \<le> 32" using k' by simp
    ultimately show ?thesis by blast
  qed
qed

theorem network_is_decimal_prefix_witness:
  "\<exists>w k. (w = 32 \<or> w = 128) \<and> k \<le> w \<and>
    (\<forall>ip. length ip = 4 \<or> length ip = 16 \<longrightarrow>
       IPNet_Contains \<lparr>net_IP = [10, 0, 0, 0], net_Mask = [255, 0, 0, 0]\<rparr> ip =
         (8 * length (canon ip) = w \<and>
          ToDecimal ip div 2 ^ (w - k) = ToDecimal [10, 0, 0, 0] div 2 ^ (w - k)))"
  using network_is_decimal_prefix [of "''10.0.0.0/8''" "\<lparr>net_IP = [10, 0, 0, 0], net_Mask = [255, 0, 0, 0]\<rparr>"]
  by (simp add: net_eval)

section \<open>Printing and parsing IPv4\<close>

lemma u8_less [simp]: "unat (x :: u8) < 256"
  by (rule order_less_le_trans [OF unsigned_less]) simp

lemma parseIPv4Fields_Itoa:
  assumes "n < 256"
  shows "parseIPv4Fields 0 0 fs (Itoa n @ rest) = parseIPv4Fields n (length (Itoa n)) fs rest"
proof -
  consider "n < 10" | "10 \<le> n" "n < 100" | "100 \<le> n" "n < 256" using assms by linarith
  then show ?thesis
  proof cases
    case 1
    then show ?thesis by (simp add: Itoa.simps [of n])
  next
    case 2
    then have "n div 10 < 10" "0 < n div 10" by linarith+
    with 2 show ?thesis by (simp add: Itoa.simps [of n] Itoa.simps [of "n div 10"])
  next
    case 3
    then have d: "n div 10 div 10 < 10" "0 < n div 10 div 10" "\<not> n div 10 < 10" "\<not> 255 < n div 10" by linarith+
    have e: "n div 10 div 10 * 10 + n div 10 mod 10 = n div 10" "n div 10 * 10 + n mod 10 = n" by simp_all
    from 3 d show ?thesis
      by (simp add: Itoa.simps [of n] Itoa.simps [of "n div 10"] Itoa.simps [of "n div 10 div 10"]
          e Let_def del: div_mult2_eq)
  qed
qed

lemma not_digit_dot [simp]: "\<not> is_digit (CHR ''.'')"
  by (simp add: is_digit_def)

lemma parseIPv4_dotted:
  assumes "length b = 4"
  shows "parseIPv4 (dotted b) = Some b"
proof -
  from assms obtain w x y z where b: "b = [w, x, y, z]"
    by (auto simp: numeral_eq_Suc length_Suc_conv)
  show ?thesis
    using parseIPv4Fields_Itoa [of "unat z" "[w, x, y]" "[]"]
    by (simp add: b parseIPv4_def dotted_def parseIPv4Fields_Itoa)
qed

lemma dropWhile_Itoa:
  assumes "\<And>c. is_digit c \<Longrightarrow> P c"
  shows "dropWhile P (Itoa n @ rest) = dropWhile P rest"
  using assms by (intro dropWhile_append2) (auto dest: Itoa_digits)

lemma ParseAddr_dotted:
  assumes "length b = 4"
  shows "ParseAddr (dotted b) = Some (Addr4 b)"
proof -
  from assms obtain w x y z where b: "b = [w, x, y, z]"
    by (auto simp: numeral_eq_Suc length_Suc_conv)
  have "dropWhile (\<lambda>c. c \<noteq> CHR ''.'' \<and> c \<noteq> CHR '':'' \<and> c \<noteq> CHR ''%'') (dotted b) =
        ''.'' @ Itoa (unat x) @ ''.'' @ Itoa (unat y) @ ''.'' @ Itoa (unat z)"
    unfolding b dotted_def
    by (simp, subst dropWhile_Itoa) (auto simp: is_digit_def)
  then show ?thesis
    using parseIPv4_dotted [OF assms] by (simp add: ParseAddr_def)
qed

lemma ParseIP_dotted: "length b = 4 \<Longrightarrow> ParseIP (dotted b) = Some (v4InV6Prefix @ b)"
  by (simp add: ParseIP_def ParseAddr_dotted)

lemma dtoi_Itoa: "n < 0xFFFFFF \<Longrightarrow> dtoi (Itoa n) = Some (n, length (Itoa n))"
proof -
  have t: "takeWhile is_digit (Itoa n) = Itoa n"
    by (simp add: takeWhile_eq_all_conv Itoa_digits)
  assume "n < 0xFFFFFF"
  then show ?thesis unfolding dtoi_def Let_def t by simp
qed

lemma dotted_no_slash: "length b = 4 \<Longrightarrow> CHR ''/'' \<notin> set (dotted b)"
proof -
  assume "length b = 4"
  then obtain w x y z where b: "b = [w, x, y, z]"
    by (auto simp: numeral_eq_Suc length_Suc_conv)
  have "CHR ''/'' \<notin> set (Itoa n)" for n
    using Itoa_digits [of "CHR ''/''" n] by (auto simp: is_digit_def)
  then show ?thesis by (simp add: b dotted_def)
qed

lemma ParseCIDR_dotted:
  assumes "length b = 4" and "k \<le> 32"
  shows "ParseCIDR (dotted b @ ''/'' @ Itoa k) =
    Some \<lparr>net_IP = map2 (AND) b (CIDRMask k 32), net_Mask = CIDRMask k 32\<rparr>"
proof -
  have i: "IndexByte (dotted b @ CHR ''/'' # Itoa k) (CHR ''/'') = Some (length (dotted b))"
    using dotted_no_slash [OF assms(1)] by (rule IndexByte_append_notin)
  show ?thesis
    using assms by (simp add: ParseCIDR_def i ParseAddr_dotted dtoi_Itoa IP_Mask_def CIDRMask_def
        v4InV6Prefix_def Let_def)
qed
end
