(* ===== verification/Ranges.thy ===== *)
theory Ranges
  imports Addresses
begin

text \<open>
  The address ranges the sources write as CIDR strings, and what they denote: each literal is
  evaluated by the model of \<open>net.ParseCIDR\<close>, and membership is expressed by the address
  classes of package \<open>net\<close>. The trust decision, the public-address test and the private
  ranges of the access control all rest on these facts.
\<close>

section \<open>The literals\<close>

lemma parsed_ranges [net_simps]:
  "ParseCIDR ''10.0.0.0/8'' = Some \<lparr>net_IP = [10, 0, 0, 0], net_Mask = [255, 0, 0, 0]\<rparr>"
  "ParseCIDR ''172.16.0.0/12'' = Some \<lparr>net_IP = [172, 16, 0, 0], net_Mask = [255, 240, 0, 0]\<rparr>"
  "ParseCIDR ''192.168.0.0/16'' = Some \<lparr>net_IP = [192, 168, 0, 0], net_Mask = [255, 255, 0, 0]\<rparr>"
  "ParseCIDR ''100.64.0.0/10'' = Some \<lparr>net_IP = [100, 64, 0, 0], net_Mask = [255, 192, 0, 0]\<rparr>"
  "ParseCIDR ''169.254.0.0/16'' = Some \<lparr>net_IP = [169, 254, 0, 0], net_Mask = [255, 255, 0, 0]\<rparr>"
  "ParseCIDR ''127.0.0.0/8'' = Some \<lparr>net_IP = [127, 0, 0, 0], net_Mask = [255, 0, 0, 0]\<rparr>"
  "ParseCIDR ''fc00::/7'' = Some \<lparr>net_IP = [0xfc, 0, 0, 0, 0, 0, 0, 0, 0, 0, 0, 0, 0, 0, 0, 0],
     net_Mask = [0xfe, 0, 0, 0, 0, 0, 0, 0, 0, 0, 0, 0, 0, 0, 0, 0]\<rparr>"
  "ParseCIDR ''fe80::/10'' = Some \<lparr>net_IP = [0xfe, 0x80, 0, 0, 0, 0, 0, 0, 0, 0, 0, 0, 0, 0, 0, 0],
     net_Mask = [0xff, 0xc0, 0, 0, 0, 0, 0, 0, 0, 0, 0, 0, 0, 0, 0, 0]\<rparr>"
  "ParseCIDR ''::1/128'' = Some \<lparr>net_IP = [0, 0, 0, 0, 0, 0, 0, 0, 0, 0, 0, 0, 0, 0, 0, 1],
     net_Mask = [0xff, 0xff, 0xff, 0xff, 0xff, 0xff, 0xff, 0xff, 0xff, 0xff, 0xff, 0xff, 0xff, 0xff, 0xff, 0xff]\<rparr>"
  by (simp_all add: net_eval)

section \<open>Membership\<close>

lemma length4_ex: "length b = 4 \<longleftrightarrow> (\<exists>p q r s. b = [p, q, r, s])"
  by (auto simp: numeral_eq_Suc length_Suc_conv)

lemma To4_cases:
  obtains (v4) p q r s where "To4 ip = Some [p, q, r, s]"
  | (v6) "To4 ip = None" "length ip = 16"
  | (other) "To4 ip = None" "length ip \<noteq> 16" "length ip \<noteq> 4"
  by (metis To4_def To4_length length4_ex not_None_eq)

lemma length16_ex: "length (ip::u8 list) = 16 \<Longrightarrow> \<exists>a b c d e f g h i j k l m n p q.
    ip = [a, b, c, d, e, f, g, h, i, j, k, l, m, n, p, q]"
  by (auto simp: numeral_eq_Suc length_Suc_conv)

definition in_range :: "string \<Rightarrow> ip \<Rightarrow> bool" where
  "in_range cidr ip = (case ParseCIDR cidr of None \<Rightarrow> False | Some n \<Rightarrow> IPNet_Contains n ip)"

lemma in_range4:
  assumes "ParseCIDR cidr = Some \<lparr>net_IP = [a, b, c, d], net_Mask = [a', b', c', d']\<rparr>"
  shows "in_range cidr ip = (case To4 ip of
     Some x \<Rightarrow> x ! 0 AND a' = a AND a' \<and> x ! 1 AND b' = b AND b' \<and>
       x ! 2 AND c' = c AND c' \<and> x ! 3 AND d' = d AND d'
   | None \<Rightarrow> False)"
  by (cases ip rule: To4_cases)
     (auto simp: assms in_range_def IPNet_Contains_def networkNumberAndMask_def To4_def)

lemma in_range6:
  assumes "ParseCIDR cidr = Some \<lparr>net_IP = n, net_Mask = m\<rparr>"
    and "length n = 16" "take 12 n \<noteq> v4InV6Prefix" "length m = 16"
  shows "in_range cidr ip \<longleftrightarrow>
     To4 ip = None \<and> length ip = 16 \<and> list_all (\<lambda>i. ip ! i AND m ! i = n ! i AND m ! i) [0..<16]"
proof (cases ip rule: To4_cases)
  case v6
  have "map2 (AND) n m = map2 (AND) ip m \<longleftrightarrow> (\<forall>i<16. ip ! i AND m ! i = n ! i AND m ! i)"
    using assms v6 by (auto simp: list_eq_iff_nth_eq)
  then show ?thesis
    using assms v6
    by (auto simp: in_range_def IPNet_Contains_def networkNumberAndMask_def To4_def list_all_iff split: if_splits)
qed (use assms in \<open>auto simp: in_range_def IPNet_Contains_def networkNumberAndMask_def To4_def split: if_splits\<close>)

definition IsCGNAT :: "ip \<Rightarrow> bool" where
  "IsCGNAT ip = (case To4 ip of Some b \<Rightarrow> b ! 0 = 100 \<and> b ! 1 AND 192 = 64 | None \<Rightarrow> False)"

lemma and_255 [simp]: "(x::u8) AND 255 = x"
proof -
  have "(255::u8) = - 1" by simp
  then show ?thesis by (simp only: and.right_neutral)
qed

lemma and_m256 [simp]: "(x::u8) AND - 256 = 0"
proof -
  have "(- 256 :: u8) = 0" by simp
  then show ?thesis by (metis and_zero_eq)
qed

lemma in_v4_ranges:
  "in_range ''10.0.0.0/8'' ip = (case To4 ip of Some b \<Rightarrow> b ! 0 = 10 | None \<Rightarrow> False)"
  "in_range ''172.16.0.0/12'' ip = (case To4 ip of Some b \<Rightarrow> b ! 0 = 172 \<and> b ! 1 AND 0xf0 = 16 | None \<Rightarrow> False)"
  "in_range ''192.168.0.0/16'' ip = (case To4 ip of Some b \<Rightarrow> b ! 0 = 192 \<and> b ! 1 = 168 | None \<Rightarrow> False)"
  "in_range ''169.254.0.0/16'' ip = (case To4 ip of Some b \<Rightarrow> b ! 0 = 169 \<and> b ! 1 = 254 | None \<Rightarrow> False)"
  "in_range ''127.0.0.0/8'' ip = (case To4 ip of Some b \<Rightarrow> b ! 0 = 127 | None \<Rightarrow> False)"
  "in_range ''100.64.0.0/10'' ip = IsCGNAT ip"
  by (simp_all add: parsed_ranges(1-6) [THEN in_range4] IsCGNAT_def split: option.split)

lemma upt16: "[0..<16] = [0, 1, 2, 3, 4, 5, 6, 7, 8, 9, 10, 11, 12, 13, 14, 15::nat]"
  by (simp add: upt_rec)

lemma in_v6_ranges:
  "in_range ''fc00::/7'' ip \<longleftrightarrow> To4 ip = None \<and> length ip = 16 \<and> ip ! 0 AND 0xfe = 0xfc"
  "in_range ''fe80::/10'' ip \<longleftrightarrow> To4 ip = None \<and> length ip = 16 \<and> ip ! 0 = 0xfe \<and> ip ! 1 AND 0xc0 = 0x80"
  "in_range ''::1/128'' ip \<longleftrightarrow> To4 ip = None \<and> length ip = 16 \<and>
     list_all (\<lambda>i. ip ! i = (replicate 15 0 @ [1]) ! i) [0..<16]"
  by (simp_all add: parsed_ranges(7-9) [THEN in_range6] v4InV6Prefix_def upt16 replicate_literal)

lemma list_all_nth: "length ip = 16 \<and> list_all (\<lambda>i. ip ! i = xs ! i) [0..<16] \<longleftrightarrow> length ip = 16 \<and> take 16 xs = ip"
  if "16 \<le> length xs"
  using that by (auto simp: list_all_iff list_eq_iff_nth_eq)

lemma in_loopback6: "in_range ''::1/128'' ip \<longleftrightarrow> To4 ip = None \<and> ip = replicate 15 0 @ [1]"
  by (auto simp: in_v6_ranges(3) list_all_nth)

lemma in_loopback: "in_range ''127.0.0.0/8'' ip \<or> in_range ''::1/128'' ip \<longleftrightarrow> IsLoopback ip"
  by (cases ip rule: To4_cases) (auto simp: in_v4_ranges in_loopback6 IsLoopback_def)

lemma in_private:
  "in_range ''10.0.0.0/8'' ip \<or> in_range ''172.16.0.0/12'' ip \<or> in_range ''192.168.0.0/16'' ip \<or>
   in_range ''fc00::/7'' ip \<longleftrightarrow> IsPrivate ip"
  by (cases ip rule: To4_cases) (auto simp: in_v4_ranges in_v6_ranges IsPrivate_def)

lemma in_linklocal:
  "in_range ''169.254.0.0/16'' ip \<or> in_range ''fe80::/10'' ip \<longleftrightarrow> IsLinkLocalUnicast ip"
  by (cases ip rule: To4_cases) (auto simp: in_v4_ranges in_v6_ranges IsLinkLocalUnicast_def)

end
