(* ===== verification/Fqdn.thy ===== *)
theory Fqdn
  imports GoHttp Ranges
begin

text \<open>
  Files \<open>netutil/fqdn.go\<close> and \<open>netutil/network.go\<close>: which name or address the server shows
  for itself. The environment variables, host name, interfaces and resolver of the machine
  are a record; the public-suffix list (a third-party package) is a parameter.
\<close>

section \<open>The machine\<close>

text \<open>
  An interface: whether it is up, whether it is the loopback, and its addresses, \<open>None\<close>
  when they cannot be listed. An address is \<open>None\<close> when it is not an IP address.
\<close>

record iface =
  if_Up :: bool
  if_Loopback :: bool
  if_Addrs :: "ip option list option"

record machine =
  m_Getenv :: "string \<Rightarrow> string"
  m_Hostname :: "string option"
  m_Interfaces :: "iface list option"
  m_LookupHost :: "string \<Rightarrow> string list option"
  m_LookupAddr :: "string \<Rightarrow> string list option"
  m_DialUDP :: "string \<Rightarrow> ip option"

section \<open>Public addresses\<close>

definition privateRanges :: "string list" where
  "privateRanges =
     [''10.0.0.0/8'', ''172.16.0.0/12'', ''192.168.0.0/16'', ''100.64.0.0/10'', ''169.254.0.0/16'',
      ''fc00::/7'', ''fe80::/10'', ''::1/128'', ''127.0.0.0/8'']"

definition isPublicIP :: "ip \<Rightarrow> bool" where
  "isPublicIP ip \<longleftrightarrow> \<not> list_ex (\<lambda>cidr. case ParseCIDR cidr of
     None \<Rightarrow> False | Some network \<Rightarrow> IPNet_Contains network ip) privateRanges"

fun first_global :: "(ip \<Rightarrow> bool) \<Rightarrow> ip option list \<Rightarrow> string" where
  "first_global skip [] = []"
| "first_global skip (None # as) = first_global skip as"
| "first_global skip (Some ip # as) =
     (if skip ip then first_global skip as
      else if IsGlobalUnicast ip \<and> isPublicIP ip then IP_String ip
      else first_global skip as)"

text \<open>
  The loop over the interfaces. The address printer never gives the empty string, so an
  empty result of the inner loop means that it went through.
\<close>

fun global_addr :: "(ip \<Rightarrow> bool) \<Rightarrow> iface list \<Rightarrow> string" where
  "global_addr skip [] = []"
| "global_addr skip (i # is) =
     (if \<not> if_Up i \<or> if_Loopback i then global_addr skip is
      else case if_Addrs i of
        None \<Rightarrow> global_addr skip is
      | Some as \<Rightarrow> (let s = first_global skip as in if s \<noteq> [] then s else global_addr skip is))"

definition getGlobalIPv6 :: "machine \<Rightarrow> string" where
  "getGlobalIPv6 m = (case m_Interfaces m of None \<Rightarrow> []
     | Some is \<Rightarrow> global_addr (\<lambda>ip. To4 ip \<noteq> None) is)"

definition getGlobalIPv4 :: "machine \<Rightarrow> string" where
  "getGlobalIPv4 m = (case m_Interfaces m of None \<Rightarrow> []
     | Some is \<Rightarrow> global_addr (\<lambda>ip. To4 ip = None) is)"

section \<open>The name of the server\<close>

definition isLoopback :: "string \<Rightarrow> bool" where
  "isLoopback host = (if ToLower host = ''localhost'' then True
     else case ParseIP host of Some ip \<Rightarrow> IsLoopback ip | None \<Rightarrow> False)"

text \<open>The first entry of a comma-separated list, unless the comma comes first.\<close>

definition first_of_list :: "string \<Rightarrow> string" where
  "first_of_list s = (case IndexByte s (CHR '','') of
      Some idx \<Rightarrow> if 0 < idx then TrimSpace (take idx s) else TrimSpace s
    | None \<Rightarrow> TrimSpace s)"

definition getFQDN :: "machine \<Rightarrow> string" where
  "getFQDN m =
     (if m_Getenv m ''DOMAIN'' \<noteq> [] then first_of_list (m_Getenv m ''DOMAIN'')
      else case m_Hostname m of
        Some hostname \<Rightarrow>
          if hostname \<noteq> [] \<and> \<not> isLoopback hostname then hostname
          else (let h = m_Getenv m ''HOSTNAME'' in
            if h \<noteq> [] \<and> \<not> isLoopback h then h
            else if getGlobalIPv6 m \<noteq> [] then getGlobalIPv6 m
            else if getGlobalIPv4 m \<noteq> [] then getGlobalIPv4 m
            else ''localhost'')
      | None \<Rightarrow> (let h = m_Getenv m ''HOSTNAME'' in
            if h \<noteq> [] \<and> \<not> isLoopback h then h
            else if getGlobalIPv6 m \<noteq> [] then getGlobalIPv6 m
            else if getGlobalIPv4 m \<noteq> [] then getGlobalIPv4 m
            else ''localhost''))"

fun host_headers :: "header \<Rightarrow> string list \<Rightarrow> string option" where
  "host_headers h [] = None"
| "host_headers h (n # ns) =
     (let val = Header_Get h n in
      if val \<noteq> [] then
        (let host = TrimSpace (hd (SplitByte val (CHR '',''))) in
         if host \<noteq> [] then Some (strip_port host) else host_headers h ns)
      else host_headers h ns)"

definition getHostFromRequest :: "http_request \<Rightarrow> string" where
  "getHostFromRequest r =
     (case host_headers (rq_Header r) [''X-Forwarded-Host'', ''X-Real-Host'', ''X-Original-Host''] of
        Some h \<Rightarrow> h | None \<Rightarrow> strip_port (host_of r))"

definition add_domain :: "string \<Rightarrow> string list \<Rightarrow> string list" where
  "add_domain d ds = (if d = [] \<or> d = ''localhost'' then ds
     else if d \<notin> set ds then ds @ [d] else ds)"

definition getServerDomains :: "machine \<Rightarrow> string list" where
  "getServerDomains m =
     (let d1 = add_domain (getFQDN m) [];
          d2 = (case m_Hostname m of Some h \<Rightarrow> add_domain h d1 | None \<Rightarrow> d1);
          ip4 = getGlobalIPv4 m;
          d3 = (if ip4 \<noteq> [] then
                  (let e = add_domain ip4 d2 in
                   case m_LookupAddr m ip4 of
                     Some names \<Rightarrow> fold (\<lambda>n. add_domain (TrimSuffix n ''.'')) names e
                   | None \<Rightarrow> e)
                else d2);
          d4 = (if getGlobalIPv6 m \<noteq> [] then add_domain (getGlobalIPv6 m) d3 else d3)
      in if d4 = [] then [''localhost''] else d4)"

definition getAllDomains :: "machine \<Rightarrow> string list" where
  "getAllDomains m =
     (let domain = m_Getenv m ''DOMAIN'';
          domains = filter (\<lambda>d. d \<noteq> []) (map TrimSpace (SplitByte domain (CHR '','')))
      in if domain \<noteq> [] \<and> domains \<noteq> [] then domains else getServerDomains m)"

definition extractBaseDomain :: "(string \<Rightarrow> string option) \<Rightarrow> string \<Rightarrow> string" where
  "extractBaseDomain etld1 fqdn =
     (let f = TrimSuffix fqdn ''.'' in
      if ParseIP f \<noteq> None then [] else case etld1 f of None \<Rightarrow> [] | Some base \<Rightarrow> base)"

definition getWildcardDomain :: "(string \<Rightarrow> string option) \<Rightarrow> string \<Rightarrow> string" where
  "getWildcardDomain etld1 fqdn =
     (let base = extractBaseDomain etld1 fqdn in if base = [] then [] else ''*.'' @ base)"

definition getWildcardDomainFromEnv :: "(string \<Rightarrow> string option) \<Rightarrow> machine \<Rightarrow> string" where
  "getWildcardDomainFromEnv etld1 m =
     (let domains = getAllDomains m in
      if length domains < 2 then []
      else let base = extractBaseDomain etld1 (hd domains) in
        if list_ex (\<lambda>d. extractBaseDomain etld1 d \<noteq> base) (tl domains) then [] else ''*.'' @ base)"

section \<open>Display URLs\<close>

definition devOnlyTLDs :: "string list" where
  "devOnlyTLDs = [''local'', ''test'', ''example'', ''invalid'', ''localhost'', ''lan'', ''internal'',
     ''home'', ''localdomain'', ''home.arpa'', ''intranet'', ''corp'', ''private'']"

definition IsDevTLD :: "string \<Rightarrow> string \<Rightarrow> bool" where
  "IsDevTLD host projectName =
     (let lower = ToLower (TrimSpace host); pn = ToLower projectName in
      if lower = [] then False
      else if projectName \<noteq> [] \<and> (lower = pn \<or> HasSuffix lower (''.'' @ pn)) then True
      else list_ex (\<lambda>tld. lower = tld \<or> HasSuffix lower (''.'' @ tld)) devOnlyTLDs)"

definition formatURL :: "string \<Rightarrow> string \<Rightarrow> string \<Rightarrow> string" where
  "formatURL scheme host port =
     (if port = [] \<or> port = ''0'' then scheme @ ''://'' @ host
      else if (scheme = ''http'' \<and> port = ''80'') \<or> (scheme = ''https'' \<and> port = ''443'')
      then scheme @ ''://'' @ host
      else scheme @ ''://'' @ host @ '':'' @ port)"

definition GetDisplayURL :: "machine \<Rightarrow> string \<Rightarrow> string \<Rightarrow> bool \<Rightarrow> string" where
  "GetDisplayURL m projectName port sslEnabled =
     (let scheme = (if sslEnabled then ''https'' else ''http''); fqdn = getFQDN m in
      if \<not> IsDevTLD fqdn projectName \<and> \<not> isLoopback fqdn then formatURL scheme fqdn port
      else if getGlobalIPv6 m \<noteq> [] then formatURL scheme (''['' @ getGlobalIPv6 m @ '']'') port
      else if getGlobalIPv4 m \<noteq> [] then formatURL scheme (getGlobalIPv4 m) port
      else formatURL scheme fqdn port)"

section \<open>Accessible URL, gateway and public address\<close>

definition formatURLWithIP :: "string \<Rightarrow> string \<Rightarrow> string" where
  "formatURLWithIP ip port = (if Contains ip '':'' then ''http://['' @ ip @ '']:'' @ port
     else ''http://'' @ ip @ '':'' @ port)"

definition formatURLWithHost :: "string \<Rightarrow> string \<Rightarrow> string" where
  "formatURLWithHost hostname port = ''http://'' @ hostname @ '':'' @ port"

definition getOutboundIP :: "machine \<Rightarrow> string" where
  "getOutboundIP m = (case m_DialUDP m ''8.8.8.8:80'' of Some ip \<Rightarrow> IP_String ip
     | None \<Rightarrow> (case m_DialUDP m ''[2001:4860:4860::8888]:80'' of
         Some ip \<Rightarrow> IP_String ip | None \<Rightarrow> []))"

text \<open>A failing \<open>os.Hostname\<close> gives the empty name.\<close>

definition getAccessibleURL :: "machine \<Rightarrow> string \<Rightarrow> string" where
  "getAccessibleURL m port =
     (let hostname = (case m_Hostname m of Some h \<Rightarrow> h | None \<Rightarrow> []);
          named = hostname \<noteq> [] \<and> hostname \<noteq> ''localhost'' in
      if named \<and> (case m_LookupHost m hostname of Some as \<Rightarrow> as \<noteq> [] | None \<Rightarrow> False)
      then formatURLWithHost hostname port
      else if getOutboundIP m \<noteq> [] then formatURLWithIP (getOutboundIP m) port
      else if named then formatURLWithHost hostname port
      else ''http://<your-host>:'' @ port)"

definition hex_byte :: "string \<Rightarrow> u8 option" where
  "hex_byte s = (if s \<noteq> [] \<and> list_all is_hex s then Some (of_nat (hex_num 0 s)) else None)"

text \<open>One eight-digit gateway column of \<open>/proc/net/route\<close>, least significant byte first.\<close>

definition gateway_bytes :: "string \<Rightarrow> ip option" where
  "gateway_bytes g =
     (case (hex_byte (take 2 g), hex_byte (take 2 (drop 2 g)),
            hex_byte (take 2 (drop 4 g)), hex_byte (take 2 (drop 6 g))) of
        (Some a, Some b, Some c, Some d) \<Rightarrow> Some [d, c, b, a]
      | _ \<Rightarrow> None)"

fun gateway_lines :: "string list \<Rightarrow> string" where
  "gateway_lines [] = []"
| "gateway_lines (line # lines) =
     (let fields = Fields line in
      if length fields < 3 \<or> fields ! 1 \<noteq> ''00000000'' then gateway_lines lines
      else if length (fields ! 2) \<noteq> 8 then gateway_lines lines
      else case gateway_bytes (fields ! 2) of
        None \<Rightarrow> []
      | Some b \<Rightarrow> IP_String (v4InV6Prefix @ b))"

definition DefaultGatewayIP :: "string \<Rightarrow> string option \<Rightarrow> string" where
  "DefaultGatewayIP goos route =
     (if goos \<noteq> ''linux'' then []
      else case route of None \<Rightarrow> []
        | Some data \<Rightarrow> gateway_lines (SplitByte data (CHR 0x0A)))"

definition publicIPSources :: "string list" where
  "publicIPSources = [''https://api4.ipify.org'', ''https://api.ipify.org'',
     ''https://ifconfig.me/ip'', ''https://checkip.amazonaws.com'']"

datatype public_ip_error = GetFailed string | BadStatus string nat | InvalidIP string string

text \<open>A response is a status and the body, \<open>None\<close> when reading the body fails.\<close>

fun fetch_public ::
  "(string \<Rightarrow> (nat \<times> string option) option) \<Rightarrow> string list \<Rightarrow> public_ip_error option \<Rightarrow>
   public_ip_error option + string" where
  "fetch_public http [] lastErr = Inl lastErr"
| "fetch_public http (src # srcs) lastErr =
     (case http src of
        None \<Rightarrow> fetch_public http srcs (Some (GetFailed src))
      | Some (status, body) \<Rightarrow>
          (case body of
             None \<Rightarrow> fetch_public http srcs (Some (BadStatus src status))
           | Some b \<Rightarrow>
               if status \<noteq> 200 then fetch_public http srcs (Some (BadStatus src status))
               else let ip = TrimSpace (take 64 b) in
                 if ParseIP ip \<noteq> None then Inr ip
                 else fetch_public http srcs (Some (InvalidIP src ip))))"

definition FetchPublicIP ::
  "(string \<Rightarrow> (nat \<times> string option) option) \<Rightarrow> public_ip_error option + string" where
  "FetchPublicIP http = fetch_public http publicIPSources None"

definition isIPv6 :: "ip \<Rightarrow> bool" where
  "isIPv6 ip \<longleftrightarrow> To4 ip = None"

definition parseIP :: "string \<Rightarrow> ip option" where
  "parseIP ipStr = ParseIP (Trim ipStr ''[]'')"

section \<open>Facts\<close>

text \<open>
  The nine CIDR literals of the public-address test denote exactly the loopback, private,
  link-local and shared (100.64.0.0/10) address classes, in both address families and for
  IPv4-mapped IPv6 addresses.
\<close>

theorem isPublicIP_iff:
  "isPublicIP ip \<longleftrightarrow>
     \<not> (IsLoopback ip \<or> IsPrivate ip \<or> IsLinkLocalUnicast ip \<or> IsCGNAT ip)"
proof -
  have "isPublicIP ip \<longleftrightarrow> \<not> list_ex (\<lambda>cidr. in_range cidr ip) privateRanges"
    by (simp add: isPublicIP_def in_range_def)
  then show ?thesis
    unfolding in_loopback [symmetric] in_private [symmetric] in_linklocal [symmetric]
      in_v4_ranges(6) [symmetric]
    by (simp add: privateRanges_def) blast
qed

text \<open>The documentation range 192.0.2.0/24 passes the test.\<close>

lemma isPublicIP_documentation: "isPublicIP [192, 0, 2, 1]"
  by (simp add: isPublicIP_def privateRanges_def parsed_ranges IPNet_Contains_def
      networkNumberAndMask_def To4_def v4InV6Prefix_def)

lemma first_global_some:
  "first_global skip as \<noteq> [] \<Longrightarrow>
   \<exists>ip. Some ip \<in> set as \<and> first_global skip as = IP_String ip \<and> \<not> skip ip \<and> IsGlobalUnicast ip \<and> isPublicIP ip"
  by (induction skip as rule: first_global.induct) (auto split: if_splits)

text \<open>The addresses of the interfaces that are up and not the loopback.\<close>

definition offered :: "iface list \<Rightarrow> ip \<Rightarrow> bool" where
  "offered is ip \<longleftrightarrow> list_ex (\<lambda>i. if_Up i \<and> \<not> if_Loopback i \<and>
     (case if_Addrs i of Some as \<Rightarrow> Some ip \<in> set as | None \<Rightarrow> False)) is"

lemma offered_Cons:
  "offered (i # is) ip \<longleftrightarrow> (if_Up i \<and> \<not> if_Loopback i \<and>
     (case if_Addrs i of Some as \<Rightarrow> Some ip \<in> set as | None \<Rightarrow> False)) \<or> offered is ip"
  by (simp add: offered_def)

lemma global_addr_some:
  "global_addr skip is \<noteq> [] \<Longrightarrow>
   \<exists>ip. offered is ip \<and> global_addr skip is = IP_String ip \<and> \<not> skip ip \<and> IsGlobalUnicast ip \<and> isPublicIP ip"
proof (induction "is")
  case Nil
  then show ?case by simp
next
  case (Cons i "is")
  show ?case
  proof (cases "if_Up i \<and> \<not> if_Loopback i \<and> (\<exists>as. if_Addrs i = Some as \<and> first_global skip as \<noteq> [])")
    case True
    then obtain as where as: "if_Addrs i = Some as" "first_global skip as \<noteq> []" by blast
    with True first_global_some [OF as(2)] show ?thesis
      by (auto simp: offered_Cons Let_def)
  next
    case False
    then have "global_addr skip (i # is) = global_addr skip is"
      by (auto simp: Let_def split: option.splits)
    with Cons show ?thesis by (auto simp: offered_Cons)
  qed
qed

text \<open>
  An address the server advertises as its global IPv4 address belongs to an interface that
  is up and not the loopback, is an IPv4 address, and is a routable unicast address outside
  every private range.
\<close>

theorem getGlobalIPv4_public:
  "getGlobalIPv4 m = [] \<or>
   (\<exists>is ip. m_Interfaces m = Some is \<and> offered is ip \<and> getGlobalIPv4 m = IP_String ip \<and>
      To4 ip \<noteq> None \<and> IsGlobalUnicast ip \<and> isPublicIP ip)"
  using global_addr_some [of "\<lambda>ip. To4 ip = None"]
  by (auto simp: getGlobalIPv4_def split: option.splits)

definition domains_ok :: "string list \<Rightarrow> bool" where
  "domains_ok ds \<longleftrightarrow> distinct ds \<and> [] \<notin> set ds \<and> ''localhost'' \<notin> set ds"

lemma add_domain_ok: "domains_ok ds \<Longrightarrow> domains_ok (add_domain d ds)"
  by (auto simp: domains_ok_def add_domain_def)

lemma fold_add_domain_ok: "domains_ok ds \<Longrightarrow> domains_ok (fold (\<lambda>n. add_domain (f n)) ns ds)"
  by (induction ns arbitrary: ds) (auto intro: add_domain_ok)

text \<open>
  The list of the server's own domains is never empty, has no repetition and no empty
  name; \<open>localhost\<close> appears only when nothing else is known.
\<close>

theorem getServerDomains_ok:
  "getServerDomains m = [''localhost''] \<or>
   (getServerDomains m \<noteq> [] \<and> distinct (getServerDomains m) \<and> [] \<notin> set (getServerDomains m) \<and>
    ''localhost'' \<notin> set (getServerDomains m))"
proof -
  have "domains_ok []" by (simp add: domains_ok_def)
  then show ?thesis
    unfolding getServerDomains_def Let_def domains_ok_def [symmetric]
    by (simp add: add_domain_ok fold_add_domain_ok split: option.split)
qed

end
