(* ===== verification/Trust.thy ===== *)
theory Trust
  imports Fqdn
begin

text \<open>
  Files \<open>netutil/trust.go\<close> and \<open>netutil/proxy.go\<close>: which peers count as reverse proxies, and
  what is read from a request on their word (client address, scheme, port, host). A nil
  resolver is \<open>None\<close>; \<open>net.LookupHost\<close> is a parameter.
\<close>

section \<open>The resolver\<close>

record TrustResolver =
  listenCIDR :: "IPNet option"
  additional :: "string list"
  dnsCache :: "string \<Rightarrow> ip list option"
  OnionAddress :: string
  I2PAddress :: string

type_synonym dns = "string \<Rightarrow> string list option"

definition refreshDNS_entry :: "dns \<Rightarrow> string \<Rightarrow> (string \<Rightarrow> ip list option) \<Rightarrow> (string \<Rightarrow> ip list option)" where
  "refreshDNS_entry lookup entry fresh =
     (if ParseIP entry \<noteq> None then fresh
      else if ParseCIDR entry \<noteq> None then fresh
      else case lookup entry of
        None \<Rightarrow> fresh
      | Some addrs \<Rightarrow>
          (let ips = List.map_filter ParseIP addrs in
           if ips \<noteq> [] then fresh(entry \<mapsto> ips) else fresh))"

definition refreshDNS :: "dns \<Rightarrow> TrustResolver \<Rightarrow> TrustResolver" where
  "refreshDNS lookup tr =
     tr\<lparr>dnsCache := fold (refreshDNS_entry lookup) (additional tr) Map.empty\<rparr>"

definition listen_cidr :: "string \<Rightarrow> IPNet option" where
  "listen_cidr listenAddr =
     (if listenAddr \<noteq> [] \<and> listenAddr \<noteq> ''0.0.0.0'' \<and> listenAddr \<noteq> ''::'' \<and> listenAddr \<noteq> ''[::]'' then
        (case ParseIP listenAddr of
           None \<Rightarrow> None
         | Some ip \<Rightarrow>
             (case To4 ip of
                Some ip4 \<Rightarrow>
                  (let masked = (case IP_Mask ip4 (CIDRMask 24 32) of Some m \<Rightarrow> m | None \<Rightarrow> [])
                   in ParseCIDR (IP_String masked @ ''/24''))
              | None \<Rightarrow>
                  (let masked = (case IP_Mask ip (CIDRMask 64 128) of Some m \<Rightarrow> m | None \<Rightarrow> [])
                   in ParseCIDR (IP_String masked @ ''/64''))))
      else None)"

definition NewTrustResolver :: "dns \<Rightarrow> string list \<Rightarrow> string \<Rightarrow> TrustResolver" where
  "NewTrustResolver lookup cfgAdditional listenAddr =
     refreshDNS lookup
       \<lparr>listenCIDR = listen_cidr listenAddr, additional = cfgAdditional, dnsCache = Map.empty,
        OnionAddress = [], I2PAddress = []\<rparr>"

definition alwaysTrusted :: "string list" where
  "alwaysTrusted = [''127.0.0.0/8'', ''::1/128'', ''10.0.0.0/8'', ''172.16.0.0/12'',
     ''192.168.0.0/16'', ''fc00::/7'', ''169.254.0.0/16'', ''fe80::/10'']"

definition alwaysTrustedCIDRs :: "IPNet list" where
  "alwaysTrustedCIDRs = List.map_filter ParseCIDR alwaysTrusted"

definition entry_trusts :: "(string \<Rightarrow> ip list option) \<Rightarrow> ip \<Rightarrow> string \<Rightarrow> bool" where
  "entry_trusts cache ip entry =
     (case ParseCIDR entry of
        Some network \<Rightarrow> IPNet_Contains network ip
      | None \<Rightarrow>
          (case ParseIP entry of
             Some entryIP \<Rightarrow> IP_Equal entryIP ip
           | None \<Rightarrow> (case cache entry of
                Some resolved \<Rightarrow> list_ex (\<lambda>a. IP_Equal a ip) resolved
              | None \<Rightarrow> False)))"

definition IsTrustedPeer :: "TrustResolver option \<Rightarrow> http_request \<Rightarrow> bool" where
  "IsTrustedPeer tro r =
     (case ParseIP (strip_port (rq_RemoteAddr r)) of
        None \<Rightarrow> False
      | Some ip \<Rightarrow>
          if list_ex (\<lambda>n. IPNet_Contains n ip) alwaysTrustedCIDRs then True
          else case tro of
            None \<Rightarrow> False
          | Some tr \<Rightarrow>
              if (case listenCIDR tr of Some n \<Rightarrow> IPNet_Contains n ip | None \<Rightarrow> False) then True
              else list_ex (entry_trusts (dnsCache tr) ip) (additional tr))"

section \<open>Scheme, port and path prefix\<close>

definition getProto :: "http_request \<Rightarrow> bool \<Rightarrow> string" where
  "getProto r trusted =
     (let h = Header_Get (rq_Header r); tls = (if rq_TLS r then ''https'' else ''http'') in
      if trusted then
        (if h ''X-Forwarded-Proto'' \<noteq> [] then ToLower (h ''X-Forwarded-Proto'')
         else if ToLower (h ''X-Forwarded-Ssl'') = ''on'' then ''https''
         else if h ''X-Url-Scheme'' \<noteq> [] then ToLower (h ''X-Url-Scheme'')
         else tls)
      else tls)"

definition host_port :: "http_request \<Rightarrow> string" where
  "host_port r = (case SplitHostPort (host_of r) of
      Some (_, port) \<Rightarrow> if port \<noteq> ''80'' \<and> port \<noteq> ''443'' then port else []
    | None \<Rightarrow> [])"

definition getPort :: "http_request \<Rightarrow> bool \<Rightarrow> string" where
  "getPort r trusted =
     (let v = TrimSpace (Header_Get (rq_Header r) ''X-Forwarded-Port'') in
      if trusted \<and> v \<noteq> [] then (if v \<noteq> ''80'' \<and> v \<noteq> ''443'' then v else [])
      else host_port r)"

definition getBaseURLPath :: "http_request \<Rightarrow> bool \<Rightarrow> string" where
  "getBaseURLPath r trusted =
     (if trusted then
        (case first_header (rq_Header r) [''X-Forwarded-Prefix'', ''X-Forwarded-Path'', ''X-Script-Name''] of
           Some v \<Rightarrow> v | None \<Rightarrow> ''/'')
      else ''/'')"

section \<open>Client identity\<close>

text \<open>
  \<open>netip.MustParsePrefix("fc00:dead:beef:4dad::/64")\<close> and \<open>netip.Prefix.Contains\<close>.
\<close>

definition torCircuitPrefix :: "ip \<times> nat" where
  "torCircuitPrefix = ([0xfc, 0x00, 0xde, 0xad, 0xbe, 0xef, 0x4d, 0xad, 0, 0, 0, 0, 0, 0, 0, 0], 64)"

definition Prefix_Contains :: "ip \<times> nat \<Rightarrow> netip_addr \<Rightarrow> bool" where
  "Prefix_Contains p a = (case (p, a) of
      ((b, bits), Addr6 x zone) \<Rightarrow>
        zone = [] \<and> map2 (AND) x (CIDRMask bits 128) = map2 (AND) b (CIDRMask bits 128)
    | _ \<Rightarrow> False)"

definition TorClientSentinel :: string where
  "TorClientSentinel = ''tor''"

definition torCircuitIdentifier :: "string \<Rightarrow> string option" where
  "torCircuitIdentifier host =
     (case ParseAddr host of
        None \<Rightarrow> None
      | Some addr \<Rightarrow>
          if \<not> Prefix_Contains torCircuitPrefix addr then None
          else Some (TorClientSentinel @ '':'' @ Itoa (be_nat (drop 8 (As16 addr)))))"

definition peer_identity :: "http_request \<Rightarrow> string" where
  "peer_identity r =
     (let host = strip_port (rq_RemoteAddr r) in
      case torCircuitIdentifier host of Some i \<Rightarrow> i | None \<Rightarrow> host)"

definition GetClientIP :: "http_request \<Rightarrow> bool \<Rightarrow> string" where
  "GetClientIP r trusted =
     (if trusted then
        (case first_header (rq_Header r) [''CF-Connecting-IP'', ''True-Client-IP'', ''X-Real-IP''] of
           Some v \<Rightarrow> v
         | None \<Rightarrow>
             (let xff = Header_Get (rq_Header r) ''X-Forwarded-For'' in
              if TrimSpace xff \<noteq> [] then first_of_list xff
              else case first_header (rq_Header r) [''X-Client-IP''] of
                Some v \<Rightarrow> v
              | None \<Rightarrow> peer_identity r))
      else peer_identity r)"

definition hostMatchesOverlayAddress :: "http_request \<Rightarrow> string \<Rightarrow> bool" where
  "hostMatchesOverlayAddress r address =
     (if address = [] then False
      else EqualFold (TrimSpace (strip_port (host_of r))) (TrimSpace address))"

definition isTorRequest :: "http_request \<Rightarrow> string \<Rightarrow> bool" where
  "isTorRequest r onionAddress = hostMatchesOverlayAddress r onionAddress"

definition IsTorRequest :: "http_request \<Rightarrow> TrustResolver option \<Rightarrow> bool" where
  "IsTorRequest r tro = (case tro of None \<Rightarrow> False | Some tr \<Rightarrow> isTorRequest r (OnionAddress tr))"

definition isI2PRequest :: "http_request \<Rightarrow> string \<Rightarrow> bool" where
  "isI2PRequest r i2pAddress = hostMatchesOverlayAddress r i2pAddress"

definition IsI2PRequest :: "http_request \<Rightarrow> TrustResolver option \<Rightarrow> bool" where
  "IsI2PRequest r tro = (case tro of None \<Rightarrow> False | Some tr \<Rightarrow> isI2PRequest r (I2PAddress tr))"

definition GetClientIdentifier :: "http_request \<Rightarrow> TrustResolver option \<Rightarrow> string" where
  "GetClientIdentifier r tro =
     (if IsTorRequest r tro then
        (case torCircuitIdentifier (strip_port (rq_RemoteAddr r)) of
           Some i \<Rightarrow> i | None \<Rightarrow> TorClientSentinel)
      else GetClientIP r (tro \<noteq> None \<and> IsTrustedPeer tro r))"

section \<open>URLs\<close>

definition getURLVars :: "machine \<Rightarrow> http_request \<Rightarrow> TrustResolver option \<Rightarrow> string \<times> string \<times> string" where
  "getURLVars m r tro =
     (if IsTorRequest r tro then (''http'', OnionAddress (the tro), [])
      else if IsI2PRequest r tro then (''http'', I2PAddress (the tro), [])
      else
        (let trusted = IsTrustedPeer tro r;
             proto = getProto r trusted;
             f1 = (if trusted then getHostFromRequest r else strip_port (host_of r));
             f2 = (if f1 = [] \<and> m_Getenv m ''DOMAIN'' \<noteq> [] then first_of_list (m_Getenv m ''DOMAIN'') else f1);
             f3 = (if f2 = [] then getFQDN m else f2)
         in (proto, f3, getPort r trusted)))"

definition BuildURL :: "machine \<Rightarrow> http_request \<Rightarrow> TrustResolver option \<Rightarrow> string \<Rightarrow> string" where
  "BuildURL m r tro path =
     (case getURLVars m r tro of (proto, fqdn, port) \<Rightarrow>
        if port = [] then proto @ ''://'' @ fqdn @ path
        else proto @ ''://'' @ fqdn @ '':'' @ port @ path)"

section \<open>Who is trusted\<close>

lemma alwaysTrusted_iff:
  "list_ex (\<lambda>n. IPNet_Contains n ip) alwaysTrustedCIDRs \<longleftrightarrow>
     IsLoopback ip \<or> IsPrivate ip \<or> IsLinkLocalUnicast ip"
proof -
  have "list_ex (\<lambda>n. IPNet_Contains n ip) (List.map_filter ParseCIDR cs) \<longleftrightarrow> list_ex (\<lambda>c. in_range c ip) cs" for cs
    by (induction cs) (auto simp: map_filter_simps in_range_def split: option.splits)
  then show ?thesis
    unfolding in_loopback [symmetric] in_private [symmetric] in_linklocal [symmetric]
    unfolding alwaysTrustedCIDRs_def by (simp add: alwaysTrusted_def del: map_filter_simps)
qed

lemma IsTrustedPeer_iff:
  "IsTrustedPeer tro r = (case ParseIP (strip_port (rq_RemoteAddr r)) of None \<Rightarrow> False
     | Some ip \<Rightarrow> IsLoopback ip \<or> IsPrivate ip \<or> IsLinkLocalUnicast ip \<or>
         (case tro of None \<Rightarrow> False | Some tr \<Rightarrow>
            (case listenCIDR tr of Some n \<Rightarrow> IPNet_Contains n ip | None \<Rightarrow> False) \<or>
            list_ex (entry_trusts (dnsCache tr) ip) (additional tr)))"
  by (auto simp: IsTrustedPeer_def alwaysTrusted_iff split: option.splits)

text \<open>What one entry of the configuration means: a network, an address, or a name's addresses.\<close>

definition entry_means :: "dns \<Rightarrow> ip \<Rightarrow> string \<Rightarrow> bool" where
  "entry_means lookup ip entry =
     (case ParseCIDR entry of
        Some network \<Rightarrow> IPNet_Contains network ip
      | None \<Rightarrow>
          (case ParseIP entry of
             Some entryIP \<Rightarrow> IP_Equal entryIP ip
           | None \<Rightarrow> (case lookup entry of
                Some addrs \<Rightarrow> list_ex (\<lambda>a. IP_Equal a ip) (List.map_filter ParseIP addrs)
              | None \<Rightarrow> False)))"

lemma refreshDNS_fold:
  "fold (refreshDNS_entry lookup) es m e =
     (if e \<in> set es \<and> ParseIP e = None \<and> ParseCIDR e = None \<and>
         (\<exists>addrs. lookup e = Some addrs \<and> List.map_filter ParseIP addrs \<noteq> [])
      then Some (List.map_filter ParseIP (the (lookup e))) else m e)"
  by (induction es arbitrary: m) (auto simp: refreshDNS_entry_def Let_def split: option.splits)

lemma refreshed_entry_trusts:
  "e \<in> set (additional tr) \<Longrightarrow>
   entry_trusts (dnsCache (refreshDNS lookup tr)) ip e = entry_means lookup ip e"
  by (auto simp: entry_trusts_def entry_means_def refreshDNS_def refreshDNS_fold split: option.splits)

lemma mask24: "length b = 4 \<Longrightarrow> map2 (AND) b (CIDRMask 24 32) = take 3 b @ [0]"
  by (auto simp: length4_ex CIDRMask_def CIDRMask_bytes_numeral)

lemma Itoa_24: "Itoa 24 = ''24''"
  by code_simp

lemma listen_cidr_dotted:
  assumes "length l = 4" "l \<noteq> [0, 0, 0, 0]"
  shows "listen_cidr (dotted l) = Some \<lparr>net_IP = take 3 l @ [0], net_Mask = CIDRMask 24 32\<rparr>"
proof -
  have d: "ParseIP (dotted l) = Some (v4InV6Prefix @ l)" using assms(1) by (rule ParseIP_dotted)
  have "dotted l \<noteq> ''0.0.0.0''"
    using d assms by (auto simp: net_eval)
  moreover have "dotted l \<noteq> []" "dotted l \<noteq> ''::''" "dotted l \<noteq> ''[::]''"
    using d by (auto simp: net_eval)
  moreover have "To4 (v4InV6Prefix @ l) = Some l"
    using assms(1) by (simp add: To4_def v4InV6Prefix_def)
  moreover have "IP_Mask l (CIDRMask 24 32) = Some (take 3 l @ [0])"
    using assms(1) mask24 [of l] by (simp add: IP_Mask_def CIDRMask_def)
  moreover have "IP_String (take 3 l @ [0]) = dotted (take 3 l @ [0])"
    using assms(1) by (simp add: IP_String_def To4_def)
  moreover have "ParseCIDR (dotted (take 3 l @ [0]) @ ''/24'') =
      Some \<lparr>net_IP = take 3 l @ [0], net_Mask = CIDRMask 24 32\<rparr>"
    using ParseCIDR_dotted [of "take 3 l @ [0]" 24] assms(1) mask24 [of "take 3 l @ [0]"]
    by (simp add: Itoa_24)
  ultimately show ?thesis
    using d by (simp add: listen_cidr_def)
qed

lemma listen_net_contains:
  assumes "length l = 4"
  shows "IPNet_Contains \<lparr>net_IP = take 3 l @ [0], net_Mask = CIDRMask 24 32\<rparr> ip \<longleftrightarrow>
    (\<exists>x. To4 ip = Some x \<and> take 3 x = take 3 l)"
proof -
  from assms obtain a b c d where l: "l = [a, b, c, d]" by (auto simp: length4_ex)
  show ?thesis
    unfolding l
    by (cases ip rule: To4_cases)
       (auto simp: IPNet_Contains_def networkNumberAndMask_def CIDRMask_def CIDRMask_bytes_numeral To4_def)
qed

text \<open>
  C6. A freshly built resolver on an IPv4 listen address trusts exactly these peers: the
  loopback, private and link-local addresses, the addresses that share the first three bytes
  of the listen address, and those a configured entry names, as a network, an address or a
  host name that resolves to it.
\<close>

theorem NewTrustResolver_trusts:
  assumes "length l = 4" "l \<noteq> [0, 0, 0, 0]"
    and "ParseIP (strip_port (rq_RemoteAddr r)) = Some ip"
  shows "IsTrustedPeer (Some (NewTrustResolver lookup adds (dotted l))) r \<longleftrightarrow>
    IsLoopback ip \<or> IsPrivate ip \<or> IsLinkLocalUnicast ip \<or>
    (\<exists>x. To4 ip = Some x \<and> take 3 x = take 3 l) \<or> list_ex (entry_means lookup ip) adds"
proof -
  let ?tr = "NewTrustResolver lookup adds (dotted l)"
  have "listenCIDR ?tr = Some \<lparr>net_IP = take 3 l @ [0], net_Mask = CIDRMask 24 32\<rparr>"
    and adds: "additional ?tr = adds"
    using listen_cidr_dotted [OF assms(1,2)] by (simp_all add: NewTrustResolver_def refreshDNS_def)
  moreover have "list_ex (entry_trusts (dnsCache ?tr) ip) adds = list_ex (entry_means lookup ip) adds"
    unfolding list_ex_iff NewTrustResolver_def using refreshed_entry_trusts by fastforce
  ultimately show ?thesis
    using assms(3) listen_net_contains [OF assms(1)] by (auto simp: IsTrustedPeer_iff)
qed

definition peer_request :: "string \<Rightarrow> http_request" where
  "peer_request addr = \<lparr>rq_Method = ''GET'', rq_Path = ''/'', rq_Host = ''ip.example'', rq_URLHost = [],
     rq_RemoteAddr = addr, rq_TLS = False, rq_Header = []\<rparr>"

theorem NewTrustResolver_trusts_witness:
  "IsTrustedPeer (Some (NewTrustResolver (\<lambda>_. None) [] (dotted [203, 0, 113, 9]))) (peer_request ''203.0.113.77:999'')"
proof -
  have "ParseIP (strip_port (rq_RemoteAddr (peer_request ''203.0.113.77:999''))) =
      Some [0, 0, 0, 0, 0, 0, 0, 0, 0, 0, 255, 255, 203, 0, 113, 77]"
    by (simp add: peer_request_def strip_port_def net_eval)
  from NewTrustResolver_trusts [OF _ _ this, of "[203, 0, 113, 9]"] show ?thesis
    by (simp add: To4_def v4InV6Prefix_def)
qed

section \<open>Headers count only from trusted peers\<close>



section \<open>Tor circuits\<close>

lemma be_nat_inj: "be_nat xs = be_nat ys \<Longrightarrow> length xs = length ys \<Longrightarrow> xs = ys"
proof (induction xs arbitrary: ys)
  case Nil
  then show ?case by simp
next
  case (Cons x xs)
  then obtain y ys' where ys: "ys = y # ys'" "length xs = length ys'" by (cases ys) auto
  have "unat x = unat y \<and> be_nat xs = be_nat ys'"
    using div_pow_tail [of "be_nat xs" "8 * length xs" "be_nat ys'" 0 "unat x" "unat y"]
      Cons.prems(1) be_nat_less [of xs] be_nat_less [of ys'] ys by (simp add: pow_split)
  with Cons.IH [of ys'] ys show ?case by (simp add: word_unat_eq_iff)
qed

lemma circuit_prefix:
  assumes "length x = 16" "map2 (AND) x (CIDRMask 64 128) = map2 (AND) b (CIDRMask 64 128)" "length b = 16"
  shows "take 8 x = take 8 b"
proof -
  have "CIDRMask 64 128 = replicate 8 0xff @ replicate 8 0"
    by (simp add: CIDRMask_def CIDRMask_bytes_numeral replicate_literal)
  moreover have ff: "map2 (AND) zs (replicate n 0xff) = zs" if "length zs = n" for zs :: "u8 list" and n
    using that by (induction n arbitrary: zs) (auto simp: length_Suc_conv)
  ultimately have "take 8 (map2 (AND) z (CIDRMask 64 128)) = take 8 z" if "length z = 16" for z
    using that ff [of "take 8 z" 8] by (simp add: take_map take_zip)
  then show ?thesis using assms by metis
qed

text \<open>
  Two Tor circuits never share an identifier: source addresses that get the same
  \<open>tor:N\<close> name are the same address, so circuits are told apart in the rate limiter's keys.
\<close>

theorem torCircuitIdentifier_inj:
  assumes "torCircuitIdentifier h1 = Some i" "torCircuitIdentifier h2 = Some i"
  shows "ParseAddr h1 = ParseAddr h2"
proof -
  have shape: "\<exists>x. ParseAddr h = Some (Addr6 x []) \<and> length x = 16 \<and>
      take 8 x = take 8 (fst torCircuitPrefix) \<and> i = ''tor:'' @ Itoa (be_nat (drop 8 x))"
    if "torCircuitIdentifier h = Some i" for h
    using that ParseAddr_length [of h]
    by (auto simp: torCircuitIdentifier_def Prefix_Contains_def TorClientSentinel_def torCircuitPrefix_def
        split: option.splits if_splits netip_addr.splits dest!: circuit_prefix)
  from shape [OF assms(1)] shape [OF assms(2)] obtain x y where
    "ParseAddr h1 = Some (Addr6 x [])" "ParseAddr h2 = Some (Addr6 y [])"
    "length x = 16" "length y = 16" "take 8 x = take 8 y"
    "Itoa (be_nat (drop 8 x)) = Itoa (be_nat (drop 8 y))"
    by auto
  moreover from this have "drop 8 x = drop 8 y"
    by (intro be_nat_inj) (auto dest: Itoa_inject)
  ultimately show ?thesis
    by (metis append_take_drop_id)
qed

theorem torCircuitIdentifier_inj_witness:
  "torCircuitIdentifier ''fc00:dead:beef:4dad::7'' = Some ''tor:7'' \<and>
   ParseAddr ''fc00:dead:beef:4dad::7'' = ParseAddr ''fc00:dead:beef:4dad:0:0:0:7''"
proof -
  have a: "torCircuitIdentifier ''fc00:dead:beef:4dad::7'' = Some ''tor:7''"
    "torCircuitIdentifier ''fc00:dead:beef:4dad:0:0:0:7'' = Some ''tor:7''"
    by (simp_all add: torCircuitIdentifier_def Prefix_Contains_def torCircuitPrefix_def TorClientSentinel_def
        Itoa.simps net_eval)
  then show ?thesis using torCircuitIdentifier_inj [OF a] by simp
qed

text \<open>
  A request for the onion service is never identified by the loopback address of the local
  Tor daemon, nor by any header: its identifier is \<open>tor\<close> or \<open>tor:\<close> and a circuit number, and
  its URLs are plain http on the onion address without a port.
\<close>

theorem onion_request_identity:
  assumes "IsTorRequest r (Some tr)"
  shows "(GetClientIdentifier r (Some tr) = ''tor'' \<or>
          (\<exists>n < 2 ^ 64. GetClientIdentifier r (Some tr) = ''tor:'' @ Itoa n)) \<and>
         BuildURL m r (Some tr) path = ''http://'' @ OnionAddress tr @ path"
proof -
  have "\<exists>n < 2 ^ 64. i = ''tor:'' @ Itoa n" if "torCircuitIdentifier h = Some i" for h i
  proof -
    from that obtain a where a: "ParseAddr h = Some a" "i = ''tor:'' @ Itoa (be_nat (drop 8 (As16 a)))"
      by (auto simp: torCircuitIdentifier_def TorClientSentinel_def split: option.splits if_splits)
    then have "be_nat (drop 8 (As16 a)) < 2 ^ 64"
      using be_nat_less [of "drop 8 (As16 a)"] ParseAddr_length [of h a] by simp
    with a show ?thesis by blast
  qed
  with assms show ?thesis
    by (auto simp: GetClientIdentifier_def BuildURL_def getURLVars_def TorClientSentinel_def split: option.splits)
qed

theorem onion_request_identity_witness:
  "GetClientIdentifier (peer_request ''127.0.0.1:80'')
     (Some \<lparr>listenCIDR = None, additional = [], dnsCache = Map.empty, OnionAddress = ''IP.example'', I2PAddress = []\<rparr>) \<noteq> ''127.0.0.1''"
proof -
  let ?tr = "\<lparr>listenCIDR = None, additional = [], dnsCache = Map.empty, OnionAddress = ''IP.example'', I2PAddress = []\<rparr>"
  have "IsTorRequest (peer_request ''127.0.0.1:80'') (Some ?tr)"
    by (simp add: IsTorRequest_def isTorRequest_def hostMatchesOverlayAddress_def peer_request_def host_of_def
        strip_port_def net_eval)
  from onion_request_identity [OF this] show ?thesis by auto
qed

section \<open>Ports\<close>

text \<open>A URL never names port 80 or 443, on either scheme.\<close>

lemma getPort_not_default: "getPort r trusted \<notin> {''80'', ''443''}"
  by (auto simp: getPort_def host_port_def Let_def split: option.splits)

lemma BuildURL_drops_443_on_http:
  "BuildURL m ((peer_request ''8.8.8.8:53'')\<lparr>rq_Host := ''h.example:443''\<rparr>) None ''/'' = ''http://h.example/''"
  by (simp add: BuildURL_def getURLVars_def IsTrustedPeer_iff IsLoopback_def IsPrivate_def
      IsLinkLocalUnicast_def IsTorRequest_def IsI2PRequest_def peer_request_def strip_port_def getProto_def
      getPort_def host_port_def host_of_def net_eval)

text \<open>A forwarding chain that starts with a comma is taken whole.\<close>

lemma xff_leading_comma:
  "GetClientIP ((peer_request ''127.0.0.1:80'')\<lparr>rq_Header := [(''X-Forwarded-For'', '',1.2.3.4'')]\<rparr>) True = '',1.2.3.4''"
  by (simp add: GetClientIP_def Header_Get_def peer_request_def first_of_list_def net_eval)

end
