(* ===== verification/IpSet.thy ===== *)
theory IpSet
  imports Addresses
begin

text \<open>
  What the three address lists of the server share: the interface of a loaded list (networks,
  single addresses and a membership test) with its client lemmas, and the reading of list
  files line by line. \<open>blocklist.Lookup\<close>, \<open>threat.kindSet\<close> and \<open>server.AllowlistLookup\<close>
  are interpretations of the interface.
\<close>

section \<open>The interface of a loaded list\<close>

locale ip_list =
  fixes nets :: "'s \<Rightarrow> IPNet list"
    and singles :: "'s \<Rightarrow> ip list"
    and contains :: "'s \<Rightarrow> ip \<Rightarrow> bool"
  assumes contains_iff:
    "contains s ip \<longleftrightarrow>
       (\<exists>n \<in> set (nets s). IPNet_Contains n ip) \<or> (\<exists>x \<in> set (singles s). IP_Equal x ip)"
begin

lemma contains_mono:
  "set (nets s) \<subseteq> set (nets t) \<Longrightarrow> set (singles s) \<subseteq> set (singles t) \<Longrightarrow>
   contains s ip \<Longrightarrow> contains t ip"
  by (auto simp: contains_iff)

lemma contains_empty: "nets s = [] \<Longrightarrow> singles s = [] \<Longrightarrow> \<not> contains s ip"
  by (simp add: contains_iff)

text \<open>Membership does not depend on which of its two forms an IPv4 address comes in.\<close>

lemma contains_v4_form:
  assumes "length ip = 4"
  shows "contains s (v4InV6Prefix @ ip) = contains s ip"
proof -
  have t: "To4 (v4InV6Prefix @ ip) = Some ip" "To4 ip = Some ip"
    using assms by (auto simp: To4_def v4InV6Prefix_def)
  have "IPNet_Contains n (v4InV6Prefix @ ip) = IPNet_Contains n ip" for n
    using assms t by (auto simp: IPNet_Contains_def v4InV6Prefix_def split: option.splits)
  moreover have "IP_Equal x (v4InV6Prefix @ ip) = IP_Equal x ip" for x
  proof -
    have l: "length (v4InV6Prefix @ ip) = 16" "take 12 (v4InV6Prefix @ ip) = v4InV6Prefix"
      "drop 12 (v4InV6Prefix @ ip) = ip"
      using assms by (simp_all add: v4InV6Prefix_def)
    show ?thesis
    proof (cases "length x = 16")
      case True
      then show ?thesis
        using l assms by (simp add: IP_Equal_def) (metis append_take_drop_id l(2,3))
    next
      case False
      then show ?thesis using l assms by (auto simp: IP_Equal_def)
    qed
  qed
  ultimately show ?thesis by (simp add: contains_iff)
qed

end

section \<open>List files\<close>

text \<open>
  \<open>bufio.Scanner\<close> with \<open>ScanLines\<close>: lines without their end marker; a line of 64 KiB or
  more ends the scan with an error. The second component is \<open>True\<close> when there was none.
\<close>

definition dropCR :: "string \<Rightarrow> string" where
  "dropCR l = (if l \<noteq> [] \<and> last l = CHR 0x0D then butlast l else l)"

definition MaxScanTokenSize :: nat where
  "MaxScanTokenSize = 65536"

definition ScanLines :: "string \<Rightarrow> string list \<times> bool" where
  "ScanLines s =
     (let ls = SplitByte s (CHR 0x0A);
          toks = (if last ls = [] then butlast ls else ls);
          ok = takeWhile (\<lambda>l. length l < MaxScanTokenSize) toks
      in (map dropCR ok, length ok = length toks))"

datatype list_entry = NetEntry IPNet | SingleEntry ip

text \<open>
  One line of a list file. \<open>seps\<close> are the bytes that start an inline comment: a space in
  \<open>blocklist\<close>, a space or a tab in \<open>threat\<close>.
\<close>

definition parse_list_line :: "string \<Rightarrow> string \<Rightarrow> list_entry option" where
  "parse_list_line seps text =
     (let line = TrimSpace text in
      if line = [] \<or> HasPrefix line ''#'' \<or> HasPrefix line '';'' then None
      else let line' = (case IndexAny line seps of None \<Rightarrow> line | Some idx \<Rightarrow> TrimSpace (take idx line)) in
        if Contains line' ''/'' then map_option NetEntry (ParseCIDR line')
        else map_option SingleEntry (ParseIP line'))"

fun entry_covers :: "list_entry \<Rightarrow> ip \<Rightarrow> bool" where
  "entry_covers (NetEntry n) ip = IPNet_Contains n ip"
| "entry_covers (SingleEntry x) ip = IP_Equal x ip"

text \<open>The loops append each entry to one of two slices.\<close>

fun add_lines :: "string \<Rightarrow> string list \<Rightarrow> IPNet list \<times> ip list \<Rightarrow> IPNet list \<times> ip list" where
  "add_lines seps [] acc = acc"
| "add_lines seps (t # ts) (ns, ss) =
     (case parse_list_line seps t of
        None \<Rightarrow> add_lines seps ts (ns, ss)
      | Some (NetEntry n) \<Rightarrow> add_lines seps ts (ns @ [n], ss)
      | Some (SingleEntry x) \<Rightarrow> add_lines seps ts (ns, ss @ [x]))"

definition covered :: "IPNet list \<times> ip list \<Rightarrow> ip \<Rightarrow> bool" where
  "covered p ip \<longleftrightarrow> (\<exists>n \<in> set (fst p). IPNet_Contains n ip) \<or> (\<exists>x \<in> set (snd p). IP_Equal x ip)"

definition lines_cover :: "string \<Rightarrow> string list \<Rightarrow> ip \<Rightarrow> bool" where
  "lines_cover seps ts ip \<longleftrightarrow> list_ex (\<lambda>t. case parse_list_line seps t of None \<Rightarrow> False
     | Some e \<Rightarrow> entry_covers e ip) ts"

lemma covered_add_lines:
  "covered (add_lines seps ts acc) ip \<longleftrightarrow> covered acc ip \<or> lines_cover seps ts ip"
proof (induction seps ts acc rule: add_lines.induct)
  case (1 seps acc)
  then show ?case by (simp add: lines_cover_def)
next
  case (2 seps t ts ns ss)
  show ?case
  proof (cases "parse_list_line seps t")
    case None
    with 2 show ?thesis by (simp add: lines_cover_def)
  next
    case (Some e)
    with 2 show ?thesis by (cases e) (auto simp: lines_cover_def covered_def)
  qed
qed

text \<open>A line that holds an IPv4 network, or a single IPv4 address, and nothing else.\<close>

lemma dotted_chars: "c \<in> set (dotted b) \<Longrightarrow> is_digit c \<or> c = CHR ''.''"
proof -
  have "c \<in> set (Join ps ''.'') \<Longrightarrow> (\<exists>p \<in> set ps. c \<in> set p) \<or> c = CHR ''.''" for ps
    by (induction ps "''.''" rule: Join.induct) auto
  moreover assume "c \<in> set (dotted b)"
  ultimately show ?thesis
    unfolding dotted_def by (fastforce dest: Itoa_digits)
qed

lemma plain_line:
  assumes "s \<noteq> []" and "\<forall>c \<in> set s. is_digit c \<or> c = CHR ''.'' \<or> c = CHR ''/''"
    and "set seps \<subseteq> {CHR '' '', CHR 0x09}"
  shows "parse_list_line seps s =
    (if Contains s ''/'' then map_option NetEntry (ParseCIDR s) else map_option SingleEntry (ParseIP s))"
proof -
  have ns: "\<not> is_space c" if "c \<in> set s" for c
  proof -
    from that assms(2) have "is_digit c \<or> c = CHR ''.'' \<or> c = CHR ''/''" by blast
    then show ?thesis by (auto simp: is_space_def is_digit_def Let_def)
  qed
  then have t: "TrimSpace s = s"
    by (simp add: TrimSpace_def TrimFunc_id)
  have "is_space c" if "c \<in> set seps" for c
    using that assms(3) by (auto simp: is_space_def)
  with ns have tw: "takeWhile (\<lambda>c. c \<notin> set seps) s = s"
    by (auto simp: takeWhile_eq_all_conv)
  have i: "IndexAny s seps = None"
    unfolding IndexAny_def Let_def tw by simp
  from assms(1) obtain c cs where cs: "s = c # cs" by (cases s) auto
  then have "c \<noteq> CHR ''#''" "c \<noteq> CHR '';''"
    using assms(2) by (auto simp: is_digit_def)
  then have h: "\<not> HasPrefix s ''#''" "\<not> HasPrefix s '';''"
    by (simp_all add: cs HasPrefix_def)
  show ?thesis
    unfolding parse_list_line_def Let_def t i using assms(1) h by simp
qed

end
