(* ===== verification/Blocklist.thy ===== *)
theory Blocklist
  imports IpSet
begin

text \<open>
  Package \<open>blocklist\<close>: the manager that downloads the lists to the data directory, and the
  in-memory \<open>Lookup\<close> that is rebuilt from that directory. The data directory is a map from
  file names to contents; what a download returns, and which writes fail, are inputs.
\<close>

section \<open>Sources and the manager\<close>

record Source =
  src_Name :: string
  src_URL :: string
  src_File :: string

definition DefaultSources :: "Source list" where
  "DefaultSources =
    [\<lparr>src_Name = ''firehol_level1'',
      src_URL = ''https://raw.githubusercontent.com/firehol/blocklist-ipsets/master/firehol_level1.netset'',
      src_File = ''firehol_level1.txt''\<rparr>,
     \<lparr>src_Name = ''spamhaus_drop'',
      src_URL = ''https://www.spamhaus.org/drop/drop.txt'',
      src_File = ''spamhaus_drop.txt''\<rparr>]"

definition NewBlocklistManager :: "Source list \<Rightarrow> Source list" where
  "NewBlocklistManager sources = (if sources = [] then DefaultSources else sources)"

type_synonym datadir = "string \<Rightarrow> string option"

datatype blk_error = HTTPError string | StatusError nat string | WriteError string | DirError | CloseError string

text \<open>
  The response to a request for a URL: \<open>None\<close> for a transport error (also one while the body is read), otherwise the status
  and the body. \<open>writeFileAtomic\<close> either renames the complete temporary file into place or
  leaves the old file alone; \<open>wr_ok\<close> says for which names it succeeds.
\<close>

type_synonym fetch = "string \<Rightarrow> (nat \<times> string) option"

definition maxBody :: nat where
  "maxBody = 50 * 1024 * 1024"

definition writeFileAtomic :: "(string \<Rightarrow> bool) \<Rightarrow> string \<Rightarrow> string \<Rightarrow> datadir \<Rightarrow> blk_error option \<times> datadir" where
  "writeFileAtomic wr_ok path data d =
     (if wr_ok path then (None, d(path \<mapsto> data)) else (Some (WriteError path), d))"

definition blk_download ::
  "fetch \<Rightarrow> (string \<Rightarrow> bool) \<Rightarrow> Source \<Rightarrow> datadir \<Rightarrow> blk_error option \<times> datadir" where
  "blk_download http wr_ok src d =
     (case http (src_URL src) of
        None \<Rightarrow> (Some (HTTPError (src_URL src)), d)
      | Some (status, body) \<Rightarrow>
          if status \<noteq> 200 then (Some (StatusError status (src_URL src)), d)
          else writeFileAtomic wr_ok (src_File src) (take maxBody body) d)"

fun blk_update_loop ::
  "fetch \<Rightarrow> (string \<Rightarrow> bool) \<Rightarrow> Source list \<Rightarrow> blk_error option \<Rightarrow> datadir \<Rightarrow> blk_error option \<times> datadir" where
  "blk_update_loop http wr_ok [] lastErr d = (lastErr, d)"
| "blk_update_loop http wr_ok (src # srcs) lastErr d =
     (case blk_download http wr_ok src d of
        (Some e, d') \<Rightarrow> blk_update_loop http wr_ok srcs (Some e) d'
      | (None, d') \<Rightarrow> blk_update_loop http wr_ok srcs lastErr d')"

text \<open>\<open>Update\<close>: the time stamp file is written last, and its errors are dropped.\<close>

definition blk_Update ::
  "fetch \<Rightarrow> (string \<Rightarrow> bool) \<Rightarrow> bool \<Rightarrow> string \<Rightarrow> Source list \<Rightarrow> datadir \<Rightarrow> blk_error option \<times> datadir" where
  "blk_Update http wr_ok mkdir_ok stamp srcs d =
     (if \<not> mkdir_ok then (Some DirError, d)
      else let (e, d') = blk_update_loop http wr_ok srcs None d in
        (e, snd (writeFileAtomic wr_ok ''.last_updated'' (stamp @ [CHR 0x0A]) d')))"

section \<open>The in-memory list\<close>

record Lookup =
  nets :: "IPNet list"
  singles :: "ip list"

text \<open>
  A directory entry as \<open>os.ReadDir\<close> lists it, with what opening and closing the file give.
\<close>

record dir_entry =
  de_Name :: string
  de_IsDir :: bool
  de_Open :: "string option"
  de_CloseOk :: bool

datatype read_dir = NotExist | ReadDirError | Entries "dir_entry list"

definition skip_entry :: "dir_entry \<Rightarrow> bool" where
  "skip_entry e \<longleftrightarrow> de_IsDir e \<or> \<not> HasSuffix (de_Name e) ''.txt''"

fun load_entries :: "dir_entry list \<Rightarrow> IPNet list \<times> ip list \<Rightarrow> blk_error + IPNet list \<times> ip list" where
  "load_entries [] acc = Inr acc"
| "load_entries (e # es) acc =
     (if skip_entry e then load_entries es acc
      else case de_Open e of
        None \<Rightarrow> load_entries es acc
      | Some content \<Rightarrow>
          (let acc' = add_lines '' '' (fst (ScanLines content)) acc in
           if \<not> de_CloseOk e then Inl (CloseError (de_Name e)) else load_entries es acc'))"

definition LoadDir :: "read_dir \<Rightarrow> Lookup \<Rightarrow> blk_error option \<times> Lookup" where
  "LoadDir rd l =
     (case rd of
        NotExist \<Rightarrow> (None, l)
      | ReadDirError \<Rightarrow> (Some DirError, l)
      | Entries es \<Rightarrow>
          (case load_entries es ([], []) of
             Inl e \<Rightarrow> (Some e, l)
           | Inr (ns, ss) \<Rightarrow> (None, l\<lparr>nets := ns, singles := ss\<rparr>)))"

definition Lookup_Contains :: "Lookup \<Rightarrow> ip option \<Rightarrow> bool" where
  "Lookup_Contains l ipo =
     (case ipo of None \<Rightarrow> False
      | Some ip \<Rightarrow>
          if list_ex (\<lambda>n. IPNet_Contains n ip) (nets l) then True
          else list_ex (\<lambda>s. IP_Equal s ip) (singles l))"

section \<open>Membership\<close>

interpretation blk: ip_list nets singles "\<lambda>l ip. Lookup_Contains l (Some ip)"
  by unfold_locales (simp add: Lookup_Contains_def list_ex_iff)

text \<open>What a directory covers: some line of some list file in it does.\<close>

definition entries_cover :: "dir_entry list \<Rightarrow> ip \<Rightarrow> bool" where
  "entries_cover es ip \<longleftrightarrow> list_ex (\<lambda>e. \<not> skip_entry e \<and>
     (case de_Open e of None \<Rightarrow> False | Some c \<Rightarrow> lines_cover '' '' (fst (ScanLines c)) ip)) es"

lemma load_entries_covered:
  "load_entries es acc = Inr p \<Longrightarrow> covered p ip \<longleftrightarrow> covered acc ip \<or> entries_cover es ip"
proof (induction es arbitrary: acc)
  case Nil
  then show ?case by (simp add: entries_cover_def)
next
  case (Cons e es)
  then show ?case
    by (auto simp: entries_cover_def covered_add_lines Let_def split: if_splits option.splits)
qed

lemma load_entries_ok: "\<forall>e \<in> set es. de_CloseOk e \<Longrightarrow> \<exists>p. load_entries es acc = Inr p"
  by (induction es arbitrary: acc) (auto simp: Let_def split: option.splits)

lemma Lookup_Contains_covered: "Lookup_Contains l (Some ip) = covered (nets l, singles l) ip"
  by (simp add: blk.contains_iff covered_def)

text \<open>
  C30. Reloading the blocklist directory replaces the whole table: whatever was loaded before,
  an address is blocked afterwards exactly when a line of a readable .txt file of the
  directory is an address or a network that covers it.
\<close>

theorem LoadDir_exact:
  assumes "\<forall>e \<in> set es. de_CloseOk e"
  shows "\<exists>l'. LoadDir (Entries es) l = (None, l') \<and>
    (\<forall>ip. Lookup_Contains l' (Some ip) = entries_cover es ip)"
proof -
  obtain p where p: "load_entries es ([], []) = Inr p"
    using load_entries_ok [OF assms] by blast
  then show ?thesis
    using load_entries_covered [OF p]
    by (cases p) (auto simp: LoadDir_def Lookup_Contains_covered covered_def)
qed

theorem LoadDir_exact_witness:
  "\<exists>l'. LoadDir (Entries [\<lparr>de_Name = ''a.txt'', de_IsDir = False,
        de_Open = Some ''10.0.0.0/8'', de_CloseOk = True\<rparr>]) \<lparr>nets = [], singles = []\<rparr> = (None, l') \<and>
     (\<forall>ip. Lookup_Contains l' (Some ip) =
        entries_cover [\<lparr>de_Name = ''a.txt'', de_IsDir = False,
        de_Open = Some ''10.0.0.0/8'', de_CloseOk = True\<rparr>] ip)"
  by (rule LoadDir_exact) simp

section \<open>Errors keep the old data\<close>

text \<open>
  An error while reloading (the directory cannot be read, or a list file cannot be
  closed) leaves the loaded table as it was, and so does a missing directory.
\<close>

theorem LoadDir_error_keeps:
  "fst (LoadDir rd l) \<noteq> None \<or> rd = NotExist \<longrightarrow> snd (LoadDir rd l) = l"
  by (auto simp: LoadDir_def split: read_dir.splits sum.splits)

theorem LoadDir_error_keeps_witness:
  "fst (LoadDir ReadDirError \<lparr>nets = [], singles = [[127, 0, 0, 1]]\<rparr>) \<noteq> None \<and>
   snd (LoadDir ReadDirError \<lparr>nets = [], singles = [[127, 0, 0, 1]]\<rparr>) =
     \<lparr>nets = [], singles = [[127, 0, 0, 1]]\<rparr>"
  using LoadDir_error_keeps [of ReadDirError "\<lparr>nets = [], singles = [[127, 0, 0, 1]]\<rparr>"]
  by (simp add: LoadDir_def)

lemma blk_download_frame:
  "blk_download http wr_ok src d = (e, d') \<Longrightarrow> f \<noteq> src_File src \<Longrightarrow> d' f = d f"
  by (auto simp: blk_download_def writeFileAtomic_def split: option.splits if_splits)

lemma blk_download_error:
  "blk_download http wr_ok src d = (Some e, d') \<Longrightarrow> d' = d"
  by (auto simp: blk_download_def writeFileAtomic_def split: option.splits if_splits)

lemma blk_update_loop_frame:
  "blk_update_loop http wr_ok srcs le d = (e, d') \<Longrightarrow>
   \<forall>src \<in> set srcs. src_File src = f \<longrightarrow> fst (blk_download http wr_ok src d) \<noteq> None \<Longrightarrow> d' f = d f"
proof (induction srcs arbitrary: le d)
  case Nil
  then show ?case by simp
next
  case (Cons src srcs)
  obtain e1 d1 where d1: "blk_download http wr_ok src d = (e1, d1)" by fastforce
  have same: "fst (blk_download http wr_ok s d1) = fst (blk_download http wr_ok s d)" for s
    by (auto simp: blk_download_def writeFileAtomic_def split: option.splits)
  have "d1 f = d f"
  proof (cases "src_File src = f")
    case True
    with Cons.prems(2) d1 show ?thesis by (auto dest: blk_download_error)
  next
    case False
    with d1 show ?thesis by (auto intro: blk_download_frame)
  qed
  moreover obtain le' where "blk_update_loop http wr_ok srcs le' d1 = (e, d')"
    using Cons.prems(1) d1 by (cases e1) auto
  ultimately show ?case
    using Cons.IH [of le' d1] Cons.prems(2) same by auto
qed

end
