(* ===== verification/AccessControl.thy ===== *)
theory AccessControl
  imports Trust Blocklist
begin

text \<open>
  The access-control middleware of package \<open>server\<close>: the resolved client address, the
  allowlist, the blocklist and the country filter. A middleware either passes the request on,
  with what it stored in the request context, or answers it; the security log it may write is
  part of the state. The country database (a third-party reader behind \<open>geo.Reader\<close>) is a
  parameter.
\<close>

section \<open>Requests in the chain\<close>

text \<open>The values the middleware keeps in the request context.\<close>

record req_ctx =
  cx_Req :: http_request
  cx_Allowlisted :: bool
  cx_ClientIP :: "ip option"
  cx_Tor :: bool

definition new_ctx :: "http_request \<Rightarrow> req_ctx" where
  "new_ctx r = \<lparr>cx_Req = r, cx_Allowlisted = False, cx_ClientIP = None, cx_Tor = False\<rparr>"

text \<open>
  What a middleware does with a request: hand it to the next handler, or answer with a status,
  headers and the key of the message.
\<close>

datatype outcome = Next req_ctx | Respond nat header string

text \<open>An entry of the security log: the event and the client it names.\<close>

type_synonym sec_log = "(string \<times> string) list"

definition IsTorRequestContext :: "req_ctx \<Rightarrow> bool" where
  "IsTorRequestContext c = cx_Tor c"

definition IsAllowlisted :: "req_ctx \<Rightarrow> bool" where
  "IsAllowlisted c = cx_Allowlisted c"

definition ClientIPMiddleware :: "TrustResolver option \<Rightarrow> req_ctx \<Rightarrow> req_ctx" where
  "ClientIPMiddleware tro c =
     (case tro of
        None \<Rightarrow> c
      | Some tr \<Rightarrow>
          if IsTorRequest (cx_Req c) tro then c\<lparr>cx_Tor := True\<rparr>
          else case ParseIP (GetClientIdentifier (cx_Req c) tro) of
            Some ip \<Rightarrow> c\<lparr>cx_ClientIP := Some ip\<rparr>
          | None \<Rightarrow> c)"

definition extractIP :: "req_ctx \<Rightarrow> ip option" where
  "extractIP c = (case cx_ClientIP c of Some ip \<Rightarrow> Some ip
     | None \<Rightarrow> ParseIP (strip_port (rq_RemoteAddr (cx_Req c))))"

section \<open>Log values\<close>

text \<open>
  \<open>sanitizeLogValue\<close> drops control characters and stops after 512 runes; runes are bytes
  here, as the values are ASCII.
\<close>

definition log_char_ok :: "char \<Rightarrow> bool" where
  "log_char_ok c \<longleftrightarrow> (let n = (of_char c :: nat) in
     \<not> (n = 10 \<or> n = 13 \<or> (n < 32 \<and> n \<noteq> 9) \<or> n = 127))"

fun sanitize_loop :: "string \<Rightarrow> string \<Rightarrow> string" where
  "sanitize_loop b [] = b"
| "sanitize_loop b (r # rs) =
     (if \<not> log_char_ok r then sanitize_loop b rs
      else let b' = b @ [r] in if 512 \<le> length b' then b' else sanitize_loop b' rs)"

definition sanitizeLogValue :: "string \<Rightarrow> string" where
  "sanitizeLogValue s = (if s = [] then s else sanitize_loop [] s)"

definition isSensitiveLogQueryKey :: "string \<Rightarrow> bool" where
  "isSensitiveLogQueryKey key \<longleftrightarrow>
     ToLower (map (\<lambda>c. if c = CHR ''-'' then CHR ''_'' else c) key) \<in>
       {''token'', ''security_id'', ''access_token'', ''api_key'', ''apikey'', ''csrf_token'',
        ''password'', ''secret''}"

text \<open>\<open>url.QueryUnescape\<close> is a parameter: it decodes a key, or fails.\<close>

definition sanitize_part :: "(string \<Rightarrow> string option) \<Rightarrow> string \<Rightarrow> string" where
  "sanitize_part unescape part =
     (case IndexByte part (CHR ''='') of
        None \<Rightarrow> part
      | Some i \<Rightarrow>
          (case unescape (take i part) of
             None \<Rightarrow> part
           | Some decodedKey \<Rightarrow>
               if isSensitiveLogQueryKey decodedKey then take i part @ ''=xxxxx'' else part))"

definition sanitizeLogQuery :: "(string \<Rightarrow> string option) \<Rightarrow> string \<Rightarrow> string" where
  "sanitizeLogQuery unescape rawQuery =
     (if rawQuery = [] then []
      else Join (map (sanitize_part unescape) (SplitByte rawQuery (CHR ''&''))) ''&'')"

section \<open>Allowlist\<close>

record AllowlistLookup =
  al_nets :: "IPNet list"
  al_singles :: "ip list"

definition allow_cidr :: "string \<Rightarrow> string" where
  "allow_cidr cidr =
     (if Contains cidr ''/'' then cidr
      else if Contains cidr '':'' then cidr @ ''/128'' else cidr @ ''/32'')"

fun allow_entries :: "string list \<Rightarrow> AllowlistLookup \<Rightarrow> AllowlistLookup" where
  "allow_entries [] al = al"
| "allow_entries (e # es) al =
     (let cidr = TrimSpace e in
      if cidr = [] then allow_entries es al
      else case ParseCIDR (allow_cidr cidr) of
        None \<Rightarrow> allow_entries es al
      | Some ipnet \<Rightarrow> allow_entries es (al\<lparr>al_nets := al_nets al @ [ipnet]\<rparr>))"

text \<open>The descriptions of the entries are not used.\<close>

definition NewAllowlistLookup :: "string list \<Rightarrow> AllowlistLookup" where
  "NewAllowlistLookup entries = allow_entries entries \<lparr>al_nets = [], al_singles = []\<rparr>"

definition Allowlist_Contains :: "AllowlistLookup \<Rightarrow> ip option \<Rightarrow> bool" where
  "Allowlist_Contains al ipo =
     (case ipo of None \<Rightarrow> False
      | Some ip \<Rightarrow>
          if list_ex (\<lambda>n. IPNet_Contains n ip) (al_nets al) then True
          else list_ex (\<lambda>s. IP_Equal s ip) (al_singles al))"

definition AllowlistMiddleware :: "AllowlistLookup option \<Rightarrow> req_ctx \<Rightarrow> req_ctx" where
  "AllowlistMiddleware alo c =
     (case alo of
        None \<Rightarrow> c
      | Some al \<Rightarrow>
          if IsTorRequestContext c then c
          else if extractIP c \<noteq> None \<and> Allowlist_Contains al (extractIP c)
          then c\<lparr>cx_Allowlisted := True\<rparr> else c)"

section \<open>Blocklist\<close>

definition private_ranges :: "string list" where
  "private_ranges = [''10.0.0.0/8'', ''172.16.0.0/12'', ''192.168.0.0/16'', ''fc00::/7'', ''::1/128'']"

definition isPrivateIP :: "ip \<Rightarrow> bool" where
  "isPrivateIP ip =
     (if IsLoopback ip \<or> IsLinkLocalUnicast ip \<or> IsLinkLocalMulticast ip then True
      else list_ex (\<lambda>cidr. case ParseCIDR cidr of None \<Rightarrow> False
        | Some n \<Rightarrow> IPNet_Contains n ip) private_ranges)"

definition writeForbidden :: "string \<Rightarrow> outcome" where
  "writeForbidden msg = Respond 403 [] msg"

definition BlocklistMiddleware :: "Lookup option \<Rightarrow> req_ctx \<Rightarrow> sec_log \<Rightarrow> outcome \<times> sec_log" where
  "BlocklistMiddleware lookup c lm =
     (if IsAllowlisted c then (Next c, lm)
      else case lookup of
        None \<Rightarrow> (Next c, lm)
      | Some l \<Rightarrow>
          if IsTorRequestContext c then (Next c, lm)
          else case extractIP c of
            None \<Rightarrow> (Next c, lm)
          | Some ip \<Rightarrow>
              if \<not> isPrivateIP ip \<and> Lookup_Contains l (Some ip)
              then (writeForbidden ''errors.blocked_by_blocklist'',
                    lm @ [(''Blocked request from blocklisted IP'', sanitizeLogValue (IP_String ip))])
              else (Next c, lm))"

section \<open>Countries\<close>

text \<open>A country reader: whether it has no data, and the ISO code it finds for an address.\<close>

record geo_reader =
  gr_IsEmpty :: bool
  gr_Country :: "ip \<Rightarrow> string option"

definition country_set :: "string list \<Rightarrow> string set" where
  "country_set cs = set (map (\<lambda>c. ToUpper (TrimSpace c)) cs)"

definition country_blocked :: "string list \<Rightarrow> string list \<Rightarrow> string \<Rightarrow> bool" where
  "country_blocked denyCountries allowCountries code =
     (if allowCountries \<noteq> [] then code \<notin> country_set allowCountries
      else if denyCountries \<noteq> [] then code \<in> country_set denyCountries
      else False)"

definition GeoIPMiddleware ::
  "geo_reader option \<Rightarrow> string list \<Rightarrow> string list \<Rightarrow> req_ctx \<Rightarrow> outcome" where
  "GeoIPMiddleware gro denyCountries allowCountries c =
     (case gro of
        None \<Rightarrow> Next c
      | Some gr \<Rightarrow>
          if gr_IsEmpty gr \<or> (denyCountries = [] \<and> allowCountries = []) \<or> IsAllowlisted c then Next c
          else case extractIP c of
            None \<Rightarrow> Next c
          | Some ip \<Rightarrow>
              if isPrivateIP ip then Next c
              else case gr_Country gr ip of
                None \<Rightarrow> Next c
              | Some isoc \<Rightarrow>
                  if isoc = [] then Next c
                  else if country_blocked denyCountries allowCountries (ToUpper isoc)
                  then writeForbidden ''errors.blocked_by_country'' else Next c)"

section \<open>Allowlist facts\<close>

interpretation alw: ip_list al_nets al_singles "\<lambda>al ip. Allowlist_Contains al (Some ip)"
  by unfold_locales (simp add: Allowlist_Contains_def list_ex_iff)

definition allow_covers :: "string \<Rightarrow> ip \<Rightarrow> bool" where
  "allow_covers e ip = (let cidr = TrimSpace e in cidr \<noteq> [] \<and> in_range (allow_cidr cidr) ip)"

lemma allow_entries_contains:
  "Allowlist_Contains (allow_entries es al) (Some ip) \<longleftrightarrow>
     Allowlist_Contains al (Some ip) \<or> list_ex (\<lambda>e. allow_covers e ip) es"
proof (induction es arbitrary: al)
  case Nil
  then show ?case by simp
next
  case (Cons e es)
  then show ?case
    by (auto simp: alw.contains_iff allow_covers_def in_range_def Let_def split: option.splits)
qed

lemma NewAllowlistLookup_contains:
  "Allowlist_Contains (NewAllowlistLookup es) (Some ip) \<longleftrightarrow> list_ex (\<lambda>e. allow_covers e ip) es"
  by (simp add: NewAllowlistLookup_def allow_entries_contains alw.contains_empty)

lemma dotted_plain:
  assumes "length b = 4"
  shows "dotted b \<noteq> []" "TrimSpace (dotted b) = dotted b" "\<not> Contains (dotted b) ''/''"
    "\<not> Contains (dotted b) '':''"
proof -
  show "dotted b \<noteq> []" using ParseIP_dotted [OF assms] by (auto simp: net_eval)
  have "\<not> is_space c" if "c \<in> set (dotted b)" for c
    using dotted_chars [OF that] by (auto simp: is_space_def is_digit_def Let_def)
  then show "TrimSpace (dotted b) = dotted b" by (simp add: TrimSpace_def TrimFunc_id)
  show "\<not> Contains (dotted b) ''/''" "\<not> Contains (dotted b) '':''"
    using dotted_chars [of _ b] by (force simp: Contains_single is_digit_def Let_def)+
qed

lemma map2_ff: "length zs = n \<Longrightarrow> map2 (AND) zs (replicate n 0xff) = (zs :: u8 list)"
  by (induction n arbitrary: zs) (auto simp: length_Suc_conv)

lemma mask32: "CIDRMask 32 32 = replicate 4 0xff"
  by (simp add: CIDRMask_def CIDRMask_bytes_numeral replicate_literal)

lemma Itoa_32: "Itoa 32 = ''32''"
  by code_simp

lemma allow_covers_dotted:
  assumes "length b = 4"
  shows "allow_covers (dotted b) ip \<longleftrightarrow> To4 ip = Some b"
proof -
  have "ParseCIDR (dotted b @ ''/32'') = Some \<lparr>net_IP = b, net_Mask = replicate 4 0xff\<rparr>"
    using ParseCIDR_dotted [OF assms, of 32] assms by (simp add: Itoa_32 mask32 map2_ff)
  moreover from assms obtain p q r s where "b = [p, q, r, s]" by (auto simp: length4_ex)
  ultimately show ?thesis
    using dotted_plain [OF assms]
    by (cases ip rule: To4_cases)
       (auto simp: allow_covers_def allow_cidr_def in_range4 replicate_literal in_range_def
          IPNet_Contains_def networkNumberAndMask_def To4_def)
qed

text \<open>
  An allowlist of plain IPv4 addresses admits exactly those addresses, also when the client
  address comes in its IPv6-mapped form, and no IPv6 client.
\<close>

theorem allowlist_of_addresses:
  assumes "\<forall>b \<in> set bs. length b = 4"
  shows "Allowlist_Contains (NewAllowlistLookup (map dotted bs)) (Some ip) \<longleftrightarrow>
    (\<exists>b \<in> set bs. To4 ip = Some b)"
  using assms by (auto simp: NewAllowlistLookup_contains list_ex_iff allow_covers_dotted)

theorem allowlist_of_addresses_witness:
  "Allowlist_Contains (NewAllowlistLookup (map dotted [[192, 0, 2, 7]])) (Some (v4InV6Prefix @ [192, 0, 2, 7]))"
  using allowlist_of_addresses [of "[[192, 0, 2, 7]]" "v4InV6Prefix @ [192, 0, 2, 7]"]
  by (simp add: To4_def v4InV6Prefix_def)

section \<open>Private addresses\<close>

lemma isPrivateIP_iff:
  "isPrivateIP ip \<longleftrightarrow> IsLoopback ip \<or> IsPrivate ip \<or> IsLinkLocalUnicast ip \<or> IsLinkLocalMulticast ip"
proof -
  have "isPrivateIP ip \<longleftrightarrow> IsLoopback ip \<or> IsLinkLocalUnicast ip \<or> IsLinkLocalMulticast ip \<or>
      list_ex (\<lambda>cidr. in_range cidr ip) private_ranges"
    by (simp add: isPrivateIP_def in_range_def)
  then show ?thesis
    unfolding in_private [symmetric] in_loopback [symmetric]
    by (simp add: private_ranges_def) blast
qed

text \<open>
  Neither the blocklist nor the country filter ever answers a request whose client address
  is loopback, private or link-local, whatever the lists hold.
\<close>

theorem private_never_blocked:
  assumes "extractIP c = Some ip"
    and "IsLoopback ip \<or> IsPrivate ip \<or> IsLinkLocalUnicast ip"
  shows "BlocklistMiddleware lookup c lm = (Next c, lm) \<and> GeoIPMiddleware gr deny allow c = Next c"
proof -
  have "isPrivateIP ip" using assms(2) by (auto simp: isPrivateIP_iff)
  with assms(1) show ?thesis
    by (simp add: BlocklistMiddleware_def GeoIPMiddleware_def split: option.splits)
qed

theorem private_never_blocked_witness:
  "\<forall>l lm. BlocklistMiddleware (Some l) ((new_ctx (peer_request ''10.1.2.3:4''))\<lparr>cx_ClientIP := Some [10, 1, 2, 3]\<rparr>) lm =
     (Next ((new_ctx (peer_request ''10.1.2.3:4''))\<lparr>cx_ClientIP := Some [10, 1, 2, 3]\<rparr>), lm)"
  by (intro allI private_never_blocked [where ip = "[10, 1, 2, 3]", THEN conjunct1])
     (simp_all add: extractIP_def IsPrivate_def To4_def)

section \<open>Log lines\<close>

lemma sanitize_loop_chars:
  "list_all log_char_ok b \<Longrightarrow> list_all log_char_ok (sanitize_loop b s)"
  by (induction b s rule: sanitize_loop.induct) (simp_all add: Let_def)

lemma sanitize_loop_length: "length b < 512 \<Longrightarrow> length (sanitize_loop b s) \<le> 512"
  by (induction b s rule: sanitize_loop.induct) (simp_all add: Let_def)

text \<open>
  No client-supplied value can forge a line of a log: after sanitising it holds no line
  break or other control character except the tab, and at most 512 characters.
\<close>

theorem sanitizeLogValue_safe:
  "length (sanitizeLogValue s) \<le> 512 \<and> list_all log_char_ok (sanitizeLogValue s) \<and>
   CHR 0x0A \<notin> set (sanitizeLogValue s) \<and> CHR 0x0D \<notin> set (sanitizeLogValue s)"
proof -
  have "list_all log_char_ok (sanitizeLogValue s)" "length (sanitizeLogValue s) \<le> 512"
    using sanitize_loop_chars [of "[]" s] sanitize_loop_length [of "[]" s] by (simp_all add: sanitizeLogValue_def)
  moreover have "\<not> log_char_ok (CHR 0x0A)" "\<not> log_char_ok (CHR 0x0D)"
    by (simp_all add: log_char_ok_def)
  ultimately show ?thesis by (auto simp: list_all_iff)
qed

text \<open>
  A query parameter whose decoded name is sensitive never reaches a log with its value:
  its part of the sanitised query is the name and a fixed mask, and the other parts are kept.
\<close>

theorem sanitizeLogQuery_masks:
  assumes "rawQuery \<noteq> []"
  shows "\<exists>parts. sanitizeLogQuery unescape rawQuery = Join parts ''&'' \<and>
    length parts = length (SplitByte rawQuery (CHR ''&'')) \<and>
    (\<forall>i < length parts. \<forall>k v. SplitByte rawQuery (CHR ''&'') ! i = k @ CHR ''='' # v \<longrightarrow>
       CHR ''='' \<notin> set k \<longrightarrow>
       parts ! i = (case unescape k of Some d \<Rightarrow>
           if isSensitiveLogQueryKey d then k @ ''=xxxxx'' else k @ CHR ''='' # v
         | None \<Rightarrow> k @ CHR ''='' # v))"
proof (intro exI conjI)
  show "sanitizeLogQuery unescape rawQuery = Join (map (sanitize_part unescape) (SplitByte rawQuery (CHR ''&''))) ''&''"
    using assms by (simp add: sanitizeLogQuery_def)
qed (auto simp: sanitize_part_def IndexByte_append_notin split: option.splits)

theorem sanitizeLogQuery_masks_witness:
  "\<exists>parts. sanitizeLogQuery Some ''token=s3cret'' = Join parts ''&'' \<and> parts ! 0 = ''token=xxxxx''"
proof -
  have s: "SplitByte ''token=s3cret'' (CHR ''&'') = [''token=s3cret'']" by (simp add: str_simps)
  from sanitizeLogQuery_masks [of "''token=s3cret''" Some] obtain parts where
    p: "sanitizeLogQuery Some ''token=s3cret'' = Join parts ''&''" "length parts = 1"
    "\<forall>k v. ''token=s3cret'' = k @ CHR ''='' # v \<longrightarrow> CHR ''='' \<notin> set k \<longrightarrow>
       parts ! 0 = (if isSensitiveLogQueryKey k then k @ ''=xxxxx'' else k @ CHR ''='' # v)"
    by (auto simp: s)
  have "parts ! 0 = ''token=xxxxx''"
    using p(3) [rule_format, of "''token''" "''s3cret''"] by (simp add: isSensitiveLogQueryKey_def str_simps)
  with p(1) show ?thesis by blast
qed

end
