(* ===== verification/RateLimit.thy ===== *)
theory RateLimit
  imports AccessControl
begin

text \<open>
  File \<open>server/ratelimit.go\<close>: the per-client, per-class request limiter and the limiter of the
  report endpoints. The token bucket itself is \<open>golang.org/x/time/rate\<close>, a parameter: how a
  limiter is made from a limit per window and a burst, and what \<open>Allow\<close> answers at a time.
  Times and durations are in nanoseconds.
\<close>

section \<open>The token bucket package\<close>

record 'l limiter_ops =
  lo_new :: "int \<Rightarrow> gotime \<Rightarrow> int \<Rightarrow> 'l"
  lo_allow :: "gotime \<Rightarrow> 'l \<Rightarrow> bool \<times> 'l"

fun allow_run :: "'l limiter_ops \<Rightarrow> 'l \<Rightarrow> gotime list \<Rightarrow> bool list" where
  "allow_run ops l [] = []"
| "allow_run ops l (t # ts) = (case lo_allow ops t l of (b, l') \<Rightarrow> b # allow_run ops l' ts)"

text \<open>
  The documented behaviour of \<open>rate.Limiter\<close>: over any stretch of time it lets through at
  most the burst and what the rate allows for that time.
\<close>

definition rate_law :: "'l limiter_ops \<Rightarrow> bool" where
  "rate_law ops \<longleftrightarrow> (\<forall>limit window burst ts.
     0 < limit \<and> 0 < window \<and> 0 < burst \<and> sorted ts \<and> ts \<noteq> [] \<longrightarrow>
       window * int (count_list (allow_run ops (lo_new ops limit window burst) ts) True)
         \<le> window * burst + limit * (last ts - hd ts))"

section \<open>Configuration\<close>

datatype rateClass = rateClassRead | rateClassWrite | rateClassHealth | rateClassGlobal

fun class_string :: "rateClass \<Rightarrow> string" where
  "class_string rateClassRead = ''read''"
| "class_string rateClassWrite = ''write''"
| "class_string rateClassHealth = ''health''"
| "class_string rateClassGlobal = ''global''"

record RateLimitBucket =
  bk_Limit :: int
  bk_Window :: gotime
  bk_Burst :: int

definition Second :: gotime where
  "Second = 1000000000"

definition Minute :: gotime where
  "Minute = 60 * Second"

definition effectiveWindow :: "RateLimitBucket \<Rightarrow> gotime" where
  "effectiveWindow b = (if bk_Window b \<le> 0 then Minute else bk_Window b)"

definition effectiveBurst :: "RateLimitBucket \<Rightarrow> int" where
  "effectiveBurst b = (if bk_Burst b > 0 then bk_Burst b else if bk_Limit b > 0 then bk_Limit b else 1)"

definition configured :: "RateLimitBucket \<Rightarrow> bool" where
  "configured b \<longleftrightarrow> bk_Limit b > 0"

record RateLimitConfig =
  rc_Read :: RateLimitBucket
  rc_Write :: RateLimitBucket
  rc_Health :: RateLimitBucket
  rc_Global :: RateLimitBucket

definition DefaultRateLimitConfig :: RateLimitConfig where
  "DefaultRateLimitConfig =
     \<lparr>rc_Read = \<lparr>bk_Limit = 120, bk_Window = Minute, bk_Burst = 0\<rparr>,
      rc_Write = \<lparr>bk_Limit = 10, bk_Window = Minute, bk_Burst = 0\<rparr>,
      rc_Health = \<lparr>bk_Limit = 120, bk_Window = Minute, bk_Burst = 0\<rparr>,
      rc_Global = \<lparr>bk_Limit = 240, bk_Window = Minute, bk_Burst = 0\<rparr>\<rparr>"

fun bucketFor :: "RateLimitConfig \<Rightarrow> rateClass \<Rightarrow> RateLimitBucket" where
  "bucketFor c rateClassWrite = rc_Write c"
| "bucketFor c rateClassHealth = rc_Health c"
| "bucketFor c rateClassGlobal = rc_Global c"
| "bucketFor c rateClassRead = rc_Read c"

section \<open>The limiter\<close>

record 'l clientLimiter =
  cl_limiter :: 'l
  cl_lastSeen :: gotime

record 'l RateLimiter =
  rl_limiters :: "string \<Rightarrow> 'l clientLimiter option"
  rl_config :: RateLimitConfig
  rl_trust :: "TrustResolver option"

definition fill_defaults :: "RateLimitConfig \<Rightarrow> RateLimitConfig" where
  "fill_defaults cfg =
     (let d = DefaultRateLimitConfig;
          c1 = (if \<not> configured (rc_Read cfg) then cfg\<lparr>rc_Read := rc_Read d\<rparr> else cfg);
          c2 = (if \<not> configured (rc_Write c1) then c1\<lparr>rc_Write := rc_Write d\<rparr> else c1);
          c3 = (if \<not> configured (rc_Health c2) then c2\<lparr>rc_Health := rc_Health d\<rparr> else c2)
      in if \<not> configured (rc_Global c3) then c3\<lparr>rc_Global := rc_Global d\<rparr> else c3)"

definition NewRateLimiter :: "RateLimitConfig \<Rightarrow> TrustResolver option \<Rightarrow> 'l RateLimiter" where
  "NewRateLimiter cfg trust =
     \<lparr>rl_limiters = Map.empty, rl_config = fill_defaults cfg, rl_trust = trust\<rparr>"

definition limiter_key :: "string \<Rightarrow> rateClass \<Rightarrow> string" where
  "limiter_key clientIP cls = clientIP @ ''|'' @ class_string cls"

definition fresh_limiter :: "'l limiter_ops \<Rightarrow> RateLimitConfig \<Rightarrow> rateClass \<Rightarrow> 'l" where
  "fresh_limiter ops cfg cls =
     (let bucket = bucketFor cfg cls in
      lo_new ops (bk_Limit bucket) (effectiveWindow bucket) (effectiveBurst bucket))"

text \<open>\<open>getLimiter\<close> returns a pointer into the table: here the limiter and the updated table.\<close>

definition getLimiter ::
  "'l limiter_ops \<Rightarrow> gotime \<Rightarrow> string \<Rightarrow> rateClass \<Rightarrow> 'l RateLimiter \<Rightarrow> 'l \<times> 'l RateLimiter" where
  "getLimiter ops now clientIP cls rl =
     (let key = limiter_key clientIP cls;
          l = (case rl_limiters rl key of Some cl \<Rightarrow> cl_limiter cl
               | None \<Rightarrow> fresh_limiter ops (rl_config rl) cls)
      in (l, rl\<lparr>rl_limiters := (rl_limiters rl)(key \<mapsto> \<lparr>cl_limiter = l, cl_lastSeen = now\<rparr>)\<rparr>))"

definition take_token ::
  "'l limiter_ops \<Rightarrow> gotime \<Rightarrow> string \<times> rateClass \<Rightarrow> 'l RateLimiter \<Rightarrow> bool \<times> 'l RateLimiter" where
  "take_token ops now k rl =
     (case getLimiter ops now (fst k) (snd k) rl of (l, rl') \<Rightarrow>
        (case lo_allow ops now l of (ok, l') \<Rightarrow>
           (ok, rl'\<lparr>rl_limiters := (rl_limiters rl')
                  (limiter_key (fst k) (snd k) \<mapsto> \<lparr>cl_limiter = l', cl_lastSeen = now\<rparr>)\<rparr>)))"

definition AllowClass ::
  "'l limiter_ops \<Rightarrow> gotime \<Rightarrow> string \<Rightarrow> rateClass \<Rightarrow> 'l RateLimiter \<Rightarrow> bool \<times> 'l RateLimiter" where
  "AllowClass ops now clientIP cls rl =
     (case take_token ops now (clientIP, cls) rl of (ok, rl') \<Rightarrow>
        if \<not> ok then (False, rl') else take_token ops now (clientIP, rateClassGlobal) rl')"

definition Allow ::
  "'l limiter_ops \<Rightarrow> gotime \<Rightarrow> string \<Rightarrow> 'l RateLimiter \<Rightarrow> bool \<times> 'l RateLimiter" where
  "Allow ops now clientIP rl = AllowClass ops now clientIP rateClassRead rl"

definition cleanup :: "gotime \<Rightarrow> 'l RateLimiter \<Rightarrow> 'l RateLimiter" where
  "cleanup now rl =
     rl\<lparr>rl_limiters := (\<lambda>key. case rl_limiters rl key of
          Some cl \<Rightarrow> if cl_lastSeen cl < now - 10 * Minute then None else Some cl
        | None \<Rightarrow> None)\<rparr>"

definition healthCheckPaths :: "string list" where
  "healthCheckPaths = [''/api/v1/server/healthz'', ''/server/healthz'', ''/healthz'']"

definition classifyRequest :: "http_request \<Rightarrow> rateClass" where
  "classifyRequest r =
     (if rq_Path r \<in> set healthCheckPaths then rateClassHealth
      else if rq_Method r = ''GET'' \<or> rq_Method r = ''HEAD'' then rateClassRead
      else rateClassWrite)"

definition getClientIP :: "'l RateLimiter \<Rightarrow> http_request \<Rightarrow> string" where
  "getClientIP rl r = GetClientIdentifier r (rl_trust rl)"

definition RateLimitMiddleware ::
  "'l limiter_ops \<Rightarrow> gotime \<Rightarrow> req_ctx \<Rightarrow> 'l RateLimiter \<times> sec_log \<Rightarrow> outcome \<times> 'l RateLimiter \<times> sec_log" where
  "RateLimitMiddleware ops now c st =
     (case st of (rl, lm) \<Rightarrow>
        if IsAllowlisted c then (Next c, rl, lm)
        else
          (let clientIP = getClientIP rl (cx_Req c); cls = classifyRequest (cx_Req c) in
           case AllowClass ops now clientIP cls rl of (ok, rl') \<Rightarrow>
             if \<not> ok then
               (let bucket = bucketFor (rl_config rl') cls in
                (Respond 429
                   [(''Retry-After'', Itoa (nat (effectiveWindow bucket div Second))),
                    (''X-RateLimit-Limit'', Itoa (nat (bk_Limit bucket))),
                    (''X-RateLimit-Remaining'', ''0''), (''Content-Type'', ''application/json'')]
                   ''errors.rate_limited'',
                 rl', lm @ [(''Rate limit exceeded'', sanitizeLogValue clientIP)]))
             else (Next c, rl', lm)))"

section \<open>Report limiter\<close>

record 'l ReportRateLimiter =
  rr_limiters :: "string \<Rightarrow> 'l clientLimiter option"
  rr_perMinute :: int
  rr_burst :: int

definition NewReportRateLimiter :: "int \<Rightarrow> int \<Rightarrow> 'l ReportRateLimiter" where
  "NewReportRateLimiter perMinute burst =
     \<lparr>rr_limiters = Map.empty,
      rr_perMinute = (if perMinute < 1 then 60 else perMinute),
      rr_burst = (if burst < 1 then 10 else burst)\<rparr>"

definition report_limiter :: "'l limiter_ops \<Rightarrow> 'l ReportRateLimiter \<Rightarrow> string \<Rightarrow> 'l" where
  "report_limiter ops rrl clientIP =
     (case rr_limiters rrl clientIP of Some cl \<Rightarrow> cl_limiter cl
      | None \<Rightarrow> lo_new ops (rr_perMinute rrl) Minute (rr_burst rrl))"

definition Report_Allow ::
  "'l limiter_ops \<Rightarrow> gotime \<Rightarrow> string \<Rightarrow> 'l ReportRateLimiter \<Rightarrow> bool \<times> 'l ReportRateLimiter" where
  "Report_Allow ops now clientIP rrl =
     (case lo_allow ops now (report_limiter ops rrl clientIP) of (ok, l') \<Rightarrow>
        (ok, rrl\<lparr>rr_limiters := (rr_limiters rrl)
               (clientIP \<mapsto> \<lparr>cl_limiter = l', cl_lastSeen = now\<rparr>)\<rparr>))"

definition Report_cleanup :: "gotime \<Rightarrow> 'l ReportRateLimiter \<Rightarrow> 'l ReportRateLimiter" where
  "Report_cleanup now rrl =
     rrl\<lparr>rr_limiters := (\<lambda>key. case rr_limiters rrl key of
          Some cl \<Rightarrow> if cl_lastSeen cl < now - 10 * Minute then None else Some cl
        | None \<Rightarrow> None)\<rparr>"

section \<open>Tables of limiters\<close>

text \<open>
  Both limiters are tables of token buckets, one per key, made on first use. The interface: a
  current bucket for every key and an operation that takes a token from one bucket and leaves
  the others alone.
\<close>

fun run_takes :: "(gotime \<Rightarrow> 'k \<Rightarrow> 's \<Rightarrow> bool \<times> 's) \<Rightarrow> (gotime \<times> 'k) list \<Rightarrow> 's \<Rightarrow> (bool \<times> 'k) list" where
  "run_takes take1 [] s = []"
| "run_takes take1 ((t, k) # cs) s = (case take1 t k s of (b, s') \<Rightarrow> (b, k) # run_takes take1 cs s')"

lemma allow_span:
  assumes "rate_law ops" "0 < limit" "0 < window" "0 < burst"
    and "sorted ts" "set ts \<subseteq> set us" "sorted us" "us \<noteq> []"
  shows "window * int (count_list (allow_run ops (lo_new ops limit window burst) ts) True)
    \<le> window * burst + limit * (last us - hd us)"
proof (cases "ts = []")
  case True
  then show ?thesis
    using assms(2-4) sorted_bounds [OF assms(7), of "hd us"] assms(8) by simp
next
  case False
  have "last ts \<in> set us" "hd ts \<in> set us"
    using assms(6) last_in_set [OF False] hd_in_set [OF False] by auto
  then have "last ts - hd ts \<le> last us - hd us"
    using sorted_bounds [OF assms(7)] by (smt (verit))
  then have "limit * (last ts - hd ts) \<le> limit * (last us - hd us)"
    using assms(2) by (simp add: mult_left_mono)
  moreover have "window * int (count_list (allow_run ops (lo_new ops limit window burst) ts) True)
      \<le> window * burst + limit * (last ts - hd ts)"
    using assms(1-5) False unfolding rate_law_def by blast
  ultimately show ?thesis by linarith
qed

locale limiter_table =
  fixes ops :: "'l limiter_ops"
    and cur :: "'s \<Rightarrow> 'k \<Rightarrow> 'l"
    and take1 :: "gotime \<Rightarrow> 'k \<Rightarrow> 's \<Rightarrow> bool \<times> 's"
  assumes take_result: "fst (take1 t k s) = fst (lo_allow ops t (cur s k))"
    and take_cur: "cur (snd (take1 t k s)) k' =
      (if k' = k then snd (lo_allow ops t (cur s k)) else cur s k')"
begin

text \<open>The answers for one key are those of its bucket alone, whatever else happens.\<close>

lemma run_takes_key:
  "count_list (run_takes take1 cs s) (True, k) =
     count_list (allow_run ops (cur s k) (map fst (filter (\<lambda>(t, k'). k' = k) cs))) True"
proof (induction cs arbitrary: s)
  case Nil
  then show ?case by simp
next
  case (Cons c cs)
  obtain t k' where c: "c = (t, k')" by fastforce
  obtain b s' where s': "take1 t k' s = (b, s')" by fastforce
  have "b = fst (lo_allow ops t (cur s k'))" using take_result [of t k' s] s' by simp
  moreover have "cur s' k = (if k = k' then snd (lo_allow ops t (cur s k')) else cur s k)"
    using take_cur [of t k' s k] s' by simp
  ultimately show ?case
    using Cons [of s'] by (auto simp: c s' split: prod.splits)
qed

lemma admitted_per_key:
  assumes "rate_law ops" "cur s k = lo_new ops limit window burst"
    and "0 < limit" "0 < window" "0 < burst"
    and "sorted (map fst cs)" "cs \<noteq> []"
  shows "window * int (count_list (run_takes take1 cs s) (True, k))
    \<le> window * burst + limit * (fst (last cs) - fst (hd cs))"
  unfolding run_takes_key assms(2)
  using allow_span [OF assms(1,3,4,5) _ _ assms(6), of "map fst (filter (\<lambda>(t, k'). k' = k) cs)"] assms(6,7)
  by (auto simp: sorted_filter last_map hd_map)

end

section \<open>The two tables\<close>

lemma limiter_key_inj: "limiter_key i c = limiter_key i' c' \<Longrightarrow> i = i' \<and> c = c'"
proof -
  have "CHR ''|'' \<notin> set (class_string x)" for x by (cases x) auto
  then have tw: "takeWhile (\<lambda>x. x \<noteq> CHR ''|'') (rev (limiter_key j x)) = rev (class_string x)" for j x
    by (auto simp: limiter_key_def takeWhile_append takeWhile_eq_all_conv)
  assume eq: "limiter_key i c = limiter_key i' c'"
  then have "rev (class_string c) = rev (class_string c')" by (metis tw)
  then have "c = c'" by (cases c; cases c') auto
  with eq show ?thesis by (simp add: limiter_key_def)
qed

definition rl_cur :: "'l limiter_ops \<Rightarrow> 'l RateLimiter \<Rightarrow> string \<times> rateClass \<Rightarrow> 'l" where
  "rl_cur ops rl k = (case rl_limiters rl (limiter_key (fst k) (snd k)) of
     Some cl \<Rightarrow> cl_limiter cl | None \<Rightarrow> fresh_limiter ops (rl_config rl) (snd k))"

lemma take_token_eq:
  "take_token ops now k rl =
     (fst (lo_allow ops now (rl_cur ops rl k)),
      rl\<lparr>rl_limiters := (rl_limiters rl)(limiter_key (fst k) (snd k) \<mapsto>
        \<lparr>cl_limiter = snd (lo_allow ops now (rl_cur ops rl k)), cl_lastSeen = now\<rparr>)\<rparr>)"
  by (simp add: take_token_def getLimiter_def rl_cur_def Let_def split: prod.splits)

interpretation rlt: limiter_table ops "rl_cur ops" "take_token ops" for ops
  by unfold_locales (auto simp: take_token_eq rl_cur_def dest: limiter_key_inj split: option.splits)

interpretation rrt: limiter_table ops "report_limiter ops" "Report_Allow ops" for ops
  by unfold_locales (auto simp: Report_Allow_def report_limiter_def split: prod.split option.split)

lemma take_token_config [simp]: "rl_config (snd (take_token ops t k rl)) = rl_config rl"
  by (simp add: take_token_eq)

section \<open>Ceilings\<close>

text \<open>The configuration of a new limiter enforces something in every class.\<close>

lemma fill_defaults_configured: "bk_Limit (bucketFor (fill_defaults cfg) cls) > 0"
  by (cases cls) (auto simp: fill_defaults_def configured_def DefaultRateLimitConfig_def Let_def)

lemma effectiveWindow_pos: "0 < effectiveWindow b"
  by (simp add: effectiveWindow_def Minute_def Second_def)

lemma effectiveBurst_pos: "0 < effectiveBurst b"
  by (simp add: effectiveBurst_def)

text \<open>A run of requests: the time, client and class of each.\<close>

fun run_requests ::
  "'l limiter_ops \<Rightarrow> (gotime \<times> string \<times> rateClass) list \<Rightarrow> 'l RateLimiter \<Rightarrow> (bool \<times> string) list" where
  "run_requests ops [] rl = []"
| "run_requests ops ((t, i, c) # rs) rl =
     (case AllowClass ops t i c rl of (b, rl') \<Rightarrow> (b, i) # run_requests ops rs rl')"

lemma AllowClass_global:
  assumes "c \<noteq> rateClassGlobal" and "AllowClass ops t j c rl = (b, rl')"
  shows "rl_cur ops rl' (i, rateClassGlobal) =
      (if j = i \<and> fst (lo_allow ops t (rl_cur ops rl (j, c)))
       then snd (lo_allow ops t (rl_cur ops rl (i, rateClassGlobal)))
       else rl_cur ops rl (i, rateClassGlobal))"
    and "b \<longleftrightarrow> fst (lo_allow ops t (rl_cur ops rl (j, c))) \<and>
      fst (lo_allow ops t (rl_cur ops rl (j, rateClassGlobal)))"
proof -
  obtain ok rl1 where t1: "take_token ops t (j, c) rl = (ok, rl1)" by fastforce
  have ok: "ok = fst (lo_allow ops t (rl_cur ops rl (j, c)))"
    using rlt.take_result [of ops t "(j, c)" rl] t1 by simp
  have cur1: "rl_cur ops rl1 (x, rateClassGlobal) = rl_cur ops rl (x, rateClassGlobal)" for x
    using rlt.take_cur [of ops t "(j, c)" rl "(x, rateClassGlobal)"] t1 assms(1) by auto
  show "rl_cur ops rl' (i, rateClassGlobal) =
      (if j = i \<and> fst (lo_allow ops t (rl_cur ops rl (j, c)))
       then snd (lo_allow ops t (rl_cur ops rl (i, rateClassGlobal)))
       else rl_cur ops rl (i, rateClassGlobal))"
    using assms(2) t1 ok cur1 rlt.take_cur [of ops t "(j, rateClassGlobal)" rl1 "(i, rateClassGlobal)"]
    by (auto simp: AllowClass_def split: if_splits)
  show "b \<longleftrightarrow> fst (lo_allow ops t (rl_cur ops rl (j, c))) \<and>
      fst (lo_allow ops t (rl_cur ops rl (j, rateClassGlobal)))"
    using assms(2) t1 ok cur1 rlt.take_result [of ops t "(j, rateClassGlobal)" rl1]
    by (auto simp: AllowClass_def split: if_splits)
qed

text \<open>
  The admitted requests of a client are what its global bucket admits, asked at some of the
  times of the run.
\<close>

lemma admitted_by_global:
  assumes "\<forall>(t, j, c) \<in> set rs. c \<noteq> rateClassGlobal" "sorted (map fst rs)"
  shows "\<exists>ts. sorted ts \<and> set ts \<subseteq> set (map fst rs) \<and>
    count_list (run_requests ops rs rl) (True, i) =
    count_list (allow_run ops (rl_cur ops rl (i, rateClassGlobal)) ts) True"
  using assms
proof (induction rs arbitrary: rl)
  case Nil
  then show ?case by (intro exI [of _ "[]"]) simp
next
  case (Cons r rs)
  obtain t j c where r: "r = (t, j, c)" by (cases r) auto
  obtain b rl' where a: "AllowClass ops t j c rl = (b, rl')" by fastforce
  have c: "c \<noteq> rateClassGlobal" using Cons.prems r by simp
  note g = AllowClass_global [OF c a]
  from Cons.IH [of rl'] Cons.prems obtain ts where ts: "sorted ts" "set ts \<subseteq> set (map fst rs)"
    "count_list (run_requests ops rs rl') (True, i) =
     count_list (allow_run ops (rl_cur ops rl' (i, rateClassGlobal)) ts) True"
    by auto
  show ?case
  proof (cases "j = i \<and> fst (lo_allow ops t (rl_cur ops rl (j, c)))")
    case True
    have "sorted (t # ts)" using ts(1,2) Cons.prems(2) r by auto
    moreover have "allow_run ops (rl_cur ops rl (i, rateClassGlobal)) (t # ts) =
        b # allow_run ops (rl_cur ops rl' (i, rateClassGlobal)) ts"
      using g(1) [of i] g(2) True by (auto split: prod.splits)
    ultimately show ?thesis
      using ts r a True by (intro exI [of _ "t # ts"]) auto
  next
    case False
    then have "rl_cur ops rl' (i, rateClassGlobal) = rl_cur ops rl (i, rateClassGlobal)"
      and "\<not> (j = i \<and> b)"
      using g(1) [of i] g(2) by auto
    then show ?thesis
      using ts r a by (intro exI [of _ ts]) auto
  qed
qed


text \<open>
  The report endpoints have a ceiling of their own: one client gets at most the burst and
  the configured reports per minute for the time of the run, however other clients report.
\<close>

theorem report_ceiling:
  assumes "rate_law ops" "sorted (map fst cs)" "cs \<noteq> []" "1 \<le> perMinute" "1 \<le> burst"
  shows "Minute * int (count_list
      (run_takes (Report_Allow ops) cs (NewReportRateLimiter perMinute burst)) (True, i))
    \<le> Minute * burst + perMinute * (fst (last cs) - fst (hd cs))"
proof (rule rrt.admitted_per_key [OF assms(1)])
  show "report_limiter ops (NewReportRateLimiter perMinute burst) i = lo_new ops perMinute Minute burst"
    using assms(4,5) by (simp add: report_limiter_def NewReportRateLimiter_def)
qed (use assms in \<open>simp_all add: Minute_def Second_def\<close>)

section \<open>A token bucket that keeps the law\<close>

text \<open>
  Limit, window, burst, the tokens left (scaled by the window) and the time of the last
  request.
\<close>

type_synonym bucket_state = "int \<times> gotime \<times> int \<times> int \<times> gotime option"

fun bucket_allow :: "gotime \<Rightarrow> bucket_state \<Rightarrow> bool \<times> bucket_state" where
  "bucket_allow t (limit, window, burst, x, lastT) =
     (let x' = (case lastT of None \<Rightarrow> x | Some t0 \<Rightarrow> min (window * burst) (x + limit * (t - t0))) in
      if window \<le> x' then (True, limit, window, burst, x' - window, Some t)
      else (False, limit, window, burst, x', Some t))"

definition bucket_ops :: "bucket_state limiter_ops" where
  "bucket_ops = \<lparr>lo_new = (\<lambda>limit window burst. (limit, window, burst, window * burst, None)),
     lo_allow = bucket_allow\<rparr>"

lemma bucket_run:
  assumes "0 \<le> limit" "0 < window" "0 < burst" "0 \<le> x" "sorted (t0 # ts)"
  shows "window * int (count_list (allow_run bucket_ops (limit, window, burst, x, Some t0) ts) True)
    \<le> x + limit * (last (t0 # ts) - t0)"
  using assms(4,5)
proof (induction ts arbitrary: x t0)
  case Nil
  then show ?case by simp
next
  case (Cons t ts)
  define x' where "x' = min (window * burst) (x + limit * (t - t0))"
  have x': "0 \<le> x'" "x' \<le> x + limit * (t - t0)"
    using assms(1-3) Cons.prems by (auto simp: x'_def)
  have split: "limit * (last (t # ts) - t0) = limit * (last (t # ts) - t) + limit * (t - t0)"
    by (simp add: algebra_simps)
  have run: "allow_run bucket_ops (limit, window, burst, x, Some t0) (t # ts) =
      (window \<le> x') # allow_run bucket_ops (limit, window, burst, if window \<le> x' then x' - window else x', Some t) ts"
    by (auto simp: bucket_ops_def x'_def Let_def)
  show ?case
    unfolding run using Cons.IH [of "if window \<le> x' then x' - window else x'" t] Cons.prems x' split
    by (auto simp: algebra_simps)
qed

lemma bucket_rate_law: "rate_law bucket_ops"
  unfolding rate_law_def
proof (intro allI impI, elim conjE)
  fix limit window burst :: int and ts :: "int list"
  assume *: "0 < limit" "0 < window" "0 < burst" "sorted ts" "ts \<noteq> []"
  then obtain t us where ts: "ts = t # us" by (cases ts) auto
  have "window * 1 \<le> window * burst" using * by (intro mult_left_mono) auto
  then have "allow_run bucket_ops (lo_new bucket_ops limit window burst) ts =
      True # allow_run bucket_ops (limit, window, burst, window * burst - window, Some t) us"
    by (simp add: ts bucket_ops_def)
  moreover have "window * int (count_list (allow_run bucket_ops (limit, window, burst, window * burst - window, Some t) us) True)
      \<le> window * burst - window + limit * (last ts - t)"
    using bucket_run [of limit window burst "window * burst - window" t us] * ts \<open>window * 1 \<le> window * burst\<close>
    by simp
  ultimately show "window * int (count_list (allow_run bucket_ops (lo_new bucket_ops limit window burst) ts) True)
      \<le> window * burst + limit * (last ts - hd ts)"
    by (simp add: ts algebra_simps)
qed


theorem report_ceiling_witness:
  "count_list (run_takes (Report_Allow bucket_ops) (map (\<lambda>n. (0, ''c'')) [0..<20])
     (NewReportRateLimiter 60 10)) (True, ''c'') \<le> 10"
proof -
  have "sorted (map fst (map (\<lambda>n. (0::int, ''c'')) [0..<20]))"
    by (simp add: sorted_iff_nth_mono)
  from report_ceiling [OF bucket_rate_law this, of 60 10 "''c''"] show ?thesis
    by (simp add: Minute_def Second_def last_map hd_map)
qed

section \<open>Clean-up\<close>

lemma cleanup_cur:
  "rl_cur ops (cleanup now rl) k =
     (case rl_limiters rl (limiter_key (fst k) (snd k)) of
        Some cl \<Rightarrow> if now - cl_lastSeen cl \<le> 10 * Minute then cl_limiter cl
          else fresh_limiter ops (rl_config rl) (snd k)
      | None \<Rightarrow> fresh_limiter ops (rl_config rl) (snd k))"
  by (auto simp: rl_cur_def cleanup_def split: option.split)

text \<open>
  A class whose window is longer than ten minutes: one request per hour is allowed, the
  client asks again after eleven minutes, and is let through when the clean-up came between.
\<close>

definition hourly_config :: RateLimitConfig where
  "hourly_config = DefaultRateLimitConfig\<lparr>rc_Write := \<lparr>bk_Limit = 1, bk_Window = 60 * Minute, bk_Burst = 1\<rparr>\<rparr>"

lemma cleanup_refills_long_window:
  "\<exists>rl :: bucket_state RateLimiter.
     AllowClass bucket_ops 0 ''c'' rateClassWrite (NewRateLimiter hourly_config None) = (True, rl) \<and>
     \<not> fst (AllowClass bucket_ops (11 * Minute) ''c'' rateClassWrite rl) \<and>
     fst (AllowClass bucket_ops (11 * Minute) ''c'' rateClassWrite (cleanup (11 * Minute) rl))"
  by (simp add: AllowClass_def take_token_eq rl_cur_def fresh_limiter_def NewRateLimiter_def cleanup_def
      limiter_key_def hourly_config_def fill_defaults_def configured_def DefaultRateLimitConfig_def
      effectiveWindow_def effectiveBurst_def bucket_ops_def Minute_def Second_def Let_def)

end
