(* ===== verification/Maintenance.thy ===== *)
theory Maintenance
  imports AccessControl
begin

text \<open>
  File \<open>server/middleware_maintenance.go\<close>: the read-only maintenance mode. The flag is an
  atomic and the texts are behind a lock, so a transition is two steps that requests can fall
  between; the step relation below interleaves the monitor with readers. The answers of the
  database and the file system to the probes are inputs.
\<close>

section \<open>Transitions\<close>

record maintenanceState =
  mt_active :: bool
  mt_code :: string
  mt_reason :: string
  mt_guidance :: string

definition healthy :: maintenanceState where
  "healthy = \<lparr>mt_active = False, mt_code = [], mt_reason = [], mt_guidance = []\<rparr>"

definition maintenanceCodeDatabase :: string where
  "maintenanceCodeDatabase = ''database_connection''"

definition maintenanceCodeDataDir :: string where
  "maintenanceCodeDataDir = ''data_directory_write''"

definition set_texts :: "string \<Rightarrow> string \<Rightarrow> string \<Rightarrow> maintenanceState \<Rightarrow> maintenanceState" where
  "set_texts code reason guidance m = m\<lparr>mt_code := code, mt_reason := reason, mt_guidance := guidance\<rparr>"

text \<open>
  \<open>EnterMaintenance\<close> writes the texts, then swaps the flag; the error log gets a line only
  when the flag was clear.
\<close>

definition EnterMaintenance ::
  "string \<Rightarrow> string \<Rightarrow> string \<Rightarrow> maintenanceState \<times> string list \<Rightarrow> maintenanceState \<times> string list" where
  "EnterMaintenance code reason guidance st =
     (case st of (m, elog) \<Rightarrow>
        (let m1 = set_texts code reason guidance m in
         if mt_active m1 then (m1, elog)
         else (m1\<lparr>mt_active := True\<rparr>,
               elog @ [''entering maintenance mode: '' @ sanitizeLogValue reason @ '' - '' @ sanitizeLogValue guidance])))"

definition ExitMaintenance :: "maintenanceState \<times> string list \<Rightarrow> maintenanceState \<times> string list" where
  "ExitMaintenance st =
     (case st of (m, elog) \<Rightarrow>
        if \<not> mt_active m then (m, elog)
        else (set_texts [] [] [] (m\<lparr>mt_active := False\<rparr>),
              elog @ [''leaving maintenance mode: critical condition recovered'']))"

text \<open>
  The probes: \<open>None\<close> for a subsystem that is not configured, otherwise its error, if any.
\<close>

type_synonym probe = "string option option"

definition probeCriticalSubsystems :: "probe \<Rightarrow> probe \<Rightarrow> (string \<times> string \<times> string) option" where
  "probeCriticalSubsystems db dir =
     (case db of
        Some (Some err) \<Rightarrow> Some (maintenanceCodeDatabase, ''database connection failed: '' @ err,
          ''Verify the database is reachable and that server.yml's database credentials are correct.'')
      | _ \<Rightarrow> (case dir of
          Some (Some err) \<Rightarrow> Some (maintenanceCodeDataDir, ''data directory is not writable: '' @ err,
            ''Check free disk space and the ownership and permissions of the data directory.'')
        | _ \<Rightarrow> None))"

text \<open>The errors of the probe file's write, close and removal are joined.\<close>

definition probeDataDirWritable ::
  "string \<Rightarrow> string option \<Rightarrow> string option \<Rightarrow> string option \<Rightarrow> string option \<Rightarrow> probe" where
  "probeDataDirWritable dataDir openErr writeErr closeErr removeErr =
     (if dataDir = [] then None
      else case openErr of
        Some e \<Rightarrow> Some (Some e)
      | None \<Rightarrow>
          (let errs = List.map_filter id [writeErr, closeErr, removeErr] in
           if errs = [] then Some None else Some (Some (Join errs [CHR 0x0A]))))"

definition monitor_tick :: "probe \<Rightarrow> probe \<Rightarrow> maintenanceState \<times> string list \<Rightarrow> maintenanceState \<times> string list" where
  "monitor_tick db dir st =
     (case probeCriticalSubsystems db dir of
        Some (code, reason, guidance) \<Rightarrow>
          (case EnterMaintenance code reason guidance st of (m, elog) \<Rightarrow>
             (m, elog @ [''self-healing attempt failed: '' @ sanitizeLogValue reason @ '' - '' @ sanitizeLogValue guidance]))
      | None \<Rightarrow> ExitMaintenance st)"

definition isReadOnlyMethod :: "string \<Rightarrow> bool" where
  "isReadOnlyMethod method \<longleftrightarrow> method \<in> {''GET'', ''HEAD'', ''OPTIONS'', ''TRACE''}"

text \<open>
  The middleware reads the flag and then the code; in between the state may have moved on,
  so both readings are arguments.
\<close>

definition maintenance_reply :: "string \<Rightarrow> outcome" where
  "maintenance_reply code =
     Respond 503 ([(''Retry-After'', ''30''), (''X-Maintenance-Mode'', ''true'')] @
       (if code \<noteq> [] then [(''X-Maintenance-Reason'', code)] else [])) ''MAINTENANCE''"

definition MaintenanceMiddleware :: "maintenanceState \<Rightarrow> maintenanceState \<Rightarrow> req_ctx \<Rightarrow> outcome" where
  "MaintenanceMiddleware m1 m2 c =
     (if \<not> mt_active m1 \<or> isReadOnlyMethod (rq_Method (cx_Req c)) then Next c
      else maintenance_reply (mt_code m2))"

section \<open>Interleaving\<close>

text \<open>
  The monitor between its steps: at rest, with new texts written but the flag not yet set, or
  with the flag cleared but the texts not yet removed.
\<close>

datatype monitor_pc = AtRest | Entering | Leaving

type_synonym mstate = "monitor_pc \<times> maintenanceState"

inductive mstep :: "mstate \<Rightarrow> mstate \<Rightarrow> bool" where
  enter_texts: "probeCriticalSubsystems db dir = Some (code, reason, guidance) \<Longrightarrow>
     mstep (AtRest, m) (Entering, set_texts code reason guidance m)"
| enter_flag: "mstep (Entering, m) (AtRest, m\<lparr>mt_active := True\<rparr>)"
| leave_flag: "probeCriticalSubsystems db dir = None \<Longrightarrow> mt_active m \<Longrightarrow>
     mstep (AtRest, m) (Leaving, m\<lparr>mt_active := False\<rparr>)"
| leave_texts: "mstep (Leaving, m) (AtRest, set_texts [] [] [] m)"

inductive_cases mstep_cases: "mstep s t"

definition minit :: "mstate \<Rightarrow> bool" where
  "minit s \<longleftrightarrow> s = (AtRest, healthy)"

definition minv :: "mstate \<Rightarrow> bool" where
  "minv s = (case s of (pc, m) \<Rightarrow>
     (mt_active m \<longrightarrow> mt_code m \<in> {maintenanceCodeDatabase, maintenanceCodeDataDir} \<and> mt_reason m \<noteq> []) \<and>
     (case pc of
        Entering \<Rightarrow> mt_code m \<in> {maintenanceCodeDatabase, maintenanceCodeDataDir} \<and> mt_reason m \<noteq> []
      | Leaving \<Rightarrow> \<not> mt_active m
      | AtRest \<Rightarrow> \<not> mt_active m \<longrightarrow> mt_code m = [] \<and> mt_reason m = [] \<and> mt_guidance m = []))"

lemma probe_code:
  "probeCriticalSubsystems db dir = Some (code, reason, guidance) \<Longrightarrow>
   code \<in> {maintenanceCodeDatabase, maintenanceCodeDataDir} \<and> reason \<noteq> []"
  by (auto simp: probeCriticalSubsystems_def split: option.splits)

interpretation mmon: invariant_system minit mstep minv
proof
  show "minit s \<Longrightarrow> minv s" for s
    by (simp add: minit_def minv_def healthy_def)
  show "mstep s t \<Longrightarrow> minv s \<Longrightarrow> minv t" for s t
    by (induction rule: mstep.induct) (auto simp: minv_def set_texts_def dest: probe_code)
qed



section \<open>The monitor heals\<close>

text \<open>
  One probe round decides the mode whatever it was before: with both probes passing the
  server is healthy again, with either failing it is in maintenance with that subsystem's code
  (the database first), and the round is idempotent.
\<close>

theorem monitor_tick_decides:
  assumes "\<not> mt_active m \<longrightarrow> m = healthy"
  shows "fst (monitor_tick db dir (m, elog)) =
    (case probeCriticalSubsystems db dir of
       None \<Rightarrow> healthy
     | Some (code, reason, guidance) \<Rightarrow>
         \<lparr>mt_active = True, mt_code = code, mt_reason = reason, mt_guidance = guidance\<rparr>) \<and>
    fst (monitor_tick db dir (monitor_tick db dir (m, elog))) = fst (monitor_tick db dir (m, elog))"
  using assms
  by (cases m) (auto simp: monitor_tick_def EnterMaintenance_def ExitMaintenance_def set_texts_def healthy_def Let_def
      split: option.splits)

theorem monitor_tick_decides_witness:
  "fst (monitor_tick (Some None) (Some (Some ''full'')) (healthy, [])) =
     \<lparr>mt_active = True, mt_code = maintenanceCodeDataDir, mt_reason = ''data directory is not writable: full'',
      mt_guidance = ''Check free disk space and the ownership and permissions of the data directory.''\<rparr>"
  using monitor_tick_decides [of healthy "Some None" "Some (Some ''full'')" "[]"]
  by (simp add: probeCriticalSubsystems_def)

end
