(* ===== verification/AccessChain.thy ===== *)
theory AccessChain
  imports RateLimit Maintenance
begin

text \<open>
  The part of the handler chain that \<open>buildHandler\<close> (file \<open>server/http.go\<close>) puts between a
  request and the application for access control, in the order it is registered: client
  address, allowlist, blocklist, rate limit (when configured), maintenance, country filter.
\<close>

record 'l access_config =
  ac_trust :: "TrustResolver option"
  ac_allow :: "AllowlistLookup option"
  ac_block :: "Lookup option"
  ac_geo :: "geo_reader option"
  ac_deny :: "string list"
  ac_allowCountries :: "string list"
  ac_ops :: "'l limiter_ops"

record 'l access_state =
  as_limiter :: "'l RateLimiter option"
  as_maint :: maintenanceState
  as_log :: sec_log

definition rate_stage ::
  "'l access_config \<Rightarrow> gotime \<Rightarrow> req_ctx \<Rightarrow> 'l access_state \<Rightarrow> outcome \<times> 'l access_state" where
  "rate_stage cfg now c st =
     (case as_limiter st of
        None \<Rightarrow> (Next c, st)
      | Some rl \<Rightarrow>
          (case RateLimitMiddleware (ac_ops cfg) now c (rl, as_log st) of
             (out, rl', lm) \<Rightarrow> (out, st\<lparr>as_limiter := Some rl', as_log := lm\<rparr>)))"

definition access_chain ::
  "'l access_config \<Rightarrow> gotime \<Rightarrow> http_request \<Rightarrow> 'l access_state \<Rightarrow> outcome \<times> 'l access_state" where
  "access_chain cfg now r st =
     (let c = AllowlistMiddleware (ac_allow cfg) (ClientIPMiddleware (ac_trust cfg) (new_ctx r)) in
      case BlocklistMiddleware (ac_block cfg) c (as_log st) of
        (Respond s h m, lm) \<Rightarrow> (Respond s h m, st\<lparr>as_log := lm\<rparr>)
      | (Next c1, lm) \<Rightarrow>
          (case rate_stage cfg now c1 (st\<lparr>as_log := lm\<rparr>) of
             (Respond s h m, st') \<Rightarrow> (Respond s h m, st')
           | (Next c2, st') \<Rightarrow>
               (case MaintenanceMiddleware (as_maint st') (as_maint st') c2 of
                  Respond s h m \<Rightarrow> (Respond s h m, st')
                | Next c3 \<Rightarrow> (GeoIPMiddleware (ac_geo cfg) (ac_deny cfg) (ac_allowCountries cfg) c3, st'))))"

section \<open>The client of a request\<close>

definition client_ctx :: "'l access_config \<Rightarrow> http_request \<Rightarrow> req_ctx" where
  "client_ctx cfg r = AllowlistMiddleware (ac_allow cfg) (ClientIPMiddleware (ac_trust cfg) (new_ctx r))"

definition client_allowlisted :: "'l access_config \<Rightarrow> http_request \<Rightarrow> bool" where
  "client_allowlisted cfg r \<longleftrightarrow> \<not> IsTorRequest r (ac_trust cfg) \<and>
     (\<exists>al ip. ac_allow cfg = Some al \<and>
        extractIP (ClientIPMiddleware (ac_trust cfg) (new_ctx r)) = Some ip \<and> Allowlist_Contains al (Some ip))"

lemma client_ctx_simps [mw_simps]:
  "cx_Req (client_ctx cfg r) = r"
  "cx_Tor (client_ctx cfg r) = IsTorRequest r (ac_trust cfg)"
  "extractIP (client_ctx cfg r) = extractIP (ClientIPMiddleware (ac_trust cfg) (new_ctx r))"
  "cx_Allowlisted (client_ctx cfg r) = client_allowlisted cfg r"
  by (auto simp: client_ctx_def AllowlistMiddleware_def ClientIPMiddleware_def new_ctx_def IsTorRequestContext_def
      client_allowlisted_def extractIP_def IsTorRequest_def split: option.splits)

text \<open>
  An allowlisted client is let through by blocklist, rate limit and country filter alike:
  outside maintenance, and for reads also during it, its request reaches the application, and
  neither the limiter nor the security log changes.
\<close>

theorem allowlisted_passes:
  assumes "client_allowlisted cfg r"
    and "\<not> mt_active (as_maint st) \<or> isReadOnlyMethod (rq_Method r)"
  shows "access_chain cfg now r st = (Next (client_ctx cfg r), st)"
proof -
  have "IsAllowlisted (client_ctx cfg r)"
    using assms(1) by (simp add: IsAllowlisted_def mw_simps)
  then show ?thesis
    using assms(2) unfolding access_chain_def client_ctx_def [symmetric] Let_def
    by (simp add: BlocklistMiddleware_def rate_stage_def RateLimitMiddleware_def MaintenanceMiddleware_def
        GeoIPMiddleware_def mw_simps split: option.splits)
qed

definition plain_config :: "string list \<Rightarrow> Lookup \<Rightarrow> bucket_state access_config" where
  "plain_config allow l = \<lparr>ac_trust = None, ac_allow = Some (NewAllowlistLookup allow), ac_block = Some l,
     ac_geo = None, ac_deny = [], ac_allowCountries = [], ac_ops = bucket_ops\<rparr>"

lemma peer_203:
  "extractIP (ClientIPMiddleware (ac_trust (plain_config allow l)) (new_ctx (peer_request ''203.0.113.7:999''))) =
     Some (v4InV6Prefix @ [203, 0, 113, 7])"
  by (simp add: plain_config_def ClientIPMiddleware_def extractIP_def new_ctx_def peer_request_def strip_port_def
      net_eval)

lemma not_tor_plain [simp]: "\<not> IsTorRequest r (ac_trust (plain_config allow l))"
  by (simp add: plain_config_def IsTorRequest_def)

theorem allowlisted_passes_witness:
  "\<forall>l. access_chain (plain_config (map dotted [[203, 0, 113, 7]]) l) 0 (peer_request ''203.0.113.7:999'')
      \<lparr>as_limiter = None, as_maint = healthy, as_log = []\<rparr> =
    (Next (client_ctx (plain_config (map dotted [[203, 0, 113, 7]]) l) (peer_request ''203.0.113.7:999'')),
     \<lparr>as_limiter = None, as_maint = healthy, as_log = []\<rparr>)"
proof (intro allI allowlisted_passes)
  fix l
  show "client_allowlisted (plain_config (map dotted [[203, 0, 113, 7]]) l) (peer_request ''203.0.113.7:999'')"
    unfolding client_allowlisted_def peer_203
    by (simp add: plain_config_def NewAllowlistLookup_contains allow_covers_dotted To4_def v4InV6Prefix_def
        IsTorRequest_def)
qed (simp add: healthy_def)

lemma chain_next_not_blocked:
  assumes "fst (access_chain cfg now r st) = Next c" and "ac_block cfg = Some l"
    and "extractIP (ClientIPMiddleware (ac_trust cfg) (new_ctx r)) = Some ip" and "Lookup_Contains l (Some ip)"
  shows "isPrivateIP ip \<or> client_allowlisted cfg r \<or> IsTorRequest r (ac_trust cfg)"
proof (rule ccontr)
  assume "\<not> ?thesis"
  then have "fst (BlocklistMiddleware (ac_block cfg) (client_ctx cfg r) (as_log st)) = Respond 403 [] ''errors.blocked_by_blocklist''"
    using assms(2-) by (simp add: BlocklistMiddleware_def IsAllowlisted_def IsTorRequestContext_def writeForbidden_def mw_simps)
  then show False using assms(1) unfolding access_chain_def client_ctx_def [symmetric] Let_def
    by (auto split: prod.splits)
qed



definition tor_config :: "bucket_state access_config" where
  "tor_config = \<lparr>ac_trust = Some \<lparr>listenCIDR = None, additional = [], dnsCache = Map.empty,
      OnionAddress = ''ip.example'', I2PAddress = []\<rparr>, ac_allow = None, ac_block = None,
    ac_geo = Some \<lparr>gr_IsEmpty = False, gr_Country = (\<lambda>_. Some ''xx'')\<rparr>,
    ac_deny = [''XX''], ac_allowCountries = [], ac_ops = bucket_ops\<rparr>"

text \<open>
  The onion service is exempt from the clearnet lists, but the country filter does look at
  its connection peer: with a peer that is not private and whose country is denied, a request
  for the onion address is refused.
\<close>

theorem onion_request_country_filtered:
  "IsTorRequest (peer_request ''8.8.8.8:53'') (ac_trust tor_config) \<and>
   fst (access_chain tor_config now (peer_request ''8.8.8.8:53'')
     \<lparr>as_limiter = None, as_maint = healthy, as_log = []\<rparr>) = Respond 403 [] ''errors.blocked_by_country''"
proof -
  have tor: "IsTorRequest (peer_request ''8.8.8.8:53'') (ac_trust tor_config)"
    by (simp add: tor_config_def IsTorRequest_def isTorRequest_def hostMatchesOverlayAddress_def peer_request_def
        host_of_def strip_port_def net_eval)
  have ip: "ParseIP (strip_port ''8.8.8.8:53'') = Some (v4InV6Prefix @ [8, 8, 8, 8])"
    by (simp add: strip_port_def net_eval)
  have priv: "\<not> isPrivateIP (v4InV6Prefix @ [8, 8, 8, 8])"
    by (simp add: isPrivateIP_iff IsLoopback_def IsPrivate_def IsLinkLocalUnicast_def IsLinkLocalMulticast_def
        To4_def v4InV6Prefix_def)
  have "ClientIPMiddleware (ac_trust tor_config) (new_ctx (peer_request ''8.8.8.8:53'')) =
      (new_ctx (peer_request ''8.8.8.8:53''))\<lparr>cx_Tor := True\<rparr>"
    using tor by (simp add: ClientIPMiddleware_def new_ctx_def tor_config_def)
  moreover have "extractIP ((new_ctx (peer_request ''8.8.8.8:53''))\<lparr>cx_Tor := True\<rparr>) = Some (v4InV6Prefix @ [8, 8, 8, 8])"
    using ip by (simp add: extractIP_def new_ctx_def peer_request_def)
  ultimately have "fst (access_chain tor_config now (peer_request ''8.8.8.8:53'')
     \<lparr>as_limiter = None, as_maint = healthy, as_log = []\<rparr>) = Respond 403 [] ''errors.blocked_by_country''"
    using priv unfolding access_chain_def
    by (simp add: AllowlistMiddleware_def BlocklistMiddleware_def rate_stage_def MaintenanceMiddleware_def
        GeoIPMiddleware_def healthy_def tor_config_def IsAllowlisted_def new_ctx_def country_blocked_def
        country_set_def writeForbidden_def str_simps)
  with tor show ?thesis ..
qed

end
