(* ===== verification/SafePaths.thy ===== *)
theory SafePaths
  imports GoStrings
begin

text \<open>
  File \<open>paths/safe.go\<close>: path validation and normalisation, on the model of the Unix variants of
  \<open>path.Clean\<close>, \<open>filepath.Join\<close>, \<open>filepath.Rel\<close> and \<open>filepath.Abs\<close>. A path is its bytes; what
  the cleaning does is described on the list of its elements.
\<close>

section \<open>Package filepath\<close>

definition dotdot :: string where
  "dotdot = ''..''"

definition slash :: char where
  "slash = CHR ''/''"

text \<open>One element of a path, on the elements kept so far, the last one first.\<close>

fun clean_step :: "bool \<Rightarrow> string list \<Rightarrow> string \<Rightarrow> string list" where
  "clean_step rooted st c =
     (if c = [] \<or> c = ''.'' then st
      else if c = dotdot then
        (case st of
           [] \<Rightarrow> if rooted then [] else [dotdot]
         | s # ss \<Rightarrow> if s = dotdot then dotdot # st else ss)
      else c # st)"

declare clean_step.simps [simp del]

definition clean_elems :: "bool \<Rightarrow> string list \<Rightarrow> string list" where
  "clean_elems rooted cs = rev (foldl (clean_step rooted) [] cs)"

definition rooted :: "string \<Rightarrow> bool" where
  "rooted p \<longleftrightarrow> p \<noteq> [] \<and> hd p = slash"

definition elems :: "string \<Rightarrow> string list" where
  "elems p = clean_elems (rooted p) (SplitByte p slash)"

definition render :: "bool \<Rightarrow> string list \<Rightarrow> string" where
  "render r cs = (if r then slash # Join cs [slash] else if cs = [] then ''.'' else Join cs [slash])"

definition Clean :: "string \<Rightarrow> string" where
  "Clean p = render (rooted p) (elems p)"

definition path_Join :: "string \<Rightarrow> string \<Rightarrow> string" where
  "path_Join a b = (if a = [] then (if b = [] then [] else Clean b) else Clean (a @ slash # b))"

text \<open>
  \<open>filepath.Rel\<close> walks over the common elements; it fails when the base goes up where the
  target does not.
\<close>

fun rel_elems :: "string list \<Rightarrow> string list \<Rightarrow> string list option" where
  "rel_elems [] ts = Some ts"
| "rel_elems (b # bs) [] = Some (replicate (Suc (length bs)) dotdot)"
| "rel_elems (b # bs) (t # ts) =
     (if b = t then rel_elems bs ts
      else if b = dotdot then None
      else Some (replicate (Suc (length bs)) dotdot @ t # ts))"

definition Rel :: "string \<Rightarrow> string \<Rightarrow> string option" where
  "Rel base targ =
     (if Clean base = Clean targ then Some ''.''
      else if rooted base \<noteq> rooted targ then None
      else map_option (\<lambda>cs. Join cs [slash]) (rel_elems (elems base) (elems targ)))"

text \<open>The working directory \<open>cwd\<close> is an absolute clean path.\<close>

definition Abs :: "string \<Rightarrow> string \<Rightarrow> string" where
  "Abs cwd p = (if rooted p then Clean p else path_Join cwd p)"

section \<open>Safe paths\<close>

datatype path_error = ErrPathTraversal | ErrInvalidPath | ErrPathTooLong | ErrPathOutsideBase

definition traversal_patterns :: "string list" where
  "traversal_patterns = [''..'', ''./.'', ''..'' @ [CHR 0x5C], [CHR 0x5C] @ ''..'' @ [CHR 0x5C]]"

definition encoded_patterns :: "string list" where
  "encoded_patterns = [''%2e%2e'', ''%2e%2e/'', ''..%2f'', ''%2e%2e%2f'', ''..%5c'', ''%2e%2e%5c'',
     ''..%c0%af'', ''..%c1%9c'']"

definition containsTraversal :: "string \<Rightarrow> bool" where
  "containsTraversal path \<longleftrightarrow>
     list_ex (Contains path) traversal_patterns \<or> list_ex (Contains (ToLower path)) encoded_patterns"

definition SafePath :: "string \<Rightarrow> string \<Rightarrow> path_error + string" where
  "SafePath base requestPath =
     (if base = [] then Inl ErrInvalidPath
      else if requestPath = [] then Inr base
      else
        (let cleanBase = Clean base in
         if CHR 0x00 \<in> set requestPath then Inl ErrPathTraversal
         else let cleanPath = Clean requestPath in
           if containsTraversal requestPath \<or> containsTraversal cleanPath then Inl ErrPathTraversal
           else let fullPath = Clean (path_Join cleanBase cleanPath) in
             (case Rel cleanBase fullPath of
                None \<Rightarrow> Inl ErrPathOutsideBase
              | Some rel \<Rightarrow> if HasPrefix rel ''..'' \<or> rel = ''..'' then Inl ErrPathOutsideBase
                            else Inr fullPath)))"

definition IsPathSafe :: "string \<Rightarrow> bool" where
  "IsPathSafe path \<longleftrightarrow> \<not> containsTraversal path"

text \<open>\<open>strings.ReplaceAll(path, "//", "/")\<close>, one pass from the left.\<close>

fun replace_double :: "string \<Rightarrow> string" where
  "replace_double (a # b # s) = (if a = slash \<and> b = slash then slash # replace_double s
     else a # replace_double (b # s))"
| "replace_double s = s"

lemma replace_double_shrinks: "length (replace_double s) \<le> length s"
  by (induction s rule: replace_double.induct) auto

lemma replace_double_less: "Contains s ''//'' \<Longrightarrow> length (replace_double s) < length s"
proof (induction s rule: replace_double.induct)
  case (1 a b s)
  then show ?case
    using replace_double_shrinks [of s] by (auto simp: Contains_Cons HasPrefix_def slash_def)
qed (auto simp: Contains_def HasPrefix_def)

function collapse_slashes :: "string \<Rightarrow> string" where
  "collapse_slashes p = (if Contains p ''//'' then collapse_slashes (replace_double p) else p)"
  by pat_completeness auto
termination
  by (relation "measure length") (auto intro: replace_double_less)

declare collapse_slashes.simps [simp del]

definition NormalizeURLPath :: "string \<Rightarrow> string" where
  "NormalizeURLPath path =
     (if path = [] \<or> path = ''/'' then ''/''
      else
        (let p1 = map (\<lambda>c. if c = CHR 0x5C then slash else c) path;
             p2 = collapse_slashes p1;
             p3 = (if \<not> HasPrefix p2 ''/'' then slash # p2 else p2);
             p4 = (if 1 < length p3 then TrimSuffix p3 ''/'' else p3)
         in Clean p4))"

definition ValidateFilename :: "string \<Rightarrow> path_error option" where
  "ValidateFilename name =
     (if name = [] then Some ErrInvalidPath
      else if CHR 0x00 \<in> set name then Some ErrPathTraversal
      else if slash \<in> set name \<or> CHR 0x5C \<in> set name then Some ErrInvalidPath
      else if name = ''.'' \<or> name = ''..'' then Some ErrPathTraversal
      else if HasPrefix name ''..'' then Some ErrPathTraversal
      else None)"

definition normalizePath :: "string \<Rightarrow> string" where
  "normalizePath input =
     (if input = [] then []
      else let cleaned = Trim (Clean input) ''/'' in
        if Contains cleaned ''..'' then [] else cleaned)"

definition segment_char :: "char \<Rightarrow> bool" where
  "segment_char c \<longleftrightarrow> (let n = (of_char c :: nat) in
     (97 \<le> n \<and> n \<le> 122) \<or> (48 \<le> n \<and> n \<le> 57) \<or> c = CHR ''_'' \<or> c = CHR ''-'')"

definition validatePathSegment :: "string \<Rightarrow> path_error option" where
  "validatePathSegment segment =
     (if segment = [] then Some ErrInvalidPath
      else if 64 < length segment then Some ErrPathTooLong
      else if \<not> list_all segment_char segment then Some ErrInvalidPath
      else if segment = ''.'' \<or> segment = ''..'' then Some ErrPathTraversal
      else None)"

fun validate_segments :: "string list \<Rightarrow> path_error option" where
  "validate_segments [] = None"
| "validate_segments (seg # segs) =
     (if seg = [] then validate_segments segs
      else case validatePathSegment seg of Some e \<Rightarrow> Some e | None \<Rightarrow> validate_segments segs)"

definition validatePath :: "string \<Rightarrow> path_error option" where
  "validatePath p =
     (if 2048 < length p then Some ErrPathTooLong
      else if Contains p ''..'' then Some ErrPathTraversal
      else validate_segments (SplitByte (Trim p ''/'') slash))"

definition SafePathSimple :: "string \<Rightarrow> path_error + string" where
  "SafePathSimple input = (case validatePath input of Some e \<Rightarrow> Inl e | None \<Rightarrow> Inr (normalizePath input))"

definition SafeFilePath :: "string \<Rightarrow> string \<Rightarrow> string \<Rightarrow> path_error + string" where
  "SafeFilePath cwd baseDir userPath =
     (case SafePathSimple userPath of
        Inl e \<Rightarrow> Inl e
      | Inr safe \<Rightarrow>
          (let absPath = Abs cwd (path_Join baseDir safe); absBase = Abs cwd baseDir in
           if \<not> HasPrefix absPath (absBase @ [slash]) \<and> absPath \<noteq> absBase then Inl ErrPathTraversal
           else Inr absPath))"

section \<open>Clean paths\<close>

definition plain_elem :: "string \<Rightarrow> bool" where
  "plain_elem c \<longleftrightarrow> c \<noteq> [] \<and> c \<noteq> ''.'' \<and> c \<noteq> dotdot \<and> slash \<notin> set c"

text \<open>Elements as cleaning leaves them: steps up first (none when rooted), then plain ones.\<close>

definition clean_shape :: "bool \<Rightarrow> string list \<Rightarrow> bool" where
  "clean_shape r cs \<longleftrightarrow> (\<exists>n ds. cs = replicate n dotdot @ ds \<and> list_all plain_elem ds \<and> (r \<longrightarrow> n = 0))"

lemma dotdot_elem: "dotdot \<noteq> []" "dotdot \<noteq> ''.''" "slash \<notin> set dotdot" "\<not> plain_elem dotdot"
  by (simp_all add: dotdot_def slash_def plain_elem_def)

lemma clean_step_plain [simp]: "plain_elem c \<Longrightarrow> clean_step r st c = c # st"
  by (simp add: clean_step.simps plain_elem_def)

lemma foldl_plain: "list_all plain_elem ds \<Longrightarrow> foldl (clean_step r) st ds = rev ds @ st"
  by (induction ds arbitrary: st) auto

lemma foldl_up: "foldl (clean_step False) (replicate m dotdot) (replicate n dotdot) = replicate (n + m) dotdot"
proof (induction n arbitrary: m)
  case (Suc n)
  have "clean_step False (replicate m dotdot) dotdot = replicate (Suc m) dotdot"
    using dotdot_elem by (cases m) (auto simp: clean_step.simps)
  then show ?case using Suc [of "Suc m"] by simp
qed simp

lemma clean_elems_shape: "clean_shape r cs \<Longrightarrow> clean_elems r cs = cs"
  using foldl_up [of 0] by (auto simp: clean_shape_def clean_elems_def foldl_plain)

lemma clean_step_shape:
  assumes "clean_shape r (rev st)" "slash \<notin> set c"
  shows "clean_shape r (rev (clean_step r st c))"
proof -
  obtain n ds where st: "rev st = replicate n dotdot @ ds" "list_all plain_elem ds" "r \<longrightarrow> n = 0"
    using assms(1) by (auto simp: clean_shape_def)
  then have st': "st = rev ds @ replicate n dotdot" by (metis rev_append rev_replicate rev_rev_ident)
  show ?thesis
  proof (cases "c = [] \<or> c = ''.'' \<or> plain_elem c")
    case True
    then show ?thesis
    proof (elim disjE)
      assume c: "plain_elem c"
      then have "rev (clean_step r st c) = replicate n dotdot @ ds @ [c]" using st by simp
      moreover have "list_all plain_elem (ds @ [c])" using st(2) c by simp
      ultimately show ?thesis using st(3) unfolding clean_shape_def by blast
    qed (use assms(1) in \<open>simp_all add: clean_step.simps\<close>)
  next
    case False
    then have c: "c = dotdot" using assms(2) by (auto simp: plain_elem_def)
    show ?thesis
    proof (cases "ds = []")
      case True
      have "clean_step r st c = (if r then [] else replicate (Suc n) dotdot)"
        using True st st' c dotdot_elem by (cases n) (auto simp: clean_step.simps)
      then have "rev (clean_step r st c) = replicate (if r then 0 else Suc n) dotdot @ []"
        by (simp add: replicate_append_same)
      then show ?thesis unfolding clean_shape_def by (metis list.pred_inject(1))
    next
      case False
      then obtain es e where ds: "ds = es @ [e]" using rev_exhaust by blast
      then have "clean_step r st c = rev es @ replicate n dotdot"
        using st st' c dotdot_elem by (auto simp: clean_step.simps plain_elem_def)
      then have "rev (clean_step r st c) = replicate n dotdot @ es" by simp
      moreover have "list_all plain_elem es" using st(2) ds by simp
      ultimately show ?thesis using st(3) unfolding clean_shape_def by blast
    qed
  qed
qed

lemma foldl_shape:
  "clean_shape r (rev st) \<Longrightarrow> \<forall>c \<in> set cs. slash \<notin> set c \<Longrightarrow> clean_shape r (rev (foldl (clean_step r) st cs))"
  by (induction cs arbitrary: st) (auto intro: clean_step_shape)

lemma elems_shape: "clean_shape (rooted p) (elems p)"
  unfolding elems_def clean_elems_def
  by (rule foldl_shape) (auto simp: clean_shape_def dest: SplitByte_pieces)

lemma shape_elem:
  assumes "clean_shape r cs" "c \<in> set cs"
  shows "c = dotdot \<or> plain_elem c"
proof -
  obtain n ds where "cs = replicate n dotdot @ ds" "list_all plain_elem ds"
    using assms(1) by (auto simp: clean_shape_def)
  then show ?thesis using assms(2) by (auto simp: list_all_iff)
qed

lemma shape_no_slash: "clean_shape r cs \<Longrightarrow> c \<in> set cs \<Longrightarrow> slash \<notin> set c \<and> c \<noteq> []"
  using shape_elem dotdot_elem by (fastforce simp: plain_elem_def)

lemma elems_render: "clean_shape r cs \<Longrightarrow> elems (render r cs) = cs \<and> rooted (render r cs) = r"
proof -
  assume sh: "clean_shape r cs"
  note ns = shape_no_slash [OF sh]
  have split: "SplitByte (Join cs [slash]) slash = (if cs = [] then [[]] else cs)"
    using ns SplitByte_Join [of cs slash] by (cases "cs = []") simp_all
  have nr: "\<not> rooted (Join cs [slash])" if "cs \<noteq> []"
  proof -
    obtain c ds where cs: "cs = c # ds" using \<open>cs \<noteq> []\<close> by (cases cs) auto
    then obtain x xs where "c = x # xs" "x \<noteq> slash" using ns [of c] by (cases c) auto
    then show ?thesis using cs by (simp add: rooted_def Join_Cons_head)
  qed
  have nil: "clean_step r' st [] = st" for r' st by (simp add: clean_step.simps)
  show ?thesis
  proof (cases r)
    case True
    then show ?thesis
      using split clean_elems_shape [OF sh] nil
      by (auto simp: render_def elems_def rooted_def clean_elems_def clean_shape_def)
  next
    case False
    have "elems ''.'' = []"
      by (simp add: elems_def rooted_def clean_elems_def clean_step.simps slash_def)
    moreover have "\<not> rooted ''.''" by (simp add: rooted_def slash_def)
    ultimately show ?thesis
      using False split clean_elems_shape [OF sh] nr by (auto simp: render_def elems_def)
  qed
qed

lemma elems_Clean [simp]: "elems (Clean p) = elems p"
  and rooted_Clean [simp]: "rooted (Clean p) = rooted p"
  using elems_render [OF elems_shape] by (simp_all add: Clean_def)

lemma Clean_Clean [simp]: "Clean (Clean p) = Clean p"
  by (simp add: Clean_def [of "Clean p"]) (simp add: Clean_def)

section \<open>Containment\<close>

lemma Join_infix: "p \<in> set ps \<Longrightarrow> \<exists>a b. Join ps sep = a @ p @ b"
proof (induction ps sep rule: Join.induct)
  case (3 p' q ps sep)
  show ?case
  proof (cases "p = p'")
    case True
    then show ?thesis by (metis Join.simps(3) append_Nil)
  next
    case False
    with 3 obtain a b where "Join (q # ps) sep = a @ p @ b" by auto
    then have "Join (p' # q # ps) sep = (p' @ sep @ a) @ p @ b" by simp
    then show ?thesis by blast
  qed
qed (auto intro: exI [of _ "[]"])

lemma split_Contains: "p \<in> set (SplitByte s c) \<Longrightarrow> Contains p sub \<Longrightarrow> Contains s sub"
proof -
  assume p: "p \<in> set (SplitByte s c)" and "Contains p sub"
  then obtain a b where "p = a @ sub @ b" by (auto simp: Contains_iff)
  moreover obtain a' b' where "s = a' @ p @ b'"
    using Join_infix [OF p, of "[c]"] by auto
  ultimately have "s = (a' @ a) @ sub @ (b @ b')" by simp
  then show ?thesis unfolding Contains_iff by blast
qed

lemma foldl_no_up:
  "dotdot \<notin> set cs \<Longrightarrow> foldl (clean_step r) st cs = rev (filter (\<lambda>c. c \<noteq> [] \<and> c \<noteq> ''.'') cs) @ st"
  by (induction cs arbitrary: st) (auto simp: clean_step.simps)

lemma elems_no_up:
  assumes "\<not> Contains p ''..''"
  shows "elems p = filter (\<lambda>c. c \<noteq> [] \<and> c \<noteq> ''.'') (SplitByte p slash)" "dotdot \<notin> set (SplitByte p slash)"
    "list_all plain_elem (elems p)" "\<forall>c \<in> set (elems p). \<not> Contains c ''..''"
proof -
  have nc: "\<not> Contains c ''..''" if "c \<in> set (SplitByte p slash)" for c
    using split_Contains [OF that] assms by blast
  have "Contains dotdot ''..''" by (auto simp: dotdot_def Contains_iff)
  with nc show nd: "dotdot \<notin> set (SplitByte p slash)" by blast
  then show e: "elems p = filter (\<lambda>c. c \<noteq> [] \<and> c \<noteq> ''.'') (SplitByte p slash)"
    by (simp add: elems_def clean_elems_def foldl_no_up)
  show "list_all plain_elem (elems p)"
    using nd unfolding e by (auto simp: list_all_iff plain_elem_def dest: SplitByte_pieces)
  show "\<forall>c \<in> set (elems p). \<not> Contains c ''..''" using nc unfolding e by auto
qed

lemma elems_Join:
  assumes "a \<noteq> []" "\<not> Contains b ''..''"
  shows "elems (path_Join a b) = elems a @ elems b" "rooted (path_Join a b) = rooted a"
proof -
  have r: "rooted (a @ slash # b) = rooted a" using assms(1) by (simp add: rooted_def)
  have "elems (a @ slash # b) = elems a @ elems b"
    unfolding elems_def [of "a @ slash # b"] r SplitByte_append clean_elems_def foldl_append
      foldl_no_up [OF elems_no_up(2) [OF assms(2)]]
    by (simp add: elems_no_up(1) [OF assms(2)]) (simp add: elems_def clean_elems_def)
  then show "elems (path_Join a b) = elems a @ elems b" using assms(1) by (simp add: path_Join_def)
  show "rooted (path_Join a b) = rooted a" using assms(1) r by (simp add: path_Join_def)
qed

lemma Clean_not_Nil [simp]: "Clean p \<noteq> []"
proof -
  have "Join cs [slash] \<noteq> []" if "cs \<noteq> []" "\<forall>c \<in> set cs. c \<noteq> []" for cs
    using that by (cases cs; cases "tl cs") auto
  moreover have "\<forall>c \<in> set (elems p). c \<noteq> []" using shape_no_slash [OF elems_shape] by blast
  ultimately show ?thesis by (auto simp: Clean_def render_def)
qed

lemma render_inj:
  "clean_shape r cs \<Longrightarrow> clean_shape r' cs' \<Longrightarrow> render r cs = render r' cs' \<Longrightarrow> cs = cs' \<and> r = r'"
  by (metis elems_render)

lemma Clean_eq_iff: "Clean p = Clean q \<longleftrightarrow> rooted p = rooted q \<and> elems p = elems q"
  using render_inj [OF elems_shape elems_shape] by (auto simp: Clean_def)

lemma rel_elems_extend: "rel_elems bs (bs @ xs) = Some xs"
  by (induction bs) auto

lemma Join_not_up:
  assumes "xs \<noteq> []" "list_all plain_elem xs" "\<forall>c \<in> set xs. \<not> Contains c ''..''"
  shows "\<not> HasPrefix (Join xs [slash]) ''..''"
proof -
  obtain x ys where xs: "xs = x # ys" using assms(1) by (cases xs) auto
  then have x: "plain_elem x" "\<not> Contains x ''..''" using assms(2,3) by auto
  then obtain c cs where c: "x = c # cs" by (cases x) (auto simp: plain_elem_def)
  show ?thesis
  proof (cases cs)
    case Nil
    then have "c \<noteq> CHR ''.''" using x(1) c by (auto simp: plain_elem_def)
    then show ?thesis using xs c by (simp add: Join_Cons_head HasPrefix_def)
  next
    case (Cons d ds)
    then have "\<not> HasPrefix x ''..''" using x(2) c by (auto simp: Contains_def)
    then show ?thesis using xs c Cons by (auto simp: Join_Cons_head HasPrefix_def)
  qed
qed

lemma no_traversal_no_up: "\<not> containsTraversal p \<Longrightarrow> \<not> Contains p ''..''"
  by (simp add: containsTraversal_def traversal_patterns_def)

text \<open>
  \<open>SafePath\<close> keeps every accepted request inside its base directory, and refuses nothing
  else: a request without a traversal pattern gives the clean path whose elements are those of
  the base followed by those of the request, none of which goes up; every other request is
  refused as a traversal, so the final check of the result never fires.
\<close>

theorem SafePath_exact:
  assumes "base \<noteq> []" "req \<noteq> []"
  shows "SafePath base req =
    (if CHR 0x00 \<in> set req \<or> containsTraversal req \<or> containsTraversal (Clean req) then Inl ErrPathTraversal
     else Inr (render (rooted base) (elems base @ elems req))) \<and>
    (containsTraversal req \<or> list_all plain_elem (elems req))"
proof (cases "CHR 0x00 \<in> set req \<or> containsTraversal req \<or> containsTraversal (Clean req)")
  case True
  then show ?thesis
    using assms elems_no_up(3) [of req] no_traversal_no_up [of req] by (auto simp: SafePath_def Let_def)
next
  case False
  let ?full = "Clean (path_Join (Clean base) (Clean req))"
  have up: "\<not> Contains (Clean req) ''..''" "\<not> Contains req ''..''" using False no_traversal_no_up by auto
  note j = elems_Join [OF Clean_not_Nil up(1), of base]
  have full: "?full = render (rooted base) (elems base @ elems req)"
    using j by (simp add: Clean_def [of "path_Join (Clean base) (Clean req)"])
  have rel: "Rel (Clean base) ?full =
      Some (if elems req = [] then ''.'' else Join (elems req) [slash])"
    using j by (auto simp: Rel_def Clean_eq_iff rel_elems_extend)
  have "\<not> HasPrefix (if elems req = [] then ''.'' else Join (elems req) [slash]) ''..''"
    using Join_not_up [of "elems req"] elems_no_up(3,4) [OF up(2)] by (auto simp: HasPrefix_def)
  then show ?thesis
    using False assms rel full elems_no_up(3) [OF up(2)] by (auto simp: SafePath_def Let_def HasPrefix_def)
qed

theorem SafePath_exact_witness:
  "SafePath ''/srv/www/'' ''css//site.css'' = Inr ''/srv/www/css/site.css''"
proof -
  have "Clean ''css//site.css'' = ''css/site.css''"
    "rooted ''/srv/www/''" "elems ''/srv/www/'' = [''srv'', ''www'']"
    "elems ''css//site.css'' = [''css'', ''site.css'']"
    by (simp_all add: Clean_def elems_def rooted_def clean_elems_def clean_step.simps render_def slash_def dotdot_def)
  then show ?thesis
    using SafePath_exact [of "''/srv/www/''" "''css//site.css''"]
    by (simp add: containsTraversal_def traversal_patterns_def encoded_patterns_def Contains_def HasPrefix_def
        ToLower_def lower_char_def char_of_literal render_def slash_def)
qed

section \<open>URL paths\<close>

lemma collapse_id: "\<not> Contains p ''//'' \<Longrightarrow> collapse_slashes p = p"
  by (simp add: collapse_slashes.simps)

lemma collapse_no_double: "\<not> Contains (collapse_slashes p) ''//''"
proof (induction p rule: collapse_slashes.induct)
  case (1 p)
  then show ?case by (subst collapse_slashes.simps) auto
qed

lemma replace_double_set: "set (replace_double s) \<subseteq> set s"
  by (induction s rule: replace_double.induct) auto

lemma collapse_set: "set (collapse_slashes p) \<subseteq> set p"
proof (induction p rule: collapse_slashes.induct)
  case (1 p)
  then show ?case
    using replace_double_set [of p] by (subst collapse_slashes.simps) auto
qed

lemma set_Join: "set (Join cs sep) \<subseteq> (\<Union>c \<in> set cs. set c) \<union> set sep"
  by (induction cs sep rule: Join.induct) auto

lemma clean_step_set: "(\<Union>c \<in> set (clean_step r st c'). set c) \<subseteq> (\<Union>c \<in> set st. set c) \<union> set c' \<union> {CHR ''.''}"
  by (auto simp: clean_step.simps dotdot_def split: list.splits if_splits)

lemma foldl_set:
  "(\<Union>c \<in> set (foldl (clean_step r) st cs). set c) \<subseteq> (\<Union>c \<in> set st. set c) \<union> (\<Union>c \<in> set cs. set c) \<union> {CHR ''.''}"
proof (induction cs arbitrary: st)
  case Nil
  show ?case by (simp add: subset_insertI)
next
  case (Cons c cs)
  show ?case using Cons [of "clean_step r st c"] clean_step_set [of r st c] by auto
qed

lemma SplitByte_set: "c \<in> set (SplitByte p s) \<Longrightarrow> set c \<subseteq> set p"
  using Join_infix [of c "SplitByte p s" "[s]"] by auto

lemma set_Clean: "set (Clean p) \<subseteq> set p \<union> {slash, CHR ''.''}"
proof -
  have "(\<Union>c \<in> set (elems p). set c) \<subseteq> set p \<union> {CHR ''.''}"
    using foldl_set [of "rooted p" "[]" "SplitByte p slash"] SplitByte_set [of _ p slash]
    by (auto simp: elems_def clean_elems_def)
  then have "set (Join (elems p) [slash]) \<subseteq> set p \<union> {slash, CHR ''.''}"
    using set_Join [of "elems p" "[slash]", simplified] by blast
  then show ?thesis by (auto simp: Clean_def render_def split: if_splits)
qed

lemma render_no_double:
  assumes "clean_shape True cs"
  shows "\<not> Contains (render True cs) ''//''" "cs \<noteq> [] \<Longrightarrow> last (render True cs) \<noteq> slash"
proof -
  have ne: "\<forall>c \<in> set cs. c \<noteq> [] \<and> slash \<notin> set c" using shape_no_slash [OF assms] by blast
  have base: "\<not> Contains (slash # x @ t) ''//''"
    if "x \<noteq> []" "slash \<notin> set x" "\<not> Contains t ''//''" for x t
  proof -
    have "Contains (x @ t) ''//'' \<longleftrightarrow> Contains t ''//''" if "slash \<notin> set x" for x
      using that by (induction x) (auto simp: Contains_Cons HasPrefix_def slash_def)
    then show ?thesis using that by (cases x) (auto simp: Contains_Cons HasPrefix_def slash_def)
  qed
  have "\<not> Contains (slash # Join cs [slash]) ''//'' \<and> (cs \<noteq> [] \<longrightarrow> last (slash # Join cs [slash]) \<noteq> slash)"
    using ne
  proof (induction cs)
    case Nil
    then show ?case by (simp add: Contains_def HasPrefix_def)
  next
    case (Cons c cs)
    have nil: "\<not> Contains [] ''//''" by (simp add: Contains_def)
    show ?case
    proof (cases cs)
      case Nil
      have "last c \<noteq> slash" using Cons.prems by (metis last_in_set list.set_intros(1))
      then show ?thesis using Nil base [of c "[]"] Cons.prems nil by auto
    next
      case (Cons d ds)
      have j: "Join (c # cs) [slash] = c @ slash # Join cs [slash]" using Cons by simp
      show ?thesis
        unfolding j using base [of c "slash # Join cs [slash]"] Cons.IH Cons.prems \<open>cs = d # ds\<close> by auto
    qed
  qed
  then show "\<not> Contains (render True cs) ''//''" "cs \<noteq> [] \<Longrightarrow> last (render True cs) \<noteq> slash"
    by (simp_all add: render_def)
qed

lemma Normalize_rooted_clean:
  assumes "clean_shape True cs" "CHR 0x5C \<notin> set (render True cs)"
  shows "NormalizeURLPath (render True cs) = render True cs"
proof (cases "cs = []")
  case True
  then show ?thesis by (simp add: NormalizeURLPath_def render_def slash_def)
next
  case False
  let ?p = "render True cs"
  have p: "map (\<lambda>c. if c = CHR 0x5C then slash else c) ?p = ?p"
    using assms(2) by (induction ?p) (auto intro!: map_idI)
  have "collapse_slashes ?p = ?p" using render_no_double(1) [OF assms(1)] by (rule collapse_id)
  moreover have "HasPrefix ?p ''/''" by (simp add: render_def HasPrefix_def slash_def)
  moreover have "TrimSuffix ?p ''/'' = ?p"
    using render_no_double(2) [OF assms(1) False]
    by (auto simp: TrimSuffix_def HasSuffix_iff slash_def)
  moreover have "Clean ?p = ?p" using elems_render [OF assms(1)] by (simp add: Clean_def)
  moreover have "?p \<noteq> []" "?p \<noteq> ''/''"
    using render_no_double(2) [OF assms(1) False] by (auto simp: render_def slash_def)
  ultimately show ?thesis
    unfolding NormalizeURLPath_def Let_def p by simp
qed

text \<open>
  Normalising a URL path is idempotent, so the redirect to the normalised path is followed
  by no second one; the result is rooted, has no empty, dot or upward element, no backslash
  and no slash at its end unless it is the root.
\<close>

theorem NormalizeURLPath_idem:
  "NormalizeURLPath (NormalizeURLPath p) = NormalizeURLPath p \<and>
   (\<exists>cs. NormalizeURLPath p = render True cs \<and> list_all plain_elem cs) \<and>
   CHR 0x5C \<notin> set (NormalizeURLPath p)"
proof -
  have "\<exists>cs. NormalizeURLPath p = render True cs \<and> clean_shape True cs \<and> CHR 0x5C \<notin> set (render True cs)"
  proof (cases "p = [] \<or> p = ''/''")
    case True
    then show ?thesis
      by (intro exI [of _ "[]"]) (simp add: NormalizeURLPath_def render_def clean_shape_def slash_def)
  next
    case False
    define p1 where "p1 = map (\<lambda>c. if c = CHR 0x5C then slash else c) p"
    define p2 where "p2 = collapse_slashes p1"
    define p3 where "p3 = (if \<not> HasPrefix p2 ''/'' then slash # p2 else p2)"
    define p4 where "p4 = (if 1 < length p3 then TrimSuffix p3 ''/'' else p3)"
    have n: "NormalizeURLPath p = Clean p4"
      unfolding NormalizeURLPath_def Let_def if_not_P [OF False] p4_def p3_def p2_def p1_def by (rule refl)
    have bs: "CHR 0x5C \<notin> set p1" by (auto simp: p1_def slash_def)
    have "p3 \<noteq> []" "hd p3 = slash" by (auto simp: p3_def HasPrefix_iff slash_def)
    moreover have "CHR 0x5C \<notin> set p3" using bs collapse_set [of p1] by (auto simp: p3_def p2_def slash_def)
    ultimately have p4: "rooted p4" "CHR 0x5C \<notin> set p4"
      by (auto simp: p4_def rooted_def TrimSuffix_def neq_Nil_conv take_Cons' dest: in_set_takeD split: if_splits)
    have "Clean p4 = render True (elems p4)" "clean_shape True (elems p4)"
      using p4(1) elems_shape [of p4] by (simp_all add: Clean_def)
    moreover have "CHR 0x5C \<notin> set (Clean p4)" using set_Clean [of p4] p4(2) by (auto simp: slash_def)
    ultimately show ?thesis using n by metis
  qed
  then obtain cs where cs: "NormalizeURLPath p = render True cs" "clean_shape True cs" "CHR 0x5C \<notin> set (render True cs)"
    by blast
  then show ?thesis using Normalize_rooted_clean [OF cs(2,3)] by (auto simp: clean_shape_def)
qed

section \<open>File paths below a directory\<close>

lemma SafeFilePath_root:
  "SafeFilePath ''/home'' ''/'' ''etc'' = Inl ErrPathTraversal"
  by (simp add: SafeFilePath_def SafePathSimple_def validatePath_def validatePathSegment_def normalizePath_def
      Abs_def path_Join_def Clean_def elems_def rooted_def clean_elems_def clean_step.simps render_def slash_def
      dotdot_def segment_char_def str_simps)

lemma validate_segments_None:
  "validate_segments segs = None \<Longrightarrow> seg \<in> set segs \<Longrightarrow> seg \<noteq> [] \<Longrightarrow> validatePathSegment seg = None"
  by (induction segs) (auto split: if_splits option.splits)

text \<open>Cleaning a relative path first does not change where it leads.\<close>

lemma foldl_clean_elems: "foldl (clean_step True) st (clean_elems False cs) = foldl (clean_step True) st cs"
  if "\<forall>c \<in> set cs. slash \<notin> set c"
  using that
proof (induction cs rule: rev_induct)
  case Nil
  then show ?case by (simp add: clean_elems_def)
next
  case (snoc c cs)
  define S where "S = foldl (clean_step False) [] cs"
  have IH: "foldl (clean_step True) st (rev S) = foldl (clean_step True) st cs"
    using snoc by (simp add: S_def clean_elems_def)
  have sh: "clean_shape False (rev S)"
    unfolding S_def using snoc.prems by (intro foldl_shape) (auto simp: clean_shape_def)
  have "foldl (clean_step True) st (rev (clean_step False S c)) =
      clean_step True (foldl (clean_step True) st (rev S)) c"
  proof (cases "c = dotdot \<and> S \<noteq> [] \<and> hd S \<noteq> dotdot")
    case True
    then obtain s ss where S: "S = s # ss" "s \<noteq> dotdot" by (cases S) auto
    then have "s \<in> set (rev S)" by simp
    then have "plain_elem s" using shape_elem [OF sh] S(2) by blast
    then show ?thesis using True S dotdot_elem by (simp add: clean_step.simps plain_elem_def)
  next
    case False
    then show ?thesis by (cases S) (auto simp: clean_step.simps)
  qed
  then show ?case by (simp add: clean_elems_def S_def [symmetric] IH)
qed

lemma elems_below:
  assumes "cwd \<noteq> []" "rooted cwd" "\<not> rooted q"
  shows "elems (path_Join cwd q) = rev (foldl (clean_step True) (rev (elems cwd)) (elems q))"
proof -
  have r: "rooted (cwd @ slash # q)" using assms by (simp add: rooted_def)
  have "foldl (clean_step True) st (elems q) = foldl (clean_step True) st (SplitByte q slash)" for st
    using assms(3) foldl_clean_elems [of "SplitByte q slash" st] by (auto simp: elems_def dest: SplitByte_pieces)
  then show ?thesis
    using assms r by (simp add: path_Join_def) (simp add: elems_def clean_elems_def SplitByte_append)
qed

text \<open>
  C11. A path that passes the strict validation consists of at most 64-byte segments of lower
  case letters, digits, underscores and hyphens, and the file path built from it lies below
  the base directory: its elements are those of the absolute base followed by plain ones.
\<close>

theorem SafeFilePath_contained:
  assumes "SafeFilePath cwd base p = Inr full" "base \<noteq> []" "rooted cwd"
  shows "\<exists>xs. elems full = elems (Abs cwd base) @ xs \<and> rooted full \<and> list_all plain_elem xs \<and>
    (\<forall>seg \<in> set (SplitByte (Trim p ''/'') slash). length seg \<le> 64 \<and> list_all segment_char seg)"
proof -
  obtain safe where safe: "SafePathSimple p = Inr safe" and full: "full = Abs cwd (path_Join base safe)"
    using assms(1) by (auto simp: SafeFilePath_def Let_def split: sum.splits if_splits)
  then have v: "validatePath p = None" and n: "safe = normalizePath p"
    by (auto simp: SafePathSimple_def split: option.splits)
  have up: "\<not> Contains safe ''..''" by (auto simp: n normalizePath_def Let_def Contains_def)
  note j = elems_Join [OF assms(2) up]
  have cwd: "cwd \<noteq> []" using assms(3) by (auto simp: rooted_def)
  have "rooted (path_Join cwd q)" for q using assms(3) cwd by (simp add: path_Join_def rooted_def [of "cwd @ _"]) (simp add: rooted_def)
  then have "rooted full" by (simp add: full Abs_def)
  moreover have "elems full = elems (Abs cwd base) @ elems safe"
    using j elems_no_up(3) [OF up] elems_below [OF cwd assms(3)]
    by (auto simp: full Abs_def foldl_plain)
  moreover have "length s \<le> 64 \<and> list_all segment_char s" if s: "s \<in> set (SplitByte (Trim p ''/'') slash)" for s
    using v validate_segments_None [OF _ s]
    by (cases "s = []") (auto simp: validatePath_def validatePathSegment_def split: if_splits)
  ultimately show ?thesis
    using elems_no_up(3) [OF up] by auto
qed

theorem SafeFilePath_contained_witness:
  "\<exists>full xs. SafeFilePath ''/home'' ''data'' ''/etc/x_1/'' = Inr full \<and> elems full = elems (Abs ''/home'' ''data'') @ xs"
proof -
  have s: "SafeFilePath ''/home'' ''data'' ''/etc/x_1/'' = Inr ''/home/data/etc/x_1''"
    by (simp add: SafeFilePath_def SafePathSimple_def validatePath_def validatePathSegment_def normalizePath_def
        Abs_def path_Join_def Clean_def elems_def rooted_def clean_elems_def clean_step.simps render_def slash_def
        dotdot_def segment_char_def str_simps)
  have "rooted ''/home''" by (simp add: rooted_def slash_def)
  from SafeFilePath_contained [OF s _ this] s show ?thesis by auto
qed

end
