(* ===== verification/Csrf.thy ===== *)
theory Csrf
  imports AccessControl SafePaths
begin

unbundle bit_operations_syntax

text \<open>
  File \<open>server/middleware_csrf.go\<close>: double-submit cookies. The random source is a parameter
  that fills a buffer of the requested length or fails; the cookies and the form of a request
  are the values \<open>net/http\<close> parsed (\<open>None\<close> for a form that does not parse). The page of a
  rejection is represented by its status and error code.
\<close>

section \<open>Configuration and requests\<close>

record CSRFConfig =
  cf_Enabled :: bool
  cf_TokenLength :: int
  cf_CookieName :: string
  cf_HeaderName :: string
  cf_FormField :: string
  cf_Secure :: "bool option"
  cf_SameSite :: string
  cf_ExemptPaths :: "string list"

definition DefaultCSRFConfig :: CSRFConfig where
  "DefaultCSRFConfig = \<lparr>cf_Enabled = True, cf_TokenLength = 32, cf_CookieName = ''csrf_token'',
     cf_HeaderName = ''X-CSRF-Token'', cf_FormField = ''csrf_token'', cf_Secure = None,
     cf_SameSite = ''Strict'',
     cf_ExemptPaths = [''/api/v1/webhooks/*'', ''/api/v1/server/reports/*'', ''/debug/*'',
       ''/server/consent'', ''/announcements/dismiss'']\<rparr>"

record form_request =
  fr_Ctx :: req_ctx
  fr_Cookies :: "(string \<times> string) list"
  fr_Form :: "(string \<times> string) list option"

abbreviation fr_Req :: "form_request \<Rightarrow> http_request" where
  "fr_Req r \<equiv> cx_Req (fr_Ctx r)"

definition Cookie :: "form_request \<Rightarrow> string \<Rightarrow> string option" where
  "Cookie r name = map_of (fr_Cookies r) name"

record csrf_cookie =
  ck_Name :: string
  ck_Value :: string
  ck_Path :: string
  ck_Secure :: bool
  ck_HttpOnly :: bool
  ck_SameSite :: string

section \<open>Tokens\<close>

text \<open>\<open>base64.RawURLEncoding\<close>: three bytes give four characters, without padding.\<close>

definition b64_alphabet :: string where
  "b64_alphabet = ''ABCDEFGHIJKLMNOPQRSTUVWXYZabcdefghijklmnopqrstuvwxyz0123456789-_''"

definition b64_char :: "nat \<Rightarrow> char" where
  "b64_char n = b64_alphabet ! (n mod 64)"

fun RawURLEncoding :: "u8 list \<Rightarrow> string" where
  "RawURLEncoding [] = []"
| "RawURLEncoding [a] = (let n = unat a * 16 in [b64_char (n div 64), b64_char n])"
| "RawURLEncoding [a, b] =
     (let n = (unat a * 256 + unat b) * 4 in [b64_char (n div 4096), b64_char (n div 64), b64_char n])"
| "RawURLEncoding (a # b # c # bs) =
     (let n = (unat a * 256 + unat b) * 256 + unat c
      in b64_char (n div 262144) # b64_char (n div 4096) # b64_char (n div 64) # b64_char n # RawURLEncoding bs)"

type_synonym random_source = "nat \<Rightarrow> u8 list option"

text \<open>\<open>None\<close> is the panic of the source when the random source fails.\<close>

definition generateCSRFToken :: "random_source \<Rightarrow> int \<Rightarrow> string option" where
  "generateCSRFToken rnd len = map_option RawURLEncoding (rnd (nat (if len \<le> 0 then 32 else len)))"

definition setCSRFCookieWithToken :: "CSRFConfig \<Rightarrow> bool \<Rightarrow> string \<Rightarrow> csrf_cookie" where
  "setCSRFCookieWithToken cfg secure token = \<lparr>ck_Name = cf_CookieName cfg, ck_Value = token,
     ck_Path = ''/'', ck_Secure = secure, ck_HttpOnly = False, ck_SameSite = cf_SameSite cfg\<rparr>"

text \<open>The token in effect and the cookies to set.\<close>

definition ensureCSRFCookie ::
  "random_source \<Rightarrow> form_request \<Rightarrow> CSRFConfig \<Rightarrow> bool \<Rightarrow> (string \<times> csrf_cookie list) option" where
  "ensureCSRFCookie rnd r cfg secure =
     (case Cookie r (cf_CookieName cfg) of
        Some v \<Rightarrow> Some (v, [])
      | None \<Rightarrow> map_option (\<lambda>token. (token, [setCSRFCookieWithToken cfg secure token]))
                   (generateCSRFToken rnd (cf_TokenLength cfg)))"

section \<open>Bypasses\<close>

definition hasBearerAuth :: "http_request \<Rightarrow> bool" where
  "hasBearerAuth r =
     (if HasPrefix (Header_Get (rq_Header r) ''Authorization'') ''Bearer '' then True
      else if Header_Get (rq_Header r) ''X-API-Token'' \<noteq> [] then True
      else False)"

lemma Index_Some_nonempty: "Index s sub = Some i \<Longrightarrow> sub \<noteq> [] \<Longrightarrow> s \<noteq> []"
  by (cases s) auto

text \<open>\<open>strings.Split\<close> for a separator of several bytes.\<close>

function SplitStr :: "string \<Rightarrow> string \<Rightarrow> string list" where
  "SplitStr s sep =
     (if sep = [] then [s]
      else case Index s sep of
        None \<Rightarrow> [s]
      | Some i \<Rightarrow> take i s # SplitStr (drop (i + length sep) s) sep)"
  by pat_completeness auto
termination
  by (relation "measure (\<lambda>(s, sep). length s)") (auto dest: Index_Some_nonempty)

declare SplitStr.simps [simp del]

definition matchPath :: "string \<Rightarrow> string \<Rightarrow> bool" where
  "matchPath pat requestPath =
     (let pat = Clean (''/'' @ pat); requestPath = Clean (''/'' @ requestPath) in
      if pat = requestPath then True
      else if HasSuffix pat ''/*'' \<and> HasPrefix requestPath (TrimSuffix pat ''/*'' @ ''/'') then True
      else if Contains pat ''/**'' \<and>
              (let parts = SplitStr pat ''/**'' in length parts = 2 \<and>
                 HasPrefix requestPath (parts ! 0) \<and> HasSuffix requestPath (parts ! 1)) then True
      else False)"

fun isExemptPath :: "string \<Rightarrow> string list \<Rightarrow> bool" where
  "isExemptPath requestPath [] = False"
| "isExemptPath requestPath (pat # pats) =
     (if matchPath pat requestPath then True else isExemptPath requestPath pats)"

definition safe_method :: "string \<Rightarrow> bool" where
  "safe_method m = (let m = ToUpper m in m = ''GET'' \<or> m = ''HEAD'' \<or> m = ''OPTIONS'')"

section \<open>The middleware\<close>

text \<open>
  A request is passed on with the token stored in its context and the cookies to set, is
  refused with status 403 and the code \<open>CSRF_FAILED\<close>, or panics. A refusal writes an audit
  event (client, endpoint, reason) and a line of the security log.
\<close>

datatype csrf_outcome =
  CsrfNext "string option" "csrf_cookie list"
| CsrfRefused nat string
| CsrfPanic

record audit_event =
  au_Event :: string
  au_IP :: string
  au_Endpoint :: string
  au_Reason :: string

definition csrfError :: "form_request \<Rightarrow> string \<Rightarrow> csrf_outcome \<times> audit_event list \<times> sec_log" where
  "csrfError r reason =
     (let clientIP = (case extractIP (fr_Ctx r) of Some ip \<Rightarrow> IP_String ip | None \<Rightarrow> [])
      in (CsrfRefused 403 ''CSRF_FAILED'',
          [\<lparr>au_Event = ''security.csrf_failure'', au_IP = clientIP, au_Endpoint = rq_Path (fr_Req r), au_Reason = reason\<rparr>],
          [(''CSRF validation failed'', sanitizeLogValue clientIP)]))"

text \<open>\<open>r.FormValue\<close> of a field, after \<open>ParseForm\<close>.\<close>

definition FormValue :: "form_request \<Rightarrow> string \<Rightarrow> string" where
  "FormValue r field = (case fr_Form r of None \<Rightarrow> [] | Some fs \<Rightarrow>
     (case map_of fs field of None \<Rightarrow> [] | Some v \<Rightarrow> v))"

definition cookie_token :: "CSRFConfig \<Rightarrow> form_request \<Rightarrow> string" where
  "cookie_token cfg r = (case Cookie r (cf_CookieName cfg) of Some v \<Rightarrow> v | None \<Rightarrow> [])"

definition submitted_token :: "CSRFConfig \<Rightarrow> form_request \<Rightarrow> string" where
  "submitted_token cfg r =
     (let h = Header_Get (rq_Header (fr_Req r)) (cf_HeaderName cfg) in
      if h \<noteq> [] then h else FormValue r (cf_FormField cfg))"

text \<open>\<open>subtle.ConstantTimeCompare\<close>: the differences of all bytes are collected before the answer.\<close>

definition byte_of :: "char \<Rightarrow> u8" where
  "byte_of c = of_nat (of_char c)"

definition ConstantTimeCompare :: "string \<Rightarrow> string \<Rightarrow> bool" where
  "ConstantTimeCompare x y \<longleftrightarrow>
     length x = length y \<and> foldr (OR) (map2 (\<lambda>a b. byte_of a XOR byte_of b) x y) 0 = 0"

definition CSRFMiddleware ::
  "random_source \<Rightarrow> CSRFConfig \<Rightarrow> bool \<Rightarrow> form_request \<Rightarrow> csrf_outcome \<times> audit_event list \<times> sec_log" where
  "CSRFMiddleware rnd cfg sslEnabled r =
     (if \<not> cf_Enabled cfg then (CsrfNext None [], [], [])
      else let secure = (case cf_Secure cfg of Some b \<Rightarrow> b | None \<Rightarrow> sslEnabled) in
        if EqualFold (Header_Get (rq_Header (fr_Req r)) ''Upgrade'') ''websocket'' then (CsrfNext None [], [], [])
        else if safe_method (rq_Method (fr_Req r)) then
          (case ensureCSRFCookie rnd r cfg secure of
             None \<Rightarrow> (CsrfPanic, [], [])
           | Some (token, cks) \<Rightarrow> (CsrfNext (Some token) cks, [], []))
        else if hasBearerAuth (fr_Req r) then (CsrfNext None [], [], [])
        else if isExemptPath (rq_Path (fr_Req r)) (cf_ExemptPaths cfg) then (CsrfNext None [], [], [])
        else let cookieToken = cookie_token cfg r; submittedToken = submitted_token cfg r in
          if cookieToken = [] \<or> submittedToken = [] then csrfError r ''missing_token''
          else if \<not> ConstantTimeCompare cookieToken submittedToken then csrfError r ''token_mismatch''
          else case generateCSRFToken rnd (cf_TokenLength cfg) of
            None \<Rightarrow> (CsrfPanic, [], [])
          | Some newToken \<Rightarrow>
              (CsrfNext (Some newToken) [setCSRFCookieWithToken cfg secure newToken], [], []))"

text \<open>\<open>GetCSRFToken\<close>, on the token the middleware stored in the context.\<close>

definition GetCSRFToken :: "string option \<Rightarrow> form_request \<Rightarrow> string \<Rightarrow> string" where
  "GetCSRFToken ctx_token r cookieName =
     (case ctx_token of
        Some t \<Rightarrow> if t \<noteq> [] then t else
          (case Cookie r (if cookieName = [] then ''csrf_token'' else cookieName) of Some v \<Rightarrow> v | None \<Rightarrow> [])
      | None \<Rightarrow>
          (case Cookie r (if cookieName = [] then ''csrf_token'' else cookieName) of Some v \<Rightarrow> v | None \<Rightarrow> []))"

section \<open>Token facts\<close>

lemma byte_of_inj: "byte_of a = byte_of b \<longleftrightarrow> a = b"
proof
  assume "byte_of a = byte_of b"
  then have "unat (byte_of a) = unat (byte_of b)" by simp
  then have "(of_char a :: nat) = of_char b"
    using of_char_mod_256 [of a] of_char_mod_256 [of b]
    by (simp add: byte_of_def unat_of_nat)
  then show "a = b" by simp
qed simp

lemma or_zero: "foldr (OR) ws (0 :: u8) = 0 \<longleftrightarrow> (\<forall>w \<in> set ws. w = 0)"
  by (induction ws) (auto simp: or_eq_0_iff)

lemma xor_zero: "a XOR b = 0 \<longleftrightarrow> a = (b :: u8)"
  by (metis xor.left_neutral xor.left_commute xor.right_neutral xor_self_eq)

lemma ConstantTimeCompare_iff: "ConstantTimeCompare x y \<longleftrightarrow> x = y"
proof
  assume c: "ConstantTimeCompare x y"
  then have "length x = length y" by (simp add: ConstantTimeCompare_def)
  then show "x = y" using c
    by (induction x y rule: list_induct2) (auto simp: ConstantTimeCompare_def or_eq_0_iff xor_zero byte_of_inj)
next
  assume "x = y"
  then show "ConstantTimeCompare x y"
    by (auto simp: ConstantTimeCompare_def or_zero set_zip)
qed

lemma RawURLEncoding_Nil: "RawURLEncoding bs = [] \<longleftrightarrow> bs = []"
  by (cases bs rule: RawURLEncoding.cases) (auto simp: Let_def)

definition random_ok :: "random_source \<Rightarrow> bool" where
  "random_ok rnd \<longleftrightarrow> (\<forall>n. \<exists>bs. rnd n = Some bs \<and> length bs = n)"

lemma generated_nonempty:
  assumes "random_ok rnd"
  obtains t where "generateCSRFToken rnd len = Some t" and "t \<noteq> []"
proof -
  obtain bs where bs: "rnd (nat (if len \<le> 0 then 32 else len)) = Some bs"
      "length bs = nat (if len \<le> 0 then 32 else len)"
    using assms unfolding random_ok_def by blast
  then have "bs \<noteq> []" by (auto split: if_splits)
  with bs(1) that show thesis by (simp add: generateCSRFToken_def RawURLEncoding_Nil)
qed

section \<open>Exempt paths\<close>

lemma isExemptPath_iff: "isExemptPath p pats \<longleftrightarrow> (\<exists>pat \<in> set pats. matchPath pat p)"
  by (induction pats) auto

lemma Clean_rooted: "Clean (CHR ''/'' # p) = slash # Join (elems (slash # p)) [slash]"
  by (simp add: Clean_def render_def rooted_def slash_def)

lemma Clean_request: "Clean (''/'' @ p) = slash # Join (elems (slash # p)) [slash]"
  using Clean_rooted by simp

lemma Join_append_sep: "ps \<noteq> [] \<Longrightarrow> qs \<noteq> [] \<Longrightarrow> Join (ps @ qs) sep = Join ps sep @ sep @ Join qs sep"
  by (induction ps rule: induct_list012) (auto simp: Join_Cons neq_Nil_conv)

text \<open>Below a directory: the elements of the path extend those of the directory.\<close>

lemma prefix_elems:
  assumes ps: "ps \<noteq> []" "\<forall>c \<in> set ps. slash \<notin> set c" and es: "\<forall>c \<in> set es. slash \<notin> set c"
  shows "HasPrefix (Join es [slash]) (Join ps [slash] @ [slash]) \<longleftrightarrow> (\<exists>q. q \<noteq> [] \<and> es = ps @ q)"
proof
  assume "HasPrefix (Join es [slash]) (Join ps [slash] @ [slash])"
  then obtain t where t: "Join es [slash] = Join ps [slash] @ slash # t" by (auto simp: HasPrefix_iff)
  then have "es \<noteq> []" by auto
  then have "es = SplitByte (Join ps [slash] @ slash # t) slash" using SplitByte_Join [of es slash] es t by simp
  also have "\<dots> = ps @ SplitByte t slash" using SplitByte_Join [of ps slash] ps by (simp add: SplitByte_append)
  finally show "\<exists>q. q \<noteq> [] \<and> es = ps @ q" by auto
next
  assume "\<exists>q. q \<noteq> [] \<and> es = ps @ q"
  then obtain q where "q \<noteq> []" "es = ps @ q" by auto
  with ps show "HasPrefix (Join es [slash]) (Join ps [slash] @ [slash])"
    by (simp add: Join_append_sep HasPrefix_iff)
qed

lemma elems_no_slash: "c \<in> set (elems p) \<Longrightarrow> slash \<notin> set c"
  using shape_no_slash [OF elems_shape] by blast

lemma Join_slash_inj:
  assumes "ps \<noteq> []" "\<forall>c \<in> set ps. slash \<notin> set c \<and> c \<noteq> []" "\<forall>c \<in> set es. slash \<notin> set c"
  shows "Join es [slash] = Join ps [slash] \<longleftrightarrow> es = ps"
proof
  assume eq: "Join es [slash] = Join ps [slash]"
  have "Join ps [slash] \<noteq> []" using assms(1,2) by (cases ps) (auto simp: neq_Nil_conv Join_Cons_head)
  with eq have "es \<noteq> []" by auto
  then have "es = SplitByte (Join es [slash]) slash" using SplitByte_Join [of es slash] assms(3) by simp
  also have "\<dots> = ps" unfolding eq using SplitByte_Join [of ps slash] assms(1,2) by simp
  finally show "es = ps" .
qed simp

lemma matchPath_below:
  assumes pat: "Clean (''/'' @ pat) = slash # Join (ps @ [''*'']) [slash]"
    and ps: "ps \<noteq> []" "\<forall>c \<in> set ps. slash \<notin> set c \<and> c \<noteq> []"
    and no: "\<not> Contains (slash # Join (ps @ [''*'']) [slash]) ''/**''"
  shows "matchPath pat p \<longleftrightarrow> (\<exists>q. q \<noteq> [] \<and> elems (slash # p) = ps @ q)"
proof -
  define es where "es = elems (slash # p)"
  have es: "\<forall>c \<in> set es. slash \<notin> set c" unfolding es_def using elems_no_slash by blast
  have j: "slash # Join (ps @ [''*'']) [slash] = (slash # Join ps [slash]) @ ''/*''"
    using ps(1) by (simp add: Join_append_sep slash_def)
  have t: "HasSuffix (slash # Join (ps @ [''*'']) [slash]) ''/*''"
    "TrimSuffix (slash # Join (ps @ [''*'']) [slash]) ''/*'' = slash # Join ps [slash]"
    unfolding j TrimSuffix_def by (simp_all add: HasSuffix_iff)
  have "matchPath pat p \<longleftrightarrow> Join (ps @ [''*'']) [slash] = Join es [slash] \<or>
      HasPrefix (slash # Join es [slash]) ((slash # Join ps [slash]) @ ''/'')"
    unfolding matchPath_def Let_def pat Clean_request [of p] t es_def using no t by simp
  also have "\<dots> \<longleftrightarrow> es = ps @ [''*''] \<or> HasPrefix (Join es [slash]) (Join ps [slash] @ [slash])"
    using Join_slash_inj [of "ps @ [''*'']" es] ps es by (auto simp: HasPrefix_iff slash_def)
  also have "\<dots> \<longleftrightarrow> (\<exists>q. q \<noteq> [] \<and> es = ps @ q)"
    using prefix_elems [of ps es] ps es by auto
  finally show ?thesis unfolding es_def .
qed

lemma no_star: "CHR ''*'' \<notin> set s \<Longrightarrow> \<not> HasSuffix s ''/*''" "CHR ''*'' \<notin> set s \<Longrightarrow> \<not> Contains s ''/**''"
  by (auto simp: HasSuffix_iff Contains_iff)

lemma matchPath_exact:
  assumes pat: "Clean (''/'' @ pat) = slash # Join ps [slash]"
    and ps: "ps \<noteq> []" "\<forall>c \<in> set ps. slash \<notin> set c \<and> c \<noteq> []"
    and no: "CHR ''*'' \<notin> set (slash # Join ps [slash])"
  shows "matchPath pat p \<longleftrightarrow> elems (slash # p) = ps"
proof -
  have "\<not> HasSuffix (slash # Join ps [slash]) ''/*''" "\<not> Contains (slash # Join ps [slash]) ''/**''"
    using no no_star by blast+
  then have "matchPath pat p \<longleftrightarrow> Join (elems (slash # p)) [slash] = Join ps [slash]"
    unfolding matchPath_def Let_def pat Clean_request [of p] by auto
  then show ?thesis using Join_slash_inj [OF ps] elems_no_slash by blast
qed

lemma default_patterns:
  "Clean (''/'' @ ''/api/v1/webhooks/*'') = slash # Join ([''api'', ''v1'', ''webhooks''] @ [''*'']) [slash]"
  "Clean (''/'' @ ''/api/v1/server/reports/*'') = slash # Join ([''api'', ''v1'', ''server'', ''reports''] @ [''*'']) [slash]"
  "Clean (''/'' @ ''/debug/*'') = slash # Join ([''debug''] @ [''*'']) [slash]"
  "Clean (''/'' @ ''/server/consent'') = slash # Join [''server'', ''consent''] [slash]"
  "Clean (''/'' @ ''/announcements/dismiss'') = slash # Join [''announcements'', ''dismiss''] [slash]"
  by code_simp+

lemma default_stars:
  "\<not> Contains (slash # Join ([''api'', ''v1'', ''webhooks''] @ [''*'']) [slash]) ''/**''"
  "\<not> Contains (slash # Join ([''api'', ''v1'', ''server'', ''reports''] @ [''*'']) [slash]) ''/**''"
  "\<not> Contains (slash # Join ([''debug''] @ [''*'']) [slash]) ''/**''"
  by code_simp+

text \<open>
  The paths the default configuration exempts from the token check are exactly the ones
  strictly below \<open>/api/v1/webhooks\<close>, \<open>/api/v1/server/reports\<close> and \<open>/debug\<close>, at any depth, and
  the two paths \<open>/server/consent\<close> and \<open>/announcements/dismiss\<close>, once the request path is
  cleaned: no dot or double slash in the request path widens the exemption.
\<close>

theorem default_exempt_paths:
  "isExemptPath p (cf_ExemptPaths DefaultCSRFConfig) \<longleftrightarrow>
     (\<exists>q. q \<noteq> [] \<and>
        (elems (slash # p) = [''api'', ''v1'', ''webhooks''] @ q \<or>
         elems (slash # p) = [''api'', ''v1'', ''server'', ''reports''] @ q \<or>
         elems (slash # p) = [''debug''] @ q)) \<or>
     elems (slash # p) = [''server'', ''consent''] \<or>
     elems (slash # p) = [''announcements'', ''dismiss'']"
proof -
  have "matchPath ''/api/v1/webhooks/*'' p \<longleftrightarrow> (\<exists>q. q \<noteq> [] \<and> elems (slash # p) = [''api'', ''v1'', ''webhooks''] @ q)"
    by (rule matchPath_below [OF default_patterns(1) _ _ default_stars(1)]) (simp_all add: slash_def)
  moreover have "matchPath ''/api/v1/server/reports/*'' p \<longleftrightarrow>
      (\<exists>q. q \<noteq> [] \<and> elems (slash # p) = [''api'', ''v1'', ''server'', ''reports''] @ q)"
    by (rule matchPath_below [OF default_patterns(2) _ _ default_stars(2)]) (simp_all add: slash_def)
  moreover have "matchPath ''/debug/*'' p \<longleftrightarrow> (\<exists>q. q \<noteq> [] \<and> elems (slash # p) = [''debug''] @ q)"
    by (rule matchPath_below [OF default_patterns(3) _ _ default_stars(3)]) (simp_all add: slash_def)
  moreover have "matchPath ''/server/consent'' p \<longleftrightarrow> elems (slash # p) = [''server'', ''consent'']"
    by (rule matchPath_exact [OF default_patterns(4)]) (simp_all add: slash_def)
  moreover have "matchPath ''/announcements/dismiss'' p \<longleftrightarrow> elems (slash # p) = [''announcements'', ''dismiss'']"
    by (rule matchPath_exact [OF default_patterns(5)]) (simp_all add: slash_def)
  ultimately show ?thesis unfolding isExemptPath_iff DefaultCSRFConfig_def by auto
qed

section \<open>Double submission\<close>

definition csrf_guarded :: "CSRFConfig \<Rightarrow> form_request \<Rightarrow> bool" where
  "csrf_guarded cfg r \<longleftrightarrow> cf_Enabled cfg \<and>
     \<not> EqualFold (Header_Get (rq_Header (fr_Req r)) ''Upgrade'') ''websocket'' \<and>
     \<not> safe_method (rq_Method (fr_Req r)) \<and> \<not> hasBearerAuth (fr_Req r) \<and>
     \<not> isExemptPath (rq_Path (fr_Req r)) (cf_ExemptPaths cfg)"

lemma csrfError_refused: "fst (csrfError r reason) = CsrfRefused 403 ''CSRF_FAILED''"
  by (simp add: csrfError_def Let_def)


definition sample_form :: "string \<Rightarrow> (string \<times> string) list \<Rightarrow> (string \<times> string) list \<Rightarrow> form_request" where
  "sample_form m cks form = \<lparr>fr_Ctx = new_ctx \<lparr>rq_Method = m, rq_Path = ''/contact'', rq_Host = ''h'', rq_URLHost = [],
     rq_RemoteAddr = ''8.8.8.8:1'', rq_TLS = False, rq_Header = []\<rparr>, fr_Cookies = cks, fr_Form = Some form\<rparr>"

definition zero_source :: random_source where
  "zero_source n = Some (replicate n 0)"

lemma zero_source_ok: "random_ok zero_source"
  by (simp add: random_ok_def zero_source_def)

lemma sample_guarded: "csrf_guarded DefaultCSRFConfig (sample_form ''POST'' cks form)"
proof -
  have "\<not> isExemptPath ''/contact'' (cf_ExemptPaths DefaultCSRFConfig)" by code_simp
  then show ?thesis
    by (simp add: csrf_guarded_def sample_form_def new_ctx_def hasBearerAuth_def Header_Get_def safe_method_def
        DefaultCSRFConfig_def str_simps Let_def)
qed


text \<open>
  The first visit works: when a visitor without a cookie loads a page, the token the page
  embeds in its form is the value of the cookie that is set; and a covered request that sends
  that cookie back and submits that token is let through.
\<close>

theorem csrf_first_visit:
  assumes rnd: "random_ok rnd" and "cf_Enabled cfg" and "safe_method (rq_Method (fr_Req r1))"
    and "\<not> EqualFold (Header_Get (rq_Header (fr_Req r1)) ''Upgrade'') ''websocket''"
    and "Cookie r1 (cf_CookieName cfg) = None"
  shows "\<exists>t c. CSRFMiddleware rnd cfg ssl r1 = (CsrfNext (Some t) [c], [], []) \<and>
     GetCSRFToken (Some t) r1 (cf_CookieName cfg) = ck_Value c \<and>
     (\<forall>r2. csrf_guarded cfg r2 \<and> Cookie r2 (cf_CookieName cfg) = Some (ck_Value c) \<and>
        submitted_token cfg r2 = GetCSRFToken (Some t) r1 (cf_CookieName cfg) \<longrightarrow>
        (\<exists>t' c'. CSRFMiddleware rnd cfg ssl r2 = (CsrfNext (Some t') [c'], [], [])))"
proof -
  obtain t where t: "generateCSRFToken rnd (cf_TokenLength cfg) = Some t" "t \<noteq> []"
    using generated_nonempty [OF rnd] by blast
  have "\<exists>c. CSRFMiddleware rnd cfg ssl r1 = (CsrfNext (Some t) [c], [], []) \<and> ck_Value c = t"
    using t assms by (simp add: CSRFMiddleware_def Let_def ensureCSRFCookie_def setCSRFCookieWithToken_def)
  then obtain c where c: "CSRFMiddleware rnd cfg ssl r1 = (CsrfNext (Some t) [c], [], [])" "ck_Value c = t" by blast
  have "\<exists>t' c'. CSRFMiddleware rnd cfg ssl r2 = (CsrfNext (Some t') [c'], [], [])"
    if "csrf_guarded cfg r2" "Cookie r2 (cf_CookieName cfg) = Some t" "submitted_token cfg r2 = t" for r2
    using that t by (auto simp: csrf_guarded_def CSRFMiddleware_def Let_def ConstantTimeCompare_iff cookie_token_def)
  then show ?thesis using c t by (intro exI [of _ t] exI [of _ c]) (auto simp: GetCSRFToken_def)
qed

theorem csrf_first_visit_witness:
  "\<exists>t c. CSRFMiddleware zero_source DefaultCSRFConfig True (sample_form ''GET'' [] []) = (CsrfNext (Some t) [c], [], []) \<and>
     GetCSRFToken (Some t) (sample_form ''GET'' [] []) ''csrf_token'' = ck_Value c \<and>
     (\<exists>t' c'. CSRFMiddleware zero_source DefaultCSRFConfig True
        (sample_form ''POST'' [(''csrf_token'', ck_Value c)] [(''csrf_token'', ck_Value c)]) = (CsrfNext (Some t') [c'], [], []))"
proof -
  have cn: "cf_CookieName DefaultCSRFConfig = ''csrf_token''" "cf_Enabled DefaultCSRFConfig"
    by (simp_all add: DefaultCSRFConfig_def)
  have sub: "submitted_token DefaultCSRFConfig (sample_form m cks [(''csrf_token'', v)]) = v" for m cks v
    by (simp add: submitted_token_def FormValue_def sample_form_def new_ctx_def DefaultCSRFConfig_def Header_Get_def)
  have ck: "Cookie (sample_form m [(''csrf_token'', v)] form) ''csrf_token'' = Some v" for m v form
    by (simp add: Cookie_def sample_form_def)
  have req: "safe_method (rq_Method (fr_Req (sample_form ''GET'' [] [])))"
    "\<not> EqualFold (Header_Get (rq_Header (fr_Req (sample_form ''GET'' [] []))) ''Upgrade'') ''websocket''"
    "Cookie (sample_form ''GET'' [] []) ''csrf_token'' = None"
    by (simp_all add: sample_form_def new_ctx_def safe_method_def Header_Get_def Cookie_def str_simps)
  show ?thesis
    using csrf_first_visit [OF zero_source_ok cn(2) req(1,2) req(3) [folded cn(1)], of True]
      sample_guarded ck sub unfolding cn(1) by metis
qed

text \<open>
  A cookie that is present but empty is never replaced: loading a page leaves it in place, and
  the form then submits an empty token, which is refused.
\<close>

lemma empty_cookie_kept:
  assumes "cf_Enabled cfg" and "safe_method (rq_Method (fr_Req r))"
    and "\<not> EqualFold (Header_Get (rq_Header (fr_Req r)) ''Upgrade'') ''websocket''"
    and "Cookie r (cf_CookieName cfg) = Some []"
  shows "CSRFMiddleware rnd cfg ssl r = (CsrfNext (Some []) [], [], [])"
  using assms by (simp add: CSRFMiddleware_def Let_def ensureCSRFCookie_def)

lemma empty_cookie_refused:
  assumes "csrf_guarded cfg r" and "Cookie r (cf_CookieName cfg) = Some []"
  shows "fst (CSRFMiddleware rnd cfg ssl r) = CsrfRefused 403 ''CSRF_FAILED''"
  using assms by (simp add: csrf_guarded_def CSRFMiddleware_def Let_def cookie_token_def csrfError_refused)

text \<open>A trailing \<open>/*\<close> is not a single segment, and \<open>/**\<close> also matches a longer last segment.\<close>

lemma star_matches_deep: "matchPath ''/debug/*'' ''/debug/a/b''"
  by code_simp

lemma double_star_extends_segment: "matchPath ''/api/**'' ''/apikeys''"
  by (simp add: matchPath_def Let_def SplitStr.simps str_simps Clean_def render_def rooted_def elems_def
      clean_elems_def clean_step.simps slash_def dotdot_def)

end
