(* ===== verification/BodyLimits.thy ===== *)
theory BodyLimits
  imports GoHttp
begin

text \<open>
  File \<open>server/middleware_limits.go\<close>: the size limit on request bodies and the compression of
  responses. Sizes are \<open>int64\<close>, so the product of a count and its unit wraps. The compressor is
  a library: the model records which pieces of a body went through it. A response writer sends
  its headers once, with the first piece, the first explicit status or the first flush.
\<close>

section \<open>Sizes\<close>

definition int64 :: "int \<Rightarrow> int" where
  "int64 x = (x + 2 ^ 63) mod 2 ^ 64 - 2 ^ 63"

definition size_unit :: "string \<Rightarrow> int \<times> string" where
  "size_unit upper =
     (if HasSuffix upper ''GB'' then (1024 * 1024 * 1024, TrimSuffix upper ''GB'')
      else if HasSuffix upper ''MB'' then (1024 * 1024, TrimSuffix upper ''MB'')
      else if HasSuffix upper ''KB'' then (1024, TrimSuffix upper ''KB'')
      else if HasSuffix upper ''B'' then (1, TrimSuffix upper ''B'')
      else (1, upper))"

definition parseByteSize :: "string \<Rightarrow> int" where
  "parseByteSize v =
     (let v = TrimSpace v in
      if v = [] then 0
      else case size_unit (ToUpper v) of
        (multiplier, digits) \<Rightarrow>
          (case ParseInt64 (TrimSpace digits) of
             None \<Rightarrow> 0
           | Some n \<Rightarrow> if n \<le> 0 then 0 else int64 (n * multiplier)))"

section \<open>Request bodies\<close>

text \<open>
  What the handler gets of a body: everything, or, past the limit of \<open>http.MaxBytesReader\<close>, the
  bytes up to the limit and an error. \<open>ContentLength\<close> is -1 when the length is not declared.
\<close>

datatype body_outcome = TooLarge | Handler string bool

definition MaxBytesReader :: "int \<Rightarrow> string \<Rightarrow> string \<times> bool" where
  "MaxBytesReader n body = (if int (length body) \<le> n then (body, False) else (take (nat n) body, True))"

definition BodyLimitMiddleware :: "int \<Rightarrow> int \<Rightarrow> string \<Rightarrow> body_outcome" where
  "BodyLimitMiddleware maxBytes contentLength body =
     (if maxBytes \<le> 0 then Handler body False
      else if maxBytes < contentLength then TooLarge
      else case MaxBytesReader maxBytes body of (b, err) \<Rightarrow> Handler b err)"

text \<open>The router installs the limit only when the configured size is positive.\<close>

definition router_body :: "string \<Rightarrow> int \<Rightarrow> string \<Rightarrow> body_outcome" where
  "router_body max_body_size contentLength body =
     (let maxBody = parseByteSize max_body_size in
      if 0 < maxBody then BodyLimitMiddleware maxBody contentLength body else Handler body False)"

section \<open>Compression\<close>

record CompressionConfig =
  cc_Enabled :: bool
  cc_Level :: int
  cc_Types :: "string list"

datatype piece = Plain string | Gz string

text \<open>
  The wrapped writer: the headers being prepared, the status and headers once sent, and the
  pieces of the body; then the fields of \<open>gzipResponseWriter\<close>.
\<close>

record gzipResponseWriter =
  gw_Header :: header
  gw_Sent :: "(nat \<times> header) option"
  gw_Body :: "piece list"
  gw_types :: "string list"
  gw_level :: int
  gw_decided :: bool
  gw_compress :: bool
  gw_open :: bool

definition Header_Del :: "header \<Rightarrow> string \<Rightarrow> header" where
  "Header_Del h name = filter (\<lambda>(k, _). \<not> EqualFold k name) h"

definition Header_Add :: "header \<Rightarrow> string \<Rightarrow> string \<Rightarrow> header" where
  "Header_Add h name v = h @ [(name, v)]"

definition media_type :: "string \<Rightarrow> string" where
  "media_type ct = TrimSpace (ToLower (case IndexByte ct (CHR '';'') of Some i \<Rightarrow> take i ct | None \<Rightarrow> ct))"

definition gz_decide :: "gzipResponseWriter \<Rightarrow> gzipResponseWriter" where
  "gz_decide w =
     (if gw_decided w then w
      else let w = w\<lparr>gw_decided := True\<rparr> in
        if media_type (Header_Get (gw_Header w) ''Content-Type'') \<in> set (gw_types w)
        then w\<lparr>gw_compress := True,
               gw_Header := Header_Add (Header_Set (Header_Del (gw_Header w) ''Content-Length'')
                              ''Content-Encoding'' ''gzip'') ''Vary'' ''Accept-Encoding''\<rparr>
        else w)"

definition send_header :: "nat \<Rightarrow> gzipResponseWriter \<Rightarrow> gzipResponseWriter" where
  "send_header status w =
     (case gw_Sent w of Some _ \<Rightarrow> w | None \<Rightarrow> w\<lparr>gw_Sent := Some (status, gw_Header w)\<rparr>)"

definition gz_WriteHeader :: "nat \<Rightarrow> gzipResponseWriter \<Rightarrow> gzipResponseWriter" where
  "gz_WriteHeader status w = send_header status (gz_decide w)"

definition gz_Write :: "string \<Rightarrow> gzipResponseWriter \<Rightarrow> gzipResponseWriter" where
  "gz_Write b w =
     (let w = gz_decide w in
      if \<not> gw_compress w then (send_header 200 w)\<lparr>gw_Body := gw_Body w @ [Plain b]\<rparr>
      else (send_header 200 w)\<lparr>gw_open := True, gw_Body := gw_Body w @ [Gz b]\<rparr>)"

definition gz_Flush :: "gzipResponseWriter \<Rightarrow> gzipResponseWriter" where
  "gz_Flush w = send_header 200 w"

text \<open>\<open>strings.SplitN(enc, ";", 2)[0]\<close>, trimmed on both sides of the cut.\<close>

definition acceptsGzip :: "http_request \<Rightarrow> bool" where
  "acceptsGzip r = list_ex (\<lambda>enc. TrimSpace (hd (SplitByteN2 (TrimSpace enc) (CHR '';''))) = ''gzip'')
     (SplitByte (Header_Get (rq_Header r) ''Accept-Encoding'') (CHR '',''))"

definition compression_types :: "CompressionConfig \<Rightarrow> string list" where
  "compression_types cfg = filter (\<lambda>t. t \<noteq> []) (map (\<lambda>t. TrimSpace (ToLower t)) (cc_Types cfg))"

definition compression_level :: "CompressionConfig \<Rightarrow> int" where
  "compression_level cfg = (if cc_Level cfg < 1 \<or> 9 < cc_Level cfg then -1 else cc_Level cfg)"

text \<open>What a handler does with its writer.\<close>

datatype handler_op = SetHeader string string | OpWriteHeader nat | OpWrite string | OpFlush

definition new_writer :: "CompressionConfig \<Rightarrow> header \<Rightarrow> gzipResponseWriter" where
  "new_writer cfg h = \<lparr>gw_Header = h, gw_Sent = None, gw_Body = [], gw_types = compression_types cfg,
     gw_level = compression_level cfg, gw_decided = False, gw_compress = False, gw_open = False\<rparr>"

fun run_op :: "handler_op \<Rightarrow> gzipResponseWriter \<Rightarrow> gzipResponseWriter" where
  "run_op (SetHeader n v) w = w\<lparr>gw_Header := Header_Set (gw_Header w) n v\<rparr>"
| "run_op (OpWriteHeader st) w = gz_WriteHeader st w"
| "run_op (OpWrite b) w = gz_Write b w"
| "run_op OpFlush w = gz_Flush w"

text \<open>The same operations on the writer of \<open>net/http\<close>, for a request that is not compressed.\<close>

fun plain_op :: "handler_op \<Rightarrow> gzipResponseWriter \<Rightarrow> gzipResponseWriter" where
  "plain_op (SetHeader n v) w = w\<lparr>gw_Header := Header_Set (gw_Header w) n v\<rparr>"
| "plain_op (OpWriteHeader st) w = send_header st w"
| "plain_op (OpWrite b) w = (send_header 200 w)\<lparr>gw_Body := gw_Body w @ [Plain b]\<rparr>"
| "plain_op OpFlush w = send_header 200 w"

definition CompressionMiddleware ::
  "CompressionConfig \<Rightarrow> http_request \<Rightarrow> header \<Rightarrow> handler_op list \<Rightarrow> gzipResponseWriter" where
  "CompressionMiddleware cfg r h ops =
     (if \<not> cc_Enabled cfg \<or> length (compression_types cfg) = 0 \<or> \<not> acceptsGzip r
      then fold plain_op ops (new_writer cfg h)
      else fold run_op ops (new_writer cfg h))"

section \<open>Facts about sizes and bodies\<close>

lemma int64_small: "- (2 ^ 63) \<le> x \<Longrightarrow> x < 2 ^ 63 \<Longrightarrow> int64 x = x"
  by (simp add: int64_def)

definition unit_bytes :: "string \<Rightarrow> int option" where
  "unit_bytes u = map_of [(''GB'', 2 ^ 30), (''MB'', 2 ^ 20), (''KB'', 2 ^ 10), (''B'', 1), ([], 1)] u"

lemma digits_upper: "list_all is_digit ds \<Longrightarrow> ToUpper ds = ds"
  by (induction ds) (auto simp: ToUpper_def upper_char_def is_digit_def Let_def)

lemma digit_not_unit: "is_digit c \<Longrightarrow> c \<noteq> CHR ''B'' \<and> c \<noteq> CHR ''K'' \<and> c \<noteq> CHR ''M'' \<and> c \<noteq> CHR ''G'' \<and> \<not> is_space c"
  by (auto simp: is_digit_def is_space_def Let_def)

lemma no_suffix: "ds \<noteq> [] \<Longrightarrow> last ds \<noteq> last x \<Longrightarrow> x \<noteq> [] \<Longrightarrow> \<not> HasSuffix ds x"
  by (auto simp: HasSuffix_iff)

lemma HasSuffix_two: "ds \<noteq> [] \<Longrightarrow> HasSuffix (ds @ [y]) [a, b] \<longleftrightarrow> last ds = a \<and> y = b"
  by (cases ds rule: rev_cases) (auto simp: HasSuffix_iff)

lemma size_unit_of:
  assumes ds: "ds \<noteq> []" "list_all is_digit ds" and u: "unit_bytes u = Some m"
  shows "size_unit (ds @ u) = (m, ds)"
proof -
  have l: "is_digit (last ds)" using ds by (auto simp: list_all_iff)
  note n = digit_not_unit [OF l]
  have two: "HasSuffix (ds @ [a, b]) [c, d] \<longleftrightarrow> a = c \<and> b = d" for a b c d
    using HasSuffix_two [of "ds @ [a]" b c d] by simp
  have none: "\<not> HasSuffix ds ''GB''" "\<not> HasSuffix ds ''MB''" "\<not> HasSuffix ds ''KB''" "\<not> HasSuffix ds ''B''"
    using no_suffix [OF ds(1)] n by force+
  from u consider "u = ''GB''" "m = 2 ^ 30" | "u = ''MB''" "m = 2 ^ 20" | "u = ''KB''" "m = 2 ^ 10"
    | "u = ''B''" "m = 1" | "u = []" "m = 1"
    by (auto simp: unit_bytes_def split: if_splits)
  then show ?thesis
    by cases (use n ds(1) none in \<open>simp_all add: size_unit_def two HasSuffix_two TrimSuffix_def\<close>)
qed

text \<open>
  A configured size written as a positive number with one of the units B, KB, MB, GB (in
  either case) or none, possibly with spaces around it, is read as that number of bytes with
  binary units, as long as the product fits in 63 bits.
\<close>

theorem parseByteSize_exact:
  assumes "unit_bytes (ToUpper u) = Some m" and "0 < n" and "int n * m < 2 ^ 63"
    and "TrimSpace v = Itoa n @ u"
  shows "parseByteSize v = int n * m"
proof -
  have d: "list_all is_digit (Itoa n)" using Itoa_digits by (auto simp: list_all_iff)
  have up: "ToUpper (Itoa n @ u) = Itoa n @ ToUpper u" using digits_upper [OF d] by (simp add: ToUpper_def)
  have "TrimSpace (Itoa n) = Itoa n"
    using Itoa_digits digit_not_unit by (auto simp: TrimSpace_def intro!: TrimFunc_id)
  moreover have "1 \<le> m" using assms(1) by (auto simp: unit_bytes_def split: if_splits)
  moreover from this have "int n * 1 \<le> int n * m" using assms(2) by (intro mult_left_mono) auto
  then have "int n < 2 ^ 63" using assms(3) by simp
  then have "ParseInt64 (Itoa n) = Some (int n)" by (intro ParseInt64_Itoa) simp
  moreover have "0 \<le> int n * m" using \<open>1 \<le> m\<close> by simp
  then have "int64 (int n * m) = int n * m" using assms(3) by (intro int64_small) auto
  ultimately show ?thesis
    using assms size_unit_of [OF Itoa_not_Nil d assms(1)] by (simp add: parseByteSize_def up)
qed

lemma Itoa_10: "Itoa 10 = ''10''"
  by code_simp

theorem parseByteSize_exact_witness: "parseByteSize '' 10mb '' = 10 * 2 ^ 20"
  using parseByteSize_exact [of "''mb''" "2 ^ 20" 10 "'' 10mb ''"]
  by (simp add: unit_bytes_def Itoa_10 str_simps)



text \<open>
  A size past the range of \<open>int64\<close> wraps to zero, and a size that cannot be read is zero: the
  router then installs no limit at all.
\<close>

lemma huge_limit_is_none: "parseByteSize ''17179869184GB'' = 0"
  by (simp add: parseByteSize_def size_unit_def ParseInt64_def parse_uint_def int64_def str_simps)

lemma unreadable_limit_is_none: "router_body ''10 megabytes'' n body = Handler body False"
proof -
  have "parseByteSize ''10 megabytes'' = 0"
    by (simp add: parseByteSize_def size_unit_def ParseInt64_def parse_uint_def str_simps)
  then show ?thesis by (simp add: router_body_def)
qed

section \<open>Facts about compression\<close>

lemma Header_Get_Del [simp]: "Header_Get (Header_Del h n) n = []"
proof -
  have "find (\<lambda>(k, v). EqualFold k n) (filter (\<lambda>(k, _). \<not> EqualFold k n) h) = None"
    by (auto simp: find_None_iff)
  then show ?thesis by (simp add: Header_Get_def Header_Del_def)
qed

lemma Header_Get_Add_other: "\<not> EqualFold n m \<Longrightarrow> Header_Get (Header_Add h n v) m = Header_Get h m"
  by (simp add: Header_Get_def Header_Add_def find_append_last)

definition gzip_header :: "header \<Rightarrow> bool" where
  "gzip_header h \<longleftrightarrow> Header_Get h ''Content-Encoding'' = ''gzip'' \<and> Header_Get h ''Content-Length'' = []"

lemma gzip_header_decide:
  "gzip_header (Header_Add (Header_Set (Header_Del h ''Content-Length'') ''Content-Encoding'' ''gzip'')
     ''Vary'' ''Accept-Encoding'')"
  by (simp add: gzip_header_def Header_Get_Add_other Header_Get_Set_other EqualFold_def ToLower_def lower_char_def)

fun writes :: "handler_op list \<Rightarrow> string list" where
  "writes [] = []"
| "writes (OpWrite b # ops) = b # writes ops"
| "writes (_ # ops) = writes ops"

text \<open>A flush that comes before the first status or piece of the body.\<close>

fun flush_first :: "handler_op list \<Rightarrow> bool" where
  "flush_first [] = False"
| "flush_first (SetHeader n v # ops) = flush_first ops"
| "flush_first (OpFlush # ops) = True"
| "flush_first (_ # ops) = False"

text \<open>A decided writer has sent its headers, and they agree with the decision.\<close>

definition writer_ok :: "gzipResponseWriter \<Rightarrow> string list \<Rightarrow> bool" where
  "writer_ok w bs \<longleftrightarrow> gw_decided w \<and>
     (if gw_compress w then gw_Body w = map Gz bs \<and> (\<exists>st h. gw_Sent w = Some (st, h) \<and> gzip_header h)
      else gw_Body w = map Plain bs)"

lemma writer_ok_run: "writer_ok w bs \<Longrightarrow> writer_ok (fold run_op ops w) (bs @ writes ops)"
proof (induction ops arbitrary: w bs)
  case (Cons x ops)
  have "writer_ok (run_op x w) (bs @ writes [x])"
    using Cons.prems
    by (cases x) (auto simp: writer_ok_def gz_WriteHeader_def gz_Write_def gz_Flush_def gz_decide_def send_header_def Let_def
        split: if_splits option.splits)
  then show ?case using Cons.IH by (cases x) force+
qed simp

definition fresh :: "gzipResponseWriter \<Rightarrow> bool" where
  "fresh w \<longleftrightarrow> \<not> gw_decided w \<and> \<not> gw_compress w \<and> gw_Sent w = None \<and> gw_Body w = []"

lemma fresh_run:
  "fresh w \<Longrightarrow> \<not> flush_first ops \<Longrightarrow>
   writer_ok (fold run_op ops w) (writes ops) \<or> (fresh (fold run_op ops w) \<and> writes ops = [])"
proof (induction ops arbitrary: w)
  case (Cons x ops)
  show ?case
  proof (cases x)
    case (SetHeader n v)
    then show ?thesis using Cons by (simp add: fresh_def)
  next
    case (OpWriteHeader st)
    have "writer_ok (gz_WriteHeader st w) []"
      using Cons.prems(1) gzip_header_decide
      by (auto simp: fresh_def writer_ok_def gz_WriteHeader_def gz_decide_def send_header_def Let_def)
    from writer_ok_run [OF this] show ?thesis using OpWriteHeader by simp
  next
    case (OpWrite b)
    have "writer_ok (gz_Write b w) [b]"
      using Cons.prems(1) gzip_header_decide
      by (auto simp: fresh_def writer_ok_def gz_Write_def gz_decide_def send_header_def Let_def)
    from writer_ok_run [OF this] show ?thesis using OpWrite by simp
  next
    case OpFlush
    then show ?thesis using Cons.prems by simp
  qed
qed simp

lemma plain_run:
  "\<not> gw_compress w \<Longrightarrow> \<not> gw_compress (fold plain_op ops w) \<and>
   gw_Body (fold plain_op ops w) = gw_Body w @ map Plain (writes ops)"
proof (induction ops arbitrary: w)
  case (Cons x ops)
  then show ?case
    by (cases x) (auto simp: send_header_def split: option.splits)
qed simp

text \<open>
  A response is labelled as it is encoded: for every handler that does not flush before it
  starts its response, either the whole body went through the compressor, and then the headers
  that were sent announce gzip and no length of the uncompressed body, or none of it did; in both
  cases the pieces are the handler's, in order, and nothing is compressed for a client that does
  not accept gzip.
\<close>

theorem response_encoding_consistent:
  assumes "\<not> flush_first ops"
  shows "let w = CompressionMiddleware cfg r h ops in
     if gw_compress w
     then acceptsGzip r \<and> cc_Enabled cfg \<and> gw_Body w = map Gz (writes ops) \<and>
          (\<exists>st hs. gw_Sent w = Some (st, hs) \<and> gzip_header hs)
     else gw_Body w = map Plain (writes ops)"
proof (cases "\<not> cc_Enabled cfg \<or> length (compression_types cfg) = 0 \<or> \<not> acceptsGzip r")
  case True
  then show ?thesis using plain_run [of "new_writer cfg h" ops]
    by (auto simp: CompressionMiddleware_def Let_def new_writer_def)
next
  case False
  have "fresh (new_writer cfg h)" by (simp add: fresh_def new_writer_def)
  from fresh_run [OF this assms] False show ?thesis
    by (auto simp: CompressionMiddleware_def Let_def writer_ok_def fresh_def)
qed

theorem response_encoding_consistent_witness:
  "let w = CompressionMiddleware \<lparr>cc_Enabled = True, cc_Level = 5, cc_Types = [''text/html'']\<rparr>
       \<lparr>rq_Method = ''GET'', rq_Path = ''/'', rq_Host = [], rq_URLHost = [], rq_RemoteAddr = [], rq_TLS = False,
        rq_Header = [(''Accept-Encoding'', ''br, gzip;q=1'')]\<rparr> []
       [SetHeader ''Content-Type'' ''text/html; charset=utf-8'', OpWrite ''a'', OpFlush, OpWrite ''b'']
   in gw_Body w = [Gz ''a'', Gz ''b''] \<and> (\<exists>st hs. gw_Sent w = Some (st, hs) \<and> gzip_header hs)"
proof -
  let ?cfg = "\<lparr>cc_Enabled = True, cc_Level = 5, cc_Types = [''text/html'']\<rparr>"
  let ?r = "\<lparr>rq_Method = ''GET'', rq_Path = ''/'', rq_Host = [], rq_URLHost = [], rq_RemoteAddr = [], rq_TLS = False,
        rq_Header = [(''Accept-Encoding'', ''br, gzip;q=1'')]\<rparr>"
  let ?ops = "[SetHeader ''Content-Type'' ''text/html; charset=utf-8'', OpWrite ''a'', OpFlush, OpWrite ''b'']"
  have "gw_compress (CompressionMiddleware ?cfg ?r [] ?ops)" by code_simp
  then show ?thesis using response_encoding_consistent [of ?ops ?cfg ?r "[]"] by (simp add: Let_def)
qed

text \<open>
  A flush before the first piece sends the headers undecided; the body that follows is
  compressed all the same, under headers that do not say so.
\<close>

lemma flush_before_write_mislabels:
  "let w = fold run_op [SetHeader ''Content-Type'' ''text/html'', OpFlush, OpWrite ''a'']
       (new_writer \<lparr>cc_Enabled = True, cc_Level = 5, cc_Types = [''text/html'']\<rparr> [])
   in gw_Body w = [Gz ''a''] \<and> gw_Sent w = Some (200, [(''Content-Type'', ''text/html'')])"
  by code_simp

end
