(* ===== verification/Threat.thy ===== *)
theory Threat
  imports IpSet
begin

text \<open>
  Package \<open>threat\<close>: the VPN, proxy and Tor exit lists. A manager downloads the source files
  and reloads a \<open>Lookup\<close> of three address sets, one per kind. Opening a file, and what a
  request for a URL returns, are inputs.
\<close>

section \<open>Sources\<close>

record threat_source =
  ts_Name :: string
  ts_URL :: string
  ts_File :: string
  ts_Kind :: string

definition DefaultThreatSources :: "threat_source list" where
  "DefaultThreatSources =
    [\<lparr>ts_Name = ''tor_exit'', ts_URL = ''https://check.torproject.org/torbulkexitlist'',
      ts_File = ''tor_exit.txt'', ts_Kind = ''tor''\<rparr>,
     \<lparr>ts_Name = ''vpn_ipv4'',
      ts_URL = ''https://raw.githubusercontent.com/X4BNet/lists_vpn/main/output/vpn/ipv4.txt'',
      ts_File = ''vpn_ipv4.txt'', ts_Kind = ''vpn''\<rparr>,
     \<lparr>ts_Name = ''vpn_ipv6'',
      ts_URL = ''https://raw.githubusercontent.com/X4BNet/lists_vpn/main/output/vpn/ipv6.txt'',
      ts_File = ''vpn_ipv6.txt'', ts_Kind = ''vpn''\<rparr>,
     \<lparr>ts_Name = ''proxy_socks'',
      ts_URL = ''https://raw.githubusercontent.com/firehol/blocklist-ipsets/master/socks_proxy_7d.ipset'',
      ts_File = ''proxy_socks.txt'', ts_Kind = ''proxy''\<rparr>,
     \<lparr>ts_Name = ''proxy_http'',
      ts_URL = ''https://raw.githubusercontent.com/firehol/blocklist-ipsets/master/http_proxy_7d.ipset'',
      ts_File = ''proxy_http.txt'', ts_Kind = ''proxy''\<rparr>]"

definition NewManager :: "threat_source list \<Rightarrow> threat_source list" where
  "NewManager sources = (if sources = [] then DefaultThreatSources else sources)"

section \<open>The in-memory sets\<close>

record kindSet =
  ks_nets :: "IPNet list"
  ks_singles :: "ip list"

definition kindSet_contains :: "kindSet \<Rightarrow> ip \<Rightarrow> bool" where
  "kindSet_contains ks ip =
     (if list_ex (\<lambda>n. IPNet_Contains n ip) (ks_nets ks) then True
      else list_ex (\<lambda>s. IP_Equal s ip) (ks_singles ks))"

record threat_lookup =
  tl_tor :: kindSet
  tl_vpn :: kindSet
  tl_proxy :: kindSet

definition empty_kindSet :: kindSet where
  "empty_kindSet = \<lparr>ks_nets = [], ks_singles = []\<rparr>"

definition empty_threat :: threat_lookup where
  "empty_threat = \<lparr>tl_tor = empty_kindSet, tl_vpn = empty_kindSet, tl_proxy = empty_kindSet\<rparr>"

definition IsTor :: "threat_lookup \<Rightarrow> ip option \<Rightarrow> bool" where
  "IsTor l ipo = (case ipo of None \<Rightarrow> False | Some ip \<Rightarrow> kindSet_contains (tl_tor l) ip)"

definition IsVPN :: "threat_lookup \<Rightarrow> ip option \<Rightarrow> bool" where
  "IsVPN l ipo = (case ipo of None \<Rightarrow> False | Some ip \<Rightarrow> kindSet_contains (tl_vpn l) ip)"

definition IsProxy :: "threat_lookup \<Rightarrow> ip option \<Rightarrow> bool" where
  "IsProxy l ipo = (case ipo of None \<Rightarrow> False | Some ip \<Rightarrow> kindSet_contains (tl_proxy l) ip)"

section \<open>Loading\<close>

text \<open>The data directory: a missing file, one that cannot be opened, or its contents.\<close>

datatype threat_file = Missing | Unreadable | Content string

type_synonym threat_dir = "string \<Rightarrow> threat_file"

datatype threat_error =
  OpenError string | UnknownKind string | ScanError | CreateDirError | DownloadError string

definition target_add :: "kindSet \<Rightarrow> string list \<Rightarrow> kindSet" where
  "target_add ks lines =
     (let (ns, ss) = add_lines [CHR '' '', CHR 0x09] lines (ks_nets ks, ks_singles ks)
      in \<lparr>ks_nets = ns, ks_singles = ss\<rparr>)"

text \<open>
  \<open>parseFile\<close> appends to the set its kind selects, also the lines before a scan error.
\<close>

definition parseFile ::
  "threat_file \<Rightarrow> string \<Rightarrow> string \<Rightarrow> threat_lookup \<Rightarrow> threat_error option \<times> threat_lookup" where
  "parseFile file path kind l =
     (case file of
        Missing \<Rightarrow> (None, l)
      | Unreadable \<Rightarrow> (Some (OpenError path), l)
      | Content s \<Rightarrow>
          (let (lines, ok) = ScanLines s; err = (if ok then None else Some ScanError) in
           if kind = ''tor'' then (err, l\<lparr>tl_tor := target_add (tl_tor l) lines\<rparr>)
           else if kind = ''vpn'' then (err, l\<lparr>tl_vpn := target_add (tl_vpn l) lines\<rparr>)
           else if kind = ''proxy'' then (err, l\<lparr>tl_proxy := target_add (tl_proxy l) lines\<rparr>)
           else (Some (UnknownKind kind), l)))"

fun load_sources :: "threat_dir \<Rightarrow> threat_source list \<Rightarrow> threat_lookup \<Rightarrow> threat_lookup" where
  "load_sources d [] l = l"
| "load_sources d (src # srcs) l =
     load_sources d srcs (snd (parseFile (d (ts_File src)) (ts_File src) (ts_Kind src) l))"

text \<open>\<open>Lookup.LoadDir\<close> logs the errors of single files, replaces the table and returns nil.\<close>

definition threat_LoadDir ::
  "threat_dir \<Rightarrow> threat_source list \<Rightarrow> threat_lookup \<Rightarrow> threat_error option \<times> threat_lookup" where
  "threat_LoadDir d srcs l = (None, load_sources d srcs empty_threat)"

section \<open>Downloads\<close>

type_synonym threat_fetch = "string \<Rightarrow> (nat \<times> string) option"

definition threatMaxBody :: nat where
  "threatMaxBody = 50 * 1024 * 1024"

definition threat_download ::
  "threat_fetch \<Rightarrow> (string \<Rightarrow> bool) \<Rightarrow> string \<Rightarrow> string \<Rightarrow> threat_dir \<Rightarrow> threat_error option \<times> threat_dir" where
  "threat_download http wr_ok url dest d =
     (case http url of
        None \<Rightarrow> (Some (DownloadError url), d)
      | Some (status, body) \<Rightarrow>
          if status \<noteq> 200 then (Some (DownloadError url), d)
          else if \<not> wr_ok dest then (Some (DownloadError url), d)
          else (None, d(dest := Content (take threatMaxBody body))))"

fun init_loop ::
  "threat_fetch \<Rightarrow> (string \<Rightarrow> bool) \<Rightarrow> threat_source list \<Rightarrow> threat_dir \<Rightarrow> threat_dir" where
  "init_loop http wr_ok [] d = d"
| "init_loop http wr_ok (src # srcs) d =
     init_loop http wr_ok srcs
       (if d (ts_File src) = Missing
        then snd (threat_download http wr_ok (ts_URL src) (ts_File src) d) else d)"

definition Initialize ::
  "threat_fetch \<Rightarrow> (string \<Rightarrow> bool) \<Rightarrow> bool \<Rightarrow> threat_source list \<Rightarrow> threat_dir \<Rightarrow>
   (threat_error + threat_lookup) \<times> threat_dir" where
  "Initialize http wr_ok mkdir_ok srcs d =
     (if \<not> mkdir_ok then (Inl CreateDirError, d)
      else let d' = init_loop http wr_ok srcs d in
        (Inr (snd (threat_LoadDir d' srcs empty_threat)), d'))"

fun update_loop ::
  "threat_fetch \<Rightarrow> (string \<Rightarrow> bool) \<Rightarrow> threat_source list \<Rightarrow> threat_error option \<Rightarrow> threat_dir \<Rightarrow>
   threat_error option \<times> threat_dir" where
  "update_loop http wr_ok [] lastErr d = (lastErr, d)"
| "update_loop http wr_ok (src # srcs) lastErr d =
     (case threat_download http wr_ok (ts_URL src) (ts_File src) d of
        (Some e, d') \<Rightarrow> update_loop http wr_ok srcs (Some e) d'
      | (None, d') \<Rightarrow> update_loop http wr_ok srcs lastErr d')"

definition threat_Update ::
  "threat_fetch \<Rightarrow> (string \<Rightarrow> bool) \<Rightarrow> bool \<Rightarrow> string \<Rightarrow> threat_source list \<Rightarrow> threat_dir \<Rightarrow> threat_lookup \<Rightarrow>
   threat_error option \<times> threat_dir \<times> threat_lookup" where
  "threat_Update http wr_ok mkdir_ok stamp srcs d l =
     (if \<not> mkdir_ok then (Some CreateDirError, d, l)
      else let (e, d1) = update_loop http wr_ok srcs None d;
               d2 = (if wr_ok ''.last_updated'' then d1(''.last_updated'' := Content (stamp @ [CHR 0x0A])) else d1)
        in (e, d2, snd (threat_LoadDir d2 srcs l)))"

section \<open>Membership\<close>

interpretation tks: ip_list ks_nets ks_singles kindSet_contains
  by unfold_locales (simp add: kindSet_contains_def list_ex_iff)

lemma kindSet_contains_covered: "kindSet_contains ks ip = covered (ks_nets ks, ks_singles ks) ip"
  by (simp add: tks.contains_iff covered_def)

lemma target_add_contains:
  "kindSet_contains (target_add ks ls) ip \<longleftrightarrow>
     kindSet_contains ks ip \<or> lines_cover [CHR '' '', CHR 0x09] ls ip"
  unfolding kindSet_contains_covered target_add_def
  using covered_add_lines [of "[CHR '' '', CHR 0x09]" ls "(ks_nets ks, ks_singles ks)" ip]
  by (auto split: prod.splits)

lemma empty_kindSet_contains [simp]: "\<not> kindSet_contains empty_kindSet ip"
  by (simp add: empty_kindSet_def tks.contains_empty)

text \<open>What the files of one kind cover.\<close>

definition file_covers :: "threat_file \<Rightarrow> ip \<Rightarrow> bool" where
  "file_covers f ip = (case f of Content s \<Rightarrow> lines_cover [CHR '' '', CHR 0x09] (fst (ScanLines s)) ip
     | _ \<Rightarrow> False)"

definition kind_covers :: "threat_dir \<Rightarrow> threat_source list \<Rightarrow> string \<Rightarrow> ip \<Rightarrow> bool" where
  "kind_covers d srcs kind ip \<longleftrightarrow>
     list_ex (\<lambda>src. ts_Kind src = kind \<and> file_covers (d (ts_File src)) ip) srcs"

lemma load_sources_contains:
  "kindSet_contains (tl_tor (load_sources d srcs l)) ip \<longleftrightarrow>
     kindSet_contains (tl_tor l) ip \<or> kind_covers d srcs ''tor'' ip"
  "kindSet_contains (tl_vpn (load_sources d srcs l)) ip \<longleftrightarrow>
     kindSet_contains (tl_vpn l) ip \<or> kind_covers d srcs ''vpn'' ip"
  "kindSet_contains (tl_proxy (load_sources d srcs l)) ip \<longleftrightarrow>
     kindSet_contains (tl_proxy l) ip \<or> kind_covers d srcs ''proxy'' ip"
proof (induction srcs arbitrary: l)
  case Nil
  { case 1 show ?case by (simp add: kind_covers_def) }
  { case 2 show ?case by (simp add: kind_covers_def) }
  { case 3 show ?case by (simp add: kind_covers_def) }
next
  case (Cons src srcs)
  { case 1 show ?case
      by (auto simp: Cons.IH(1) kind_covers_def parseFile_def file_covers_def target_add_contains
          split: threat_file.splits prod.splits) }
  { case 2 show ?case
      by (auto simp: Cons.IH(2) kind_covers_def parseFile_def file_covers_def target_add_contains
          split: threat_file.splits prod.splits) }
  { case 3 show ?case
      by (auto simp: Cons.IH(3) kind_covers_def parseFile_def file_covers_def target_add_contains
          split: threat_file.splits prod.splits) }
qed

text \<open>
  Classification by the reloaded threat table is exact for each of the three kinds: an
  address is a Tor exit (VPN, proxy) exactly when a line of a file of that kind covers it;
  no kind leaks into another, an unreadable file costs only its own entries, and nothing of
  the previous table survives.
\<close>

theorem threat_LoadDir_exact:
  "IsTor (snd (threat_LoadDir d srcs l)) (Some ip) = kind_covers d srcs ''tor'' ip \<and>
   IsVPN (snd (threat_LoadDir d srcs l)) (Some ip) = kind_covers d srcs ''vpn'' ip \<and>
   IsProxy (snd (threat_LoadDir d srcs l)) (Some ip) = kind_covers d srcs ''proxy'' ip"
  by (simp add: threat_LoadDir_def IsTor_def IsVPN_def IsProxy_def load_sources_contains
      empty_threat_def)

section \<open>Updates\<close>

lemma threat_download_fst:
  "fst (threat_download http wr_ok url dest d) = fst (threat_download http wr_ok url dest d')"
  by (auto simp: threat_download_def split: option.splits)

lemma update_loop_frame:
  assumes "\<forall>src \<in> set srcs. ts_File src = f \<longrightarrow>
     fst (threat_download http wr_ok (ts_URL src) f d) \<noteq> None"
  shows "snd (update_loop http wr_ok srcs le d) f = d f"
  using assms
proof (induction srcs arbitrary: le d)
  case Nil
  then show ?case by simp
next
  case (Cons src srcs)
  obtain e1 d1 where d1: "threat_download http wr_ok (ts_URL src) (ts_File src) d = (e1, d1)"
    by fastforce
  have "d1 f = d f"
    using d1 Cons.prems by (auto simp: threat_download_def split: option.splits if_splits)
  moreover have "snd (update_loop http wr_ok srcs le' d1) f = d1 f" for le'
    using Cons.prems by (intro Cons.IH) (auto simp: threat_download_fst [of _ _ _ _ d1 d])
  ultimately show ?case using d1 by (cases e1) auto
qed

text \<open>
  A daily update that cannot fetch any source of a kind keeps that kind's answers: the
  reloaded table classifies every address as the data on disk before the update did.
\<close>

theorem threat_Update_failed_kind:
  assumes "\<forall>src \<in> set srcs. ts_Kind src = ''tor'' \<longrightarrow> ts_File src \<noteq> ''.last_updated'' \<and>
      (\<forall>src' \<in> set srcs. ts_File src' = ts_File src \<longrightarrow>
         fst (threat_download http wr_ok (ts_URL src') (ts_File src) d) \<noteq> None)"
  shows "IsTor (snd (snd (threat_Update http wr_ok True stamp srcs d l))) (Some ip) =
         kind_covers d srcs ''tor'' ip"
proof -
  define d1 where "d1 = snd (update_loop http wr_ok srcs None d)"
  define d2 where "d2 = (if wr_ok ''.last_updated''
    then d1(''.last_updated'' := Content (stamp @ [CHR 0x0A])) else d1)"
  have "d1 (ts_File src) = d (ts_File src)" if "src \<in> set srcs" "ts_Kind src = ''tor''" for src
    using assms that unfolding d1_def by (intro update_loop_frame) auto
  then have "d2 (ts_File src) = d (ts_File src)" if "src \<in> set srcs" "ts_Kind src = ''tor''" for src
    using assms that by (auto simp: d2_def)
  then have "kind_covers d2 srcs ''tor'' ip = kind_covers d srcs ''tor'' ip"
    by (auto simp: kind_covers_def list_ex_iff)
  moreover have "snd (snd (threat_Update http wr_ok True stamp srcs d l)) = load_sources d2 srcs empty_threat"
    by (simp add: threat_Update_def threat_LoadDir_def Let_def d1_def d2_def split: prod.splits)
  ultimately show ?thesis
    by (simp add: IsTor_def load_sources_contains empty_threat_def)
qed

theorem threat_Update_failed_kind_witness:
  "IsTor (snd (snd (threat_Update (\<lambda>_. None) (\<lambda>_. True) True ''now'' DefaultThreatSources
       (\<lambda>f. if f = ''tor_exit.txt'' then Content ''1.2.3.4'' else Missing) empty_threat))) (Some [1, 2, 3, 4]) =
   kind_covers (\<lambda>f. if f = ''tor_exit.txt'' then Content ''1.2.3.4'' else Missing)
     DefaultThreatSources ''tor'' [1, 2, 3, 4]"
  by (rule threat_Update_failed_kind) (simp add: DefaultThreatSources_def threat_download_def)

end
