(* ===== verification/IpLookup.thy ===== *)
theory IpLookup
  imports Threat "HOL-Library.AList"
begin

text \<open>
  The IP lookup: \<open>server/cache.go\<close> (the bounded response cache, keyed by a 64-bit hash of the
  address) and \<open>server/service/ip.go\<close> (the service that answers from the cache or asks the
  GeoIP reader, the resolver and the threat lists). The service calls the cache through an
  interface, so it takes the two operations as arguments. The GeoIP reader (a third-party
  database) is a parameter; coordinates are values of an arbitrary type.
\<close>

section \<open>Responses\<close>

record 'f IPLookupResponse =
  rsp_IP :: ip
  rsp_IPDecimal :: nat
  rsp_Country :: string
  rsp_CountryISO :: string
  rsp_CountryEU :: "bool option"
  rsp_RegionName :: string
  rsp_RegionCode :: string
  rsp_MetroCode :: nat
  rsp_PostalCode :: string
  rsp_City :: string
  rsp_Latitude :: 'f
  rsp_Longitude :: 'f
  rsp_Timezone :: string
  rsp_ASN :: string
  rsp_ASNOrg :: string
  rsp_Hostname :: string
  rsp_IsVPN :: "bool option"
  rsp_IsProxy :: "bool option"
  rsp_IsTor :: "bool option"

section \<open>The cache\<close>

text \<open>\<open>fnv.New64a\<close>: the 64-bit FNV-1a hash of the address bytes.\<close>

fun fnv1a :: "u64 \<Rightarrow> u8 list \<Rightarrow> u64" where
  "fnv1a h [] = h"
| "fnv1a h (b # bs) = fnv1a ((h XOR ucast b) * 1099511628211) bs"

definition key :: "ip \<Rightarrow> u64" where
  "key ip = fnv1a 14695981039346656037 ip"

text \<open>
  A list element is a number and the response it holds, which never changes. The map from
  hashes to elements is an association list without repeated keys; \<open>ca_next\<close> numbers the
  next element.
\<close>

record 'f Cache =
  ca_capacity :: nat
  ca_entries :: "(u64 \<times> nat \<times> 'f IPLookupResponse) list"
  ca_values :: "(nat \<times> 'f IPLookupResponse) list"
  ca_evictions :: u64
  ca_next :: nat

definition NewCache :: "int \<Rightarrow> 'f Cache" where
  "NewCache capacity = \<lparr>ca_capacity = (if capacity < 0 then 0 else nat capacity),
     ca_entries = [], ca_values = [], ca_evictions = 0, ca_next = 0\<rparr>"

fun evict_loop ::
  "nat \<Rightarrow> (u64 \<times> nat \<times> 'f IPLookupResponse) list \<Rightarrow> (nat \<times> 'f IPLookupResponse) list \<Rightarrow> nat \<Rightarrow>
   nat \<times> (u64 \<times> nat \<times> 'f IPLookupResponse) list \<times> (nat \<times> 'f IPLookupResponse) list" where
  "evict_loop (Suc n) es ((i, v) # vs) evicted = evict_loop n (AList.delete (key (rsp_IP v)) es) vs (Suc evicted)"
| "evict_loop _ es vs evicted = (evicted, es, vs)"

definition Cache_Set :: "'f Cache \<Rightarrow> ip \<Rightarrow> 'f IPLookupResponse \<Rightarrow> 'f Cache" where
  "Cache_Set c ip resp =
     (if ca_capacity c = 0 then c
      else
        (let k = key ip;
             minEvictions = int (length (ca_entries c)) - int (ca_capacity c) + 1;
             (evicted, es, vs) =
               (if 0 < minEvictions then evict_loop (nat minEvictions) (ca_entries c) (ca_values c) 0
                else (0, ca_entries c, ca_values c));
             vs' = (case map_of es k of
                      Some (i, _) \<Rightarrow> filter (\<lambda>(j, _). j \<noteq> i) vs
                    | None \<Rightarrow> vs)
         in c\<lparr>ca_entries := AList.update k (ca_next c, resp) es,
              ca_values := vs' @ [(ca_next c, resp)],
              ca_evictions := ca_evictions c + of_nat evicted,
              ca_next := Suc (ca_next c)\<rparr>))"

definition Cache_Get :: "'f Cache \<Rightarrow> ip \<Rightarrow> 'f IPLookupResponse option" where
  "Cache_Get c ip = map_option snd (map_of (ca_entries c) (key ip))"

definition Cache_Resize :: "'f Cache \<Rightarrow> int \<Rightarrow> string option \<times> 'f Cache" where
  "Cache_Resize c capacity =
     (if capacity < 0 then (Some ''invalid capacity'', c)
      else (None, c\<lparr>ca_capacity := nat capacity, ca_evictions := 0\<rparr>))"

definition Cache_Stats :: "'f Cache \<Rightarrow> nat \<times> nat \<times> u64" where
  "Cache_Stats c = (length (ca_entries c), ca_capacity c, ca_evictions c)"

section \<open>The service\<close>

record 'f geo_city =
  gc_Name :: string
  gc_Latitude :: 'f
  gc_Longitude :: 'f
  gc_PostalCode :: string
  gc_Timezone :: string
  gc_MetroCode :: nat
  gc_RegionName :: string
  gc_RegionCode :: string

record geo_country =
  gy_Name :: string
  gy_ISO :: string
  gy_IsEU :: "bool option"

record geo_asn =
  ga_Number :: nat
  ga_Org :: string

text \<open>
  The collaborators: the readers answer with a default value on error, and the error is
  dropped; the resolver and the threat lists may be missing.
\<close>

record 'f lookup_env =
  le_Country :: "ip \<Rightarrow> geo_country"
  le_City :: "ip \<Rightarrow> 'f geo_city"
  le_ASN :: "ip \<Rightarrow> geo_asn"
  le_LookupAddr :: "(ip \<Rightarrow> string) option"
  le_Threat :: "threat_lookup option"

definition compute_response :: "'f lookup_env \<Rightarrow> ip \<Rightarrow> 'f IPLookupResponse" where
  "compute_response env ip =
     (let country = le_Country env ip; city = le_City env ip; asn = le_ASN env ip;
          threat = le_Threat env in
      \<lparr>rsp_IP = ip, rsp_IPDecimal = ToDecimal ip,
       rsp_Country = gy_Name country, rsp_CountryISO = gy_ISO country, rsp_CountryEU = gy_IsEU country,
       rsp_RegionName = gc_RegionName city, rsp_RegionCode = gc_RegionCode city,
       rsp_MetroCode = gc_MetroCode city, rsp_PostalCode = gc_PostalCode city, rsp_City = gc_Name city,
       rsp_Latitude = gc_Latitude city, rsp_Longitude = gc_Longitude city, rsp_Timezone = gc_Timezone city,
       rsp_ASN = (if 0 < ga_Number asn then ''AS'' @ Itoa (ga_Number asn) else []),
       rsp_ASNOrg = ga_Org asn,
       rsp_Hostname = (case le_LookupAddr env of Some f \<Rightarrow> f ip | None \<Rightarrow> []),
       rsp_IsVPN = map_option (\<lambda>t. IsVPN t (Some ip)) threat,
       rsp_IsProxy = map_option (\<lambda>t. IsProxy t (Some ip)) threat,
       rsp_IsTor = map_option (\<lambda>t. IsTor t (Some ip)) threat\<rparr>)"

definition Service_Lookup ::
  "('c \<Rightarrow> ip \<Rightarrow> 'f IPLookupResponse option) \<Rightarrow> ('c \<Rightarrow> ip \<Rightarrow> 'f IPLookupResponse \<Rightarrow> 'c) \<Rightarrow>
   'f lookup_env \<Rightarrow> ip \<Rightarrow> 'c \<Rightarrow> 'f IPLookupResponse \<times> 'c" where
  "Service_Lookup get put env ip c =
     (case get c ip of
        Some resp \<Rightarrow> (resp, c)
      | None \<Rightarrow> (let resp = compute_response env ip in (resp, put c ip resp)))"

section \<open>The cache as a bounded queue\<close>

text \<open>
  The abstract cache: the responses from the oldest to the newest, with distinct keys.
  Storing drops as many of the oldest as the capacity asks for, then any response under the
  same key, and appends the new one.
\<close>

definition rkey :: "'f IPLookupResponse \<Rightarrow> u64" where
  "rkey v = key (rsp_IP v)"

definition cache_abs :: "'f Cache \<Rightarrow> 'f IPLookupResponse list" where
  "cache_abs c = map snd (ca_values c)"

definition queue_set :: "nat \<Rightarrow> 'f IPLookupResponse \<Rightarrow> 'f IPLookupResponse list \<Rightarrow> 'f IPLookupResponse list" where
  "queue_set cap v vs =
     (if cap = 0 then vs
      else filter (\<lambda>w. rkey w \<noteq> rkey v) (drop (Suc (length vs) - cap) vs) @ [v])"

definition queue_get :: "u64 \<Rightarrow> 'f IPLookupResponse list \<Rightarrow> 'f IPLookupResponse option" where
  "queue_get k vs = find (\<lambda>w. rkey w = k) vs"

text \<open>The map as the list describes it, and the two views kept together.\<close>

definition index_of :: "(nat \<times> 'f IPLookupResponse) list \<Rightarrow> (u64 \<times> nat \<times> 'f IPLookupResponse) list" where
  "index_of vs = map (\<lambda>p. (rkey (snd p), p)) vs"

definition linked :: "(u64 \<times> nat \<times> 'f IPLookupResponse) list \<Rightarrow> (nat \<times> 'f IPLookupResponse) list \<Rightarrow> bool" where
  "linked es vs \<longleftrightarrow> distinct (map fst es) \<and> distinct (map fst vs) \<and> distinct (map fst (index_of vs)) \<and>
     map_of es = map_of (index_of vs)"

definition cache_inv :: "'f Cache \<Rightarrow> bool" where
  "cache_inv c \<longleftrightarrow> linked (ca_entries c) (ca_values c) \<and> list_all (\<lambda>(i, v). i < ca_next c) (ca_values c)"

lemma index_of_keys: "map fst (index_of vs) = map (rkey \<circ> snd) vs"
  by (auto simp: index_of_def)

lemma in_index_of: "(k, p) \<in> set (index_of vs) \<longleftrightarrow> p \<in> set vs \<and> rkey (snd p) = k"
  by (auto simp: index_of_def)

lemma index_of_dom: "fst ` set (index_of vs) = (rkey \<circ> snd) ` set vs"
  by (simp add: index_of_def image_image comp_def)

lemma linked_map_of:
  assumes "linked es vs"
  shows "map_of es k = Some (i, v) \<longleftrightarrow> (i, v) \<in> set vs \<and> rkey v = k"
  using assms by (simp add: linked_def map_of_eq_Some_iff in_index_of)

lemma linked_length: "linked es vs \<Longrightarrow> length es = length vs"
proof -
  assume l: "linked es vs"
  then have "fst ` set es = fst ` set (index_of vs)"
    by (metis linked_def dom_map_of_conv_image_fst)
  then have "card (set (map fst es)) = card (set (map fst (index_of vs)))" by simp
  with l have "length (map fst es) = length (map fst (index_of vs))"
    unfolding linked_def by (metis distinct_card)
  then show ?thesis by (simp add: index_of_def)
qed

lemma linked_get: "linked es vs \<Longrightarrow> map_option snd (map_of es k) = queue_get k (map snd vs)"
proof -
  have "map_option snd (map_of (index_of vs) k) = queue_get k (map snd vs)"
    by (induction vs) (auto simp: queue_get_def index_of_def)
  then show "linked es vs \<Longrightarrow> map_option snd (map_of es k) = queue_get k (map snd vs)"
    by (simp add: linked_def)
qed

lemma linked_pop: "linked es ((i, v) # vs) \<Longrightarrow> linked (AList.delete (rkey v) es) vs"
proof -
  assume l: "linked es ((i, v) # vs)"
  then have d: "rkey v \<notin> fst ` set (index_of vs)"
    by (simp add: linked_def index_of_keys index_of_dom)
  then have "(map_of (index_of ((i, v) # vs)))(rkey v := None) = map_of (index_of vs)"
    using map_of_eq_None_iff [of "index_of vs" "rkey v"] by (auto simp: fun_eq_iff index_of_def)
  moreover have "distinct (map fst (AList.delete (rkey v) es))"
    using l by (simp add: linked_def AList.distinct_delete)
  ultimately show ?thesis
    using l unfolding linked_def AList.delete_conv' by (simp add: index_of_def)
qed

lemma linked_evict:
  "linked es vs \<Longrightarrow> n \<le> length vs \<Longrightarrow>
   \<exists>es'. evict_loop n es vs e = (e + n, es', drop n vs) \<and> linked es' (drop n vs)"
proof (induction n arbitrary: es vs e)
  case 0
  then show ?case by simp
next
  case (Suc n)
  then obtain i v us where vs: "vs = (i, v) # us" by (cases vs) auto
  have "linked (AList.delete (key (rsp_IP v)) es) us"
    using Suc.prems(1) linked_pop [of es i v us] by (simp add: vs rkey_def)
  from Suc.IH [OF this, of "Suc e"] Suc.prems(2) show ?case by (simp add: vs)
qed

lemma linked_same:
  assumes "linked es vs" "map_of es k = Some (i, w)" "(j, u) \<in> set vs"
  shows "j = i \<longleftrightarrow> rkey u = k"
proof -
  have iw: "(i, w) \<in> set vs" "rkey w = k"
    using linked_map_of [OF assms(1), of k i w] assms(2) by auto
  have "inj_on fst (set vs)" "inj_on (rkey \<circ> snd) (set vs)"
    using assms(1) by (auto simp: linked_def index_of_keys distinct_map)
  then show ?thesis using iw assms(3) by (metis comp_apply fst_conv inj_on_eq_iff prod.inject snd_conv)
qed

lemma unlink_filter:
  assumes "linked es vs"
  shows "(case map_of es k of Some (i, _) \<Rightarrow> filter (\<lambda>(j, _). j \<noteq> i) vs | None \<Rightarrow> vs) =
    filter (\<lambda>p. rkey (snd p) \<noteq> k) vs"
proof (cases "map_of es k")
  case None
  then have "\<forall>(i, w) \<in> set vs. rkey w \<noteq> k" using linked_map_of [OF assms, of k] by auto
  then have "filter (\<lambda>p. rkey (snd p) \<noteq> k) vs = vs" by (auto simp: filter_id_conv)
  then show ?thesis by (simp add: None)
next
  case (Some p)
  obtain i w where p: "p = (i, w)" by fastforce
  show ?thesis
    using linked_same [OF assms Some [unfolded p]] by (fastforce simp: Some p intro!: filter_cong)
qed

lemma linked_push:
  assumes "linked es vs" "list_all (\<lambda>(i, v). i < n) vs" "rkey v = k"
  shows "linked (AList.update k (n, v) es) (filter (\<lambda>p. rkey (snd p) \<noteq> k) vs @ [(n, v)])"
proof -
  let ?vs = "filter (\<lambda>p. rkey (snd p) \<noteq> k) vs"
  have idx: "index_of ?vs = filter (\<lambda>(k', _). k' \<noteq> k) (index_of vs)"
    by (induction vs) (auto simp: index_of_def)
  have "map_of (index_of (?vs @ [(n, v)])) = (map_of (index_of vs))(k \<mapsto> (n, v))"
    using assms(3) by (induction vs) (auto simp: index_of_def fun_eq_iff)
  moreover have "distinct (map fst (index_of ?vs))" "distinct (map fst ?vs)"
    using assms(1) by (simp_all add: linked_def idx distinct_map_filter)
  moreover have "k \<notin> (rkey \<circ> snd) ` set ?vs" by auto
  moreover have "n \<notin> fst ` set ?vs" using assms(2) by (auto simp: list_all_iff)
  ultimately show ?thesis
    using assms unfolding linked_def AList.update_conv' index_of_keys
    by (simp add: AList.distinct_update)
qed

text \<open>
  C9. The cache implements the bounded queue: storing a response keeps its two structures (the
  hash map and the linked list) consistent and does to the stored responses what the queue
  does, and a lookup finds what the queue finds. Responses are stored under their own address,
  as the lookup service does.
\<close>

theorem cache_refines_queue:
  assumes "cache_inv c" "rsp_IP v = ip"
  shows "cache_inv (Cache_Set c ip v) \<and>
    cache_abs (Cache_Set c ip v) = queue_set (ca_capacity c) v (cache_abs c) \<and>
    Cache_Get (Cache_Set c ip v) ip' = queue_get (key ip') (cache_abs (Cache_Set c ip v))"
proof -
  let ?n = "Suc (length (ca_values c)) - ca_capacity c"
  have l: "linked (ca_entries c) (ca_values c)" and b: "list_all (\<lambda>(i, v). i < ca_next c) (ca_values c)"
    using assms(1) by (auto simp: cache_inv_def)
  have k: "rkey v = key ip" using assms(2) by (simp add: rkey_def)
  have main: "cache_inv (Cache_Set c ip v) \<and>
    cache_abs (Cache_Set c ip v) = queue_set (ca_capacity c) v (cache_abs c)"
  proof (cases "ca_capacity c = 0")
    case True
    then show ?thesis using assms by (simp add: Cache_Set_def queue_set_def)
  next
    case False
    then have le: "?n \<le> length (ca_values c)" by simp
    have "\<exists>e es. (if 0 < int (length (ca_entries c)) - int (ca_capacity c) + 1
        then evict_loop (nat (int (length (ca_entries c)) - int (ca_capacity c) + 1)) (ca_entries c) (ca_values c) 0
        else (0, ca_entries c, ca_values c)) = (e, es, drop ?n (ca_values c)) \<and> linked es (drop ?n (ca_values c))"
    proof (cases "ca_capacity c \<le> length (ca_values c)")
      case True
      then have "nat (int (length (ca_entries c)) - int (ca_capacity c) + 1) = ?n"
        using linked_length [OF l] by simp
      then show ?thesis using True linked_evict [OF l le, of 0] linked_length [OF l] by auto
    next
      case False
      then show ?thesis using l linked_length [OF l] by auto
    qed
    then obtain e es where ev: "(if 0 < int (length (ca_entries c)) - int (ca_capacity c) + 1
        then evict_loop (nat (int (length (ca_entries c)) - int (ca_capacity c) + 1)) (ca_entries c) (ca_values c) 0
        else (0, ca_entries c, ca_values c)) = (e, es, drop ?n (ca_values c))"
      and le: "linked es (drop ?n (ca_values c))" by blast
    let ?vs = "filter (\<lambda>p. rkey (snd p) \<noteq> key ip) (drop ?n (ca_values c))"
    have set: "Cache_Set c ip v = c\<lparr>ca_entries := AList.update (key ip) (ca_next c, v) es,
        ca_values := ?vs @ [(ca_next c, v)], ca_evictions := ca_evictions c + of_nat e,
        ca_next := Suc (ca_next c)\<rparr>"
      unfolding Cache_Set_def Let_def ev using False unlink_filter [OF le, of "key ip"] by simp
    have bd: "list_all (\<lambda>(i, v). i < ca_next c) (drop ?n (ca_values c))"
      using b by (auto simp: list_all_iff dest: in_set_dropD)
    have "cache_inv (Cache_Set c ip v)"
      using linked_push [OF le bd k] bd unfolding cache_inv_def set
      by (auto simp: list_all_iff intro: less_SucI)
    moreover have "cache_abs (Cache_Set c ip v) = queue_set (ca_capacity c) v (cache_abs c)"
      using False k unfolding set
      by (simp add: cache_abs_def queue_set_def drop_map filter_map comp_def case_prod_beta)
    ultimately show ?thesis ..
  qed
  then show ?thesis
    using linked_get [of "ca_entries (Cache_Set c ip v)" "ca_values (Cache_Set c ip v)" "key ip'"]
    by (auto simp: cache_inv_def cache_abs_def Cache_Get_def)
qed

lemma NewCache_inv: "cache_inv (NewCache n)"
  by (simp add: cache_inv_def linked_def index_of_def NewCache_def)

definition sample_response :: "ip \<Rightarrow> unit IPLookupResponse" where
  "sample_response ip = compute_response
     \<lparr>le_Country = \<lambda>_. \<lparr>gy_Name = [], gy_ISO = [], gy_IsEU = None\<rparr>,
      le_City = \<lambda>_. \<lparr>gc_Name = [], gc_Latitude = (), gc_Longitude = (), gc_PostalCode = [], gc_Timezone = [],
        gc_MetroCode = 0, gc_RegionName = [], gc_RegionCode = []\<rparr>,
      le_ASN = \<lambda>_. \<lparr>ga_Number = 0, ga_Org = []\<rparr>, le_LookupAddr = None, le_Threat = None\<rparr> ip"

lemma compute_response_IP [simp]: "rsp_IP (compute_response env ip) = ip"
  by (simp add: compute_response_def Let_def)

theorem cache_refines_queue_witness:
  "cache_abs (Cache_Set (NewCache 2) [1, 2, 3, 4] (sample_response [1, 2, 3, 4])) = [sample_response [1, 2, 3, 4]]"
  using cache_refines_queue [OF NewCache_inv [of 2], of "sample_response [1, 2, 3, 4]" "[1, 2, 3, 4]"]
  by (simp add: sample_response_def queue_set_def cache_abs_def NewCache_def)

text \<open>
  The cache never holds more than its capacity once a response has been stored in it, also
  after it was made smaller, and the response just stored is the one a lookup of its address
  returns.
\<close>

theorem cache_bound:
  assumes "cache_inv c" "rsp_IP v = ip" "0 < ca_capacity c"
  shows "length (ca_entries (Cache_Set c ip v)) \<le> ca_capacity c \<and> Cache_Get (Cache_Set c ip v) ip = Some v"
proof -
  note r = cache_refines_queue [OF assms(1,2)]
  let ?q = "queue_set (ca_capacity c) v (cache_abs c)"
  have "length (ca_entries (Cache_Set c ip v)) = length ?q"
    using r linked_length [of "ca_entries (Cache_Set c ip v)" "ca_values (Cache_Set c ip v)"]
    by (metis cache_inv_def cache_abs_def length_map)
  moreover have "length ?q \<le> ca_capacity c"
    using assms(3) length_filter_le [of "\<lambda>w. rkey w \<noteq> rkey v" "drop (Suc (length (cache_abs c)) - ca_capacity c) (cache_abs c)"]
    by (auto simp: queue_set_def)
  moreover have "queue_get (key ip) ?q = Some v"
  proof -
    have none: "find (\<lambda>w. rkey w = key ip) (filter (\<lambda>w. rkey w \<noteq> rkey v) ws) = None" for ws
      using assms(2) by (auto simp: find_None_iff rkey_def)
    have app: "find P xs = None \<Longrightarrow> find P (xs @ [x]) = (if P x then Some x else None)" for P :: "'a IPLookupResponse \<Rightarrow> bool" and xs x
      by (induction xs) (auto split: if_splits)
    show ?thesis using assms(2,3) app [OF none] by (auto simp: queue_get_def queue_set_def rkey_def)
  qed
  ultimately show ?thesis using r by (metis)
qed

theorem cache_bound_witness:
  "length (ca_entries (Cache_Set (NewCache 2) [1, 2, 3, 4] (sample_response [1, 2, 3, 4]))) \<le> 2 \<and>
   Cache_Get (Cache_Set (NewCache 2) [1, 2, 3, 4] (sample_response [1, 2, 3, 4])) [1, 2, 3, 4] =
     Some (sample_response [1, 2, 3, 4])"
  using cache_bound [OF NewCache_inv [of 2], of "sample_response [1, 2, 3, 4]" "[1, 2, 3, 4]"]
  by (simp add: sample_response_def NewCache_def)

section \<open>The service over any cache\<close>

text \<open>A sequence of lookups on one cache.\<close>

fun run_lookups ::
  "('c \<Rightarrow> ip \<Rightarrow> 'f IPLookupResponse option) \<Rightarrow> ('c \<Rightarrow> ip \<Rightarrow> 'f IPLookupResponse \<Rightarrow> 'c) \<Rightarrow>
   'f lookup_env \<Rightarrow> ip list \<Rightarrow> 'c \<Rightarrow> 'f IPLookupResponse list" where
  "run_lookups get put env [] c = []"
| "run_lookups get put env (ip # ips) c =
     (case Service_Lookup get put env ip c of (r, c') \<Rightarrow> r # run_lookups get put env ips c')"

text \<open>
  What the service relies on: an answer of the cache for an address is a response stored for
  an address that the cache does not tell apart from it.
\<close>

locale ip_cache =
  fixes get :: "'c \<Rightarrow> ip \<Rightarrow> 'f IPLookupResponse option"
    and put :: "'c \<Rightarrow> ip \<Rightarrow> 'f IPLookupResponse \<Rightarrow> 'c"
    and inv :: "'c \<Rightarrow> bool"
    and same :: "ip \<Rightarrow> ip \<Rightarrow> bool"
  assumes put_inv: "inv c \<Longrightarrow> rsp_IP v = ip \<Longrightarrow> inv (put c ip v)"
    and get_put: "inv c \<Longrightarrow> rsp_IP v = ip \<Longrightarrow> get (put c ip v) ip' = Some w \<Longrightarrow>
      w = v \<and> same ip ip' \<or> get c ip' = Some w"
    and same_refl: "same ip ip"
begin

text \<open>
  Every answer in the cache was computed for one of the addresses asked for, one it does not
  tell apart from the address the answer is found under.
\<close>

definition honest :: "'f lookup_env \<Rightarrow> ip set \<Rightarrow> 'c \<Rightarrow> bool" where
  "honest env S c \<longleftrightarrow> inv c \<and>
     (\<forall>ip w. get c ip = Some w \<longrightarrow> (\<exists>ip' \<in> S. same ip' ip \<and> w = compute_response env ip'))"

lemma lookup_honest:
  assumes "honest env S c" "ip \<in> S" "Service_Lookup get put env ip c = (resp, c')"
  shows "honest env S c' \<and> (\<exists>ip' \<in> S. same ip' ip \<and> resp = compute_response env ip')"
proof (cases "get c ip")
  case None
  then have r: "resp = compute_response env ip" "c' = put c ip resp"
    using assms(3) by (auto simp: Service_Lookup_def Let_def)
  then have "honest env S c'"
    using assms(1,2) put_inv [of c resp ip] get_put [of c resp ip] by (fastforce simp: honest_def)
  with r same_refl assms(2) show ?thesis by blast
next
  case (Some w)
  then show ?thesis using assms by (auto simp: Service_Lookup_def honest_def)
qed

lemma run_lookups_sound:
  "honest env S c \<Longrightarrow> set ips \<subseteq> S \<Longrightarrow>
   list_all2 (\<lambda>ip r. \<exists>ip' \<in> S. same ip' ip \<and> r = compute_response env ip') ips (run_lookups get put env ips c)"
proof (induction ips arbitrary: c)
  case Nil
  then show ?case by simp
next
  case (Cons ip ips)
  obtain r c' where l: "Service_Lookup get put env ip c = (r, c')" by fastforce
  from lookup_honest [OF Cons.prems(1) _ l] Cons.IH [of c'] Cons.prems(2) show ?case by (simp add: l)
qed

end

section \<open>The service over this cache\<close>

lemma NewCache_get: "Cache_Get (NewCache n) ip = None"
  by (simp add: Cache_Get_def NewCache_def)

lemma queue_get_iff:
  "distinct (map rkey vs) \<Longrightarrow> queue_get k vs = Some w \<longleftrightarrow> w \<in> set vs \<and> rkey w = k"
  by (induction vs) (auto simp: queue_get_def)

lemma cache_keys_distinct: "cache_inv c \<Longrightarrow> distinct (map rkey (cache_abs c))"
  by (auto simp: cache_inv_def linked_def index_of_keys cache_abs_def)

lemma cache_get_queue: "cache_inv c \<Longrightarrow> Cache_Get c ip = queue_get (key ip) (cache_abs c)"
  by (simp add: cache_inv_def Cache_Get_def cache_abs_def linked_get)

interpretation icache: ip_cache Cache_Get Cache_Set cache_inv "\<lambda>ip ip'. key ip = key ip'"
proof
  fix c :: "'f Cache" and v :: "'f IPLookupResponse" and ip ip' w
  assume c: "cache_inv c" and v: "rsp_IP v = ip"
  note r = cache_refines_queue [OF c v]
  show "cache_inv (Cache_Set c ip v)" using r by blast
  assume g: "Cache_Get (Cache_Set c ip v) ip' = Some w"
  have w: "w \<in> set (queue_set (ca_capacity c) v (cache_abs c))" "rkey w = key ip'"
    using g r queue_get_iff [OF cache_keys_distinct [of "Cache_Set c ip v"]] by (metis, metis)
  then show "w = v \<and> key ip = key ip' \<or> Cache_Get c ip' = Some w"
    unfolding cache_get_queue [OF c] queue_get_iff [OF cache_keys_distinct [OF c]]
    using v by (auto simp: queue_set_def rkey_def dest: in_set_dropD split: if_splits)
qed simp

text \<open>
  C3. The lookup service answers correctly from the cache: as long as no two of the addresses
  asked for have the same hash, every answer in a run, cached or fresh, whatever was evicted,
  is the one the GeoIP, reverse DNS and threat data give for that very address.
\<close>

theorem lookups_correct:
  assumes "inj_on key (set ips)"
  shows "run_lookups Cache_Get Cache_Set env ips (NewCache n) = map (compute_response env) ips"
proof -
  have "icache.honest env (set ips) (NewCache n)"
    unfolding icache.honest_def using NewCache_inv by (metis NewCache_get option.distinct(1))
  from icache.run_lookups_sound [OF this order_refl]
  have "list_all2 (\<lambda>ip r. \<exists>ip' \<in> set ips. key ip' = key ip \<and> r = compute_response env ip') ips
      (run_lookups Cache_Get Cache_Set env ips (NewCache n))" .
  then have "list_all2 (\<lambda>ip r. r = compute_response env ip) ips
      (run_lookups Cache_Get Cache_Set env ips (NewCache n))"
    using assms unfolding list_all2_conv_all_nth inj_on_def by (metis nth_mem)
  then show ?thesis by (auto simp: list_all2_conv_all_nth list_eq_iff_nth_eq)
qed

theorem lookups_correct_witness:
  "\<forall>env. run_lookups Cache_Get Cache_Set env [[1, 2, 3, 4], [1, 2, 3, 4]] (NewCache 1) =
     [compute_response env [1, 2, 3, 4], compute_response env [1, 2, 3, 4]]"
proof (intro allI)
  fix env :: "'a lookup_env"
  show "run_lookups Cache_Get Cache_Set env [[1, 2, 3, 4], [1, 2, 3, 4]] (NewCache 1) =
     [compute_response env [1, 2, 3, 4], compute_response env [1, 2, 3, 4]]"
    using lookups_correct [of "[[1, 2, 3, 4], [1, 2, 3, 4]]" env 1] by simp
qed

text \<open>The hash is all the cache compares, and two IPv6 addresses with the same hash exist.\<close>

lemma key_collision: "\<exists>ip ip'. length ip = 16 \<and> length ip' = 16 \<and> ip \<noteq> ip' \<and> key ip = key ip'"
proof -
  let ?A = "{ip :: ip. length ip = 16}"
  have "card ?A = CARD(u8) ^ 16"
    using card_lists_length_eq [of "UNIV :: u8 set" 16] by simp
  also have "\<dots> = 2 ^ 128" by (simp add: card_word)
  finally have "card (key ` ?A) < card ?A"
    using card_mono [of UNIV "key ` ?A"] by (simp add: card_word)
  then have "\<not> inj_on key ?A" using card_image by force
  then show ?thesis by (auto simp: inj_on_def)
qed

theorem lookup_collision_wrong:
  "\<exists>ip ip'. length ip = 16 \<and> length ip' = 16 \<and> ip \<noteq> ip' \<and>
     (\<forall>env. \<exists>r. run_lookups Cache_Get Cache_Set env [ip, ip'] (NewCache 1) = [r, r] \<and> rsp_IP r = ip)"
proof -
  obtain ip ip' where c: "length ip = 16" "length ip' = 16" "ip \<noteq> ip'" "key ip = key ip'"
    using key_collision by blast
  have "run_lookups Cache_Get Cache_Set env [ip, ip'] (NewCache 1) = [compute_response env ip, compute_response env ip]" for env
    using c(4) by (simp add: Service_Lookup_def Cache_Get_def Cache_Set_def NewCache_def Let_def)
  with c show ?thesis by fastforce
qed

text \<open>A cache made smaller to nothing still answers from what it holds.\<close>

lemma resize_zero_still_answers:
  "Cache_Get (snd (Cache_Resize (Cache_Set (NewCache 2) [1, 2, 3, 4] (sample_response [1, 2, 3, 4])) 0)) [1, 2, 3, 4] =
     Some (sample_response [1, 2, 3, 4])"
  by (simp add: Cache_Get_def Cache_Resize_def Cache_Set_def NewCache_def Let_def)

end
