(* ===== verification/Negotiate.thy ===== *)
theory Negotiate
  imports GoHttp
begin

text \<open>
  Which form an answer takes: the client detectors of \<open>common/httputil/detect.go\<close>, the two
  negotiation rules of \<open>server/request.go\<close>, the error codes of \<open>server/handler/negotiate.go\<close>,
  and the error path of \<open>server/error.go\<close>. The themed page renderer is a library on templates:
  the model takes whether it is present and whether it succeeds.
\<close>

section \<open>Clients\<close>

definition IsOurCliClient :: "string \<Rightarrow> bool" where
  "IsOurCliClient ua = HasPrefix ua ''ipgaze-cli/''"

definition text_browsers :: "string list" where
  "text_browsers = [''lynx/'', ''w3m/'', ''links '', ''links/'', ''elinks/'', ''browsh/'', ''carbonyl/'', ''netsurf'']"

definition IsTextBrowser :: "string \<Rightarrow> bool" where
  "IsTextBrowser ua = (let ua = ToLower ua in list_ex (\<lambda>b. Contains ua b) text_browsers)"

definition http_tools :: "string list" where
  "http_tools = [''curl/'', ''wget'', ''httpie/'', ''httpie-go/'', ''libcurl/'', ''python-requests/'',
     ''go-http-client/'', ''axios/'', ''node-fetch/'', ''xh/'', ''mikrotik/'', ''ddclient/'', ''fetch libfetch/'', ''go 1.'']"

definition IsHttpTool :: "string \<Rightarrow> bool" where
  "IsHttpTool ua = (if ua = [] then True else let lower = ToLower ua in list_ex (\<lambda>t. Contains lower t) http_tools)"

definition IsNonInteractiveClient :: "string \<Rightarrow> bool" where
  "IsNonInteractiveClient ua =
     (if IsOurCliClient ua then False else if IsTextBrowser ua then False else IsHttpTool ua)"

section \<open>Formats\<close>

datatype client_type = Html | Text | Json

definition detectClientType :: "http_request \<Rightarrow> client_type" where
  "detectClientType r =
     (let ua = Header_Get (rq_Header r) ''User-Agent''; accept = Header_Get (rq_Header r) ''Accept'' in
      if IsOurCliClient ua then Json
      else if Contains accept ''text/html'' then Html
      else if Contains accept ''text/plain'' then Text
      else if Contains accept ''application/json'' then Json
      else if IsTextBrowser ua then Html
      else if IsHttpTool ua then Text
      else Html)"

definition apiResponseFormat :: "http_request \<Rightarrow> client_type" where
  "apiResponseFormat r =
     (if HasSuffix (rq_Path r) ''.txt'' then Text
      else if Contains (Header_Get (rq_Header r) ''Accept'') ''text/plain'' then Text
      else if IsNonInteractiveClient (Header_Get (rq_Header r) ''User-Agent'') then Text
      else Json)"

text \<open>
  \<open>APITextSuffixMiddleware\<close>, without a router context of its own: the suffix is taken off the
  path and the request pinned to plain text. The result is the routed path and the request.
\<close>

definition APITextSuffixMiddleware :: "http_request \<Rightarrow> string \<times> http_request" where
  "APITextSuffixMiddleware r =
     (let routePath = rq_Path r in
      if \<not> HasSuffix routePath ''.txt'' then (routePath, r)
      else
        let trimmed = TrimSuffix routePath ''.txt''; trimmed = (if trimmed = [] then ''/'' else trimmed)
        in (trimmed, r\<lparr>rq_Path := TrimSuffix (rq_Path r) ''.txt'',
                     rq_Header := Header_Set (rq_Header r) ''Accept'' ''text/plain''\<rparr>))"

section \<open>Errors\<close>

definition ErrorCodeForStatus :: "nat \<Rightarrow> string" where
  "ErrorCodeForStatus code =
     (if code = 400 then ''BAD_REQUEST''
      else if code = 401 then ''UNAUTHORIZED''
      else if code = 403 then ''FORBIDDEN''
      else if code = 404 then ''NOT_FOUND''
      else if code = 405 then ''METHOD_NOT_ALLOWED''
      else if code = 409 then ''CONFLICT''
      else if code = 422 then ''UNPROCESSABLE_ENTITY''
      else if code = 429 then ''RATE_LIMITED''
      else if code = 413 then ''PAYLOAD_TOO_LARGE''
      else if code = 500 then ''SERVER_ERROR''
      else if code = 502 then ''BAD_GATEWAY''
      else if code = 503 then ''MAINTENANCE''
      else ''SERVER_ERROR'')"

record appError =
  ae_Message :: string
  ae_Code :: nat
  ae_ErrorCode :: string
  ae_ContentType :: string

definition jsonMediaType :: string where
  "jsonMediaType = ''application/json''"

definition internalServerError :: appError where
  "internalServerError = \<lparr>ae_Message = [], ae_Code = 500, ae_ErrorCode = [], ae_ContentType = []\<rparr>"

definition notFound :: appError where
  "notFound = \<lparr>ae_Message = [], ae_Code = 404, ae_ErrorCode = [], ae_ContentType = []\<rparr>"

definition badRequest :: appError where
  "badRequest = \<lparr>ae_Message = [], ae_Code = 400, ae_ErrorCode = [], ae_ContentType = []\<rparr>"

definition AsJSON :: "appError \<Rightarrow> appError" where
  "AsJSON e = e\<lparr>ae_ContentType := jsonMediaType\<rparr>"

definition WithMessage :: "appError \<Rightarrow> string \<Rightarrow> appError" where
  "WithMessage e m = e\<lparr>ae_Message := m\<rparr>"

definition jsonErrorCode :: "appError \<Rightarrow> string" where
  "jsonErrorCode e = (if ae_ErrorCode e \<noteq> [] then ae_ErrorCode e else ErrorCodeForStatus (ae_Code e))"

definition IsJSON :: "appError \<Rightarrow> bool" where
  "IsJSON e \<longleftrightarrow> ae_ContentType e = jsonMediaType"

definition default_message_key :: "nat \<Rightarrow> string" where
  "default_message_key code =
     (if code = 404 then ''errors.not_found''
      else if code = 405 then ''errors.method_not_allowed''
      else if code = 400 then ''errors.bad_request''
      else if code = 401 then ''errors.unauthorized''
      else if code = 403 then ''errors.forbidden''
      else if code = 429 then ''errors.rate_limited''
      else ''errors.server_error'')"

text \<open>
  The body of an error answer: the themed page, the JSON envelope with its code and message, or
  the message as text. \<open>page\<close> is \<open>None\<close> when no renderer is installed and otherwise whether it
  succeeds; \<open>tr\<close> translates a message key.
\<close>

datatype error_body = ErrorPage nat string | ErrorEnvelope string string | ErrorText string

record error_answer =
  ea_Status :: nat
  ea_ContentType :: string
  ea_Body :: error_body
  ea_Logged :: bool

definition serve_error :: "(string \<Rightarrow> string) \<Rightarrow> bool option \<Rightarrow> http_request \<Rightarrow> appError \<Rightarrow> error_answer" where
  "serve_error tr page r e =
     (let logged = (ae_Code e div 100 = 5);
          msg = (if ae_Message e = [] then tr (default_message_key (ae_Code e)) else ae_Message e)
      in if \<not> IsJSON e \<and> detectClientType r = Html \<and> page = Some True
         then \<lparr>ea_Status = ae_Code e, ea_ContentType = ''text/html; charset=utf-8'', ea_Body = ErrorPage (ae_Code e) msg,
               ea_Logged = logged\<rparr>
         else \<lparr>ea_Status = ae_Code e, ea_ContentType = ae_ContentType e,
               ea_Body = (if IsJSON e then ErrorEnvelope (jsonErrorCode e) msg else ErrorText msg),
               ea_Logged = logged\<rparr>)"

definition apiNotFoundWantsText :: "http_request \<Rightarrow> bool" where
  "apiNotFoundWantsText r =
     (if HasSuffix (rq_Path r) ''.txt'' then True
      else if Contains (Header_Get (rq_Header r) ''Accept'') ''text/plain'' then True
      else IsHttpTool (Header_Get (rq_Header r) ''User-Agent''))"

definition negotiate_error :: "http_request \<Rightarrow> appError \<Rightarrow> appError" where
  "negotiate_error r e =
     (if HasPrefix (rq_Path r) ''/api/'' then (if \<not> apiNotFoundWantsText r then AsJSON e else e)
      else if Header_Get (rq_Header r) ''accept'' = jsonMediaType then AsJSON e
      else e)"

definition NotFoundHandler :: "http_request \<Rightarrow> appError" where
  "NotFoundHandler r = negotiate_error r notFound"

definition writeNegotiatedError ::
  "(string \<Rightarrow> string) \<Rightarrow> bool option \<Rightarrow> http_request \<Rightarrow> nat \<Rightarrow> string \<Rightarrow> string \<Rightarrow> error_answer" where
  "writeNegotiatedError tr page r code errorCode msg =
     serve_error tr page r (negotiate_error r
       \<lparr>ae_Message = msg, ae_Code = code, ae_ErrorCode = errorCode, ae_ContentType = []\<rparr>)"

section \<open>Panics\<close>

text \<open>
  The answer after a handler panicked: nothing more when bytes have gone out, and otherwise a
  fixed page or envelope.
\<close>

definition recoverAndRespond :: "http_request \<Rightarrow> bool \<Rightarrow> error_answer option" where
  "recoverAndRespond r wroteHeader =
     (if wroteHeader then None
      else if detectClientType r \<noteq> Html
      then Some \<lparr>ea_Status = 500, ea_ContentType = ''application/json'',
                 ea_Body = ErrorEnvelope ''SERVER_ERROR'' ''Internal Server Error'', ea_Logged = True\<rparr>
      else Some \<lparr>ea_Status = 500, ea_ContentType = ''text/html; charset=utf-8'',
                 ea_Body = ErrorPage 500 ''Internal Server Error'', ea_Logged = True\<rparr>)"

section \<open>Facts\<close>

lemma ToLower_prefix: "HasPrefix s p \<Longrightarrow> HasPrefix (ToLower s) (ToLower p)"
  by (auto simp: HasPrefix_iff ToLower_def)

text \<open>
  What the client detection promises on every route: the project's own client is never
  answered with a page or pre-formatted text on a front-end route, whatever it accepts; an API
  route never answers with a page; and a client without an \<open>Accept\<close> header gets plain text from
  both kinds of route exactly when it is an HTTP tool that is neither the project's client nor a
  text browser, unless the API path asks for text itself.
\<close>

theorem negotiation_rules:
  "(IsOurCliClient (Header_Get (rq_Header r) ''User-Agent'') \<longrightarrow> detectClientType r = Json) \<and>
   apiResponseFormat r \<noteq> Html \<and>
   (Header_Get (rq_Header r) ''Accept'' = [] \<longrightarrow>
      (detectClientType r = Text \<longleftrightarrow> IsNonInteractiveClient (Header_Get (rq_Header r) ''User-Agent'')) \<and>
      (apiResponseFormat r = Text \<longleftrightarrow>
         IsNonInteractiveClient (Header_Get (rq_Header r) ''User-Agent'') \<or> HasSuffix (rq_Path r) ''.txt''))"
proof -
  have "\<not> Contains [] ''text/html''" "\<not> Contains [] ''text/plain''" "\<not> Contains [] ''application/json''"
    by (auto simp: Contains_iff)
  then show ?thesis
    by (auto simp: detectClientType_def apiResponseFormat_def IsNonInteractiveClient_def Let_def)
qed

theorem negotiation_rules_witness:
  "\<forall>p. detectClientType \<lparr>rq_Method = ''GET'', rq_Path = p, rq_Host = [], rq_URLHost = [], rq_RemoteAddr = [],
     rq_TLS = False, rq_Header = [(''User-Agent'', ''ipgaze-cli/1.0''), (''Accept'', ''text/html'')]\<rparr> = Json"
proof
  fix p
  let ?r = "\<lparr>rq_Method = ''GET'', rq_Path = p, rq_Host = [], rq_URLHost = [], rq_RemoteAddr = [],
     rq_TLS = False, rq_Header = [(''User-Agent'', ''ipgaze-cli/1.0''), (''Accept'', ''text/html'')]\<rparr>"
  have "IsOurCliClient (Header_Get (rq_Header ?r) ''User-Agent'')"
    by (simp add: IsOurCliClient_def Header_Get_def EqualFold_def HasPrefix_def)
  then show "detectClientType ?r = Json" using negotiation_rules [of ?r] by blast
qed

text \<open>
  Every rejection is a complete, correctly labelled answer: it has the status asked for; on
  an API path it is never the themed page when the client did not ask for text, but the JSON
  envelope, with the explicit code or the one of the status; a failing or missing page renderer
  still leaves an answer with the message; and exactly the answers with a 5xx status are logged.
\<close>

theorem rejection_complete:
  "ea_Status (writeNegotiatedError tr page r code errorCode msg) = code \<and>
   ea_Logged (writeNegotiatedError tr page r code errorCode msg) = (500 \<le> code \<and> code \<le> 599) \<and>
   (let m = (if msg = [] then tr (default_message_key code) else msg);
        b = ea_Body (writeNegotiatedError tr page r code errorCode msg) in
    if ea_ContentType (writeNegotiatedError tr page r code errorCode msg) = ''application/json''
    then b = ErrorEnvelope (if errorCode = [] then ErrorCodeForStatus code else errorCode) m
    else (b = ErrorPage code m \<and> page = Some True \<and> detectClientType r = Html \<or> b = ErrorText m) \<and>
         (HasPrefix (rq_Path r) ''/api/'' \<longrightarrow> apiNotFoundWantsText r))"
proof -
  have "n div 100 = 5 \<longleftrightarrow> 500 \<le> n \<and> n \<le> 599" for n :: nat by auto
  then show ?thesis
    by (auto simp: writeNegotiatedError_def negotiate_error_def serve_error_def AsJSON_def IsJSON_def
        jsonMediaType_def jsonErrorCode_def Let_def)
qed

theorem rejection_complete_witness:
  "\<forall>tr. apiNotFoundWantsText \<lparr>rq_Method = ''GET'', rq_Path = ''/api/x.txt'', rq_Host = [], rq_URLHost = [], rq_RemoteAddr = [],
     rq_TLS = False, rq_Header = []\<rparr> \<and>
   ea_Status (writeNegotiatedError tr None \<lparr>rq_Method = ''GET'', rq_Path = ''/api/x.txt'', rq_Host = [], rq_URLHost = [],
     rq_RemoteAddr = [], rq_TLS = False, rq_Header = []\<rparr> 404 [] ''gone'') = 404"
proof
  fix tr
  let ?r = "\<lparr>rq_Method = ''GET'', rq_Path = ''/api/x.txt'', rq_Host = [], rq_URLHost = [], rq_RemoteAddr = [],
     rq_TLS = False, rq_Header = []\<rparr> :: http_request"
  have "ea_ContentType (writeNegotiatedError tr None ?r 404 [] ''gone'') = []"
    by (simp add: writeNegotiatedError_def negotiate_error_def serve_error_def apiNotFoundWantsText_def Let_def str_simps)
  moreover have "HasPrefix (rq_Path ?r) ''/api/''" by (simp add: str_simps)
  ultimately show "apiNotFoundWantsText ?r \<and> ea_Status (writeNegotiatedError tr None ?r 404 [] ''gone'') = 404"
    using rejection_complete [of tr None ?r 404 "[]" "''gone''"] by (simp add: Let_def)
qed

text \<open>
  A request without a \<open>User-Agent\<close> counts as an HTTP tool: an unknown API path answers it with
  text.
\<close>

lemma empty_agent_wants_text:
  "Header_Get (rq_Header r) ''User-Agent'' = [] \<Longrightarrow> apiNotFoundWantsText r"
  by (simp add: apiNotFoundWantsText_def IsHttpTool_def)

text \<open>The suffix middleware makes every handler behind it answer with text.\<close>

lemma text_suffix_forces_text:
  "HasSuffix (rq_Path r) ''.txt'' \<Longrightarrow> apiResponseFormat (snd (APITextSuffixMiddleware r)) = Text"
proof -
  assume "HasSuffix (rq_Path r) ''.txt''"
  moreover have "Contains ''text/plain'' ''text/plain''" by (simp add: str_simps)
  ultimately show ?thesis
    by (simp add: APITextSuffixMiddleware_def apiResponseFormat_def Let_def)
qed

end
