(* ===== verification/Handlers.thy ===== *)
theory Handlers
  imports Trust IpLookup Negotiate
begin

text \<open>
  The request handlers of \<open>server/http.go\<close> and the address detection of \<open>server/request.go\<close>:
  which address a request is about, what is looked up for it, and in which form it is answered.
  The address parameter of the query string is the first value \<open>net/url\<close> parsed for \<open>ip\<close>; JSON
  encoding and the landing page are represented by the value they are made from; the TCP probe
  and the formatting of coordinates are parameters.
\<close>

section \<open>The address of a request\<close>

definition ipFromForwardedForHeader :: "string \<Rightarrow> string" where
  "ipFromForwardedForHeader v =
     (case IndexByte v (CHR '','') of None \<Rightarrow> TrimSpace v | Some sep \<Rightarrow> TrimSpace (take sep v))"

fun header_ip :: "header \<Rightarrow> string list \<Rightarrow> string" where
  "header_ip h [] = []"
| "header_ip h (name # names) =
     (let v = Header_Get h name;
          v = (if EqualFold name ''X-Forwarded-For'' then ipFromForwardedForHeader v else TrimSpace v)
      in if v \<noteq> [] then v else header_ip h names)"

record web_request =
  wr_Req :: http_request
  wr_QueryIP :: "string option"

datatype ip_error = BadRemoteAddr | CannotParse string

definition ipFromRequest :: "string list \<Rightarrow> web_request \<Rightarrow> bool \<Rightarrow> bool \<Rightarrow> ip_error + ip" where
  "ipFromRequest headers r customIP trusted =
     (let q = (if customIP then (case wr_QueryIP r of Some v \<Rightarrow> v | None \<Rightarrow> []) else []);
          h = (if q = [] \<and> trusted then header_ip (rq_Header (wr_Req r)) headers else q)
      in case (if h = [] then map_option fst (SplitHostPort (rq_RemoteAddr (wr_Req r))) else Some h) of
           None \<Rightarrow> Inl BadRemoteAddr
         | Some remoteIP \<Rightarrow>
             (case ParseIP remoteIP of None \<Rightarrow> Inl (CannotParse remoteIP) | Some ip \<Rightarrow> Inr ip))"

section \<open>The server\<close>

record ('c, 'f) server =
  sv_IPHeaders :: "string list"
  sv_Trust :: TrustResolver
  sv_Env :: "'f lookup_env"
  sv_Cache :: 'c
  sv_LookupPort :: "(ip \<Rightarrow> nat \<Rightarrow> bool) option"

text \<open>The full response: the cached part, the agent of this request and the hidden-service flag.\<close>

record 'f full_response =
  fl_Lookup :: "'f IPLookupResponse"
  fl_UserAgent :: "string option"
  fl_IsTorHiddenService :: "bool option"

definition userAgentFromRequest :: "http_request \<Rightarrow> string option" where
  "userAgentFromRequest r =
     (let raw = Header_Get (rq_Header r) ''User-Agent'' in if raw \<noteq> [] then Some raw else None)"

definition RequestIP :: "('c, 'f) server \<Rightarrow> web_request \<Rightarrow> bool \<Rightarrow> ip_error + ip" where
  "RequestIP s r allowOverride =
     ipFromRequest (sv_IPHeaders s) r allowOverride (IsTrustedPeer (Some (sv_Trust s)) (wr_Req r))"

definition LookupIP :: "('f Cache, 'f) server \<Rightarrow> ip \<Rightarrow> 'f IPLookupResponse \<times> ('f Cache, 'f) server" where
  "LookupIP s ip = (case Service_Lookup Cache_Get Cache_Set (sv_Env s) ip (sv_Cache s) of
     (resp, c) \<Rightarrow> (resp, s\<lparr>sv_Cache := c\<rparr>))"

definition newResponse ::
  "('f Cache, 'f) server \<Rightarrow> web_request \<Rightarrow> (ip_error + 'f full_response) \<times> ('f Cache, 'f) server" where
  "newResponse s r =
     (case RequestIP s r True of
        Inl e \<Rightarrow> (Inl e, s)
      | Inr ip \<Rightarrow>
          (case LookupIP s ip of (resp, s') \<Rightarrow>
             (Inr \<lparr>fl_Lookup = resp, fl_UserAgent = userAgentFromRequest (wr_Req r),
                   fl_IsTorHiddenService =
                     (if IsTorRequest (wr_Req r) (Some (sv_Trust s)) then Some True else None)\<rparr>, s')))"

section \<open>Answers\<close>

datatype 'f answer =
  AText string
| AJson "'f full_response"
| AField string string
| APort ip nat bool
| APage "'f full_response"
| AError appError

definition bad_request :: "(string \<Rightarrow> string) \<Rightarrow> 'f answer" where
  "bad_request tr = AError (AsJSON (WithMessage badRequest (tr ''errors.bad_request'')))"

definition CLIHandler :: "(string \<Rightarrow> string) \<Rightarrow> ('f Cache, 'f) server \<Rightarrow> web_request \<Rightarrow> 'f answer" where
  "CLIHandler tr s r = (case RequestIP s r True of
     Inl _ \<Rightarrow> bad_request tr
   | Inr ip \<Rightarrow> AText (IP_String ip @ [CHR 0x0A]))"

definition JSONHandler ::
  "(string \<Rightarrow> string) \<Rightarrow> ('f Cache, 'f) server \<Rightarrow> web_request \<Rightarrow> 'f answer \<times> ('f Cache, 'f) server" where
  "JSONHandler tr s r = (case newResponse s r of
     (Inl _, s') \<Rightarrow> (bad_request tr, s')
   | (Inr resp, s') \<Rightarrow> (AJson resp, s'))"

text \<open>The landing page, on a server whose page handler is initialised and whose templates render.\<close>

definition DefaultHandler ::
  "(string \<Rightarrow> string) \<Rightarrow> ('f Cache, 'f) server \<Rightarrow> web_request \<Rightarrow> 'f answer \<times> ('f Cache, 'f) server" where
  "DefaultHandler tr s r = (case newResponse s r of
     (Inl _, s') \<Rightarrow> (AError (WithMessage badRequest (tr ''errors.bad_request'')), s')
   | (Inr resp, s') \<Rightarrow> (APage resp, s'))"

definition ipLookupNegotiated ::
  "(string \<Rightarrow> string) \<Rightarrow> ip \<Rightarrow> ('f Cache, 'f) server \<Rightarrow> web_request \<Rightarrow> 'f answer \<times> ('f Cache, 'f) server" where
  "ipLookupNegotiated tr ip s r =
     (let r = r\<lparr>wr_QueryIP := Some (IP_String ip)\<rparr> in
      case detectClientType (wr_Req r) of
        Json \<Rightarrow> JSONHandler tr s r
      | Text \<Rightarrow> (CLIHandler tr s r, s)
      | Html \<Rightarrow> DefaultHandler tr s r)"

text \<open>The scalar routes: the field of the response, as a line of text or in the negotiated form.\<close>

definition coordinate_pair :: "('f \<Rightarrow> string) \<Rightarrow> ('f \<Rightarrow> bool) \<Rightarrow> 'f \<Rightarrow> 'f \<Rightarrow> string" where
  "coordinate_pair fmt is_zero lat lon = (if is_zero lat \<and> is_zero lon then [] else fmt lat @ '','' @ fmt lon)"

definition scalar_fields :: "('f \<Rightarrow> string) \<Rightarrow> ('f \<Rightarrow> bool) \<Rightarrow> (string \<times> ('f IPLookupResponse \<Rightarrow> string)) list" where
  "scalar_fields fmt is_zero =
     [(''country'', rsp_Country), (''country_iso'', rsp_CountryISO), (''city'', rsp_City),
      (''coordinates'', \<lambda>v. coordinate_pair fmt is_zero (rsp_Latitude v) (rsp_Longitude v)),
      (''asn'', rsp_ASN), (''asn_org'', rsp_ASNOrg)]"

definition CLIScalarHandler ::
  "(string \<Rightarrow> string) \<Rightarrow> ('f IPLookupResponse \<Rightarrow> string) \<Rightarrow> ('f Cache, 'f) server \<Rightarrow> web_request \<Rightarrow> 'f answer \<times> ('f Cache, 'f) server" where
  "CLIScalarHandler tr field s r = (case newResponse s r of
     (Inl _, s') \<Rightarrow> (bad_request tr, s')
   | (Inr resp, s') \<Rightarrow> (AText (field (fl_Lookup resp) @ [CHR 0x0A]), s'))"

definition writeAPIScalar :: "http_request \<Rightarrow> string \<Rightarrow> string \<Rightarrow> 'f answer" where
  "writeAPIScalar r field value =
     (if apiResponseFormat r = Text then AText (value @ [CHR 0x0A]) else AField field value)"

definition APIV1ScalarHandler ::
  "(string \<Rightarrow> string) \<Rightarrow> string \<Rightarrow> ('f IPLookupResponse \<Rightarrow> string) \<Rightarrow> ('f Cache, 'f) server \<Rightarrow> web_request \<Rightarrow>
   'f answer \<times> ('f Cache, 'f) server" where
  "APIV1ScalarHandler tr name field s r = (case newResponse s r of
     (Inl _, s') \<Rightarrow> (bad_request tr, s')
   | (Inr resp, s') \<Rightarrow> (writeAPIScalar (wr_Req r) name (field (fl_Lookup resp)), s'))"

text \<open>Lookups of an address named in the path.\<close>

definition IPLookupHandler ::
  "(string \<Rightarrow> string) \<Rightarrow> ('f Cache, 'f) server \<Rightarrow> web_request \<Rightarrow> 'f answer \<times> ('f Cache, 'f) server" where
  "IPLookupHandler tr s r =
     (let path = TrimPrefix (rq_Path (wr_Req r)) ''/'';
          ipPart = hd (SplitByteN2 path (CHR ''/''))
      in case ParseIP (Trim ipPart ''[]'') of
           None \<Rightarrow> (bad_request tr, s)
         | Some ip \<Rightarrow> (case LookupIP s ip of (resp, s') \<Rightarrow>
             (AJson \<lparr>fl_Lookup = resp, fl_UserAgent = None, fl_IsTorHiddenService = None\<rparr>, s')))"

definition APIV1IPLookupHandler ::
  "(string \<Rightarrow> string) \<Rightarrow> ('f Cache, 'f) server \<Rightarrow> web_request \<Rightarrow> 'f answer \<times> ('f Cache, 'f) server" where
  "APIV1IPLookupHandler tr s r =
     (case ParseIP (Trim (TrimPrefix (rq_Path (wr_Req r)) ''/api/v1/ip/'') ''[]'') of
        None \<Rightarrow> (bad_request tr, s)
      | Some ip \<Rightarrow> JSONHandler tr s (r\<lparr>wr_QueryIP := Some (IP_String ip)\<rparr>))"

section \<open>The port check\<close>

text \<open>\<open>filepath.Base\<close> and \<open>strconv.ParseUint(s, 10, 16)\<close>.\<close>

definition path_Base :: "string \<Rightarrow> string" where
  "path_Base p =
     (if p = [] then ''.''
      else let q = TrimRightFunc (\<lambda>c. c = CHR ''/'') p in
        if q = [] then ''/'' else last (SplitByte q (CHR ''/'')))"

definition ParseUint16 :: "string \<Rightarrow> nat option" where
  "ParseUint16 s = (case parse_uint s of None \<Rightarrow> None | Some n \<Rightarrow> if n < 2 ^ 16 then Some n else None)"

definition CheckPort :: "('c, 'f) server \<Rightarrow> ip \<Rightarrow> nat \<Rightarrow> bool option" where
  "CheckPort s ip port = (case sv_LookupPort s of None \<Rightarrow> None | Some f \<Rightarrow> Some (f ip port))"

definition newPortResponse :: "('c, 'f) server \<Rightarrow> web_request \<Rightarrow> (ip \<times> nat \<times> bool) option" where
  "newPortResponse s r =
     (case ParseUint16 (path_Base (rq_Path (wr_Req r))) of
        None \<Rightarrow> None
      | Some port \<Rightarrow>
          if port < 1 \<or> 65535 < port then None
          else case RequestIP s r False of
            Inl _ \<Rightarrow> None
          | Inr ip \<Rightarrow>
              (case CheckPort s ip port of None \<Rightarrow> None | Some ok \<Rightarrow> Some (ip, port, ok)))"

definition PortHandler :: "(string \<Rightarrow> string) \<Rightarrow> ('c, 'f) server \<Rightarrow> web_request \<Rightarrow> 'f answer" where
  "PortHandler tr s r = (case newPortResponse s r of
     None \<Rightarrow> bad_request tr
   | Some (ip, port, ok) \<Rightarrow> APort ip port ok)"

section \<open>Facts\<close>

lemma RequestIP_untrusted:
  assumes "\<not> IsTrustedPeer (Some (sv_Trust s)) (wr_Req r)" and "allow = False \<or> wr_QueryIP r = None"
  shows "RequestIP s r allow = (case SplitHostPort (rq_RemoteAddr (wr_Req r)) of
     None \<Rightarrow> Inl BadRemoteAddr
   | Some (h, p) \<Rightarrow> (case ParseIP h of None \<Rightarrow> Inl (CannotParse h) | Some ip \<Rightarrow> Inr ip))"
  using assms by (auto simp: RequestIP_def ipFromRequest_def Let_def split: option.splits)

lemma RequestIP_no_override: "RequestIP s (r\<lparr>wr_QueryIP := q\<rparr>) False = RequestIP s r False"
  by (simp add: RequestIP_def ipFromRequest_def Let_def)

text \<open>
  C8. The port check probes nobody but its caller: the port is between 1 and 65535, the probed
  address does not depend on the query string, and for a peer that is not trusted it is the
  address the connection came from, whatever headers the request carries.
\<close>

theorem port_probe_targets_caller:
  assumes "newPortResponse s r = Some (ip, port, ok)"
  shows "1 \<le> port \<and> port \<le> 65535 \<and> CheckPort s ip port = Some ok \<and>
    newPortResponse s (r\<lparr>wr_QueryIP := q\<rparr>) = Some (ip, port, ok) \<and>
    (\<not> IsTrustedPeer (Some (sv_Trust s)) (wr_Req r) \<longrightarrow>
       (\<exists>h p. SplitHostPort (rq_RemoteAddr (wr_Req r)) = Some (h, p) \<and> ParseIP h = Some ip))"
proof -
  from assms have ip: "RequestIP s r False = Inr ip" and rest: "1 \<le> port" "port \<le> 65535" "CheckPort s ip port = Some ok"
    by (auto simp: newPortResponse_def split: option.splits if_splits sum.splits)
  have "newPortResponse s (r\<lparr>wr_QueryIP := q\<rparr>) = Some (ip, port, ok)"
    using assms by (auto simp: newPortResponse_def RequestIP_no_override split: option.splits if_splits sum.splits)
  moreover have "\<exists>h p. SplitHostPort (rq_RemoteAddr (wr_Req r)) = Some (h, p) \<and> ParseIP h = Some ip"
    if "\<not> IsTrustedPeer (Some (sv_Trust s)) (wr_Req r)"
    using ip RequestIP_untrusted [OF that, of False] by (auto split: option.splits prod.splits)
  ultimately show ?thesis using rest by blast
qed


text \<open>Addresses in paths.\<close>

lemma dotted_trim:
  assumes "length b = 4"
  shows "Trim (dotted b) ''[]'' = dotted b"
proof -
  have "c \<noteq> CHR ''['' \<and> c \<noteq> CHR '']''" if "c \<in> set (dotted b)" for c
    using dotted_chars [OF that] by (auto simp: is_digit_def Let_def)
  then show ?thesis by (auto simp: Trim_def intro!: TrimFunc_id)
qed

lemma IP_String_mapped: "length b = 4 \<Longrightarrow> IP_String (v4InV6Prefix @ b) = dotted b"
  by (simp add: IP_String_def To4_def v4InV6Prefix_def)

lemma RequestIP_pinned:
  assumes "length b = 4"
  shows "RequestIP s (r\<lparr>wr_QueryIP := Some (dotted b)\<rparr>) True = Inr (v4InV6Prefix @ b)"
  using ParseIP_dotted [OF assms] assms
  by (auto simp: RequestIP_def ipFromRequest_def Let_def dotted_def length_Suc_conv numeral_eq_Suc split: option.splits)

lemma newResponse_pinned:
  assumes "length b = 4"
  shows "newResponse s (r\<lparr>wr_QueryIP := Some (dotted b)\<rparr>) =
    (Inr \<lparr>fl_Lookup = fst (LookupIP s (v4InV6Prefix @ b)), fl_UserAgent = userAgentFromRequest (wr_Req r),
          fl_IsTorHiddenService = (if IsTorRequest (wr_Req r) (Some (sv_Trust s)) then Some True else None)\<rparr>,
     snd (LookupIP s (v4InV6Prefix @ b)))"
  by (simp add: newResponse_def RequestIP_pinned [OF assms] split: prod.splits)

text \<open>
  Every route that names an IPv4 address is about exactly that address: for the path
  \<open>/api/v1/ip/a.b.c.d\<close>, the path \<open>/a.b.c.d/json\<close> and the negotiated route \<open>/a.b.c.d\<close> in each of
  its three forms, the answer holds the lookup of that address, although two of them hand it on
  as text in the query string.
\<close>

theorem named_address_lookup:
  assumes "length b = 4" and "rq_Path (wr_Req r1) = ''/api/v1/ip/'' @ dotted b"
    and "rq_Path (wr_Req r2) = ''/'' @ dotted b @ ''/json''"
  shows "(\<exists>f. fst (APIV1IPLookupHandler tr s r1) = AJson f \<and> fl_Lookup f = fst (LookupIP s (v4InV6Prefix @ b))) \<and>
    (\<exists>f. fst (IPLookupHandler tr s r2) = AJson f \<and> fl_Lookup f = fst (LookupIP s (v4InV6Prefix @ b))) \<and>
    (case fst (ipLookupNegotiated tr (v4InV6Prefix @ b) s r) of
       AText t \<Rightarrow> t = dotted b @ [CHR 0x0A]
     | AJson f \<Rightarrow> fl_Lookup f = fst (LookupIP s (v4InV6Prefix @ b))
     | APage f \<Rightarrow> fl_Lookup f = fst (LookupIP s (v4InV6Prefix @ b))
     | _ \<Rightarrow> False)"
proof (intro conjI)
  note d = ParseIP_dotted [OF assms(1)] dotted_trim [OF assms(1)] IP_String_mapped [OF assms(1)]
  have "TrimPrefix (''/api/v1/ip/'' @ dotted b) ''/api/v1/ip/'' = dotted b"
    by (simp add: TrimPrefix_def HasPrefix_def)
  then show "\<exists>f. fst (APIV1IPLookupHandler tr s r1) = AJson f \<and> fl_Lookup f = fst (LookupIP s (v4InV6Prefix @ b))"
    using assms(2) d by (simp add: APIV1IPLookupHandler_def JSONHandler_def newResponse_pinned [OF assms(1)])
  have "TrimPrefix (''/'' @ dotted b @ ''/json'') ''/'' = dotted b @ ''/json''"
    by (simp add: TrimPrefix_def HasPrefix_def)
  moreover have "hd (SplitByteN2 (dotted b @ ''/json'') (CHR ''/'')) = dotted b"
    using IndexByte_append_notin [OF dotted_no_slash [OF assms(1)]] by (simp add: SplitByteN2_def)
  ultimately show "\<exists>f. fst (IPLookupHandler tr s r2) = AJson f \<and> fl_Lookup f = fst (LookupIP s (v4InV6Prefix @ b))"
    using assms(3) d by (simp add: IPLookupHandler_def split: prod.splits)
  show "case fst (ipLookupNegotiated tr (v4InV6Prefix @ b) s r) of
       AText t \<Rightarrow> t = dotted b @ [CHR 0x0A]
     | AJson f \<Rightarrow> fl_Lookup f = fst (LookupIP s (v4InV6Prefix @ b))
     | APage f \<Rightarrow> fl_Lookup f = fst (LookupIP s (v4InV6Prefix @ b))
     | _ \<Rightarrow> False"
    using d by (simp add: ipLookupNegotiated_def CLIHandler_def JSONHandler_def DefaultHandler_def
        newResponse_pinned [OF assms(1)] RequestIP_pinned [OF assms(1)] Let_def split: client_type.splits)
qed

text \<open>The scalar routes report the fields of the very response the JSON route gives.\<close>

lemma scalar_routes_agree:
  assumes "fst (JSONHandler tr s r) = AJson f"
  shows "fst (CLIScalarHandler tr field s r) = AText (field (fl_Lookup f) @ [CHR 0x0A])"
    and "fst (APIV1ScalarHandler tr name field s r) = writeAPIScalar (wr_Req r) name (field (fl_Lookup f))"
  using assms by (auto simp: JSONHandler_def CLIScalarHandler_def APIV1ScalarHandler_def bad_request_def
      split: prod.splits sum.splits)

section \<open>Witnesses\<close>

definition sample_server :: "(unit Cache, unit) server" where
  "sample_server = \<lparr>sv_IPHeaders = [''X-Real-IP''],
     sv_Trust = \<lparr>listenCIDR = None, additional = [], dnsCache = \<lambda>_. None, OnionAddress = [], I2PAddress = []\<rparr>,
     sv_Env = \<lparr>le_Country = \<lambda>_. \<lparr>gy_Name = ''X'', gy_ISO = ''XX'', gy_IsEU = None\<rparr>,
       le_City = \<lambda>_. \<lparr>gc_Name = [], gc_Latitude = (), gc_Longitude = (), gc_PostalCode = [], gc_Timezone = [],
         gc_MetroCode = 0, gc_RegionName = [], gc_RegionCode = []\<rparr>,
       le_ASN = \<lambda>_. \<lparr>ga_Number = 0, ga_Org = []\<rparr>, le_LookupAddr = None, le_Threat = None\<rparr>,
     sv_Cache = NewCache 2, sv_LookupPort = Some (\<lambda>_ _. True)\<rparr>"

definition sample_web :: "string \<Rightarrow> web_request" where
  "sample_web path = \<lparr>wr_Req = \<lparr>rq_Method = ''GET'', rq_Path = path, rq_Host = ''h'', rq_URLHost = [],
     rq_RemoteAddr = ''8.8.8.8:53'', rq_TLS = False, rq_Header = [(''X-Real-IP'', ''10.0.0.1'')]\<rparr>, wr_QueryIP = None\<rparr>"

lemma sample_untrusted: "\<not> IsTrustedPeer (Some (sv_Trust sample_server)) (wr_Req (sample_web p))"
  by (simp add: IsTrustedPeer_iff IsLoopback_def IsPrivate_def IsLinkLocalUnicast_def
        sample_server_def sample_web_def strip_port_def net_eval)

lemma sample_peer: "SplitHostPort ''8.8.8.8:53'' = Some (''8.8.8.8'', ''53'')"
  "ParseIP ''8.8.8.8'' = Some (v4InV6Prefix @ [8, 8, 8, 8])"
  by (simp_all add: net_eval)

theorem port_probe_targets_caller_witness:
  "newPortResponse sample_server (sample_web ''/port/443'') = Some (v4InV6Prefix @ [8, 8, 8, 8], 443, True) \<and>
   newPortResponse sample_server ((sample_web ''/port/443'')\<lparr>wr_QueryIP := Some ''10.0.0.1''\<rparr>) =
     Some (v4InV6Prefix @ [8, 8, 8, 8], 443, True)"
proof -
  have "RequestIP sample_server (sample_web ''/port/443'') False = Inr (v4InV6Prefix @ [8, 8, 8, 8])"
    using RequestIP_untrusted [OF sample_untrusted, of False] sample_peer by (simp add: sample_web_def)
  moreover have "path_Base ''/port/443'' = ''443''" "ParseUint16 ''443'' = Some 443"
    by (simp_all add: path_Base_def ParseUint16_def parse_uint_def str_simps)
  ultimately have "newPortResponse sample_server (sample_web ''/port/443'') = Some (v4InV6Prefix @ [8, 8, 8, 8], 443, True)"
    by (simp add: newPortResponse_def CheckPort_def sample_web_def sample_server_def)
  then show ?thesis using port_probe_targets_caller [of sample_server "sample_web ''/port/443''"] by blast
qed


theorem named_address_lookup_witness:
  "\<forall>tr. \<exists>f. fst (APIV1IPLookupHandler tr sample_server (sample_web (''/api/v1/ip/'' @ dotted [1, 2, 3, 4]))) = AJson f \<and>
     fl_Lookup f = fst (LookupIP sample_server (v4InV6Prefix @ [1, 2, 3, 4]))"
  using named_address_lookup [of "[1, 2, 3, 4]" "sample_web (''/api/v1/ip/'' @ dotted [1, 2, 3, 4])"
      "sample_web (''/'' @ dotted [1, 2, 3, 4] @ ''/json'')" _ sample_server]
  by (auto simp: sample_web_def)

end
