(* ===== verification/CacheBackends.thy ===== *)
theory CacheBackends
  imports GoStrings
begin

text \<open>
  Package \<open>cache\<close>: one interface over a no-op, an in-memory, a Redis and a Memcache backend.
  The two client libraries are parameters (what a call returns and the new server state).
  Times and TTLs are in nanoseconds, values are byte strings.
\<close>

section \<open>Configuration\<close>

record CacheConfig =
  cc_Type :: string
  cc_URL :: string
  cc_TTL :: string
  cc_Prefix :: string
  cc_Host :: string
  cc_Port :: nat

definition ApplyEnvOverrides :: "string \<Rightarrow> CacheConfig \<Rightarrow> CacheConfig" where
  "ApplyEnvOverrides cacheURL cfg =
     (if cacheURL = [] then cfg
      else let c = cfg\<lparr>cc_URL := cacheURL\<rparr> in
        if cc_Type c = [] \<or> cc_Type c = ''none'' \<or> cc_Type c = ''memory'' then c\<lparr>cc_Type := ''valkey''\<rparr> else c)"

datatype backend = NoopBackend | RedisBackend | MemcacheBackend | MemoryBackend

definition backend_for :: "string \<Rightarrow> backend" where
  "backend_for t = (if t = ''none'' then NoopBackend
     else if t = ''valkey'' \<or> t = ''redis'' then RedisBackend
     else if t = ''memcache'' then MemcacheBackend
     else MemoryBackend)"

text \<open>\<open>time.ParseDuration\<close> is an argument: \<open>None\<close> is its error.\<close>

definition parseDuration :: "(string \<Rightarrow> gotime option) \<Rightarrow> string \<Rightarrow> gotime \<Rightarrow> gotime" where
  "parseDuration parse s fallback =
     (if s = [] then fallback
      else case parse s of None \<Rightarrow> fallback | Some d \<Rightarrow> if d \<le> 0 then fallback else d)"

definition Key :: "string \<Rightarrow> string \<Rightarrow> string \<Rightarrow> string" where
  "Key prefix resource ident = (if prefix \<noteq> [] then prefix @ resource @ '':'' @ ident
     else resource @ '':'' @ ident)"

definition memcache_addr :: "CacheConfig \<Rightarrow> string" where
  "memcache_addr cfg =
     (if cc_URL cfg \<noteq> [] then cc_URL cfg
      else (let host = (if cc_Host cfg = [] then ''localhost'' else cc_Host cfg);
                port = (if cc_Port cfg = 0 then 11211 else cc_Port cfg);
                h = (if CHR '':'' \<in> set host \<or> CHR ''%'' \<in> set host then ''['' @ host @ '']'' else host)
            in h @ '':'' @ Itoa port))"

section \<open>Memory backend\<close>

datatype cache_error = ErrNotFound | BackendError string

record memoryEntry =
  me_value :: string
  me_expires :: gotime

record memoryCache =
  mc_entries :: "string \<Rightarrow> memoryEntry option"
  mc_prefix :: string
  mc_defaultTTL :: gotime

definition newMemoryCache :: "string \<Rightarrow> gotime \<Rightarrow> memoryCache" where
  "newMemoryCache prefix defaultTTL = \<lparr>mc_entries = Map.empty, mc_prefix = prefix, mc_defaultTTL = defaultTTL\<rparr>"

definition mc_key :: "memoryCache \<Rightarrow> string \<Rightarrow> string" where
  "mc_key m k = mc_prefix m @ k"

definition memory_janitor :: "gotime \<Rightarrow> memoryCache \<Rightarrow> memoryCache" where
  "memory_janitor now m =
     m\<lparr>mc_entries := (\<lambda>k. case mc_entries m k of
         Some e \<Rightarrow> if me_expires e < now then None else Some e | None \<Rightarrow> None)\<rparr>"

definition memory_Get :: "gotime \<Rightarrow> string \<Rightarrow> memoryCache \<Rightarrow> (cache_error + string) \<times> memoryCache" where
  "memory_Get now k m =
     (case mc_entries m (mc_key m k) of
        None \<Rightarrow> (Inl ErrNotFound, m)
      | Some e \<Rightarrow>
          if me_expires e < now
          then (Inl ErrNotFound, m\<lparr>mc_entries := (mc_entries m)(mc_key m k := None)\<rparr>)
          else (Inr (me_value e), m))"

definition memory_Set :: "gotime \<Rightarrow> string \<Rightarrow> string \<Rightarrow> gotime \<Rightarrow> memoryCache \<Rightarrow> memoryCache" where
  "memory_Set now k v ttl m =
     (let ttl' = (if ttl \<le> 0 then mc_defaultTTL m else ttl) in
      m\<lparr>mc_entries := (mc_entries m)(mc_key m k \<mapsto> \<lparr>me_value = v, me_expires = now + ttl'\<rparr>)\<rparr>)"

definition memory_Delete :: "string \<Rightarrow> memoryCache \<Rightarrow> memoryCache" where
  "memory_Delete k m = m\<lparr>mc_entries := (mc_entries m)(mc_key m k := None)\<rparr>"

definition memory_Flush :: "memoryCache \<Rightarrow> memoryCache" where
  "memory_Flush m = m\<lparr>mc_entries := Map.empty\<rparr>"

section \<open>No-op backend\<close>

definition noop_Get :: "gotime \<Rightarrow> string \<Rightarrow> unit \<Rightarrow> (cache_error + string) \<times> unit" where
  "noop_Get now k s = (Inl ErrNotFound, s)"

definition noop_Set :: "gotime \<Rightarrow> string \<Rightarrow> string \<Rightarrow> gotime \<Rightarrow> unit \<Rightarrow> unit" where
  "noop_Set now k v ttl s = s"

definition noop_Delete :: "string \<Rightarrow> unit \<Rightarrow> unit" where
  "noop_Delete k s = s"

definition noop_Flush :: "unit \<Rightarrow> unit" where
  "noop_Flush s = s"

section \<open>Redis and Memcache backends\<close>

text \<open>
  A client call returns an error message or a result, and the new state of the server. A miss
  is a result of its own.
\<close>

record 'c cache_client =
  cl_get :: "string \<Rightarrow> 'c \<Rightarrow> (string + string option) \<times> 'c"
  cl_set :: "string \<Rightarrow> string \<Rightarrow> int \<Rightarrow> 'c \<Rightarrow> string option \<times> 'c"
  cl_del :: "string \<Rightarrow> 'c \<Rightarrow> (string + bool) \<times> 'c"
  cl_flush :: "'c \<Rightarrow> string option \<times> 'c"

definition client_Get ::
  "'c cache_client \<Rightarrow> string \<Rightarrow> string \<Rightarrow> 'c \<Rightarrow> (cache_error + string) \<times> 'c" where
  "client_Get cl prefix k s =
     (case cl_get cl (prefix @ k) s of
        (Inr None, s') \<Rightarrow> (Inl ErrNotFound, s')
      | (Inr (Some v), s') \<Rightarrow> (Inr v, s')
      | (Inl e, s') \<Rightarrow> (Inl (BackendError e), s'))"

definition redis_Set ::
  "'c cache_client \<Rightarrow> string \<Rightarrow> gotime \<Rightarrow> string \<Rightarrow> string \<Rightarrow> gotime \<Rightarrow> 'c \<Rightarrow> cache_error option \<times> 'c" where
  "redis_Set cl prefix defaultTTL k v ttl s =
     (let ttl' = (if ttl \<le> 0 then defaultTTL else ttl) in
      case cl_set cl (prefix @ k) v ttl' s of (e, s') \<Rightarrow> (map_option BackendError e, s'))"

definition client_Delete :: "'c cache_client \<Rightarrow> string \<Rightarrow> string \<Rightarrow> 'c \<Rightarrow> cache_error option \<times> 'c" where
  "client_Delete cl prefix k s =
     (case cl_del cl (prefix @ k) s of
        (Inr _, s') \<Rightarrow> (None, s')
      | (Inl e, s') \<Rightarrow> (Some (BackendError e), s'))"

definition client_Flush :: "'c cache_client \<Rightarrow> 'c \<Rightarrow> cache_error option \<times> 'c" where
  "client_Flush cl s = (case cl_flush cl s of (e, s') \<Rightarrow> (map_option BackendError e, s'))"

definition second :: gotime where
  "second = 1000000000"

definition maxRelativeTTL :: gotime where
  "maxRelativeTTL = 30 * 24 * 3600 * second"

text \<open>
  The expiration field of a Memcache item, a 32-bit signed number: relative seconds, or a Unix
  time for more than 30 days. \<open>now\<close> is the Unix time in nanoseconds.
\<close>

definition memcache_expiry :: "gotime \<Rightarrow> gotime \<Rightarrow> gotime \<Rightarrow> 32 word" where
  "memcache_expiry now defaultTTL ttl =
     (let t = (if ttl \<le> 0 then defaultTTL else ttl) in
      if maxRelativeTTL < t then word_of_int ((now + t) div second)
      else let e = (word_of_int (t div second) :: 32 word) in
        if sint e \<le> 0 then 3600 else e)"

definition memcache_Set ::
  "'c cache_client \<Rightarrow> string \<Rightarrow> gotime \<Rightarrow> gotime \<Rightarrow> string \<Rightarrow> string \<Rightarrow> gotime \<Rightarrow> 'c \<Rightarrow> cache_error option \<times> 'c" where
  "memcache_Set cl prefix defaultTTL now k v ttl s =
     (case cl_set cl (prefix @ k) v (sint (memcache_expiry now defaultTTL ttl)) s of
        (e, s') \<Rightarrow> (map_option BackendError e, s'))"

section \<open>Histories\<close>

text \<open>
  A backend behind the interface: its operations, and the janitor's sweep (nothing, where
  there is no janitor).
\<close>

record 's backend_ops =
  bo_Get :: "gotime \<Rightarrow> string \<Rightarrow> 's \<Rightarrow> (cache_error + string) \<times> 's"
  bo_Set :: "gotime \<Rightarrow> string \<Rightarrow> string \<Rightarrow> gotime \<Rightarrow> 's \<Rightarrow> 's"
  bo_Delete :: "string \<Rightarrow> 's \<Rightarrow> 's"
  bo_Flush :: "'s \<Rightarrow> 's"
  bo_Sweep :: "gotime \<Rightarrow> 's \<Rightarrow> 's"

definition memory_ops :: "memoryCache backend_ops" where
  "memory_ops = \<lparr>bo_Get = memory_Get, bo_Set = memory_Set, bo_Delete = memory_Delete, bo_Flush = memory_Flush,
     bo_Sweep = memory_janitor\<rparr>"

definition noop_ops :: "unit backend_ops" where
  "noop_ops = \<lparr>bo_Get = noop_Get, bo_Set = noop_Set, bo_Delete = noop_Delete, bo_Flush = noop_Flush,
     bo_Sweep = (\<lambda>_ s. s)\<rparr>"

text \<open>
  The operations of a client, each with its time, and the ideal cache: a map from keys to a
  value and the time it ends.
\<close>

datatype cache_op = OpGet string | OpSet string string gotime | OpDelete string | OpFlush | OpSweep

fun do_op :: "'s backend_ops \<Rightarrow> gotime \<Rightarrow> cache_op \<Rightarrow> 's \<Rightarrow> 's" where
  "do_op ops t (OpGet k) s = snd (bo_Get ops t k s)"
| "do_op ops t (OpSet k v ttl) s = bo_Set ops t k v ttl s"
| "do_op ops t (OpDelete k) s = bo_Delete ops k s"
| "do_op ops t OpFlush s = bo_Flush ops s"
| "do_op ops t OpSweep s = bo_Sweep ops t s"

fun run_ops :: "'s backend_ops \<Rightarrow> (gotime \<times> cache_op) list \<Rightarrow> 's \<Rightarrow> 's" where
  "run_ops ops [] s = s"
| "run_ops ops ((t, c) # cs) s = run_ops ops cs (do_op ops t c s)"

type_synonym ideal = "string \<Rightarrow> (string \<times> gotime) option"

fun ideal_step :: "(gotime \<Rightarrow> gotime) \<Rightarrow> gotime \<Rightarrow> cache_op \<Rightarrow> ideal \<Rightarrow> ideal" where
  "ideal_step ttlf t (OpSet k v ttl) m = m(k \<mapsto> (v, t + ttlf ttl))"
| "ideal_step ttlf t (OpDelete k) m = m(k := None)"
| "ideal_step ttlf t OpFlush m = Map.empty"
| "ideal_step ttlf t (OpGet k) m = m"
| "ideal_step ttlf t OpSweep m = m"

definition ideal_get :: "gotime \<Rightarrow> string \<Rightarrow> ideal \<Rightarrow> string option" where
  "ideal_get t k m = (case m k of None \<Rightarrow> None | Some (v, e) \<Rightarrow> if t \<le> e then Some v else None)"

fun ideal_run :: "(gotime \<Rightarrow> gotime) \<Rightarrow> (gotime \<times> cache_op) list \<Rightarrow> ideal \<Rightarrow> ideal" where
  "ideal_run ttlf [] m = m"
| "ideal_run ttlf ((t, c) # cs) m = ideal_run ttlf cs (ideal_step ttlf t c m)"

section \<open>The contract\<close>

text \<open>
  What every in-process backend promises: what it holds for a key is what was last stored
  there, and a lookup returns nothing else, and nothing past its time. The second contract
  adds that nothing is lost before its time.
\<close>

locale cache_backend =
  fixes ops :: "'s backend_ops"
    and content :: "'s \<Rightarrow> ideal"
    and ttl_of :: "'s \<Rightarrow> gotime \<Rightarrow> gotime"
  assumes get_sound: "fst (bo_Get ops t k s) = Inr v \<Longrightarrow> \<exists>e. content s k = Some (v, e) \<and> t \<le> e"
    and op_content: "content (do_op ops t c s) k = Some p \<Longrightarrow> ideal_step (ttl_of s) t c (content s) k = Some p"
    and op_ttl: "ttl_of (do_op ops t c s) = ttl_of s"
begin

definition within :: "'s \<Rightarrow> ideal \<Rightarrow> bool" where
  "within s m \<longleftrightarrow> content s \<subseteq>\<^sub>m m"

lemma do_op_within:
  assumes "within s m"
  shows "within (do_op ops t c s) (ideal_step (ttl_of s) t c m)"
proof -
  have "ideal_step (ttl_of s) t c (content s) \<subseteq>\<^sub>m ideal_step (ttl_of s) t c m"
    using assms by (cases c) (auto simp: within_def map_le_def)
  moreover have "content (do_op ops t c s) \<subseteq>\<^sub>m ideal_step (ttl_of s) t c (content s)"
    using op_content [of t c s] by (force simp: map_le_def)
  ultimately show ?thesis unfolding within_def by (rule map_le_trans [rotated])
qed

lemma run_ops_within: "within s m \<Longrightarrow> within (run_ops ops cs s) (ideal_run (ttl_of s) cs m)"
proof (induction cs arbitrary: s m)
  case Nil
  then show ?case by simp
next
  case (Cons a cs)
  obtain t c where a: "a = (t, c)" by fastforce
  show ?case using Cons.IH [OF do_op_within [OF Cons.prems, of t c]] by (simp add: a op_ttl)
qed

lemma never_stale:
  assumes "within s m" "fst (bo_Get ops t k (run_ops ops cs s)) = Inr v"
  shows "ideal_get t k (ideal_run (ttl_of s) cs m) = Some v"
proof -
  obtain e where e: "content (run_ops ops cs s) k = Some (v, e)" "t \<le> e"
    using get_sound [OF assms(2)] by blast
  have "content (run_ops ops cs s) \<subseteq>\<^sub>m ideal_run (ttl_of s) cs m"
    using run_ops_within [OF assms(1)] by (simp add: within_def)
  with e(1) have "ideal_run (ttl_of s) cs m k = Some (v, e)" by (force simp: map_le_def dom_def)
  with e(2) show ?thesis by (simp add: ideal_get_def)
qed

end

locale exact_backend = cache_backend +
  assumes get_complete: "content s k = Some (v, e) \<Longrightarrow> t \<le> e \<Longrightarrow> fst (bo_Get ops t k s) = Inr v"
    and op_complete: "ideal_step (ttl_of s) t c (content s) k = Some (v, e) \<Longrightarrow> t \<le> e \<Longrightarrow>
      content (do_op ops t c s) k = Some (v, e)"
begin

text \<open>From time \<open>t\<close> on, the backend holds what the ideal cache still returns.\<close>

definition holds_from :: "gotime \<Rightarrow> 'a \<Rightarrow> ideal \<Rightarrow> bool" where
  "holds_from t s m \<longleftrightarrow> (\<forall>k v e. m k = Some (v, e) \<longrightarrow> t \<le> e \<longrightarrow> content s k = Some (v, e))"

lemma holds_from_later: "holds_from t s m \<Longrightarrow> t \<le> t' \<Longrightarrow> holds_from t' s m"
  by (auto simp: holds_from_def)

lemma do_op_holds:
  assumes "holds_from t s m"
  shows "holds_from t (do_op ops t c s) (ideal_step (ttl_of s) t c m)"
  unfolding holds_from_def
proof (intro allI impI)
  fix k v e
  assume m: "ideal_step (ttl_of s) t c m k = Some (v, e)" and e: "t \<le> e"
  have "ideal_step (ttl_of s) t c (content s) k = Some (v, e)"
    using m e assms by (cases c) (auto simp: holds_from_def split: if_splits)
  then show "content (do_op ops t c s) k = Some (v, e)" using e by (rule op_complete)
qed

lemma run_ops_holds:
  "holds_from t s m \<Longrightarrow> sorted (t # map fst cs @ [t']) \<Longrightarrow>
   holds_from t' (run_ops ops cs s) (ideal_run (ttl_of s) cs m)"
proof (induction cs arbitrary: t s m)
  case Nil
  then show ?case by (auto intro: holds_from_later)
next
  case (Cons a cs)
  obtain u c where a: "a = (u, c)" by fastforce
  have "holds_from u (do_op ops u c s) (ideal_step (ttl_of s) u c m)"
    using Cons.prems a by (auto intro!: do_op_holds holds_from_later [of t s m u])
  from Cons.IH [OF this] Cons.prems(2) a show ?case by (simp add: op_ttl)
qed

lemma get_exact:
  assumes "within s m" "holds_from t s m" "sorted (t # map fst cs @ [t'])"
  shows "fst (bo_Get ops t' k (run_ops ops cs s)) = Inr v \<longleftrightarrow> ideal_get t' k (ideal_run (ttl_of s) cs m) = Some v"
proof
  assume "fst (bo_Get ops t' k (run_ops ops cs s)) = Inr v"
  then show "ideal_get t' k (ideal_run (ttl_of s) cs m) = Some v" by (rule never_stale [OF assms(1)])
next
  assume "ideal_get t' k (ideal_run (ttl_of s) cs m) = Some v"
  then obtain e where "ideal_run (ttl_of s) cs m k = Some (v, e)" "t' \<le> e"
    by (auto simp: ideal_get_def split: option.splits if_splits)
  with run_ops_holds [OF assms(2,3)] get_complete show "fst (bo_Get ops t' k (run_ops ops cs s)) = Inr v"
    by (auto simp: holds_from_def)
qed

end

section \<open>The backends keep it\<close>

definition memory_content :: "memoryCache \<Rightarrow> ideal" where
  "memory_content m k = map_option (\<lambda>e. (me_value e, me_expires e)) (mc_entries m (mc_key m k))"

definition memory_ttl :: "memoryCache \<Rightarrow> gotime \<Rightarrow> gotime" where
  "memory_ttl m ttl = (if ttl \<le> 0 then mc_defaultTTL m else ttl)"

lemmas memory_defs = memory_ops_def memory_content_def memory_ttl_def memory_Get_def memory_Set_def
  memory_Delete_def memory_Flush_def memory_janitor_def mc_key_def

interpretation nop: cache_backend noop_ops "\<lambda>_ _. None" "\<lambda>_ ttl. ttl"
  by unfold_locales (auto simp: noop_ops_def noop_Get_def)

interpretation mem: exact_backend memory_ops memory_content memory_ttl
proof
  show "\<exists>e. memory_content s k = Some (v, e) \<and> t \<le> e" if "fst (bo_Get memory_ops t k s) = Inr v" for t k s v
    using that by (auto simp: memory_defs split: option.splits if_splits)
  show "ideal_step (memory_ttl s) t c (memory_content s) k = Some p"
    if "memory_content (do_op memory_ops t c s) k = Some p" for t c s k p
    using that by (cases c) (auto simp: memory_defs split: option.splits if_splits)
  show "memory_ttl (do_op memory_ops t c s) = memory_ttl s" for t c s
    by (cases c) (auto simp: memory_defs fun_eq_iff split: option.splits)
  show "fst (bo_Get memory_ops t k s) = Inr v" if "memory_content s k = Some (v, e)" "t \<le> e" for s k v e t
    using that by (auto simp: memory_defs split: option.splits)
  show "memory_content (do_op memory_ops t c s) k = Some (v, e)"
    if "ideal_step (memory_ttl s) t c (memory_content s) k = Some (v, e)" "t \<le> e" for s t c k v e
    using that by (cases c) (auto simp: memory_defs Let_def split: option.splits if_splits)
qed



section \<open>Memcache expirations\<close>

lemma sint32_small:
  assumes "0 \<le> n" "n < 2 ^ 31"
  shows "sint (word_of_int n :: 32 word) = n"
  using assms signed_take_bit_int_eq_self [of 31 n] by (simp add: signed_of_int)

text \<open>
  A time to live of whole seconds that is given to Memcache is stored as such up to 30
  days, and beyond as the point in time it ends, provided that point is before the 32-bit
  limit in 2038.
\<close>

theorem memcache_expiry_exact:
  assumes "1 \<le> secs" "0 \<le> now" "now + secs < 2 ^ 31"
  shows "sint (memcache_expiry (now * second) defaultTTL (secs * second)) =
    (if secs \<le> 30 * 24 * 3600 then secs else now + secs)"
proof (cases "secs \<le> 30 * 24 * 3600")
  case True
  then show ?thesis
    using assms sint32_small [of secs] by (simp add: memcache_expiry_def maxRelativeTTL_def second_def Let_def)
next
  case False
  have "now * 1000000000 + secs * 1000000000 = (now + secs) * 1000000000" by simp
  then show ?thesis
    using False assms sint32_small [of "now + secs"]
    by (simp add: memcache_expiry_def maxRelativeTTL_def second_def Let_def del: distrib_left_numeral distrib_right_numeral)
qed

theorem memcache_expiry_exact_witness:
  "sint (memcache_expiry (1700000000 * second) 0 (60 * second)) = 60"
  using memcache_expiry_exact [of 60 1700000000 0] by simp

text \<open>A time to live below a second becomes an hour; one that ends after 2038 is negative.\<close>

lemma memcache_subsecond: "sint (memcache_expiry now d 500000000) = 3600"
  by (simp add: memcache_expiry_def maxRelativeTTL_def second_def)

lemma memcache_after_2038:
  "sint (memcache_expiry (1700000000 * second) d (500000000 * second)) < 0"
  by (simp add: memcache_expiry_def maxRelativeTTL_def second_def)

end
