(* ===== verification/GraphqlComplexity.thy ===== *)
theory GraphqlComplexity
  imports GoStrings
begin

text \<open>
  File \<open>graphql/complexity.go\<close>: the bound on depth and aliases of a GraphQL query. The parser
  and its syntax tree are a third-party package; a parsed document is the list of its
  definitions. Fragment spreads are expanded as they are met, so the recursion is not
  structural: it ends because a fragment is not entered again below itself.
\<close>

section \<open>Documents\<close>

datatype selection =
  Field "string option" "selection list option"
| InlineFragment "selection list option"
| FragmentSpread "string option"

datatype definition_node =
  OperationDefinition "selection list option"
| FragmentDefinition "string option" "selection list option"
| OtherDefinition

type_synonym fragments = "(string \<times> selection list option) list"

definition maxQueryDepth :: int where
  "maxQueryDepth = 15"

definition maxQueryAliases :: nat where
  "maxQueryAliases = 50"

datatype gql_error = CycleError string | DepthError int | AliasError nat

section \<open>Measuring\<close>

definition alias_inc :: "string option \<Rightarrow> nat" where
  "alias_inc a = (case a of Some v \<Rightarrow> if v \<noteq> [] then 1 else 0 | None \<Rightarrow> 0)"

definition unvisited :: "fragments \<Rightarrow> string list \<Rightarrow> nat" where
  "unvisited fr vis = card (set (map fst fr) - set vis)"

lemma unvisited_less:
  "map_of fr n = Some ss \<Longrightarrow> n \<notin> set vis \<Longrightarrow> unvisited fr (n # vis) < unvisited fr vis"
proof -
  assume "map_of fr n = Some ss" and n: "n \<notin> set vis"
  then have "n \<in> set (map fst fr)" by (force dest: map_of_SomeD)
  with n have "set (map fst fr) - set (n # vis) \<subset> set (map fst fr) - set vis" by auto
  then show ?thesis unfolding unvisited_def by (intro psubset_card_mono) auto
qed

text \<open>
  The loop of \<open>measureSelectionSet\<close>, on the fragments being visited, the depth of the selection
  set, the maximum so far, the alias counter and the selections left. The nil and depth tests
  at the head of the function are made where it is called.
\<close>

function measure_loop ::
  "fragments \<Rightarrow> string list \<Rightarrow> int \<Rightarrow> int \<Rightarrow> nat \<Rightarrow> selection list \<Rightarrow> (gql_error + int) \<times> nat" where
  "measure_loop fr vis depth mx ac [] = (Inr mx, ac)"
| "measure_loop fr vis depth mx ac (Field al sub # sels) =
     (let ac1 = ac + alias_inc al;
          r = (case sub of
                 None \<Rightarrow> (Inr depth, ac1)
               | Some sels' \<Rightarrow>
                   if maxQueryDepth < depth + 1 then (Inr (depth + 1), ac1)
                   else measure_loop fr vis (depth + 1) depth ac1 sels')
      in case r of
           (Inl e, ac2) \<Rightarrow> (Inl e, ac2)
         | (Inr d, ac2) \<Rightarrow>
             (let mx' = max mx d in
              if maxQueryDepth < mx' then (Inr mx', ac2) else measure_loop fr vis depth mx' ac2 sels))"
| "measure_loop fr vis depth mx ac (InlineFragment sub # sels) =
     (let r = (case sub of
                 None \<Rightarrow> (Inr (depth - 1), ac)
               | Some sels' \<Rightarrow>
                   if maxQueryDepth < depth then (Inr depth, ac)
                   else measure_loop fr vis depth (depth - 1) ac sels')
      in case r of
           (Inl e, ac2) \<Rightarrow> (Inl e, ac2)
         | (Inr d, ac2) \<Rightarrow>
             (let mx' = max mx d in
              if maxQueryDepth < mx' then (Inr mx', ac2) else measure_loop fr vis depth mx' ac2 sels))"
| "measure_loop fr vis depth mx ac (FragmentSpread name # sels) =
     (case name of
        None \<Rightarrow> measure_loop fr vis depth mx ac sels
      | Some n \<Rightarrow>
          if n \<in> set vis then (Inl (CycleError n), ac)
          else (case map_of fr n of
             None \<Rightarrow> measure_loop fr vis depth mx ac sels
           | Some None \<Rightarrow> measure_loop fr vis depth mx ac sels
           | Some (Some sels') \<Rightarrow>
               (let r = (if maxQueryDepth < depth then (Inr depth, ac)
                         else measure_loop fr (n # vis) depth (depth - 1) ac sels')
                in case r of
                     (Inl e, ac2) \<Rightarrow> (Inl e, ac2)
                   | (Inr d, ac2) \<Rightarrow>
                       (let mx' = max mx d in
                        if maxQueryDepth < mx' then (Inr mx', ac2) else measure_loop fr vis depth mx' ac2 sels))))"
  by pat_completeness auto
termination
  by (relation "measures [\<lambda>(fr, vis, depth, mx, ac, sels). unvisited fr vis,
                          \<lambda>(fr, vis, depth, mx, ac, sels). size_list size sels]")
     (auto intro: unvisited_less)

definition measureSelectionSet ::
  "fragments \<Rightarrow> string list \<Rightarrow> int \<Rightarrow> nat \<Rightarrow> selection list option \<Rightarrow> (gql_error + int) \<times> nat" where
  "measureSelectionSet fr vis depth ac ss =
     (case ss of
        None \<Rightarrow> (Inr (depth - 1), ac)
      | Some sels \<Rightarrow> if maxQueryDepth < depth then (Inr depth, ac)
                     else measure_loop fr vis depth (depth - 1) ac sels)"

fun collect_fragments :: "definition_node list \<Rightarrow> fragments \<Rightarrow> fragments" where
  "collect_fragments [] fr = fr"
| "collect_fragments (FragmentDefinition (Some n) ss # ds) fr = collect_fragments ds ((n, ss) # fr)"
| "collect_fragments (_ # ds) fr = collect_fragments ds fr"

fun check_operations :: "fragments \<Rightarrow> nat \<Rightarrow> definition_node list \<Rightarrow> gql_error + nat" where
  "check_operations fr ac [] = Inr ac"
| "check_operations fr ac (OperationDefinition ss # ds) =
     (case measureSelectionSet fr [] 1 ac ss of
        (Inl e, _) \<Rightarrow> Inl e
      | (Inr depth, ac') \<Rightarrow> if maxQueryDepth < depth then Inl (DepthError depth) else check_operations fr ac' ds)"
| "check_operations fr ac (_ # ds) = check_operations fr ac ds"

text \<open>The parser's answer: \<open>None\<close> for a syntax error, which is left to the execution to report.\<close>

definition checkQueryComplexity :: "string \<Rightarrow> definition_node list option \<Rightarrow> gql_error option" where
  "checkQueryComplexity query doc =
     (if query = [] then None
      else case doc of
        None \<Rightarrow> None
      | Some defs \<Rightarrow>
          (case check_operations (collect_fragments defs []) 0 defs of
             Inl e \<Rightarrow> Some e
           | Inr aliasCount \<Rightarrow> if maxQueryAliases < aliasCount then Some (AliasError aliasCount) else None))"

section \<open>What a query expands to\<close>

text \<open>
  The full expansion of a selection list, as execution performs it: it exists only when no
  fragment leads back to itself, and has a depth and a number of aliased fields.
\<close>

inductive expands :: "fragments \<Rightarrow> selection list \<Rightarrow> int \<Rightarrow> nat \<Rightarrow> bool"
  and expands1 :: "fragments \<Rightarrow> selection \<Rightarrow> int \<Rightarrow> nat \<Rightarrow> bool"
  for fr :: fragments where
  expands_Nil: "expands fr [] 0 0"
| expands_Cons: "expands1 fr s d a \<Longrightarrow> expands fr ss d' a' \<Longrightarrow> expands fr (s # ss) (max d d') (a + a')"
| expands_leaf: "expands1 fr (Field al None) 1 (alias_inc al)"
| expands_field: "expands fr sels d a \<Longrightarrow> expands1 fr (Field al (Some sels)) (d + 1) (alias_inc al + a)"
| expands_inline_nil: "expands1 fr (InlineFragment None) 0 0"
| expands_inline: "expands fr sels d a \<Longrightarrow> expands1 fr (InlineFragment (Some sels)) d a"
| expands_noname: "expands1 fr (FragmentSpread None) 0 0"
| expands_unknown: "map_of fr n = None \<or> map_of fr n = Some None \<Longrightarrow> expands1 fr (FragmentSpread (Some n)) 0 0"
| expands_spread: "map_of fr n = Some (Some sels) \<Longrightarrow> expands fr sels d a \<Longrightarrow>
     expands1 fr (FragmentSpread (Some n)) d a"

lemma expands_nonneg: "expands fr ss d a \<Longrightarrow> 0 \<le> d" "expands1 fr s d a \<Longrightarrow> 0 \<le> d"
  by (induction rule: expands_expands1.inducts) auto

text \<open>
  A measured value within the limit is exact: the selections expand, to that depth below the
  selection set, and the counter advanced by their aliases.
\<close>

lemma measure_tail:
  assumes run: "(case (rs, ac2) of
       (Inl e, ac2) \<Rightarrow> (Inl e, ac2)
     | (Inr d, ac2) \<Rightarrow> (let mx' = max mx d in if maxQueryDepth < mx' then (Inr mx', ac2) else next mx' ac2)) =
       (Inr r, ac')"
    and r: "r \<le> maxQueryDepth" and mx: "depth - 1 \<le> mx"
    and sub: "\<And>d. rs = Inr d \<Longrightarrow> d \<le> maxQueryDepth \<Longrightarrow>
        \<exists>e b. expands1 fr s e b \<and> d = depth - 1 + e \<and> ac2 = ac + b"
    and rest: "\<And>d. rs = Inr d \<Longrightarrow> \<not> maxQueryDepth < max mx d \<Longrightarrow> next (max mx d) ac2 = (Inr r, ac') \<Longrightarrow>
        \<exists>e b. expands fr sels e b \<and> r = max (max mx d) (depth - 1 + e) \<and> ac' = ac2 + b"
  shows "\<exists>e b. expands fr (s # sels) e b \<and> r = max mx (depth - 1 + e) \<and> ac' = ac + b"
proof -
  from run r obtain d where d: "rs = Inr d" "\<not> maxQueryDepth < max mx d" "next (max mx d) ac2 = (Inr r, ac')"
    by (auto simp: Let_def split: sum.splits if_splits)
  from d(2) have "d \<le> maxQueryDepth" by simp
  from sub [OF d(1) this] obtain e b where 1: "expands1 fr s e b" "d = depth - 1 + e" "ac2 = ac + b" by blast
  from rest [OF d] obtain e' b' where 2: "expands fr sels e' b'" "r = max (max mx d) (depth - 1 + e')" "ac' = ac2 + b'"
    by blast
  have "expands fr (s # sels) (max e e') (b + b')" using 1(1) 2(1) by (rule expands_Cons)
  then show ?thesis using 1 2 by (intro exI [of _ "max e e'"] exI [of _ "b + b'"]) auto
qed

lemma field_measured:
  "\<exists>d a. expands fr ss d a \<and> r = max depth (depth + 1 - 1 + d) \<and> ac' = ac + alias_inc al + a \<Longrightarrow>
   \<exists>e b. expands1 fr (Field al (Some ss)) e b \<and> r = depth - 1 + e \<and> ac' = ac + b"
proof (elim exE conjE)
  fix d a
  assume *: "expands fr ss d a" "r = max depth (depth + 1 - 1 + d)" "ac' = ac + alias_inc al + a"
  then have "expands1 fr (Field al (Some ss)) (d + 1) (alias_inc al + a)" and "0 \<le> d"
    by (auto intro: expands_field dest: expands_nonneg)
  with * show ?thesis by (intro exI [of _ "d + 1"] exI [of _ "alias_inc al + a"]) auto
qed

lemma set_measured:
  "\<exists>d a. expands fr ss d a \<and> r = max (depth - 1) (depth - 1 + d) \<and> ac' = ac + a \<Longrightarrow>
   (\<And>d a. expands fr ss d a \<Longrightarrow> expands1 fr s d a) \<Longrightarrow>
   \<exists>e b. expands1 fr s e b \<and> r = depth - 1 + e \<and> ac' = ac + b"
proof (elim exE conjE)
  fix d a
  assume step: "\<And>d a. expands fr ss d a \<Longrightarrow> expands1 fr s d a"
    and *: "expands fr ss d a" "r = max (depth - 1) (depth - 1 + d)" "ac' = ac + a"
  have "0 \<le> d" using *(1) by (rule expands_nonneg)
  with step [OF *(1)] * show ?thesis by (intro exI [of _ d] exI [of _ a]) auto
qed

lemma field_sub:
  assumes run: "(case sub of None \<Rightarrow> (Inr depth, ac + alias_inc al)
               | Some sels' \<Rightarrow> if maxQueryDepth < depth + 1 then (Inr (depth + 1), ac + alias_inc al)
                   else measure_loop fr vis (depth + 1) depth (ac + alias_inc al) sels') = (rs, ac2)"
    and r: "rs = Inr d" "d \<le> maxQueryDepth"
    and IH: "\<And>ss r ac'. sub = Some ss \<Longrightarrow> \<not> maxQueryDepth < depth + 1 \<Longrightarrow>
       measure_loop fr vis (depth + 1) depth (ac + alias_inc al) ss = (Inr r, ac') \<Longrightarrow> r \<le> maxQueryDepth \<Longrightarrow>
       depth + 1 - 1 \<le> depth \<Longrightarrow>
       \<exists>d a. expands fr ss d a \<and> r = max depth (depth + 1 - 1 + d) \<and> ac' = ac + alias_inc al + a"
  shows "\<exists>e b. expands1 fr (Field al sub) e b \<and> d = depth - 1 + e \<and> ac2 = ac + b"
proof (cases sub)
  case None
  then show ?thesis using run r by (intro exI [of _ 1] exI [of _ "alias_inc al"]) (auto intro: expands_leaf)
next
  case (Some ss)
  with run r have m: "\<not> maxQueryDepth < depth + 1"
      "measure_loop fr vis (depth + 1) depth (ac + alias_inc al) ss = (Inr d, ac2)"
    by (auto split: if_splits)
  show ?thesis unfolding Some by (rule field_measured, rule IH [OF Some m r(2)]) simp
qed

lemma inline_sub:
  assumes run: "(case sub of None \<Rightarrow> (Inr (depth - 1), ac)
               | Some sels' \<Rightarrow> if maxQueryDepth < depth then (Inr depth, ac)
                   else measure_loop fr vis depth (depth - 1) ac sels') = (rs, ac2)"
    and r: "rs = Inr d" "d \<le> maxQueryDepth"
    and IH: "\<And>ss r ac'. sub = Some ss \<Longrightarrow> \<not> maxQueryDepth < depth \<Longrightarrow>
       measure_loop fr vis depth (depth - 1) ac ss = (Inr r, ac') \<Longrightarrow> r \<le> maxQueryDepth \<Longrightarrow>
       depth - 1 \<le> depth - 1 \<Longrightarrow>
       \<exists>d a. expands fr ss d a \<and> r = max (depth - 1) (depth - 1 + d) \<and> ac' = ac + a"
  shows "\<exists>e b. expands1 fr (InlineFragment sub) e b \<and> d = depth - 1 + e \<and> ac2 = ac + b"
proof (cases sub)
  case None
  then show ?thesis using run r by (intro exI [of _ 0]) (auto intro: expands_inline_nil)
next
  case (Some ss)
  with run r have m: "\<not> maxQueryDepth < depth" "measure_loop fr vis depth (depth - 1) ac ss = (Inr d, ac2)"
    by (auto split: if_splits)
  show ?thesis unfolding Some
    by (rule set_measured [OF IH [OF Some m r(2)]]) (auto intro: expands_inline)
qed

lemma measure_loop_exact:
  "measure_loop fr vis depth mx ac sels = (Inr r, ac') \<Longrightarrow> r \<le> maxQueryDepth \<Longrightarrow> depth - 1 \<le> mx \<Longrightarrow>
   \<exists>d a. expands fr sels d a \<and> r = max mx (depth - 1 + d) \<and> ac' = ac + a"
proof (induction fr vis depth mx ac sels arbitrary: r ac' rule: measure_loop.induct)
  case (1 fr vis depth mx ac)
  then show ?case using expands_Nil [of fr] by (intro exI [of _ 0]) auto
next
  case (2 fr vis depth mx ac al sub sels)
  obtain rs ac2 where run: "(case sub of None \<Rightarrow> (Inr depth, ac + alias_inc al)
               | Some sels' \<Rightarrow> if maxQueryDepth < depth + 1 then (Inr (depth + 1), ac + alias_inc al)
                   else measure_loop fr vis (depth + 1) depth (ac + alias_inc al) sels') = (rs, ac2)"
    by (metis surj_pair)
  show ?case
  proof (rule measure_tail [where rs = rs and ?ac2.0 = ac2])
    show "(case (rs, ac2) of (Inl e, ac2) \<Rightarrow> (Inl e, ac2)
       | (Inr d, ac2) \<Rightarrow> (let mx' = max mx d in if maxQueryDepth < mx' then (Inr mx', ac2)
            else measure_loop fr vis depth mx' ac2 sels)) = (Inr r, ac')"
      using "2.prems"(1) by (simp add: run)
    show "\<exists>e b. expands1 fr (Field al sub) e b \<and> d = depth - 1 + e \<and> ac2 = ac + b"
      if "rs = Inr d" "d \<le> maxQueryDepth" for d
      by (rule field_sub [OF run that]) (rule "2.IH"(1) [OF refl])
    show "\<exists>e b. expands fr sels e b \<and> r = max (max mx d) (depth - 1 + e) \<and> ac' = ac2 + b"
      if "rs = Inr d" "\<not> maxQueryDepth < max mx d" "measure_loop fr vis depth (max mx d) ac2 sels = (Inr r, ac')" for d
      using "2.IH"(2) [OF refl refl run [symmetric]] that "2.prems" by fastforce
  qed (use "2.prems" in auto)
next
  case (3 fr vis depth mx ac sub sels)
  obtain rs ac2 where run: "(case sub of None \<Rightarrow> (Inr (depth - 1), ac)
               | Some sels' \<Rightarrow> if maxQueryDepth < depth then (Inr depth, ac)
                   else measure_loop fr vis depth (depth - 1) ac sels') = (rs, ac2)"
    by (metis surj_pair)
  show ?case
  proof (rule measure_tail [where rs = rs and ?ac2.0 = ac2])
    show "(case (rs, ac2) of (Inl e, ac2) \<Rightarrow> (Inl e, ac2)
       | (Inr d, ac2) \<Rightarrow> (let mx' = max mx d in if maxQueryDepth < mx' then (Inr mx', ac2)
            else measure_loop fr vis depth mx' ac2 sels)) = (Inr r, ac')"
      using "3.prems"(1) by (simp add: run)
    show "\<exists>e b. expands1 fr (InlineFragment sub) e b \<and> d = depth - 1 + e \<and> ac2 = ac + b"
      if "rs = Inr d" "d \<le> maxQueryDepth" for d
      by (rule inline_sub [OF run that]) (rule "3.IH"(1))
    show "\<exists>e b. expands fr sels e b \<and> r = max (max mx d) (depth - 1 + e) \<and> ac' = ac2 + b"
      if "rs = Inr d" "\<not> maxQueryDepth < max mx d" "measure_loop fr vis depth (max mx d) ac2 sels = (Inr r, ac')" for d
      using "3.IH"(2) [OF run [symmetric]] that "3.prems" by fastforce
  qed (use "3.prems" in auto)
next
  case (4 fr vis depth mx ac name sels)
  show ?case
  proof (cases "\<exists>n ss. name = Some n \<and> map_of fr n = Some (Some ss)")
    case False
    then have one: "expands1 fr (FragmentSpread name) 0 0"
      by (cases name) (auto intro!: expands_noname expands_unknown, metis option.exhaust)
    have "\<exists>d a. expands fr sels d a \<and> r = max mx (depth - 1 + d) \<and> ac' = ac + a"
      using 4 False by (auto split: option.splits if_splits)
    then show ?thesis
    proof (elim exE conjE)
      fix d a
      assume *: "expands fr sels d a" "r = max mx (depth - 1 + d)" "ac' = ac + a"
      have "expands fr (FragmentSpread name # sels) (max 0 d) (0 + a)" using one *(1) by (rule expands_Cons)
      moreover have "0 \<le> d" using *(1) by (rule expands_nonneg)
      ultimately show ?thesis using * by (intro exI [of _ d] exI [of _ a]) (auto simp: max_absorb2)
    qed
  next
    case True
    then obtain n ss where n: "name = Some n" and ss: "map_of fr n = Some (Some ss)" by blast
    have vis: "n \<notin> set vis" using "4.prems"(1) n by auto
    obtain rs ac2 where run: "(if maxQueryDepth < depth then (Inr depth, ac)
         else measure_loop fr (n # vis) depth (depth - 1) ac ss) = (rs, ac2)"
      by (metis surj_pair)
    show ?thesis unfolding n
    proof (rule measure_tail [where rs = rs and ?ac2.0 = ac2])
      show "(case (rs, ac2) of (Inl e, ac2) \<Rightarrow> (Inl e, ac2)
         | (Inr d, ac2) \<Rightarrow> (let mx' = max mx d in if maxQueryDepth < mx' then (Inr mx', ac2)
              else measure_loop fr vis depth mx' ac2 sels)) = (Inr r, ac')"
        using "4.prems"(1) by (simp add: n ss vis run)
      show "\<exists>e b. expands1 fr (FragmentSpread (Some n)) e b \<and> d = depth - 1 + e \<and> ac2 = ac + b"
        if "rs = Inr d" "d \<le> maxQueryDepth" for d
      proof -
        from run that have m: "\<not> maxQueryDepth < depth" "measure_loop fr (n # vis) depth (depth - 1) ac ss = (Inr d, ac2)"
          by (auto split: if_splits)
        show ?thesis
          by (rule set_measured [OF "4.IH"(4) [OF n vis ss refl m that(2)]]) (auto intro: expands_spread ss)
      qed
      show "\<exists>e b. expands fr sels e b \<and> r = max (max mx d) (depth - 1 + e) \<and> ac' = ac2 + b"
        if "rs = Inr d" "\<not> maxQueryDepth < max mx d" "measure_loop fr vis depth (max mx d) ac2 sels = (Inr r, ac')" for d
        using "4.IH"(5) [OF n vis ss refl run [symmetric]] that "4.prems" by fastforce
    qed (use "4.prems" in auto)
  qed
qed

lemma measureSelectionSet_exact:
  assumes "measureSelectionSet fr vis 1 ac (Some sels) = (Inr r, ac')" and "r \<le> maxQueryDepth"
  shows "\<exists>a. expands fr sels r a \<and> ac' = ac + a"
proof -
  have "\<exists>d a. expands fr sels d a \<and> r = max 0 (1 - 1 + d) \<and> ac' = ac + a"
    using measure_loop_exact [of fr vis 1 0 ac sels r ac'] assms
    by (simp add: measureSelectionSet_def maxQueryDepth_def)
  then show ?thesis using expands_nonneg(1) [of fr sels] by (auto simp: max_def)
qed

section \<open>Accepted documents\<close>

text \<open>The selection sets of the operations of a document, in order.\<close>

definition operation_sets :: "definition_node list \<Rightarrow> selection list list" where
  "operation_sets defs = concat (map (\<lambda>d. case d of OperationDefinition (Some ss) \<Rightarrow> [ss] | _ \<Rightarrow> []) defs)"

lemma operation_sets_simps [simp]:
  "operation_sets [] = []"
  "operation_sets (OperationDefinition (Some ss) # ds) = ss # operation_sets ds"
  "operation_sets (OperationDefinition None # ds) = operation_sets ds"
  "operation_sets (FragmentDefinition n x # ds) = operation_sets ds"
  "operation_sets (OtherDefinition # ds) = operation_sets ds"
  by (simp_all add: operation_sets_def)

lemma check_operations_exact:
  "check_operations fr ac defs = Inr ac' \<Longrightarrow>
   \<exists>as. list_all2 (\<lambda>ss a. \<exists>d \<le> maxQueryDepth. expands fr ss d a) (operation_sets defs) as \<and> ac' = ac + sum_list as"
proof (induction fr ac defs arbitrary: ac' rule: check_operations.induct)
  case (2 fr ac ss ds)
  show ?case
  proof (cases ss)
    case None
    then show ?thesis using "2.prems" "2.IH"
      by (force simp: measureSelectionSet_def maxQueryDepth_def split: if_splits)
  next
    case (Some sels)
    obtain d ac1 where m: "measureSelectionSet fr [] 1 ac ss = (Inr d, ac1)" and d: "d \<le> maxQueryDepth"
      and rest: "check_operations fr ac1 ds = Inr ac'"
      using "2.prems" by (auto split: prod.splits sum.splits if_splits)
    obtain a where a: "expands fr sels d a" "ac1 = ac + a"
      using measureSelectionSet_exact [OF m [unfolded Some] d] by blast
    obtain as where "list_all2 (\<lambda>ss a. \<exists>d \<le> maxQueryDepth. expands fr ss d a) (operation_sets ds) as"
        "ac' = ac1 + sum_list as"
      using "2.IH" [OF m [symmetric] refl _ rest] d by force
    with a d show ?thesis unfolding Some by (intro exI [of _ "a # as"]) auto
  qed
qed simp_all

text \<open>
  C33. A query that passes the complexity check is bounded when it is executed: with the
  fragments of its document, the selection set of every operation expands completely, which
  excludes every fragment cycle an operation can reach, to a depth of at most 15, and all the
  operations together hold at most 50 aliased fields.
\<close>

theorem accepted_query_bounded:
  assumes "checkQueryComplexity query (Some defs) = None" and "query \<noteq> []"
  shows "\<exists>as. list_all2 (\<lambda>ss a. \<exists>d \<le> 15. expands (collect_fragments defs []) ss d a) (operation_sets defs) as
    \<and> sum_list as \<le> 50"
proof -
  obtain ac where "check_operations (collect_fragments defs []) 0 defs = Inr ac" "ac \<le> maxQueryAliases"
    using assms by (auto simp: checkQueryComplexity_def split: sum.splits if_splits)
  from check_operations_exact [OF this(1)] this(2) show ?thesis
    by (auto simp: maxQueryDepth_def maxQueryAliases_def)
qed

theorem accepted_query_bounded_witness:
  "\<exists>as. list_all2 (\<lambda>ss a. \<exists>d \<le> 15. expands (collect_fragments
       [FragmentDefinition (Some ''f'') (Some [Field (Some ''x'') None]),
        OperationDefinition (Some [Field None (Some [FragmentSpread (Some ''f'')])])] []) ss d a)
     [[Field None (Some [FragmentSpread (Some ''f'')])]] as \<and> sum_list as \<le> 50"
  using accepted_query_bounded [of "''q''" "[FragmentDefinition (Some ''f'') (Some [Field (Some ''x'') None]),
        OperationDefinition (Some [Field None (Some [FragmentSpread (Some ''f'')])])]"]
  by (simp add: checkQueryComplexity_def measureSelectionSet_def maxQueryDepth_def maxQueryAliases_def alias_inc_def)

text \<open>A document whose only fragment spreads itself is refused with the cycle error.\<close>

lemma fragment_cycle_refused:
  "checkQueryComplexity ''q'' (Some [FragmentDefinition (Some ''f'') (Some [FragmentSpread (Some ''f'')]),
     OperationDefinition (Some [FragmentSpread (Some ''f'')])]) = Some (CycleError ''f'')"
  by (simp add: checkQueryComplexity_def measureSelectionSet_def maxQueryDepth_def)

end
