(* ===== verification/Locale.thy ===== *)
theory Locale
  imports GoHttp
begin

text \<open>
  Package \<open>common/i18n\<close>: the locale of a request, the flattening of a locale file to dotted keys,
  translation with its fall backs, and the check that every locale covers the English keys. A
  locale file is the JSON object the parser returned; a query string and the cookies are the
  values \<open>net/http\<close> parsed. Also the locale middleware of \<open>server/middleware.go\<close>, which keeps the
  locale under a context key of its own.
\<close>

section \<open>Locales\<close>

definition SupportedLocales :: "string list" where
  "SupportedLocales = [''en'', ''es'', ''fr'', ''de'', ''zh'', ''ar'', ''ja'']"

datatype Direction = DirectionLTR | DirectionRTL

definition LocaleDirection :: "string \<Rightarrow> Direction" where
  "LocaleDirection code = (if code = ''ar'' then DirectionRTL else DirectionLTR)"

definition IsSupported :: "string \<Rightarrow> bool" where
  "IsSupported code = list_ex (\<lambda>l. l = code) SupportedLocales"

definition ParseLocale :: "string \<Rightarrow> string" where
  "ParseLocale s =
     (let s = ToLower (TrimSpace s);
          s = (case IndexAny s ''-_'' of Some i \<Rightarrow> if 0 < i then take i s else s | None \<Rightarrow> s)
      in if IsSupported s then s else ''en'')"

record lang_request =
  lr_Query :: string
  lr_Cookie :: "string option"
  lr_AcceptLanguage :: string
  lr_TLS :: bool

fun detect_header :: "string list \<Rightarrow> string" where
  "detect_header [] = ''en''"
| "detect_header (part # parts) =
     (let lang = TrimSpace (hd (SplitByteN2 part (CHR '';''))); parsed = ParseLocale lang in
      if parsed \<noteq> ''en'' \<or> HasPrefix lang ''en'' then parsed else detect_header parts)"

definition DetectLocale :: "lang_request \<Rightarrow> string" where
  "DetectLocale r =
     (if lr_Query r \<noteq> [] \<and> IsSupported (lr_Query r) then lr_Query r
      else case lr_Cookie r of
        Some c \<Rightarrow> if IsSupported c then c
                  else if lr_AcceptLanguage r \<noteq> [] then detect_header (SplitByte (lr_AcceptLanguage r) (CHR '','')) else ''en''
      | None \<Rightarrow> if lr_AcceptLanguage r \<noteq> [] then detect_header (SplitByte (lr_AcceptLanguage r) (CHR '','')) else ''en'')"

text \<open>The helpers of \<open>middleware.go\<close>: spaces and tabs only.\<close>

definition trimSpace :: "string \<Rightarrow> string" where
  "trimSpace s = TrimFunc (\<lambda>c. c = CHR '' '' \<or> c = CHR 0x09) s"

definition splitAcceptLanguage :: "string \<Rightarrow> string list" where
  "splitAcceptLanguage s = map trimSpace (SplitByte s (CHR '',''))"

fun accept_walk :: "string list \<Rightarrow> string" where
  "accept_walk [] = ''en''"
| "accept_walk (part # parts) =
     (let tag = trimSpace (case IndexByte part (CHR '';'') of Some i \<Rightarrow> take i part | None \<Rightarrow> part) in
      if tag = [] \<or> tag = ''*'' then accept_walk parts
      else if IsSupported (ParseLocale tag) then ParseLocale tag
      else accept_walk parts)"

definition parseAcceptLanguage :: "string \<Rightarrow> string" where
  "parseAcceptLanguage header = (if header = [] then ''en'' else accept_walk (splitAcceptLanguage header))"

definition lang_cookie_for :: "lang_request \<Rightarrow> string option" where
  "lang_cookie_for r = (if lr_Query r \<noteq> [] \<and> IsSupported (lr_Query r) then Some (lr_Query r) else None)"

definition LanguageMiddleware :: "lang_request \<Rightarrow> string \<times> string option" where
  "LanguageMiddleware r =
     (let lang = (case lang_cookie_for r of Some q \<Rightarrow> q | None \<Rightarrow> []);
          lang = (if lang = [] then (case lr_Cookie r of Some c \<Rightarrow> if IsSupported c then c else [] | None \<Rightarrow> []) else lang);
          lang = (if lang = [] then parseAcceptLanguage (lr_AcceptLanguage r) else lang);
          lang = (if lang = [] then ''en'' else lang)
      in (lang, lang_cookie_for r))"

section \<open>Contexts\<close>

text \<open>The two context values: the key of package \<open>i18n\<close> and the key of package \<open>server\<close>.\<close>

record lang_ctx =
  lc_I18n :: "string option"
  lc_Server :: "string option"

definition WithLang :: "lang_ctx \<Rightarrow> string \<Rightarrow> lang_ctx" where
  "WithLang c lang = c\<lparr>lc_I18n := Some (if IsSupported lang then lang else ''en'')\<rparr>"

definition i18n_LangFromContext :: "lang_ctx \<Rightarrow> string" where
  "i18n_LangFromContext c = (case lc_I18n c of Some l \<Rightarrow> if l \<noteq> [] then l else ''en'' | None \<Rightarrow> ''en'')"

definition LangMiddleware :: "lang_request \<Rightarrow> lang_ctx \<Rightarrow> lang_ctx \<times> string option" where
  "LangMiddleware r c = (c\<lparr>lc_Server := Some (DetectLocale r)\<rparr>, lang_cookie_for r)"

definition server_LangFromContext :: "lang_ctx \<Rightarrow> string" where
  "server_LangFromContext c = (case lc_Server c of Some l \<Rightarrow> if l \<noteq> [] then l else ''en'' | None \<Rightarrow> ''en'')"

section \<open>Locale files\<close>

datatype json = JObj "(string \<times> json) list" | JStr string | JOther

fun flattenJSON :: "string \<Rightarrow> (string \<times> json) list \<Rightarrow> (string \<times> json) list" where
  "flattenJSON prefix [] = []"
| "flattenJSON prefix ((k, v) # kvs) =
     (let key = (if prefix \<noteq> [] then prefix @ ''.'' @ k else k) in
      (case v of JObj child \<Rightarrow> flattenJSON key child | _ \<Rightarrow> [(key, v)]) @ flattenJSON prefix kvs)"

type_synonym catalog = "(string \<times> (string \<times> json) list) list"

text \<open>\<open>None\<close> is the panic on a missing or malformed file.\<close>

fun load_locales :: "(string \<Rightarrow> (string \<times> json) list option) \<Rightarrow> string list \<Rightarrow> catalog option" where
  "load_locales read [] = Some []"
| "load_locales read (lang # langs) =
     (case read lang of
        None \<Rightarrow> None
      | Some flat \<Rightarrow> map_option (\<lambda>ts. (lang, flattenJSON [] flat) # ts) (load_locales read langs))"

definition NewTranslationManager :: "(string \<Rightarrow> (string \<times> json) list option) \<Rightarrow> catalog option" where
  "NewTranslationManager read = load_locales read SupportedLocales"

definition string_at :: "catalog \<Rightarrow> string \<Rightarrow> string \<Rightarrow> string option" where
  "string_at m locale key = (case map_of m locale of
     None \<Rightarrow> None
   | Some t \<Rightarrow> (case map_of t key of Some (JStr s) \<Rightarrow> Some s | _ \<Rightarrow> None))"

definition translate :: "catalog \<Rightarrow> string \<Rightarrow> string \<Rightarrow> string" where
  "translate m locale key =
     (case string_at m locale key of
        Some s \<Rightarrow> s
      | None \<Rightarrow> (case string_at m ''en'' key of Some s \<Rightarrow> s | None \<Rightarrow> key))"

text \<open>\<open>strings.ReplaceAll\<close> for a non-empty old string.\<close>

function ReplaceAll :: "string \<Rightarrow> string \<Rightarrow> string \<Rightarrow> string" where
  "ReplaceAll s old new =
     (if old = [] \<or> s = [] then s
      else if HasPrefix s old then new @ ReplaceAll (drop (length old) s) old new
      else hd s # ReplaceAll (tl s) old new)"
  by pat_completeness auto
termination
  by (relation "measure (\<lambda>(s, _). length s)") auto

declare ReplaceAll.simps [simp del]

fun substitute :: "string \<Rightarrow> string list \<Rightarrow> string" where
  "substitute s (n # v # args) = substitute (ReplaceAll s (''{'' @ n @ ''}'') v) args"
| "substitute s _ = s"

definition Tf :: "catalog \<Rightarrow> string \<Rightarrow> string \<Rightarrow> string list \<Rightarrow> string" where
  "Tf m locale key args = substitute (translate m locale key) args"

text \<open>The remainder of Go has the sign of the dividend.\<close>

definition go_rem :: "int \<Rightarrow> int \<Rightarrow> int" where
  "go_rem a b = sgn a * (\<bar>a\<bar> mod \<bar>b\<bar>)"

definition pluralForm :: "string \<Rightarrow> int \<Rightarrow> string" where
  "pluralForm lang count =
     (if lang = ''ar'' then
        (if count = 0 then ''zero''
         else if count = 1 then ''one''
         else if count = 2 then ''two''
         else if 3 \<le> go_rem count 100 \<and> go_rem count 100 \<le> 10 then ''few''
         else if 11 \<le> go_rem count 100 \<and> go_rem count 100 \<le> 99 then ''many''
         else ''other'')
      else if lang = ''fr'' then (if count = 0 \<or> count = 1 then ''one'' else ''other'')
      else if lang = ''zh'' \<or> lang = ''ja'' then ''other''
      else if count = 1 then ''one'' else ''other'')"

definition Itoa_int :: "int \<Rightarrow> string" where
  "Itoa_int n = (if n < 0 then ''-'' @ Itoa (nat (- n)) else Itoa (nat n))"

fun plural_try :: "catalog \<Rightarrow> string \<Rightarrow> int \<Rightarrow> (string \<times> string) list \<Rightarrow> string" where
  "plural_try m key count [] = key"
| "plural_try m key count ((l, f) # tries) =
     (let k = key @ ''.'' @ f; val = translate m l k in
      if val \<noteq> k then ReplaceAll val ''{count}'' (Itoa_int count) else plural_try m key count tries)"

definition TranslatePlural :: "catalog \<Rightarrow> string \<Rightarrow> string \<Rightarrow> int \<Rightarrow> string" where
  "TranslatePlural m locale key count =
     (let form = pluralForm locale count in
      plural_try m key count [(locale, form), (''en'', form), (locale, ''other''), (''en'', ''other'')])"

text \<open>The keys of the English locale that a locale lacks.\<close>

definition keys_at :: "catalog \<Rightarrow> string \<Rightarrow> string list" where
  "keys_at m lang = (case map_of m lang of Some t \<Rightarrow> map fst t | None \<Rightarrow> [])"

definition validateKeys :: "catalog \<Rightarrow> (string \<times> string list) list" where
  "validateKeys m =
     filter (\<lambda>(_, ks). ks \<noteq> [])
       (map (\<lambda>lang. (lang, filter (\<lambda>k. k \<notin> set (keys_at m lang)) (keys_at m ''en'')))
          (filter (\<lambda>l. l \<noteq> ''en'') SupportedLocales))"

text \<open>Start up: \<open>True\<close> when the process goes on.\<close>

definition i18n_init :: "string \<Rightarrow> catalog \<Rightarrow> bool" where
  "i18n_init mode m \<longleftrightarrow> validateKeys m = [] \<or> ToLower (TrimSpace mode) = ''production''"

section \<open>Flattening is lookup along a path\<close>

fun leaves :: "(string \<times> json) list \<Rightarrow> (string list \<times> json) list" where
  "leaves [] = []"
| "leaves ((k, v) # kvs) =
     (case v of JObj child \<Rightarrow> map (\<lambda>(p, w). (k # p, w)) (leaves child) | _ \<Rightarrow> [([k], v)]) @ leaves kvs"

fun at_path :: "(string \<times> json) list \<Rightarrow> string list \<Rightarrow> json option" where
  "at_path kvs [] = None"
| "at_path kvs (k # p) =
     (case map_of kvs k of
        None \<Rightarrow> None
      | Some (JObj child) \<Rightarrow> at_path child p
      | Some v \<Rightarrow> if p = [] then Some v else None)"

definition plain_key :: "string \<Rightarrow> bool" where
  "plain_key k \<longleftrightarrow> k \<noteq> [] \<and> CHR ''.'' \<notin> set k"

text \<open>Objects have distinct keys, none empty and none with a dot.\<close>

fun wf_locale :: "(string \<times> json) list \<Rightarrow> bool" where
  "wf_locale [] = True"
| "wf_locale ((k, v) # kvs) \<longleftrightarrow> plain_key k \<and> k \<notin> fst ` set kvs \<and>
     (case v of JObj child \<Rightarrow> wf_locale child | _ \<Rightarrow> True) \<and> wf_locale kvs"

lemma leaves_paths: "wf_locale kvs \<Longrightarrow> (p, v) \<in> set (leaves kvs) \<Longrightarrow> p \<noteq> [] \<and> list_all plain_key p"
  by (induction kvs arbitrary: p v rule: leaves.induct) (fastforce split: json.splits)+

lemma leaves_heads: "(k # p, v) \<in> set (leaves kvs) \<Longrightarrow> k \<in> fst ` set kvs"
  by (induction kvs arbitrary: k p v rule: leaves.induct) (force split: json.splits)+

lemma flatten_leaves:
  "wf_locale kvs \<Longrightarrow> flattenJSON prefix kvs =
     map (\<lambda>(p, v). ((if prefix \<noteq> [] then prefix @ ''.'' else []) @ Join p ''.'', v)) (leaves kvs)"
proof (induction prefix kvs rule: flattenJSON.induct)
  case (2 prefix k v kvs)
  have k: "k \<noteq> []" using "2.prems" by (simp add: plain_key_def)
  have j: "Join (k # p) ''.'' = k @ ''.'' @ Join p ''.''" if "p \<noteq> []" for p
    using that by (rule Join_Cons)
  show ?case
  proof (cases v)
    case (JObj child)
    have "wf_locale child" using "2.prems" JObj by simp
    moreover have "map (\<lambda>(p, w). ((if prefix \<noteq> [] then prefix @ ''.'' else []) @ Join (k # p) ''.'', w)) (leaves child) =
       map (\<lambda>(p, w). ((if prefix \<noteq> [] then prefix @ ''.'' @ k else k) @ ''.'' @ Join p ''.'', w)) (leaves child)"
      using leaves_paths [OF calculation] j by (intro map_cong) auto
    ultimately show ?thesis using 2 JObj k by (simp add: Let_def comp_def case_prod_unfold)
  qed (use 2 in \<open>simp_all add: Let_def\<close>)
qed simp

lemma map_of_heads: "k \<notin> fst ` set kvs \<Longrightarrow> map_of (leaves kvs) (k # p) = None"
  using leaves_heads [of k p _ kvs] by (force simp: map_of_eq_None_iff)

lemma map_of_cons_path:
  "map_of (map (\<lambda>(p, w). (k # p, w)) xs) (k' # q) = (if k = k' then map_of xs q else None)"
  by (induction xs) auto

lemma leaves_at_path: "wf_locale kvs \<Longrightarrow> map_of (leaves kvs) path = at_path kvs path"
proof (induction kvs arbitrary: path rule: leaves.induct)
  case 1
  then show ?case by (cases path) auto
next
  case (2 k v kvs)
  show ?case
  proof (cases path)
    case Nil
    then show ?thesis using leaves_paths [OF "2.prems"] by (force simp: map_of_eq_None_iff simp del: leaves.simps)
  next
    case (Cons k' q)
    show ?thesis
    proof (cases "k = k'")
      case True
      with 2 Cons map_of_heads [of k kvs] show ?thesis
        by (cases v) (auto simp: map_add_def map_of_cons_path split: option.splits)
    next
      case False
      with 2 Cons show ?thesis
        by (cases v) (auto simp: map_add_def map_of_cons_path split: option.splits)
    qed
  qed
qed

lemma Join_dot_inj:
  assumes "p \<noteq> []" "q \<noteq> []" "list_all plain_key p" "list_all plain_key q" "Join p ''.'' = Join q ''.''"
  shows "p = q"
proof -
  have "\<forall>x \<in> set p. CHR ''.'' \<notin> set x" "\<forall>x \<in> set q. CHR ''.'' \<notin> set x"
    using assms by (auto simp: list_all_iff plain_key_def)
  then show ?thesis using SplitByte_Join [of p "CHR ''.''"] SplitByte_Join [of q "CHR ''.''"] assms(1,2,5) by metis
qed

lemma map_of_inj_key:
  "(\<And>p v. (p, v) \<in> set xs \<Longrightarrow> f p = f q \<Longrightarrow> p = q) \<Longrightarrow> map_of (map (\<lambda>(p, v). (f p, v)) xs) (f q) = map_of xs q"
proof (induction xs)
  case (Cons x xs)
  obtain p v where x: "x = (p, v)" by force
  have "f q = f p \<longleftrightarrow> q = p" using Cons.prems [of p v] x by auto
  moreover have "map_of (map (\<lambda>(p, v). (f p, v)) xs) (f q) = map_of xs q"
    by (rule Cons.IH) (use Cons.prems in auto)
  ultimately show ?case by (simp add: x)
qed simp

text \<open>
  The flat catalogue of a locale file answers a dotted key exactly as the file answers the
  path: for a file without empty or dotted keys, the value stored under \<open>a.b.c\<close> is the leaf the
  nested objects have at \<open>a\<close>, \<open>b\<close>, \<open>c\<close>, and there is none when the path leaves the file or ends at
  an object; so no two leaves collide and none is lost.
\<close>

theorem flattenJSON_exact:
  assumes "wf_locale kvs" and "path \<noteq> []" and "list_all plain_key path"
  shows "map_of (flattenJSON [] kvs) (Join path ''.'') = at_path kvs path"
proof -
  have "map_of (map (\<lambda>(p, v). (Join p ''.'', v)) (leaves kvs)) (Join path ''.'') = map_of (leaves kvs) path"
    using leaves_paths [OF assms(1)] Join_dot_inj assms(2,3) by (intro map_of_inj_key) blast
  then show ?thesis by (simp add: flatten_leaves [OF assms(1)] leaves_at_path [OF assms(1)])
qed

theorem flattenJSON_exact_witness:
  "map_of (flattenJSON [] [(''nav'', JObj [(''home'', JStr ''Home'')])]) ''nav.home'' = Some (JStr ''Home'')"
  using flattenJSON_exact [of "[(''nav'', JObj [(''home'', JStr ''Home'')])]" "[''nav'', ''home'']"]
  by (simp add: plain_key_def)

section \<open>Translation\<close>

lemma validateKeys_Nil:
  "validateKeys m = [] \<longleftrightarrow> (\<forall>l \<in> set SupportedLocales. l = ''en'' \<or> set (keys_at m ''en'') \<subseteq> set (keys_at m l))"
  unfolding validateKeys_def by (auto simp: filter_empty_conv)

definition all_strings :: "catalog \<Rightarrow> bool" where
  "all_strings m \<longleftrightarrow> (\<forall>(l, t) \<in> set m. \<forall>(k, v) \<in> set t. \<exists>s. v = JStr s)"

text \<open>
  When the start-up check finds no missing key and all leaves are strings, a translation is
  never borrowed: for every supported locale and every key of the English file, the answer is the
  text of that very locale, and not the English text or the bare key.
\<close>

theorem validated_never_falls_back:
  assumes "validateKeys m = []" and "all_strings m" and "l \<in> set SupportedLocales" and "k \<in> set (keys_at m ''en'')"
  shows "\<exists>s t. map_of m l = Some t \<and> map_of t k = Some (JStr s) \<and> translate m l k = s"
proof -
  have "k \<in> set (keys_at m l)" using assms by (auto simp: validateKeys_Nil)
  then obtain t where t: "map_of m l = Some t" "k \<in> fst ` set t" by (cases "map_of m l") (auto simp: keys_at_def)
  then obtain v where v: "map_of t k = Some v" by (metis map_of_eq_None_iff not_None_eq)
  then obtain s where "v = JStr s" using assms(2) t(1) by (fastforce simp: all_strings_def dest!: map_of_SomeD)
  with t v show ?thesis by (auto simp: translate_def string_at_def)
qed

theorem validated_never_falls_back_witness:
  "translate (map (\<lambda>l. (l, [(''k'', JStr (l @ ''!''))])) SupportedLocales) ''de'' ''k'' = ''de!''"
proof -
  let ?m = "map (\<lambda>l. (l, [(''k'', JStr (l @ ''!''))])) SupportedLocales"
  have v: "validateKeys ?m = []" by code_simp
  have a: "all_strings ?m" by (auto simp: all_strings_def)
  have d: "''de'' \<in> set SupportedLocales" by (simp add: SupportedLocales_def)
  have k: "''k'' \<in> set (keys_at ?m ''en'')" by (simp add: keys_at_def SupportedLocales_def)
  show ?thesis using validated_never_falls_back [OF v a d k] by (auto simp: SupportedLocales_def)
qed

text \<open>A key the catalogue does not know in English either is returned as it is.\<close>

lemma translate_unknown:
  "string_at m l k = None \<Longrightarrow> string_at m ''en'' k = None \<Longrightarrow> translate m l k = k"
  by (simp add: translate_def)

section \<open>Locale of a request\<close>

lemma ParseLocale_supported: "IsSupported (ParseLocale s)"
  by (simp add: ParseLocale_def Let_def IsSupported_def SupportedLocales_def)

lemma detect_header_supported: "IsSupported (detect_header ps)"
  by (induction ps) (auto simp: Let_def ParseLocale_supported, simp add: IsSupported_def SupportedLocales_def)

lemma locale_supported_nonempty: "DetectLocale r \<noteq> []"
proof -
  have "IsSupported (DetectLocale r)"
    by (auto simp: DetectLocale_def detect_header_supported IsSupported_def [of "''en''"] SupportedLocales_def split: option.splits)
  then show ?thesis by (auto simp: IsSupported_def SupportedLocales_def)
qed

text \<open>
  Locale resolution: a request always gets a supported locale; a supported \<open>lang\<close> parameter
  wins and is the one stored in the cookie, then a supported cookie, and only then the header,
  whose result other than English is the base language of one of the tags it lists.
\<close>

theorem locale_resolution:
  "IsSupported (DetectLocale r) \<and>
   (case lang_cookie_for r of
      Some q \<Rightarrow> q = lr_Query r \<and> DetectLocale r = q
    | None \<Rightarrow>
        (case lr_Cookie r of
           Some c \<Rightarrow> if IsSupported c then DetectLocale r = c
                     else DetectLocale r = DetectLocale (r\<lparr>lr_Cookie := None\<rparr>)
         | None \<Rightarrow> if DetectLocale r = ''en'' then True
                   else \<exists>part \<in> set (SplitByte (lr_AcceptLanguage r) (CHR '','')).
                     DetectLocale r = ParseLocale (TrimSpace (hd (SplitByteN2 part (CHR '';''))))))"
proof -
  have en: "IsSupported ''en''" by (simp add: IsSupported_def SupportedLocales_def)
  have "detect_header ps \<noteq> ''en'' \<Longrightarrow> \<exists>part \<in> set ps. detect_header ps = ParseLocale (TrimSpace (hd (SplitByteN2 part (CHR '';''))))" for ps
    by (induction ps) (auto simp: Let_def)
  then show ?thesis
    by (auto simp: DetectLocale_def lang_cookie_for_def detect_header_supported en split: option.splits)
qed

text \<open>
  Two differences between the header walks, and the middleware: the walk of \<open>parseAcceptLanguage\<close>
  stops at the first tag even when it is not supported, because \<open>ParseLocale\<close> already falls back
  to English; and the locale the server middleware stores is not the one package \<open>i18n\<close> reads.
\<close>

lemma accept_language_stops_early:
  "parseAcceptLanguage ''pt,de'' = ''en''"
  "DetectLocale \<lparr>lr_Query = [], lr_Cookie = None, lr_AcceptLanguage = ''pt,de'', lr_TLS = False\<rparr> = ''de''"
  by code_simp+

lemma uppercase_english_skipped:
  "DetectLocale \<lparr>lr_Query = [], lr_Cookie = None, lr_AcceptLanguage = ''EN-US,de'', lr_TLS = False\<rparr> = ''de''"
  by code_simp

lemma middleware_locale_not_seen:
  "i18n_LangFromContext (fst (LangMiddleware r \<lparr>lc_I18n = None, lc_Server = None\<rparr>)) = ''en''"
  "server_LangFromContext (fst (LangMiddleware r \<lparr>lc_I18n = None, lc_Server = None\<rparr>)) = DetectLocale r"
proof -
  have "DetectLocale r \<noteq> []" using locale_supported_nonempty [of r] by simp
  then show "server_LangFromContext (fst (LangMiddleware r \<lparr>lc_I18n = None, lc_Server = None\<rparr>)) = DetectLocale r"
    by (simp add: server_LangFromContext_def LangMiddleware_def)
qed (simp add: i18n_LangFromContext_def LangMiddleware_def)

end
