(* ===== verification/ReqStats.thy ===== *)
theory ReqStats
  imports Prelude
begin

text \<open>
  File \<open>server/reqstats.go\<close>: request counters with a rolling 24 hour window, kept in a ring of 24
  hour buckets. The clock is an argument, as the number of whole hours since the epoch; the
  counters are far from the range of \<open>int64\<close>. An operation runs under the lock, so a run is a
  sequence of operations.
\<close>

section \<open>Model\<close>

record requestStats =
  rs_total :: int
  rs_active :: int
  rs_hourBuckets :: "int list"
  rs_hourStamps :: "int list"

definition newRequestStats :: requestStats where
  "newRequestStats = \<lparr>rs_total = 0, rs_active = 0, rs_hourBuckets = replicate 24 0, rs_hourStamps = replicate 24 0\<rparr>"

definition recordStart :: "requestStats \<Rightarrow> requestStats" where
  "recordStart rs = rs\<lparr>rs_active := rs_active rs + 1\<rparr>"

definition recordEnd :: "requestStats \<Rightarrow> requestStats" where
  "recordEnd rs = rs\<lparr>rs_active := rs_active rs - 1\<rparr>"

definition recordRequest :: "int \<Rightarrow> requestStats \<Rightarrow> requestStats" where
  "recordRequest hour rs =
     (let idx = nat (hour mod 24);
          rs = rs\<lparr>rs_total := rs_total rs + 1\<rparr>;
          rs = (if rs_hourStamps rs ! idx \<noteq> hour
                then rs\<lparr>rs_hourStamps := (rs_hourStamps rs)[idx := hour], rs_hourBuckets := (rs_hourBuckets rs)[idx := 0]\<rparr>
                else rs)
      in rs\<lparr>rs_hourBuckets := (rs_hourBuckets rs)[idx := rs_hourBuckets rs ! idx + 1]\<rparr>)"

definition snapshot :: "int \<Rightarrow> requestStats \<Rightarrow> int \<times> int \<times> int" where
  "snapshot nowHour rs =
     (rs_total rs,
      sum_list (map (\<lambda>i. if nowHour - rs_hourStamps rs ! i < 24 then rs_hourBuckets rs ! i else 0) [0..<24]),
      rs_active rs)"

text \<open>One request through \<open>statsMiddleware\<close>: begun and counted, and later ended.\<close>

datatype stats_event = ReqBegin int | ReqEnd

fun stats_step :: "stats_event \<Rightarrow> requestStats \<Rightarrow> requestStats" where
  "stats_step (ReqBegin hour) rs = recordRequest hour (recordStart rs)"
| "stats_step ReqEnd rs = recordEnd rs"

section \<open>The window is exact\<close>

fun begins :: "stats_event list \<Rightarrow> int list" where
  "begins [] = []"
| "begins (ReqBegin h # es) = h # begins es"
| "begins (ReqEnd # es) = begins es"

lemma begins_append [simp]: "begins (a @ b) = begins a @ begins b"
  by (induction a rule: begins.induct) auto

text \<open>
  What the ring holds after the requests of the hours \<open>hs\<close>: bucket \<open>i\<close> counts the requests of the
  latest hour congruent to \<open>i\<close>.
\<close>

definition ring_ok :: "int list \<Rightarrow> requestStats \<Rightarrow> bool" where
  "ring_ok hs rs \<longleftrightarrow> length (rs_hourBuckets rs) = 24 \<and> length (rs_hourStamps rs) = 24 \<and>
     (\<forall>i < 24. rs_hourBuckets rs ! i = int (count_list hs (rs_hourStamps rs ! i)) \<and>
        (rs_hourStamps rs ! i = 0 \<or> rs_hourStamps rs ! i \<in> set hs \<and> nat (rs_hourStamps rs ! i mod 24) = i) \<and>
        (\<forall>h \<in> set hs. nat (h mod 24) = i \<longrightarrow> h \<le> rs_hourStamps rs ! i))"

lemma ring_ok_init: "ring_ok [] newRequestStats"
  by (simp add: ring_ok_def newRequestStats_def)

lemma ring_ok_active [simp]: "ring_ok hs (rs\<lparr>rs_active := a\<rparr>) = ring_ok hs rs"
  by (simp add: ring_ok_def)

lemma idx_bound: "nat (h mod 24) < 24"
  by (simp add: nat_less_iff)

text \<open>Recording an hour no earlier than the ones before keeps the ring.\<close>

lemma ring_ok_record:
  assumes ok: "ring_ok hs rs" and mono: "\<forall>x \<in> set hs. x \<le> h" and pos: "0 < h"
  shows "ring_ok (hs @ [h]) (recordRequest h rs)"
proof -
  let ?i = "nat (h mod 24)"
  have len: "length (rs_hourBuckets rs) = 24" "length (rs_hourStamps rs) = 24" using ok by (auto simp: ring_ok_def)
  have st: "rs_hourStamps (recordRequest h rs) = (rs_hourStamps rs)[?i := h]"
    by (simp add: recordRequest_def Let_def) (metis list_update_id)
  have bk: "rs_hourBuckets (recordRequest h rs) =
      (rs_hourBuckets rs)[?i := (if rs_hourStamps rs ! ?i = h then rs_hourBuckets rs ! ?i else 0) + 1]"
    by (simp add: recordRequest_def Let_def len idx_bound)
  have stale: "count_list hs h = 0" if "rs_hourStamps rs ! ?i \<noteq> h"
  proof (rule ccontr)
    assume "count_list hs h \<noteq> 0"
    then have "h \<in> set hs" by (simp add: count_list_0_iff)
    then have "h \<le> rs_hourStamps rs ! ?i" using ok idx_bound [of h] by (auto simp: ring_ok_def)
    moreover have "rs_hourStamps rs ! ?i \<le> h" using ok idx_bound [of h] mono pos by (auto simp: ring_ok_def)
    ultimately show False using that by simp
  qed
  have other: "rs_hourStamps rs ! i \<noteq> h" if "i < 24" "i \<noteq> ?i" for i
    using ok that pos by (auto simp: ring_ok_def)
  have here: "rs_hourBuckets rs ! i = int (count_list hs (rs_hourStamps rs ! i))" if "i < 24" for i
    using ok that by (simp add: ring_ok_def)
  have slot: "rs_hourBuckets (recordRequest h rs) ! i = int (count_list (hs @ [h]) (rs_hourStamps (recordRequest h rs) ! i)) \<and>
      (rs_hourStamps (recordRequest h rs) ! i = 0 \<or> rs_hourStamps (recordRequest h rs) ! i \<in> set (hs @ [h]) \<and>
         nat (rs_hourStamps (recordRequest h rs) ! i mod 24) = i) \<and>
      (\<forall>x \<in> set (hs @ [h]). nat (x mod 24) = i \<longrightarrow> x \<le> rs_hourStamps (recordRequest h rs) ! i)" if i: "i < 24" for i
  proof (cases "i = ?i")
    case True
    then show ?thesis using stale here [of ?i] mono idx_bound [of h] by (auto simp: st bk len)
  next
    case False
    then have "rs_hourStamps rs ! i \<noteq> h" using other i by simp
    then show ?thesis using False ok i by (auto simp: st bk len ring_ok_def)
  qed
  then show ?thesis using len by (simp add: ring_ok_def st bk)
qed

lemma mod_window: "s mod 24 = h mod 24 \<Longrightarrow> h \<le> s \<Longrightarrow> s < h + 24 \<Longrightarrow> s = h" for s h :: int
  using zdvd_not_zless [of "s - h" 24] by (simp add: mod_eq_dvd_iff) (metis add_diff_cancel_left' diff_gt_0_iff_gt less_le not_less)

text \<open>An hour inside the window is the one its bucket is stamped with.\<close>

lemma window_slot:
  assumes ok: "ring_ok hs rs" and i: "i < 24" and upto: "\<forall>h \<in> set hs. h \<le> now \<and> 0 < h"
  shows "(if now - rs_hourStamps rs ! i < 24 then rs_hourBuckets rs ! i else 0) =
     int (length (filter (\<lambda>h. now - h < 24 \<and> nat (h mod 24) = i) hs))"
proof -
  let ?s = "rs_hourStamps rs ! i"
  have b: "rs_hourBuckets rs ! i = int (count_list hs ?s)" using ok i by (simp add: ring_ok_def)
  have eq: "h = ?s" if h: "h \<in> set hs" "now - h < 24" "nat (h mod 24) = i" for h
  proof -
    have le: "h \<le> ?s" using ok i h unfolding ring_ok_def by blast
    moreover have "0 < h" using upto h(1) by blast
    ultimately have "?s \<noteq> 0" by linarith
    then have s: "?s \<in> set hs" "nat (?s mod 24) = i" using ok i unfolding ring_ok_def by blast+
    have up: "?s < h + 24" using upto s(1) h(2) by fastforce
    have "nat (?s mod 24) = nat (h mod 24)" using s(2) h(3) by (rule trans [OF _ sym])
    then have "?s mod 24 = h mod 24" by (subst (asm) eq_nat_nat_iff) simp_all
    from mod_window [OF this le up] show ?thesis by (rule sym)
  qed
  show ?thesis
  proof (cases "now - ?s < 24")
    case True
    have "filter (\<lambda>h. now - h < 24 \<and> nat (h mod 24) = i) hs = filter (\<lambda>h. h = ?s) hs"
    proof (rule filter_cong [OF refl])
      fix h assume h: "h \<in> set hs"
      have stamp: "nat (?s mod 24) = i" if "?s \<in> set hs"
      proof -
        have "?s \<noteq> 0" using upto that by fastforce
        then show ?thesis using ok i unfolding ring_ok_def by blast
      qed
      show "(now - h < 24 \<and> nat (h mod 24) = i) = (h = ?s)"
        using eq [OF h] stamp h True by blast
    qed
    moreover have "(\<lambda>h. h = ?s) = (=) ?s" by auto
    ultimately show ?thesis using b True by (simp add: count_list_eq_length_filter)
  next
    case False
    then have "filter (\<lambda>h. now - h < 24 \<and> nat (h mod 24) = i) hs = []"
      using eq by (auto simp: filter_empty_conv)
    then show ?thesis using False by simp
  qed
qed

lemma sum_by_class:
  "(\<And>h. h \<in> set hs \<Longrightarrow> f h < n) \<Longrightarrow>
   sum_list (map (\<lambda>i. int (length (filter (\<lambda>h. P h \<and> f h = i) hs))) [0..<n]) = int (length (filter P hs))"
proof (induction hs)
  case (Cons h hs)
  have one: "sum_list (map (\<lambda>i. if P h \<and> f h = i then 1 else (0 :: int)) [0..<n]) = (if P h then 1 else 0)"
    using Cons.prems [of h] by (simp add: interv_sum_list_conv_sum_set_nat sum.delta)
  have "sum_list (map (\<lambda>i. (if P h \<and> f h = i then 1 else 0) + int (length (filter (\<lambda>h. P h \<and> f h = i) hs))) [0..<n]) =
      (if P h then 1 else 0) + int (length (filter P hs))"
    using Cons by (simp only: sum_list_addf one) simp
  moreover have "int (length (filter (\<lambda>h. P h \<and> f h = i) (h # hs))) =
      (if P h \<and> f h = i then 1 else 0) + int (length (filter (\<lambda>h. P h \<and> f h = i) hs))" for i
    by simp
  ultimately show ?case by simp
qed simp

lemma ring_ok_run:
  assumes "sorted (begins es)" and "\<forall>h \<in> set (begins es). 0 < h"
  shows "ring_ok (begins es) (fold stats_step es newRequestStats)"
  using assms
proof (induction es rule: rev_induct)
  case Nil
  then show ?case by (simp add: ring_ok_init)
next
  case (snoc e es)
  then have IH: "ring_ok (begins es) (fold stats_step es newRequestStats)" by (simp add: sorted_append)
  show ?case
  proof (cases e)
    case (ReqBegin h)
    then show ?thesis using snoc.prems IH
      by (auto simp: recordStart_def sorted_append intro!: ring_ok_record)
  next
    case ReqEnd
    then show ?thesis using IH by (simp add: recordEnd_def)
  qed
qed

lemma totals_run:
  "rs_total (fold stats_step es rs) = rs_total rs + int (length (begins es)) \<and>
   rs_active (fold stats_step es rs) = rs_active rs + int (length (begins es)) - int (length (filter (\<lambda>e. e = ReqEnd) es))"
proof (induction es arbitrary: rs)
  case (Cons e es)
  then show ?case by (cases e) (auto simp: recordStart_def recordEnd_def recordRequest_def Let_def)
qed simp

text \<open>
  The health page counts exactly: after any interleaving of requests begun and ended, with the
  clock not going back, the snapshot shows the number of requests ever begun, the number begun in
  the last 24 hours (the current one included), and the number begun and not ended.
\<close>

theorem snapshot_exact:
  assumes "sorted (begins es)" and "\<forall>h \<in> set (begins es). 0 < h \<and> h \<le> now"
  shows "snapshot now (fold stats_step es newRequestStats) =
    (int (length (begins es)), int (length (filter (\<lambda>h. now - h < 24) (begins es))),
     int (length (begins es)) - int (length (filter (\<lambda>e. e = ReqEnd) es)))"
proof -
  let ?rs = "fold stats_step es newRequestStats"
  have ok: "ring_ok (begins es) ?rs" using assms by (intro ring_ok_run) auto
  have "sum_list (map (\<lambda>i. if now - rs_hourStamps ?rs ! i < 24 then rs_hourBuckets ?rs ! i else 0) [0..<24]) =
    sum_list (map (\<lambda>i. int (length (filter (\<lambda>h. now - h < 24 \<and> nat (h mod 24) = i) (begins es)))) [0..<24])"
    using window_slot [OF ok] assms(2) by (intro arg_cong [where f = sum_list] map_cong) auto
  also have "\<dots> = int (length (filter (\<lambda>h. now - h < 24) (begins es)))"
    using idx_bound by (intro sum_by_class) auto
  finally have window: "sum_list (map (\<lambda>i. if now - rs_hourStamps ?rs ! i < 24 then rs_hourBuckets ?rs ! i else 0) [0..<24]) =
    int (length (filter (\<lambda>h. now - h < 24) (begins es)))" .
  have init: "rs_total newRequestStats = 0" "rs_active newRequestStats = 0" by (simp_all add: newRequestStats_def)
  show ?thesis using totals_run [of es newRequestStats] unfolding snapshot_def window init by simp
qed

theorem snapshot_exact_witness:
  "snapshot 480030 (fold stats_step [ReqBegin 480000, ReqBegin 480024, ReqEnd, ReqBegin 480030] newRequestStats) = (3, 2, 2)"
  using snapshot_exact [of "[ReqBegin 480000, ReqBegin 480024, ReqEnd, ReqBegin 480030]" 480030] by simp

end
