(* ===== verification/Scheduler.thy ===== *)
theory Scheduler
  imports GoStrings "HOL-Library.AList"
begin

text \<open>
  File \<open>scheduler/scheduler.go\<close>. The cron engine (\<open>gocron\<close>) is a library: its state is of an
  arbitrary type, its operations are arguments, and what the code relies on is the predicate
  \<open>gocron_ok\<close> below. The database tables are lists of rows, and the SQL statements of the source
  are operations on them, taken to succeed: the source only logs their errors. A task function is
  represented by the result of a run, with a panic as one of the errors.
\<close>

section \<open>Data\<close>

datatype TaskStatus = TaskStatusSuccess | TaskStatusFailed

record Task =
  tk_ID :: string
  tk_Name :: string
  tk_Schedule :: string
  tk_HasFn :: bool
  tk_Enabled :: bool

record task_row =
  tr_id :: string
  tr_name :: string
  tr_schedule :: string
  tr_last_run :: "int option"
  tr_last_status :: "TaskStatus option"
  tr_last_error :: "string option"
  tr_run_count :: nat
  tr_fail_count :: nat
  tr_enabled :: bool

record history_row =
  hr_task_id :: string
  hr_started_at :: int
  hr_status :: TaskStatus
  hr_error :: "string option"

record sched_db =
  db_tasks :: "task_row list"
  db_history :: "history_row list"

datatype job_definition = CronJob string | DurationJob int

text \<open>
  The engine: \<open>go_NewJob\<close> registers a job for a task, or fails on a definition it does not
  accept; \<open>go_RemoveJob\<close> removes one; \<open>go_live\<close> is the set of registered jobs with their tasks.
\<close>

record 'g gocron =
  go_NewJob :: "'g \<Rightarrow> job_definition \<Rightarrow> string \<Rightarrow> (nat \<times> 'g) option"
  go_RemoveJob :: "'g \<Rightarrow> nat \<Rightarrow> 'g"
  go_live :: "'g \<Rightarrow> (nat \<times> string) set"

definition gocron_ok :: "'g gocron \<Rightarrow> bool" where
  "gocron_ok ops \<longleftrightarrow>
     (\<forall>g d t j g'. go_NewJob ops g d t = Some (j, g') \<longrightarrow>
        go_live ops g' = insert (j, t) (go_live ops g) \<and> j \<notin> fst ` go_live ops g) \<and>
     (\<forall>g j. go_live ops (go_RemoveJob ops g j) = {x \<in> go_live ops g. fst x \<noteq> j})"

record 'g Scheduler =
  sc_sched :: 'g
  sc_tasks :: "(string \<times> Task) list"
  sc_jobs :: "(string \<times> nat) list"
  sc_db :: "sched_db option"
  sc_CatchUpWindow :: int
  sc_running :: bool

section \<open>Schedules\<close>

definition NewScheduler :: "'g \<Rightarrow> sched_db option \<Rightarrow> int \<Rightarrow> 'g Scheduler" where
  "NewScheduler sched db catchUp = \<lparr>sc_sched = sched, sc_tasks = [], sc_jobs = [], sc_db = db,
     sc_CatchUpWindow = (if catchUp = 0 then 3600 else catchUp), sc_running = False\<rparr>"

text \<open>\<open>time.ParseDuration\<close> is an argument; \<open>None\<close> is its error.\<close>

definition jobDefinition :: "(string \<Rightarrow> int option) \<Rightarrow> string \<Rightarrow> job_definition option" where
  "jobDefinition parse schedule =
     (if schedule = ''@hourly'' then Some (CronJob ''0 * * * *'')
      else if schedule = ''@daily'' then Some (CronJob ''0 0 * * *'')
      else if schedule = ''@weekly'' then Some (CronJob ''0 0 * * 0'')
      else if schedule = ''@monthly'' then Some (CronJob ''0 0 1 * *'')
      else if HasPrefix schedule ''@every '' then map_option DurationJob (parse (TrimPrefix schedule ''@every ''))
      else Some (CronJob schedule))"

definition scheduleTask :: "'g gocron \<Rightarrow> (string \<Rightarrow> int option) \<Rightarrow> Task \<Rightarrow> 'g Scheduler \<Rightarrow> 'g Scheduler option" where
  "scheduleTask ops parse task s =
     (case jobDefinition parse (tk_Schedule task) of
        None \<Rightarrow> None
      | Some def \<Rightarrow>
          (case go_NewJob ops (sc_sched s) def (tk_ID task) of
             None \<Rightarrow> None
           | Some (job, g) \<Rightarrow> Some (s\<lparr>sc_sched := g, sc_jobs := AList.update (tk_ID task) job (sc_jobs s)\<rparr>)))"

section \<open>The tables\<close>

definition new_row :: "Task \<Rightarrow> task_row" where
  "new_row t = \<lparr>tr_id = tk_ID t, tr_name = tk_Name t, tr_schedule = tk_Schedule t, tr_last_run = None,
     tr_last_status = None, tr_last_error = None, tr_run_count = 0, tr_fail_count = 0, tr_enabled = tk_Enabled t\<rparr>"

definition map_row :: "string \<Rightarrow> (task_row \<Rightarrow> task_row) \<Rightarrow> sched_db \<Rightarrow> sched_db" where
  "map_row i f db = db\<lparr>db_tasks := map (\<lambda>r. if tr_id r = i then f r else r) (db_tasks db)\<rparr>"

definition saveTaskState :: "Task \<Rightarrow> sched_db \<Rightarrow> sched_db" where
  "saveTaskState t db =
     (if list_ex (\<lambda>r. tr_id r = tk_ID t) (db_tasks db)
      then map_row (tk_ID t) (\<lambda>r. r\<lparr>tr_name := tk_Name t, tr_schedule := tk_Schedule t, tr_enabled := tk_Enabled t\<rparr>) db
      else db\<lparr>db_tasks := db_tasks db @ [new_row t]\<rparr>)"

definition updateTaskRun :: "int \<Rightarrow> string \<Rightarrow> TaskStatus \<Rightarrow> string \<Rightarrow> sched_db \<Rightarrow> sched_db" where
  "updateTaskRun now i status errMsg =
     map_row i (\<lambda>r. if status = TaskStatusSuccess
       then r\<lparr>tr_last_run := Some now, tr_last_status := Some status, tr_last_error := None,
              tr_run_count := tr_run_count r + 1\<rparr>
       else r\<lparr>tr_last_run := Some now, tr_last_status := Some status, tr_last_error := Some errMsg,
              tr_fail_count := tr_fail_count r + 1\<rparr>)"

definition appendHistory :: "string \<Rightarrow> int \<Rightarrow> TaskStatus \<Rightarrow> string \<Rightarrow> sched_db \<Rightarrow> sched_db" where
  "appendHistory i startedAt status errMsg db =
     db\<lparr>db_history := db_history db @ [\<lparr>hr_task_id = i, hr_started_at = startedAt, hr_status = status,
       hr_error = (if errMsg \<noteq> [] then Some errMsg else None)\<rparr>]\<rparr>"

section \<open>Operations\<close>

datatype sched_error = EmptyID | EmptySchedule | NoFunction | CannotSchedule | AlreadyRunning | NotFound

definition AddTask :: "'g gocron \<Rightarrow> (string \<Rightarrow> int option) \<Rightarrow> Task \<Rightarrow> 'g Scheduler \<Rightarrow> sched_error option \<times> 'g Scheduler" where
  "AddTask ops parse task s =
     (if tk_ID task = [] then (Some EmptyID, s)
      else if tk_Schedule task = [] then (Some EmptySchedule, s)
      else if \<not> tk_HasFn task then (Some NoFunction, s)
      else let s1 = s\<lparr>sc_tasks := AList.update (tk_ID task) task (sc_tasks s)\<rparr> in
        case (if sc_running s1 \<and> tk_Enabled task then scheduleTask ops parse task s1 else Some s1) of
          None \<Rightarrow> (Some CannotSchedule, s1)
        | Some s2 \<Rightarrow> (None, s2\<lparr>sc_db := map_option (saveTaskState task) (sc_db s2)\<rparr>))"

definition load_row :: "task_row \<Rightarrow> (string \<times> Task) list \<Rightarrow> (string \<times> Task) list" where
  "load_row r ts = (case map_of ts (tr_id r) of
     None \<Rightarrow> ts
   | Some t \<Rightarrow> AList.update (tr_id r) (t\<lparr>tk_Enabled := tr_enabled r\<rparr>) ts)"

definition loadTaskStates :: "'g Scheduler \<Rightarrow> 'g Scheduler" where
  "loadTaskStates s = (case sc_db s of None \<Rightarrow> s
     | Some db \<Rightarrow> s\<lparr>sc_tasks := fold load_row (db_tasks db) (sc_tasks s)\<rparr>)"

text \<open>The tasks started because they look overdue, by id.\<close>

definition checkMissedTasks :: "int \<Rightarrow> 'g Scheduler \<Rightarrow> string list" where
  "checkMissedTasks now s = (case sc_db s of None \<Rightarrow> []
     | Some db \<Rightarrow> map tr_id (filter (\<lambda>r. tr_enabled r \<and>
          (case tr_last_run r of None \<Rightarrow> True | Some t \<Rightarrow> t < now - sc_CatchUpWindow s) \<and>
          map_of (sc_tasks s) (tr_id r) \<noteq> None) (db_tasks db)))"

definition start_one :: "'g gocron \<Rightarrow> (string \<Rightarrow> int option) \<Rightarrow> string \<times> Task \<Rightarrow> 'g Scheduler \<Rightarrow> 'g Scheduler" where
  "start_one ops parse it s =
     (if tk_Enabled (snd it) then (case scheduleTask ops parse (snd it) s of None \<Rightarrow> s | Some s' \<Rightarrow> s') else s)"

definition Start ::
  "'g gocron \<Rightarrow> (string \<Rightarrow> int option) \<Rightarrow> int \<Rightarrow> 'g Scheduler \<Rightarrow> sched_error option \<times> string list \<times> 'g Scheduler" where
  "Start ops parse now s =
     (if sc_running s then (Some AlreadyRunning, [], s)
      else let s1 = loadTaskStates s; missed = checkMissedTasks now s1;
               s2 = fold (start_one ops parse) (sc_tasks s1) s1
        in (None, missed, s2\<lparr>sc_running := True\<rparr>))"

definition set_enabled :: "bool \<Rightarrow> string \<Rightarrow> 'g Scheduler \<Rightarrow> 'g Scheduler" where
  "set_enabled b i s =
     (case map_of (sc_tasks s) i of None \<Rightarrow> s
      | Some t \<Rightarrow> s\<lparr>sc_tasks := AList.update i (t\<lparr>tk_Enabled := b\<rparr>) (sc_tasks s)\<rparr>)"

definition db_enabled :: "bool \<Rightarrow> string \<Rightarrow> 'g Scheduler \<Rightarrow> 'g Scheduler" where
  "db_enabled b i s = s\<lparr>sc_db := map_option (map_row i (\<lambda>r. r\<lparr>tr_enabled := b\<rparr>)) (sc_db s)\<rparr>"

definition EnableTask ::
  "'g gocron \<Rightarrow> (string \<Rightarrow> int option) \<Rightarrow> string \<Rightarrow> 'g Scheduler \<Rightarrow> sched_error option \<times> 'g Scheduler" where
  "EnableTask ops parse i s =
     (case map_of (sc_tasks s) i of
        None \<Rightarrow> (Some NotFound, s)
      | Some t \<Rightarrow>
          let s1 = set_enabled True i s in
          case (if sc_running s1 \<and> map_of (sc_jobs s1) i = None
                then scheduleTask ops parse (t\<lparr>tk_Enabled := True\<rparr>) s1 else Some s1) of
            None \<Rightarrow> (Some CannotSchedule, s1)
          | Some s2 \<Rightarrow> (None, db_enabled True i s2))"

definition DisableTask :: "'g gocron \<Rightarrow> string \<Rightarrow> 'g Scheduler \<Rightarrow> sched_error option \<times> 'g Scheduler" where
  "DisableTask ops i s =
     (case map_of (sc_tasks s) i of
        None \<Rightarrow> (Some NotFound, s)
      | Some t \<Rightarrow>
          let s1 = set_enabled False i s;
              s2 = (case map_of (sc_jobs s1) i of
                      None \<Rightarrow> s1
                    | Some job \<Rightarrow> s1\<lparr>sc_sched := go_RemoveJob ops (sc_sched s1) job, sc_jobs := AList.delete i (sc_jobs s1)\<rparr>)
          in (None, db_enabled False i s2))"

text \<open>A run of a task: its result, and whether the failure hook is called.\<close>

datatype run_result = RunOk | RunError string | RunPanic string

definition runTask :: "int \<Rightarrow> int \<Rightarrow> string \<Rightarrow> run_result \<Rightarrow> 'g Scheduler \<Rightarrow> 'g Scheduler \<times> bool" where
  "runTask startTime now i res s =
     (let err = (case res of RunOk \<Rightarrow> None | RunError e \<Rightarrow> Some e | RunPanic p \<Rightarrow> Some (''panic: '' @ p));
          status = (if err \<noteq> None then TaskStatusFailed else TaskStatusSuccess);
          errMsg = (case err of None \<Rightarrow> [] | Some e \<Rightarrow> e)
      in (s\<lparr>sc_db := map_option (\<lambda>db. appendHistory i startTime status errMsg (updateTaskRun now i status errMsg db)) (sc_db s)\<rparr>,
          status = TaskStatusFailed))"

section \<open>Registered jobs\<close>

declare map_of_eq_Some_iff [simp del]

definition jobs_graph :: "'g gocron \<Rightarrow> 'g Scheduler \<Rightarrow> bool" where
  "jobs_graph ops s \<longleftrightarrow> go_live ops (sc_sched s) = {(j, i). map_of (sc_jobs s) i = Some j} \<and>
     inj_on fst (go_live ops (sc_sched s))"

definition tasks_ok :: "'g Scheduler \<Rightarrow> bool" where
  "tasks_ok s \<longleftrightarrow> distinct (map fst (sc_tasks s)) \<and> (\<forall>(i, t) \<in> set (sc_tasks s). tk_ID t = i)"

definition sched_inv :: "'g gocron \<Rightarrow> 'g Scheduler \<Rightarrow> bool" where
  "sched_inv ops s \<longleftrightarrow> jobs_graph ops s \<and> tasks_ok s \<and>
     (\<forall>i j. map_of (sc_jobs s) i = Some j \<longrightarrow>
        sc_running s \<and> (\<exists>t. map_of (sc_tasks s) i = Some t \<and> tk_Enabled t))"

lemma jobs_graph_update [simp]:
  "jobs_graph ops (s\<lparr>sc_db := d\<rparr>) = jobs_graph ops s" "jobs_graph ops (s\<lparr>sc_running := b\<rparr>) = jobs_graph ops s"
  by (simp_all add: jobs_graph_def)

lemma scheduleTask_fields:
  assumes "scheduleTask ops parse t s = Some s'"
  shows "sc_tasks s' = sc_tasks s" "sc_running s' = sc_running s" "sc_db s' = sc_db s"
    "\<exists>j. sc_jobs s' = AList.update (tk_ID t) j (sc_jobs s)"
  using assms by (auto simp: scheduleTask_def split: option.splits)

lemma scheduleTask_graph:
  assumes ok: "gocron_ok ops" and g: "jobs_graph ops s" and fresh: "map_of (sc_jobs s) (tk_ID t) = None"
    and run: "scheduleTask ops parse t s = Some s'"
  shows "jobs_graph ops s'"
proof -
  from run obtain d j g' where n: "go_NewJob ops (sc_sched s) d (tk_ID t) = Some (j, g')"
    and s': "s' = s\<lparr>sc_sched := g', sc_jobs := AList.update (tk_ID t) j (sc_jobs s)\<rparr>"
    by (auto simp: scheduleTask_def split: option.splits)
  from ok n have "go_live ops g' = insert (j, tk_ID t) (go_live ops (sc_sched s))"
    and "j \<notin> fst ` go_live ops (sc_sched s)"
    unfolding gocron_ok_def by blast+
  then show ?thesis using g fresh by (auto simp: jobs_graph_def s' update_conv' inj_on_insert)
qed

lemma tasks_ok_update:
  assumes "tasks_ok s" "tk_ID t = i"
  shows "tasks_ok (s\<lparr>sc_tasks := AList.update i t (sc_tasks s)\<rparr>)"
proof -
  have "set (AList.update i t ts) \<subseteq> insert (i, t) (set ts)" for ts
    by (induction ts) auto
  then show ?thesis using assms by (fastforce simp: tasks_ok_def distinct_update)
qed

lemma tasks_ok_fields: "sc_tasks s' = sc_tasks s \<Longrightarrow> tasks_ok s' = tasks_ok s"
  by (simp add: tasks_ok_def)

lemma task_id: "tasks_ok s \<Longrightarrow> map_of (sc_tasks s) i = Some t \<Longrightarrow> tk_ID t = i"
  by (auto simp: tasks_ok_def dest!: map_of_SomeD)

lemma sched_inv_job:
  "sched_inv ops s \<Longrightarrow> map_of (sc_jobs s) i = Some j \<Longrightarrow> sc_running s \<and> (\<exists>t. map_of (sc_tasks s) i = Some t \<and> tk_Enabled t)"
  unfolding sched_inv_def by blast

lemma sched_inv_live: "sched_inv ops s \<Longrightarrow> (j, i) \<in> go_live ops (sc_sched s) \<longleftrightarrow> map_of (sc_jobs s) i = Some j"
  by (simp add: sched_inv_def jobs_graph_def)

lemma sched_inv_unique:
  "sched_inv ops s \<Longrightarrow> map_of (sc_jobs s) i = Some j \<Longrightarrow> map_of (sc_jobs s) i' = Some j \<Longrightarrow> i = i'"
  using sched_inv_live [of ops s j] unfolding sched_inv_def jobs_graph_def inj_on_def by force

lemma scheduleTask_inv:
  assumes ok: "gocron_ok ops" and inv: "sched_inv ops s" and fresh: "map_of (sc_jobs s) (tk_ID t) = None"
    and en: "sc_running s" "map_of (sc_tasks s) (tk_ID t) = Some t'" "tk_Enabled t'"
    and run: "scheduleTask ops parse t s = Some s'"
  shows "sched_inv ops s'"
proof -
  note f = scheduleTask_fields [OF run]
  obtain j where j: "sc_jobs s' = AList.update (tk_ID t) j (sc_jobs s)" using f(4) by blast
  have "sc_running s' \<and> (\<exists>t. map_of (sc_tasks s') i = Some t \<and> tk_Enabled t)" if "map_of (sc_jobs s') i = Some j'" for i j'
  proof (cases "i = tk_ID t")
    case True
    then show ?thesis using en f by simp
  next
    case False
    then have "map_of (sc_jobs s) i = Some j'" using that j by (simp add: update_conv')
    from sched_inv_job [OF inv this] show ?thesis using f by simp
  qed
  moreover have "jobs_graph ops s'" using scheduleTask_graph [OF ok _ fresh run] inv by (simp add: sched_inv_def)
  ultimately show ?thesis using inv f(1) by (simp add: sched_inv_def tasks_ok_def)
qed

lemma AddTask_inv:
  assumes ok: "gocron_ok ops" and inv: "sched_inv ops s" and fresh: "map_of (sc_tasks s) (tk_ID t) = None"
  shows "sched_inv ops (snd (AddTask ops parse t s))"
proof -
  let ?s1 = "s\<lparr>sc_tasks := AList.update (tk_ID t) t (sc_tasks s)\<rparr>"
  have nojob: "map_of (sc_jobs s) (tk_ID t) = None" using inv fresh by (cases "map_of (sc_jobs s) (tk_ID t)") (auto simp: sched_inv_def)
  have i1: "sched_inv ops ?s1"
    using inv tasks_ok_update [of s t] fresh nojob
    by (auto simp: sched_inv_def jobs_graph_def update_conv')
  have db: "sched_inv ops (x\<lparr>sc_db := d\<rparr>) = sched_inv ops x" for x d
    by (simp add: sched_inv_def jobs_graph_def tasks_ok_def)
  have "sched_inv ops s2" if "scheduleTask ops parse t ?s1 = Some s2" "sc_running s" "tk_Enabled t" for s2
    by (rule scheduleTask_inv [OF ok i1 _ _ _ _ that(1)]) (use nojob that in \<open>simp_all add: update_conv'\<close>)
  then show ?thesis using inv i1 db by (auto simp: AddTask_def Let_def split: option.splits)
qed

lemma db_enabled_inv [simp]: "sched_inv ops (db_enabled b i s) = sched_inv ops s"
  by (simp add: sched_inv_def jobs_graph_def tasks_ok_def db_enabled_def)

lemma set_enabled_fields:
  "sc_jobs (set_enabled b i s) = sc_jobs s" "sc_sched (set_enabled b i s) = sc_sched s"
  "sc_running (set_enabled b i s) = sc_running s" "tasks_ok s \<Longrightarrow> tasks_ok (set_enabled b i s)"
  "map_of (sc_tasks (set_enabled b i s)) = (case map_of (sc_tasks s) i of None \<Rightarrow> map_of (sc_tasks s)
     | Some t \<Rightarrow> (map_of (sc_tasks s))(i \<mapsto> t\<lparr>tk_Enabled := b\<rparr>))"
  using task_id [of s i] by (auto simp: set_enabled_def update_conv' intro!: tasks_ok_update split: option.splits)

lemma EnableTask_inv:
  assumes ok: "gocron_ok ops" and inv: "sched_inv ops s"
  shows "sched_inv ops (snd (EnableTask ops parse i s))"
proof (cases "map_of (sc_tasks s) i")
  case None
  then show ?thesis using inv by (simp add: EnableTask_def)
next
  case (Some t)
  let ?s1 = "set_enabled True i s" let ?t = "t\<lparr>tk_Enabled := True\<rparr>"
  have id: "tk_ID ?t = i" using inv Some task_id [of s i t] by (simp add: sched_inv_def)
  have i1: "sched_inv ops ?s1"
    using inv Some by (auto simp: sched_inv_def jobs_graph_def set_enabled_fields)
  have "sched_inv ops s2" if "scheduleTask ops parse ?t ?s1 = Some s2" "sc_running s" "map_of (sc_jobs s) i = None" for s2
    by (rule scheduleTask_inv [OF ok i1 _ _ _ _ that(1), where t' = ?t])
       (use that Some id in \<open>simp_all add: set_enabled_fields\<close>)
  then show ?thesis using i1 Some by (auto simp: EnableTask_def Let_def set_enabled_fields split: option.splits)
qed

lemma DisableTask_inv:
  assumes ok: "gocron_ok ops" and inv: "sched_inv ops s"
  shows "sched_inv ops (snd (DisableTask ops i s))"
proof (cases "map_of (sc_tasks s) i")
  case None
  then show ?thesis using inv by (simp add: DisableTask_def)
next
  case (Some t)
  let ?s1 = "set_enabled False i s"
  show ?thesis
  proof (cases "map_of (sc_jobs s) i")
    case None
    then have "sched_inv ops ?s1"
      using inv Some by (auto simp: sched_inv_def jobs_graph_def set_enabled_fields)
    then show ?thesis using Some None by (simp add: DisableTask_def Let_def set_enabled_fields)
  next
    case job: (Some j)
    have live: "go_live ops (go_RemoveJob ops (sc_sched s) j) = {x \<in> go_live ops (sc_sched s). fst x \<noteq> j}"
      using ok unfolding gocron_ok_def by blast
    let ?s2 = "?s1\<lparr>sc_sched := go_RemoveJob ops (sc_sched s) j, sc_jobs := AList.delete i (sc_jobs s)\<rparr>"
    have pt: "(j', i') \<in> go_live ops (sc_sched ?s2) \<longleftrightarrow> map_of (sc_jobs ?s2) i' = Some j'" for j' i'
    proof (cases "i' = i")
      case True
      then show ?thesis using job sched_inv_live [OF inv] by (simp add: live delete_conv')
    next
      case False
      then have "map_of (sc_jobs s) i' = Some j' \<Longrightarrow> j' \<noteq> j" using sched_inv_unique [OF inv job] by blast
      then show ?thesis using False sched_inv_live [OF inv] by (simp add: live delete_conv') blast
    qed
    then have "go_live ops (sc_sched ?s2) = {(j, i). map_of (sc_jobs ?s2) i = Some j}" by blast
    moreover have "inj_on fst (go_live ops (sc_sched ?s2))"
    proof (rule inj_on_subset)
      show "inj_on fst (go_live ops (sc_sched s))" using inv unfolding sched_inv_def jobs_graph_def by blast
    qed (simp add: live)
    moreover have "tasks_ok ?s2" using inv set_enabled_fields(4) [of s False i] by (simp add: sched_inv_def tasks_ok_def)
    moreover have "sc_running ?s2 \<and> (\<exists>t. map_of (sc_tasks ?s2) i' = Some t \<and> tk_Enabled t)"
      if "map_of (sc_jobs ?s2) i' = Some j'" for i' j'
    proof -
      have "i' \<noteq> i" "map_of (sc_jobs s) i' = Some j'" using that by (auto simp: delete_conv' split: if_splits)
      with sched_inv_job [OF inv] Some show ?thesis by (simp add: set_enabled_fields(3,5))
    qed
    ultimately have "sched_inv ops ?s2" unfolding sched_inv_def jobs_graph_def by fast
    then show ?thesis using Some job by (simp add: DisableTask_def Let_def set_enabled_fields(1,2,3,5))
  qed
qed

text \<open>The loop of \<open>Start\<close>, over tasks that have no job yet.\<close>

definition loop_inv :: "'g gocron \<Rightarrow> (string \<times> Task) list \<Rightarrow> 'g Scheduler \<Rightarrow> bool" where
  "loop_inv ops ts s \<longleftrightarrow> jobs_graph ops s \<and> tasks_ok s \<and> distinct (map fst ts) \<and> set ts \<subseteq> set (sc_tasks s) \<and>
     (\<forall>i j. map_of (sc_jobs s) i = Some j \<longrightarrow> i \<notin> fst ` set ts \<and> (\<exists>t. map_of (sc_tasks s) i = Some t \<and> tk_Enabled t))"

lemma start_one_inv:
  assumes ok: "gocron_ok ops" and inv: "loop_inv ops ((i, t) # ts) s"
  shows "loop_inv ops ts (start_one ops parse (i, t) s)"
proof -
  have in_tasks: "(i, t) \<in> set (sc_tasks s)" and T: "tasks_ok s" using inv by (auto simp: loop_inv_def)
  then have t: "map_of (sc_tasks s) i = Some t" "tk_ID t = i" by (auto simp: tasks_ok_def)
  have weak: "loop_inv ops ts s" using inv unfolding loop_inv_def by auto
  have fresh: "map_of (sc_jobs s) (tk_ID t) = None"
    using inv t(2) unfolding loop_inv_def by (cases "map_of (sc_jobs s) i") auto
  have "loop_inv ops ts s'" if run: "scheduleTask ops parse t s = Some s'" and en: "tk_Enabled t" for s'
  proof -
    note f = scheduleTask_fields [OF run]
    obtain j where j: "sc_jobs s' = AList.update (tk_ID t) j (sc_jobs s)" using f(4) by blast
    have "i' \<notin> fst ` set ts \<and> (\<exists>t. map_of (sc_tasks s') i' = Some t \<and> tk_Enabled t)" if "map_of (sc_jobs s') i' = Some j'" for i' j'
    proof (cases "i' = i")
      case True
      then show ?thesis using inv t en f(1) by (simp add: loop_inv_def)
    next
      case False
      then have "map_of (sc_jobs s) i' = Some j'" using that j t(2) by (simp add: update_conv')
      then show ?thesis using weak f(1) unfolding loop_inv_def by metis
    qed
    moreover have "jobs_graph ops s'" using scheduleTask_graph [OF ok _ fresh run] inv by (simp add: loop_inv_def)
    ultimately show ?thesis using weak f(1) by (simp add: loop_inv_def tasks_ok_def)
  qed
  then show ?thesis using weak by (auto simp: start_one_def split: option.splits)
qed

lemma start_loop_inv:
  "gocron_ok ops \<Longrightarrow> loop_inv ops ts s \<Longrightarrow> loop_inv ops [] (fold (start_one ops parse) ts s)"
proof (induction ts arbitrary: s)
  case (Cons it ts)
  then show ?case using start_one_inv [of ops "fst it" "snd it" ts s parse] by simp
qed simp

lemma load_row_ok: "tasks_ok s \<Longrightarrow> tasks_ok (s\<lparr>sc_tasks := load_row r (sc_tasks s)\<rparr>)"
  using task_id [of s "tr_id r"]
  by (auto simp: load_row_def tasks_ok_fields [of "s\<lparr>sc_tasks := sc_tasks s\<rparr>" s] intro!: tasks_ok_update split: option.splits)

lemma load_rows_ok: "tasks_ok s \<Longrightarrow> tasks_ok (s\<lparr>sc_tasks := fold load_row rs (sc_tasks s)\<rparr>)"
proof (induction rs arbitrary: s)
  case Nil
  then show ?case by (simp add: tasks_ok_def)
next
  case (Cons r rs)
  from Cons.IH [OF load_row_ok [OF Cons.prems]] show ?case by simp
qed

lemma loadTaskStates_fields:
  "sc_jobs (loadTaskStates s) = sc_jobs s" "sc_sched (loadTaskStates s) = sc_sched s"
  "sc_running (loadTaskStates s) = sc_running s" "tasks_ok s \<Longrightarrow> tasks_ok (loadTaskStates s)"
  by (auto simp: loadTaskStates_def load_rows_ok split: option.splits)

lemma Start_inv:
  assumes ok: "gocron_ok ops" and inv: "sched_inv ops s"
  shows "sched_inv ops (snd (snd (Start ops parse now s)))"
proof (cases "sc_running s")
  case True
  then show ?thesis using inv by (simp add: Start_def)
next
  case False
  let ?s1 = "loadTaskStates s"
  have none: "map_of (sc_jobs s) i = None" for i
    using sched_inv_job [OF inv, of i] False by (cases "map_of (sc_jobs s) i") auto
  have T: "tasks_ok ?s1" using inv by (simp add: sched_inv_def loadTaskStates_fields)
  then have "loop_inv ops (sc_tasks ?s1) ?s1"
    using inv none by (simp add: loop_inv_def loadTaskStates_fields(1,2) sched_inv_def jobs_graph_def tasks_ok_def)
  from start_loop_inv [OF ok this]
  have "loop_inv ops [] (fold (start_one ops parse) (sc_tasks ?s1) ?s1)" .
  then show ?thesis using False by (simp add: Start_def Let_def loop_inv_def sched_inv_def tasks_ok_def)
qed

section \<open>Reachable schedulers\<close>

text \<open>
  The life of a scheduler: tasks are registered once each, the scheduler is started, tasks are
  switched on and off, and runs are recorded.
\<close>

inductive sched_step :: "'g gocron \<Rightarrow> (string \<Rightarrow> int option) \<Rightarrow> 'g Scheduler \<Rightarrow> 'g Scheduler \<Rightarrow> bool"
  for ops :: "'g gocron" and parse :: "string \<Rightarrow> int option" where
  step_add: "map_of (sc_tasks s) (tk_ID t) = None \<Longrightarrow> sched_step ops parse s (snd (AddTask ops parse t s))"
| step_start: "sched_step ops parse s (snd (snd (Start ops parse now s)))"
| step_enable: "sched_step ops parse s (snd (EnableTask ops parse i s))"
| step_disable: "sched_step ops parse s (snd (DisableTask ops i s))"
| step_run: "sched_step ops parse s (fst (runTask t0 t1 i res s))"

definition sched_init :: "'g gocron \<Rightarrow> 'g Scheduler \<Rightarrow> bool" where
  "sched_init ops s \<longleftrightarrow> (\<exists>g db w. go_live ops g = {} \<and> s = NewScheduler g db w)"

lemma sched_step_inv: "sched_step ops parse s s' \<Longrightarrow> gocron_ok ops \<Longrightarrow> sched_inv ops s \<Longrightarrow> sched_inv ops s'"
proof (induction rule: sched_step.induct)
  case (step_run s t0 t1 i res)
  then show ?case by (simp add: runTask_def Let_def sched_inv_def tasks_ok_def)
qed (auto intro: AddTask_inv Start_inv EnableTask_inv DisableTask_inv)


text \<open>An engine that keeps its jobs in a list, for concrete runs.\<close>

definition list_engine :: "(nat \<times> string) list gocron" where
  "list_engine = \<lparr>go_NewJob = \<lambda>g d t. (let j = Suc (fold max (map fst g) 0) in Some (j, (j, t) # g)),
     go_RemoveJob = \<lambda>g j. filter (\<lambda>x. fst x \<noteq> j) g, go_live = set\<rparr>"

lemma fold_max_ge: "x \<in> set xs \<or> x \<le> (a :: nat) \<Longrightarrow> x \<le> fold max xs a"
  by (induction xs arbitrary: a) (auto simp: le_max_iff_disj)

lemma list_engine_ok: "gocron_ok list_engine"
proof -
  have "Suc (fold max (map fst g) 0) \<notin> fst ` set g" for g :: "(nat \<times> string) list"
    using fold_max_ge [of "Suc (fold max (map fst g) 0)" "map fst g" 0] by force
  then show ?thesis by (auto simp: gocron_ok_def list_engine_def Let_def)
qed

definition sample_task :: "string \<Rightarrow> bool \<Rightarrow> Task" where
  "sample_task i en = \<lparr>tk_ID = i, tk_Name = i, tk_Schedule = ''@daily'', tk_HasFn = True, tk_Enabled = en\<rparr>"

definition started :: "(nat \<times> string) list Scheduler" where
  "started = snd (snd (Start list_engine (\<lambda>_. None) 0
     (snd (AddTask list_engine (\<lambda>_. None) (sample_task ''t'' True) (NewScheduler [] None 0)))))"

lemma started_reachable: "reachable (sched_init list_engine) (sched_step list_engine (\<lambda>_. None)) started"
proof -
  have "sched_init list_engine (NewScheduler [] None 0)"
    unfolding sched_init_def by (intro exI [of _ "[]"] exI) (simp add: list_engine_def)
  moreover have "map_of (sc_tasks (NewScheduler [] None 0)) (tk_ID (sample_task ''t'' True)) = None"
    by (simp add: NewScheduler_def)
  ultimately show ?thesis unfolding started_def by (blast intro: reach_init reach_step step_add step_start)
qed


text \<open>Registering an id again while the scheduler runs leaves the first job in place beside the second.\<close>

lemma add_again_doubles_job:
  "go_live list_engine (sc_sched (snd (AddTask list_engine (\<lambda>_. None) (sample_task ''t'' True) started))) =
     {(1, ''t''), (2, ''t'')}"
  by (auto simp: started_def list_engine_def Start_def AddTask_def NewScheduler_def sample_task_def loadTaskStates_def
        start_one_def scheduleTask_def jobDefinition_def Let_def)

text \<open>
  A task switched off in the tables is on again after the next start: registering it writes the
  configured value over the stored one before the stored one is read.
\<close>

lemma stored_disable_lost:
  assumes "db_tasks db = [(new_row (sample_task ''t'' True))\<lparr>tr_enabled := False\<rparr>]"
  shows "\<exists>t. map_of (sc_tasks (loadTaskStates (snd (AddTask ops parse (sample_task ''t'' True) (NewScheduler g (Some db) w)))))
     ''t'' = Some t \<and> tk_Enabled t"
  using assms by (simp add: AddTask_def NewScheduler_def saveTaskState_def map_row_def loadTaskStates_def load_row_def
      sample_task_def new_row_def)

text \<open>
  Every enabled task whose last run is older than the catch-up window is started at once, also one
  that was not due: a weekly task that ran two hours ago runs again at each restart.
\<close>

lemma catch_up_ignores_schedule:
  assumes "sc_db s = Some db" "r \<in> set (db_tasks db)" "tr_enabled r" "tr_last_run r = Some (now - 7200)"
    and "sc_CatchUpWindow s = 3600" "map_of (sc_tasks s) (tr_id r) \<noteq> None"
  shows "tr_id r \<in> set (checkMissedTasks now s)"
  using assms by (auto simp: checkMissedTasks_def)

section \<open>Run records\<close>

record run_event =
  re_start :: int
  re_end :: int
  re_task :: string
  re_result :: run_result

definition run_fold :: "run_event list \<Rightarrow> 'g Scheduler \<Rightarrow> 'g Scheduler" where
  "run_fold es s = fold (\<lambda>e s. fst (runTask (re_start e) (re_end e) (re_task e) (re_result e) s)) es s"

definition row_after :: "run_event list \<Rightarrow> task_row \<Rightarrow> task_row \<Rightarrow> bool" where
  "row_after es r r' \<longleftrightarrow>
     (let mine = filter (\<lambda>e. re_task e = tr_id r) es in
      tr_id r' = tr_id r \<and> tr_enabled r' = tr_enabled r \<and>
      tr_run_count r' = tr_run_count r + length (filter (\<lambda>e. re_result e = RunOk) mine) \<and>
      tr_fail_count r' = tr_fail_count r + length (filter (\<lambda>e. re_result e \<noteq> RunOk) mine) \<and>
      tr_last_run r' = (if mine = [] then tr_last_run r else Some (re_end (last mine))))"

lemma runTask_row:
  assumes "sc_db s = Some db"
    and "sc_db (fst (runTask (re_start e) (re_end e) (re_task e) (re_result e) s)) = Some db'"
  shows "list_all2 (row_after [e]) (db_tasks db) (db_tasks db')"
proof -
  define i t1 res where "i = re_task e" and "t1 = re_end e" and "res = re_result e"
  have "db_tasks db' = map (\<lambda>r. if tr_id r = i then
      (if res = RunOk then r\<lparr>tr_last_run := Some t1, tr_last_status := Some TaskStatusSuccess, tr_last_error := None,
              tr_run_count := tr_run_count r + 1\<rparr>
       else r\<lparr>tr_last_run := Some t1, tr_last_status := Some TaskStatusFailed,
              tr_last_error := Some (case res of RunOk \<Rightarrow> [] | RunError e \<Rightarrow> e | RunPanic p \<Rightarrow> ''panic: '' @ p),
              tr_fail_count := tr_fail_count r + 1\<rparr>) else r) (db_tasks db)"
    using assms unfolding i_def [symmetric] t1_def [symmetric] res_def [symmetric]
    by (cases res) (auto simp: runTask_def Let_def appendHistory_def updateTaskRun_def map_row_def)
  then show ?thesis by (auto simp: list_all2_conv_all_nth row_after_def i_def t1_def res_def)
qed

lemma row_after_trans:
  "row_after es r r' \<Longrightarrow> row_after fs r' r'' \<Longrightarrow> row_after (es @ fs) r r''"
  by (auto simp: row_after_def Let_def last_append split: if_splits)

text \<open>
  Run records add up: over any sequence of runs, including ones that fail or panic, the row of
  each task counts exactly its successful and its failed runs and remembers the end of its last
  one, no other row changes, one history entry per run is appended with its task and status, and
  a run calls the failure hook exactly when it did not succeed.
\<close>

theorem run_records_exact:
  assumes "sc_db s = Some db"
  shows "\<exists>db'. sc_db (run_fold es s) = Some db' \<and>
     list_all2 (row_after es) (db_tasks db) (db_tasks db') \<and>
     (\<exists>h. db_history db' = db_history db @ h \<and>
        map (\<lambda>r. (hr_task_id r, hr_status r = TaskStatusSuccess)) h = map (\<lambda>e. (re_task e, re_result e = RunOk)) es) \<and>
     (\<forall>t0 t1 i res. snd (runTask t0 t1 i res s) = (res \<noteq> RunOk))"
proof -
  have hook: "snd (runTask t0 t1 i res s) = (res \<noteq> RunOk)" for t0 t1 i res
    by (cases res) (simp_all add: runTask_def Let_def)
  have "\<exists>db'. sc_db (run_fold es s) = Some db' \<and> list_all2 (row_after es) (db_tasks db) (db_tasks db') \<and>
     (\<exists>h. db_history db' = db_history db @ h \<and>
        map (\<lambda>r. (hr_task_id r, hr_status r = TaskStatusSuccess)) h = map (\<lambda>e. (re_task e, re_result e = RunOk)) es)"
  proof (induction es rule: rev_induct)
    case Nil
    then show ?case using assms by (auto simp: run_fold_def row_after_def list_all2_same)
  next
    case (snoc e es)
    then obtain d h where d: "sc_db (run_fold es s) = Some d" "list_all2 (row_after es) (db_tasks db) (db_tasks d)"
        "db_history d = db_history db @ h"
        "map (\<lambda>r. (hr_task_id r, hr_status r = TaskStatusSuccess)) h = map (\<lambda>e. (re_task e, re_result e = RunOk)) es"
      by blast
    let ?s' = "fst (runTask (re_start e) (re_end e) (re_task e) (re_result e) (run_fold es s))"
    obtain d' where d': "sc_db ?s' = Some d'" using d(1) by (simp add: runTask_def Let_def)
    have "list_all2 (row_after [e]) (db_tasks d) (db_tasks d')" using runTask_row [OF d(1) d'] .
    with d(2) have "list_all2 (row_after (es @ [e])) (db_tasks db) (db_tasks d')"
      by (rule list_all2_trans [rotated]) (rule row_after_trans)
    moreover have "\<exists>x. db_history d' = db_history d @ [x] \<and> hr_task_id x = re_task e \<and>
        (hr_status x = TaskStatusSuccess) = (re_result e = RunOk)"
      using d' d(1) by (cases "re_result e") (auto simp: runTask_def Let_def appendHistory_def updateTaskRun_def map_row_def)
    ultimately show ?case using d' d(3,4) by (force simp: run_fold_def)
  qed
  with hook show ?thesis by blast
qed

theorem run_records_exact_witness:
  "\<exists>db'. sc_db (run_fold [\<lparr>re_start = 1, re_end = 2, re_task = ''t'', re_result = RunPanic ''x''\<rparr>]
       (NewScheduler () (Some \<lparr>db_tasks = [new_row (sample_task ''t'' True)], db_history = []\<rparr>) 0)) = Some db' \<and>
     map tr_fail_count (db_tasks db') = [1] \<and> length (db_history db') = 1"
  using run_records_exact [of "NewScheduler () (Some \<lparr>db_tasks = [new_row (sample_task ''t'' True)], db_history = []\<rparr>) 0" _
      "[\<lparr>re_start = 1, re_end = 2, re_task = ''t'', re_result = RunPanic ''x''\<rparr>]"]
  by (fastforce simp: NewScheduler_def new_row_def sample_task_def row_after_def list_all2_Cons1 Let_def)

end
