(* ===== verification/Numerals.thy ===== *)
theory Numerals
  imports GoStrings "HOL-Library.List_Lexorder"
begin

text \<open>
  Positional notation with a fixed number of digits, most significant first: reading it back,
  its bounds, and that byte order on such numerals is the order of the numbers. The encoder of
  audit identifiers and the formatter of time stamps both rest on it.
\<close>

section \<open>Digits in a base\<close>

fun to_base :: "nat \<Rightarrow> nat \<Rightarrow> nat \<Rightarrow> nat list" where
  "to_base b 0 n = []"
| "to_base b (Suc k) n = to_base b k (n div b) @ [n mod b]"

definition of_base :: "nat \<Rightarrow> nat list \<Rightarrow> nat" where
  "of_base b ds = foldl (\<lambda>acc d. acc * b + d) 0 ds"

lemma length_to_base [simp]: "length (to_base b k n) = k"
  by (induction k arbitrary: n) auto

lemma to_base_numeral [simp]:
  "to_base b (numeral k) n = to_base b (pred_numeral k) (n div b) @ [n mod b]"
  by (simp add: numeral_eq_Suc)

lemma of_base_snoc [simp]: "of_base b (ds @ [d]) = of_base b ds * b + d"
  by (simp add: of_base_def)

lemma of_base_Nil [simp]: "of_base b [] = 0"
  by (simp add: of_base_def)

lemma of_base_append: "of_base b (xs @ ys) = of_base b xs * b ^ length ys + of_base b ys"
  by (induction ys rule: rev_induct) (simp_all add: algebra_simps append_assoc [symmetric] del: append_assoc)

lemma to_base_of_base: "\<forall>d \<in> set ds. d < b \<Longrightarrow> to_base b (length ds) (of_base b ds) = ds"
  by (induction ds rule: rev_induct) auto

lemma of_base_to_base: "n < b ^ k \<Longrightarrow> of_base b (to_base b k n) = n"
  by (induction k arbitrary: n) (auto simp: less_mult_imp_div_less mult.commute)

lemma of_base_bound: "\<forall>d \<in> set ds. d < b \<Longrightarrow> of_base b ds < b ^ length ds"
proof (induction ds rule: rev_induct)
  case (snoc d ds)
  then have "Suc (of_base b ds) * b \<le> b ^ length ds * b" by (intro mult_le_mono1) auto
  with snoc.prems show ?case by (auto simp: mult.commute)
qed simp

lemma to_base_digits: "0 < b \<Longrightarrow> d \<in> set (to_base b k n) \<Longrightarrow> d < b"
  by (induction k arbitrary: n) auto


lemma of_base_to_base_mod: "of_base b (to_base b k n) = n mod b ^ k"
proof (induction k arbitrary: n)
  case (Suc k)
  have "n mod (b * b ^ k) = n div b mod b ^ k * b + n mod b" by (simp add: mod_mult2_eq mult.commute)
  then show ?case by (simp add: Suc)
qed simp

lemma to_base_less:
  assumes "0 < b" and mono: "\<And>i j. i < j \<Longrightarrow> j < b \<Longrightarrow> f i < f j"
  shows "m < n \<Longrightarrow> n < b ^ k \<Longrightarrow> map f (to_base b k m) < map f (to_base b k n)"
proof (induction k arbitrary: m n)
  case (Suc k)
  show ?case
  proof (cases "m div b = n div b")
    case True
    then have "m mod b < n mod b"
      using Suc.prems by (metis div_mult_mod_eq nat_add_left_cancel_less)
    then have "f (m mod b) < f (n mod b)" using mono \<open>0 < b\<close> by simp
    then show ?thesis by (simp add: True list_less_def lexord_append_leftI)
  next
    case False
    then have "m div b < n div b" using Suc.prems by (meson div_le_mono le_neq_implies_less less_imp_le)
    moreover have "n div b < b ^ k" using Suc.prems by (simp add: less_mult_imp_div_less mult.commute)
    ultimately have "map f (to_base b k (m div b)) < map f (to_base b k (n div b))" by (rule Suc.IH)
    then show ?thesis by (simp add: list_less_def lexord_sufI)
  qed
qed simp

section \<open>Zero-padded decimals\<close>

definition dchar :: "nat \<Rightarrow> char" where
  "dchar d = char_of (48 + d)"

definition padnat :: "nat \<Rightarrow> nat \<Rightarrow> string" where
  "padnat w n = (if n < 10 ^ w then map dchar (to_base 10 w n) else Itoa n)"

text \<open>A negative number keeps its sign in front of the padded absolute value.\<close>

definition appendInt :: "int \<Rightarrow> nat \<Rightarrow> string" where
  "appendInt x w = (if x < 0 then ''-'' @ padnat w (nat (- x)) else padnat w (nat x))"

lemma digit_val_dchar [simp]: "d < 10 \<Longrightarrow> digit_val (dchar d) = d"
  by (simp add: dchar_def)

lemma is_digit_dchar [simp]: "d < 10 \<Longrightarrow> is_digit (dchar d)"
  by (simp add: dchar_def)

lemma digits_val_dchars: "\<forall>d \<in> set ds. d < 10 \<Longrightarrow> digits_val 0 (map dchar ds) = of_base 10 ds"
  by (induction ds rule: rev_induct) (simp_all add: digits_val_append)

lemma digits_val_padnat [simp]: "digits_val 0 (padnat w n) = n"
  using to_base_digits [of 10 _ w n] by (auto simp: padnat_def digits_val_dchars of_base_to_base)

lemma padnat_inject [simp]: "padnat w m = padnat w n \<longleftrightarrow> m = n"
  using digits_val_padnat by metis

lemma length_padnat: "n < 10 ^ w \<Longrightarrow> length (padnat w n) = w"
  by (simp add: padnat_def)

lemma padnat_digits: "c \<in> set (padnat w n) \<Longrightarrow> is_digit c"
  using to_base_digits [of 10 _ w n] by (auto simp: padnat_def dest: Itoa_digits split: if_splits)

lemma padnat_no_sign: "padnat w m \<noteq> CHR ''-'' # s"
proof
  assume "padnat w m = CHR ''-'' # s"
  then have "is_digit CHR ''-''" using padnat_digits [of "CHR ''-''" w m] by simp
  then show False by (simp add: is_digit_def)
qed

lemma appendInt_inject [simp]: "appendInt x w = appendInt y w \<longleftrightarrow> x = y"
  using padnat_no_sign [of w "nat x"] padnat_no_sign [of w "nat y"]
  by (auto simp: appendInt_def eq_commute [of "CHR ''-'' # _"])

lemma dchar_mono: "i < j \<Longrightarrow> j < 10 \<Longrightarrow> dchar i < dchar j"
  by (simp add: dchar_def less_char_def)

lemma padnat_less: "m < n \<Longrightarrow> n < 10 ^ w \<Longrightarrow> padnat w m < padnat w n"
  by (simp add: padnat_def to_base_less dchar_mono)

text \<open>Byte order on strings made of pieces of equal length compares the first difference.\<close>

lemma less_append_first:
  fixes s t :: string
  assumes "s < t" "length s = length t"
  shows "s @ a < t @ b"
  using assms by (simp add: list_less_def lexord_sufI)

lemma less_append_same:
  fixes a b :: string
  assumes "a < b"
  shows "s @ a < s @ b"
  using assms by (simp add: list_less_def lexord_append_leftI)

end
