(* ===== verification/Ulid.thy ===== *)
theory Ulid
  imports Numerals
begin

text \<open>
  File \<open>log/ulid.go\<close>: identifiers of audit events. Sixteen bytes, six of the clock in
  milliseconds and ten random ones, are written as twenty-six Crockford base-32 digits by the
  unrolled bit operations of \<open>newULID\<close>. The clock and the random bytes are arguments.
\<close>

unbundle bit_operations_syntax

section \<open>The encoder\<close>

definition crockford :: string where
  "crockford = ''0123456789ABCDEFGHJKMNPQRSTVWXYZ''"

definition ulid_bytes :: "int \<Rightarrow> u8 list \<Rightarrow> u8 list" where
  "ulid_bytes unixMilli rnd =
     (let ms = (word_of_int unixMilli :: u64) in
      [ucast (drop_bit 40 ms), ucast (drop_bit 32 ms), ucast (drop_bit 24 ms),
       ucast (drop_bit 16 ms), ucast (drop_bit 8 ms), ucast ms] @ rnd)"

definition digit_at :: "u8 \<Rightarrow> char" where
  "digit_at d = crockford ! unat d"

definition newULID :: "int \<Rightarrow> u8 list \<Rightarrow> string" where
  "newULID unixMilli rnd =
     (let b = ulid_bytes unixMilli rnd in map digit_at
      [drop_bit 5 (b ! 0 AND 224),
       b ! 0 AND 31,
       drop_bit 3 (b ! 1 AND 248),
       push_bit 2 (b ! 1 AND 7) OR drop_bit 6 (b ! 2 AND 192),
       drop_bit 1 (b ! 2 AND 62),
       push_bit 4 (b ! 2 AND 1) OR drop_bit 4 (b ! 3 AND 240),
       push_bit 1 (b ! 3 AND 15) OR drop_bit 7 (b ! 4 AND 128),
       drop_bit 2 (b ! 4 AND 124),
       push_bit 3 (b ! 4 AND 3) OR drop_bit 5 (b ! 5 AND 224),
       b ! 5 AND 31,
       drop_bit 3 (b ! 6 AND 248),
       push_bit 2 (b ! 6 AND 7) OR drop_bit 6 (b ! 7 AND 192),
       drop_bit 1 (b ! 7 AND 62),
       push_bit 4 (b ! 7 AND 1) OR drop_bit 4 (b ! 8 AND 240),
       push_bit 1 (b ! 8 AND 15) OR drop_bit 7 (b ! 9 AND 128),
       drop_bit 2 (b ! 9 AND 124),
       push_bit 3 (b ! 9 AND 3) OR drop_bit 5 (b ! 10 AND 224),
       b ! 10 AND 31,
       drop_bit 3 (b ! 11 AND 248),
       push_bit 2 (b ! 11 AND 7) OR drop_bit 6 (b ! 12 AND 192),
       drop_bit 1 (b ! 12 AND 62),
       push_bit 4 (b ! 12 AND 1) OR drop_bit 4 (b ! 13 AND 240),
       push_bit 1 (b ! 13 AND 15) OR drop_bit 7 (b ! 14 AND 128),
       drop_bit 2 (b ! 14 AND 124),
       push_bit 3 (b ! 14 AND 3) OR drop_bit 5 (b ! 15 AND 224),
       b ! 15 AND 31])"

definition NewAuditID :: "int \<Rightarrow> u8 list \<Rightarrow> string" where
  "NewAuditID unixMilli rnd = ''audit_'' @ newULID unixMilli rnd"

section \<open>Numbers and digits\<close>

text \<open>
  The reference for the encoder: the number the sixteen bytes spell, to be written in base 32.
\<close>

definition random_number :: "u8 list \<Rightarrow> nat" where
  "random_number rnd = of_base 256 (map unat rnd)"

definition ulid_number :: "int \<Rightarrow> u8 list \<Rightarrow> nat" where
  "ulid_number unixMilli rnd = nat (unixMilli mod 2 ^ 48) * 2 ^ 80 + random_number rnd"

section \<open>From bit operations to arithmetic\<close>

lemma field_nat:
  fixes b :: u8
  assumes "drop_bit k m = mask j"
  shows "unat (drop_bit k (b AND m)) = unat b div 2 ^ k mod 2 ^ j"
proof -
  have *: "drop_bit k (b AND m) = take_bit j (drop_bit k b)"
    using assms by (simp add: drop_bit_and take_bit_eq_mask)
  have "unat b mod 256 = unat b" using unsigned_less [of b, where 'a=nat] by simp
  then show ?thesis
    unfolding * by (simp only: unsigned_take_bit_eq unsigned_drop_bit_eq) (simp add: drop_bit_eq_div take_bit_eq_mod unsigned_take_bit_eq)
qed

lemma low_nat:
  fixes b :: u8
  assumes "m = mask j"
  shows "unat (b AND m) = unat b mod 2 ^ j"
  using field_nat [of 0 m j b] assms by simp

lemma or_nat:
  fixes y :: nat
  assumes "y < 2 ^ k"
  shows "x * 2 ^ k OR y = x * 2 ^ k + y"
proof -
  have "y = take_bit k y" using assms by (simp add: take_bit_nat_eq_self)
  then have "x * 2 ^ k + y = push_bit k x + take_bit k y" by (simp add: push_bit_eq_mult)
  also have "\<dots> = push_bit k x OR take_bit k y" by (rule disjunctive_add) (auto simp: bit_simps)
  finally show ?thesis using \<open>y = take_bit k y\<close> by (simp add: push_bit_eq_mult)
qed

lemma join_nat:
  fixes x y :: u8
  assumes "unat x < 2 ^ j" "unat y < 2 ^ k" "j + k \<le> 8"
  shows "unat (push_bit k x OR y) = unat x * 2 ^ k + unat y"
proof -
  have "unat x * 2 ^ k < 2 ^ j * 2 ^ k" using assms by simp
  also have "\<dots> \<le> 2 ^ 8" unfolding power_add [symmetric] by (rule power_increasing) (use assms in auto)
  finally have "take_bit 8 (push_bit k (unat x)) = unat x * 2 ^ k"
    by (simp add: push_bit_eq_mult take_bit_eq_mod)
  then have "unat (push_bit k x) = unat x * 2 ^ k"
    by (simp only: unsigned_push_bit_eq) simp
  with assms show ?thesis by (simp only: unsigned_or_eq or_nat)
qed

lemma fields:
  fixes b :: u8
  shows
  "unat (drop_bit 5 (b AND 224)) = unat b div 2 ^ 5 mod 2 ^ 3"
  "unat (drop_bit 1 (b AND 62)) = unat b div 2 ^ 1 mod 2 ^ 5"
  "unat (drop_bit 2 (b AND 124)) = unat b div 2 ^ 2 mod 2 ^ 5"
  "unat (drop_bit 3 (b AND 248)) = unat b div 2 ^ 3 mod 2 ^ 5"
  "unat (drop_bit 4 (b AND 240)) = unat b div 2 ^ 4 mod 2 ^ 4"
  "unat (drop_bit 6 (b AND 192)) = unat b div 2 ^ 6 mod 2 ^ 2"
  "unat (drop_bit 7 (b AND 128)) = unat b div 2 ^ 7 mod 2 ^ 1"
  by (rule field_nat; simp add: mask_eq_exp_minus_1)+

lemma lows:
  fixes b :: u8
  shows
  "unat (b AND 31) = unat b mod 2 ^ 5"
  "unat (b AND 15) = unat b mod 2 ^ 4"
  "unat (b AND 7) = unat b mod 2 ^ 3"
  "unat (b AND 3) = unat b mod 2 ^ 2"
  "unat (b AND 1) = unat b mod 2 ^ 1"
  by (rule low_nat; simp add: mask_eq_exp_minus_1)+

lemma pow_mod_less: "x mod 2 ^ k < (2 ^ k :: nat) \<longleftrightarrow> True"
  by simp

lemma joins:
  fixes b c :: u8
  shows
  "unat (push_bit 2 (b AND 7) OR drop_bit 6 (c AND 192)) = unat b mod 2 ^ 3 * 2 ^ 2 + unat c div 2 ^ 6 mod 2 ^ 2"
  "unat (push_bit 4 (b AND 1) OR drop_bit 4 (c AND 240)) = unat b mod 2 ^ 1 * 2 ^ 4 + unat c div 2 ^ 4 mod 2 ^ 4"
  "unat (push_bit 1 (b AND 15) OR drop_bit 7 (c AND 128)) = unat b mod 2 ^ 4 * 2 ^ 1 + unat c div 2 ^ 7 mod 2 ^ 1"
  "unat (push_bit 3 (b AND 3) OR drop_bit 5 (c AND 224)) = unat b mod 2 ^ 2 * 2 ^ 3 + unat c div 2 ^ 5 mod 2 ^ 3"
  using join_nat [of "b AND 7" 3 "drop_bit 6 (c AND 192)" 2] join_nat [of "b AND 1" 1 "drop_bit 4 (c AND 240)" 4]
   join_nat [of "b AND 15" 4 "drop_bit 7 (c AND 128)" 1] join_nat [of "b AND 3" 2 "drop_bit 5 (c AND 224)" 3]
  unfolding fields lows by (simp_all only: pow_mod_less)


lemma split3:
  fixes n :: nat
  shows "n = n div (q * p) * (q * p) + n div p mod q * p + n mod p"
proof -
  have "n = n div p * p + n mod p" by simp
  also have "n div p = n div p div q * q + n div p mod q" by simp
  also have "n div p div q = n div (q * p)" by (simp add: div_mult2_eq [symmetric] mult.commute)
  finally show ?thesis by (simp add: algebra_simps)
qed

lemma group_digits:
  "of_base 32 [b1, b0 * 4 + c2, c1, c0 * 16 + d1, d0 * 2 + e2, e1, e0 * 8 + f1, f0]
   = of_base 256 [b1 * 8 + b0, c2 * 64 + c1 * 2 + c0, d1 * 16 + d0, e2 * 128 + e1 * 4 + e0, f1 * 32 + f0]"
  unfolding of_base_def foldl.simps by (simp add: algebra_simps)

lemma group_number:
  "of_base 32 [b div 8, b mod 8 * 4 + c div 64, c div 2 mod 32, c mod 2 * 16 + d div 16,
     d mod 16 * 2 + e div 128, e div 4 mod 32, e mod 4 * 8 + f div 32, f mod 32] = of_base 256 [b, c, d, e, f]"
  using split3 [of c 32 2] split3 [of e 32 4] unfolding group_digits by simp

definition ulid_digits :: "nat list \<Rightarrow> nat list" where
  "ulid_digits b =
     [b ! 0 div 32, b ! 0 mod 32,
      b ! 1 div 8, b ! 1 mod 8 * 4 + b ! 2 div 64, b ! 2 div 2 mod 32, b ! 2 mod 2 * 16 + b ! 3 div 16,
      b ! 3 mod 16 * 2 + b ! 4 div 128, b ! 4 div 4 mod 32, b ! 4 mod 4 * 8 + b ! 5 div 32, b ! 5 mod 32,
      b ! 6 div 8, b ! 6 mod 8 * 4 + b ! 7 div 64, b ! 7 div 2 mod 32, b ! 7 mod 2 * 16 + b ! 8 div 16,
      b ! 8 mod 16 * 2 + b ! 9 div 128, b ! 9 div 4 mod 32, b ! 9 mod 4 * 8 + b ! 10 div 32, b ! 10 mod 32,
      b ! 11 div 8, b ! 11 mod 8 * 4 + b ! 12 div 64, b ! 12 div 2 mod 32, b ! 12 mod 2 * 16 + b ! 13 div 16,
      b ! 13 mod 16 * 2 + b ! 14 div 128, b ! 14 div 4 mod 32, b ! 14 mod 4 * 8 + b ! 15 div 32, b ! 15 mod 32]"

lemma byte_fields:
  fixes b :: u8
  shows "unat b div 2 ^ 5 mod 2 ^ 3 = unat b div 32" "unat b div 2 ^ 3 mod 2 ^ 5 = unat b div 8"
    "unat b div 2 ^ 4 mod 2 ^ 4 = unat b div 16" "unat b div 2 ^ 6 mod 2 ^ 2 = unat b div 64"
    "unat b div 2 ^ 7 mod 2 ^ 1 = unat b div 128"
  using unsigned_less [of b, where 'a = nat] by (simp_all add: less_mult_imp_div_less)

lemma newULID_digits:
  assumes "length rnd = 10"
  shows "newULID ms rnd = map ((!) crockford) (ulid_digits (map unat (ulid_bytes ms rnd)))"
proof -
  have "length (ulid_bytes ms rnd) = 16" using assms by (simp add: ulid_bytes_def Let_def)
  then show ?thesis
    unfolding newULID_def Let_def digit_at_def ulid_digits_def
    by (simp only: fields lows joins byte_fields list.map nth_map) simp
qed

lemma list16:
  assumes "length (b :: 'a list) = 16"
  shows "b = [b ! 0] @ [b ! 1, b ! 2, b ! 3, b ! 4, b ! 5] @ [b ! 6, b ! 7, b ! 8, b ! 9, b ! 10] @ [b ! 11, b ! 12, b ! 13, b ! 14, b ! 15]"
  by (rule nth_equalityI) (use assms in \<open>auto simp: nth_Cons' less_Suc_eq eval_nat_numeral\<close>)

lemma ulid_digits_number:
  assumes "length b = 16"
  shows "of_base 32 (ulid_digits b) = of_base 256 b"
proof -
  have "ulid_digits b = [b ! 0 div 32, b ! 0 mod 32] @ [b ! 1 div 8, b ! 1 mod 8 * 4 + b ! 2 div 64, b ! 2 div 2 mod 32, b ! 2 mod 2 * 16 + b ! 3 div 16,
      b ! 3 mod 16 * 2 + b ! 4 div 128, b ! 4 div 4 mod 32, b ! 4 mod 4 * 8 + b ! 5 div 32, b ! 5 mod 32] @
      [b ! 6 div 8, b ! 6 mod 8 * 4 + b ! 7 div 64, b ! 7 div 2 mod 32, b ! 7 mod 2 * 16 + b ! 8 div 16,
      b ! 8 mod 16 * 2 + b ! 9 div 128, b ! 9 div 4 mod 32, b ! 9 mod 4 * 8 + b ! 10 div 32, b ! 10 mod 32] @
      [b ! 11 div 8, b ! 11 mod 8 * 4 + b ! 12 div 64, b ! 12 div 2 mod 32, b ! 12 mod 2 * 16 + b ! 13 div 16,
      b ! 13 mod 16 * 2 + b ! 14 div 128, b ! 14 div 4 mod 32, b ! 14 mod 4 * 8 + b ! 15 div 32, b ! 15 mod 32]"
    by (simp add: ulid_digits_def)
  moreover have "of_base 32 [b ! 0 div 32, b ! 0 mod 32] = of_base 256 [b ! 0]" by (simp add: of_base_def)
  ultimately have "of_base 32 (ulid_digits b) = of_base 256 ([b ! 0] @ [b ! 1, b ! 2, b ! 3, b ! 4, b ! 5] @
      [b ! 6, b ! 7, b ! 8, b ! 9, b ! 10] @ [b ! 11, b ! 12, b ! 13, b ! 14, b ! 15])"
    by (simp only: of_base_append group_number) simp
  then show ?thesis using list16 [OF assms] by simp
qed

lemma ulid_digits_small: "\<forall>x \<in> set b. x < 256 \<Longrightarrow> length b = 16 \<Longrightarrow> \<forall>d \<in> set (ulid_digits b). d < 32"
proof -
  assume "\<forall>x \<in> set b. x < 256" "length b = 16"
  then have "b ! i < 256" if "i < 16" for i using that by simp
  then have q: "b ! i div 32 < 32" "b ! i div 8 < 32" "b ! i div 64 < 4" "b ! i div 16 < 16" "b ! i div 128 < 2" "b ! i div 32 < 8"
    if "i < 16" for i
    using that [THEN \<open>\<And>i. i < 16 \<Longrightarrow> b ! i < 256\<close>] by (simp_all add: less_mult_imp_div_less)
  have f: "x mod m * k + y < 32" if "y < k" "m * k = 32" "0 < m" for x y m k :: nat
  proof -
    have "Suc (x mod m) * k \<le> m * k" using that(3) by (intro mult_le_mono1) (simp add: Suc_leI)
    with that show ?thesis by simp
  qed
  show ?thesis
    unfolding ulid_digits_def by (simp add: q f [of _ 4 8] f [of _ 16 2] f [of _ 2 16] f [of _ 8 4])
qed


lemma length_ulid_digits [simp]: "length (ulid_digits b) = 26"
  by (simp add: ulid_digits_def)

lemma clock_byte: "unat (ucast (drop_bit k w) :: u8) = unat (w :: u64) div 2 ^ k mod 256"
proof -
  have "unat w mod 2 ^ 64 = unat w" using unsigned_less [of w, where 'a = nat] by simp
  then have "unat (drop_bit k w) = unat w div 2 ^ k"
    by (simp only: unsigned_drop_bit_eq) (simp add: drop_bit_eq_div take_bit_eq_mod)
  then show ?thesis
    by (simp only: unsigned_ucast_eq) (simp add: take_bit_eq_mod)
qed

lemma to_base_six: "to_base 256 6 n = [n div 2 ^ 40 mod 256, n div 2 ^ 32 mod 256, n div 2 ^ 24 mod 256, n div 2 ^ 16 mod 256, n div 2 ^ 8 mod 256, n mod 256]"
proof -
  have "to_base 256 (Suc (Suc (Suc (Suc (Suc (Suc 0)))))) n = [n div 2 ^ 40 mod 256, n div 2 ^ 32 mod 256, n div 2 ^ 24 mod 256, n div 2 ^ 16 mod 256, n div 2 ^ 8 mod 256, n mod 256]"
    unfolding to_base.simps div_mult2_eq [symmetric] by simp
  then show ?thesis by (simp only: numeral_nat)
qed

lemma clock_bytes:
  "of_base 256 (map unat (take 6 (ulid_bytes ms rnd))) = nat (ms mod 2 ^ 48)"
proof -
  let ?n = "nat (ms mod 2 ^ 64)" and ?w = "word_of_int ms :: u64"
  have n: "unat ?w = ?n"
    by (simp only: unsigned_of_int) (simp add: take_bit_eq_mod)
  have last: "unat (ucast ?w :: u8) = ?n mod 256" using clock_byte [of 0 ?w] n by simp
  have "take 6 (ulid_bytes ms rnd) = [ucast (drop_bit 40 ?w), ucast (drop_bit 32 ?w), ucast (drop_bit 24 ?w), ucast (drop_bit 16 ?w), ucast (drop_bit 8 ?w), ucast ?w]"
    by (simp add: ulid_bytes_def Let_def)
  then have "map unat (take 6 (ulid_bytes ms rnd)) = to_base 256 6 ?n"
    by (simp only: list.map clock_byte last n to_base_six)
  then have "of_base 256 (map unat (take 6 (ulid_bytes ms rnd))) = ?n mod 256 ^ 6" by (simp only: of_base_to_base_mod)
  also have "\<dots> = nat (ms mod 2 ^ 64 mod 2 ^ 48)" by (simp add: nat_mod_distrib)
  also have "ms mod 2 ^ 64 mod 2 ^ 48 = ms mod 2 ^ 48" by (rule mod_mod_cancel) simp
  finally show ?thesis .
qed

lemma bytes_number:
  assumes "length rnd = 10"
  shows "of_base 256 (map unat (ulid_bytes ms rnd)) = ulid_number ms rnd"
proof -
  have "ulid_bytes ms rnd = take 6 (ulid_bytes ms rnd) @ rnd" by (simp add: ulid_bytes_def Let_def)
  then have "of_base 256 (map unat (ulid_bytes ms rnd))
      = of_base 256 (map unat (take 6 (ulid_bytes ms rnd))) * 256 ^ 10 + random_number rnd"
    using assms by (metis length_map map_append of_base_append random_number_def)
  then show ?thesis by (simp add: clock_bytes ulid_number_def)
qed

text \<open>
  The bit operations compute base 32: for any clock and any ten random bytes an audit
  identifier is the twenty-six digit base-32 numeral of the 128-bit number made of the low
  forty-eight bits of the clock followed by the random bytes.
\<close>

lemma newULID_base32:
  assumes "length rnd = 10"
  shows "newULID ms rnd = map ((!) crockford) (to_base 32 26 (ulid_number ms rnd))"
proof -
  let ?b = "map unat (ulid_bytes ms rnd)"
  have len: "length ?b = 16" using assms by (simp add: ulid_bytes_def Let_def)
  have "\<forall>x \<in> set ?b. x < 256" using unsigned_less [where 'a = nat and 'b = 8] by auto
  then have "to_base 32 (length (ulid_digits ?b)) (of_base 32 (ulid_digits ?b)) = ulid_digits ?b"
    by (intro to_base_of_base ulid_digits_small len)
  then have "ulid_digits ?b = to_base 32 26 (ulid_number ms rnd)"
    by (simp only: ulid_digits_number [OF len] bytes_number [OF assms] length_ulid_digits)
  then show ?thesis using newULID_digits [OF assms] by (simp del: to_base_numeral)
qed

section \<open>Decoding and order\<close>

lemma length_crockford: "length crockford = 32"
  by (simp add: crockford_def)

lemma crockford_sorted: "sorted_wrt (<) crockford"
  by (simp add: crockford_def less_char_def)

lemma crockford_mono: "i < j \<Longrightarrow> j < 32 \<Longrightarrow> crockford ! i < crockford ! j"
  using sorted_wrt_nth_less [OF crockford_sorted] by (simp add: length_crockford)

definition crockford_value :: "char \<Rightarrow> nat" where
  "crockford_value c = (case IndexByte crockford c of Some i \<Rightarrow> i | None \<Rightarrow> 0)"

lemma crockford_value_nth: "d < 32 \<Longrightarrow> crockford_value (crockford ! d) = d"
proof -
  assume d: "d < 32"
  then have "crockford ! d \<noteq> crockford ! i" if "i < d" for i using crockford_mono [OF that d] by auto
  then have "IndexByte crockford (crockford ! d) = Some d"
    using d by (auto simp: IndexByte_Some length_crockford in_set_conv_nth dest: sym)
  then show ?thesis by (simp add: crockford_value_def)
qed

definition decode_ulid :: "string \<Rightarrow> nat \<times> nat" where
  "decode_ulid s = (let n = of_base 32 (map crockford_value s) in (n div 2 ^ 80, n mod 2 ^ 80))"

lemma random_bound: "length rnd = 10 \<Longrightarrow> random_number rnd < 2 ^ 80"
  using of_base_bound [of "map unat rnd" 256] unsigned_less [where 'a = nat and 'b = 8] by (auto simp: random_number_def)

lemma number_bound: "length rnd = 10 \<Longrightarrow> ulid_number ms rnd < 2 ^ 128"
proof -
  assume "length rnd = 10"
  then have "random_number rnd < 2 ^ 80" by (rule random_bound)
  moreover have "nat (ms mod 2 ^ 48) < 2 ^ 48" by (simp add: nat_less_iff)
  then have "Suc (nat (ms mod 2 ^ 48)) * 2 ^ 80 \<le> 2 ^ 48 * 2 ^ 80" by (intro mult_le_mono1 Suc_leI)
  ultimately show ?thesis by (simp add: ulid_number_def)
qed

text \<open>
  An identifier keeps what it was made of: decoding it gives back the clock (to forty-eight
  bits) and the random bytes, so two identifiers are equal only if both agree.
\<close>

theorem ulid_roundtrip:
  assumes "length rnd = 10"
  shows "decode_ulid (newULID ms rnd) = (nat (ms mod 2 ^ 48), random_number rnd)"
proof -
  have "map crockford_value (newULID ms rnd) = to_base 32 26 (ulid_number ms rnd)"
    using to_base_digits [of 32 _ 26 "ulid_number ms rnd"] by (auto simp: newULID_base32 [OF assms] crockford_value_nth simp del: to_base_numeral intro!: map_idI)
  then have "of_base 32 (map crockford_value (newULID ms rnd)) = ulid_number ms rnd"
    using number_bound [OF assms, of ms] by (simp add: of_base_to_base_mod del: to_base_numeral)
  then show ?thesis using random_bound [OF assms] by (simp add: decode_ulid_def Let_def ulid_number_def)
qed

text \<open>
  Identifiers sort by time: of two identifiers of different milliseconds, the byte order of
  Go strings puts the earlier one first, whatever the random bytes are.
\<close>

theorem ulid_sortable:
  assumes "0 \<le> t" "t < t'" "t' < 2 ^ 48" "length r = 10" "length r' = 10"
  shows "newULID t r < newULID t' r'"
proof -
  have "nat t < nat t'" using assms by simp
  then have "Suc (nat t) * 2 ^ 80 \<le> nat t' * 2 ^ 80" by (intro mult_le_mono1 Suc_leI)
  then have "ulid_number t r < ulid_number t' r'" using assms random_bound [of r] by (simp add: ulid_number_def)
  then show ?thesis unfolding newULID_base32 [OF assms(4)] newULID_base32 [OF assms(5)]
    using number_bound [OF assms(5), of t'] by (intro to_base_less) (auto intro: crockford_mono)
qed

section \<open>Witnesses\<close>

theorem ulid_roundtrip_witness:
  "decode_ulid (newULID 1469918176385 [0, 0, 0, 0, 0, 0, 0, 0, 1, 255]) = (1469918176385, 511)"
  using ulid_roundtrip [of "[0, 0, 0, 0, 0, 0, 0, 0, 1, 255]" 1469918176385]
  by (simp add: random_number_def of_base_def)

theorem ulid_sortable_witness:
  "newULID 1469918176385 [255, 255, 255, 255, 255, 255, 255, 255, 255, 255]
     < newULID 1469918176386 [0, 0, 0, 0, 0, 0, 0, 0, 0, 0]"
  using ulid_sortable [of 1469918176385 1469918176386 "[255, 255, 255, 255, 255, 255, 255, 255, 255, 255]"
      "[0, 0, 0, 0, 0, 0, 0, 0, 0, 0]"] by simp

lemma NewAuditID_sample:
  "NewAuditID 1469918176385 [0, 0, 0, 0, 0, 0, 0, 0, 0, 0] = ''audit_01ARYZ6S410000000000000000''"
  by (simp add: NewAuditID_def newULID_def ulid_bytes_def digit_at_def crockford_def)

end
