(* ===== verification/GoTime.thy ===== *)
theory GoTime
  imports Numerals
begin

text \<open>
  The part of Go's \<open>time\<close> package the program uses: a \<open>time.Time\<close> is an instant in nanoseconds
  since the Unix epoch and the offset of its zone in seconds; the calendar fields are those of
  the proleptic Gregorian calendar of the shifted instant.
\<close>

section \<open>Instants and calendar fields\<close>

record gtime =
  g_ns :: int
  g_off :: int

definition Unix :: "gtime \<Rightarrow> int" where
  "Unix t = g_ns t div 10 ^ 9"

definition After :: "gtime \<Rightarrow> gtime \<Rightarrow> bool" where
  "After t u \<longleftrightarrow> g_ns u < g_ns t"

definition Before :: "gtime \<Rightarrow> gtime \<Rightarrow> bool" where
  "Before t u \<longleftrightarrow> g_ns t < g_ns u"

definition Add :: "gtime \<Rightarrow> int \<Rightarrow> gtime" where
  "Add t d = t\<lparr>g_ns := g_ns t + d\<rparr>"

text \<open>Days are counted from 1 January 1970, seconds within a day from its midnight.\<close>

definition local_sec :: "gtime \<Rightarrow> int" where
  "local_sec t = Unix t + g_off t"

definition day_of :: "gtime \<Rightarrow> int" where
  "day_of t = local_sec t div 86400"

definition sec_of :: "gtime \<Rightarrow> int" where
  "sec_of t = local_sec t mod 86400"

definition year_start :: "int \<Rightarrow> int" where
  "year_start y = 365 * y + (y + 3) div 4 - (y + 99) div 100 + (y + 399) div 400 - 719528"

definition year_of :: "int \<Rightarrow> int" where
  "year_of d =
     (let y = 400 * (d + 719528) div 146097 in
      if d < year_start y then y - 1 else if year_start (y + 1) \<le> d then y + 1 else y)"

definition leap :: "int \<Rightarrow> bool" where
  "leap y \<longleftrightarrow> 4 dvd y \<and> (\<not> 100 dvd y \<or> 400 dvd y)"

definition month_starts :: "bool \<Rightarrow> int list" where
  "month_starts lp =
     (if lp then [0, 31, 60, 91, 121, 152, 182, 213, 244, 274, 305, 335]
      else [0, 31, 59, 90, 120, 151, 181, 212, 243, 273, 304, 334])"

definition yday0 :: "int \<Rightarrow> int" where
  "yday0 d = d - year_start (year_of d)"

definition month_index :: "int \<Rightarrow> nat" where
  "month_index d = length (filter (\<lambda>s. s \<le> yday0 d) (month_starts (leap (year_of d)))) - 1"

definition YearDay :: "gtime \<Rightarrow> int" where
  "YearDay t = yday0 (day_of t) + 1"

definition Year :: "gtime \<Rightarrow> int" where
  "Year t = year_of (day_of t)"

definition Month :: "gtime \<Rightarrow> int" where
  "Month t = int (month_index (day_of t)) + 1"

definition mday :: "int \<Rightarrow> int" where
  "mday d = yday0 d - month_starts (leap (year_of d)) ! month_index d + 1"

definition Day :: "gtime \<Rightarrow> int" where
  "Day t = mday (day_of t)"

text \<open>Sunday is 0.\<close>

definition weekday_of :: "int \<Rightarrow> int" where
  "weekday_of d = (d + 4) mod 7"

definition Weekday :: "gtime \<Rightarrow> int" where
  "Weekday t = weekday_of (day_of t)"

text \<open>The ISO week is that of the Thursday of the week that begins on Monday.\<close>

definition thursday :: "int \<Rightarrow> int" where
  "thursday d = (let k = 4 - weekday_of d in d + (if k = 4 then - 3 else k))"

definition ISOWeek :: "gtime \<Rightarrow> int \<times> int" where
  "ISOWeek t = (let th = thursday (day_of t) in (year_of th, yday0 th div 7 + 1))"

definition Hour :: "gtime \<Rightarrow> int" where
  "Hour t = sec_of t div 3600"

definition Minute_of :: "gtime \<Rightarrow> int" where
  "Minute_of t = sec_of t mod 3600 div 60"

definition Second_of :: "gtime \<Rightarrow> int" where
  "Second_of t = sec_of t mod 60"

section \<open>The year of a day\<close>

lemma ceil_div_step:
  fixes k :: int
  assumes "0 < k"
  shows "(y + k) div k = (y + (k - 1)) div k + of_bool (k dvd y)"
proof -
  have "(y + (k - 1)) div k = (y div k * k + (y mod k + (k - 1))) div k" by simp
  also have "\<dots> = y div k + (y mod k + (k - 1)) div k"
    using assms by (simp only: div_mult_self3)
  also have "(y mod k + (k - 1)) div k = of_bool (\<not> k dvd y)"
  proof (cases "y mod k = 0")
    case False
    have "0 \<le> y mod k" "y mod k < k" using assms by auto
    with False have "(y mod k + (k - 1)) div k = (y mod k - 1 + 1 * k) div k" by (simp add: algebra_simps)
    also have "\<dots> = (y mod k - 1) div k + 1" using assms by (simp only: div_mult_self1)
    also have "(y mod k - 1) div k = 0" using False \<open>0 \<le> y mod k\<close> \<open>y mod k < k\<close> by (intro div_pos_pos_trivial) auto
    finally show ?thesis using False by (simp add: dvd_eq_mod_eq_0)
  qed (use assms in \<open>auto simp: dvd_eq_mod_eq_0\<close>)
  finally show ?thesis using assms by (simp add: div_add_self2)
qed

lemma year_start_step: "year_start (y + 1) = year_start y + (if leap y then 366 else 365)"
proof -
  have "of_bool (4 dvd y) - of_bool (100 dvd y) + of_bool (400 dvd y) = (of_bool (leap y) :: int)"
    using dvd_trans [of 4 100 y] dvd_trans [of 100 400 y]
    by (cases "4 dvd y"; cases "100 dvd y"; cases "400 dvd y") (simp_all add: leap_def)
  then show ?thesis
    using ceil_div_step [of 4 y] ceil_div_step [of 100 y] ceil_div_step [of 400 y]
    unfolding year_start_def by (simp add: algebra_simps del: div_add_self1 div_add_self2)
qed

lemma year_start_mono: "y \<le> y' \<Longrightarrow> year_start y \<le> year_start y'"
proof (induction rule: int_ge_induct)
  case (step z)
  then show ?case by (simp add: year_start_step)
qed simp

lemma ceil_div_bounds:
  fixes k :: int
  assumes "0 < k"
  shows "k * ((y + (k - 1)) div k) \<le> y + (k - 1)" "y \<le> k * ((y + (k - 1)) div k)"
proof -
  have "k * ((y + (k - 1)) div k) + (y + (k - 1)) mod k = y + (k - 1)" by simp
  moreover have "0 \<le> (y + (k - 1)) mod k" "(y + (k - 1)) mod k < k" using assms by auto
  ultimately show "k * ((y + (k - 1)) div k) \<le> y + (k - 1)" "y \<le> k * ((y + (k - 1)) div k)" by linarith+
qed

lemma year_start_scaled:
  "146097 * y - 396 \<le> 400 * (year_start y + 719528)"
  "400 * (year_start y + 719528) \<le> 146097 * y + 699"
  unfolding year_start_def
  using ceil_div_bounds [of 4 y] ceil_div_bounds [of 100 y] ceil_div_bounds [of 400 y] by simp_all

lemma scaled_quotient:
  fixes D k :: int
  assumes "0 < k"
  shows "k * (D div k) \<le> D" "D < k * (D div k) + k"
proof -
  have "k * (D div k) + D mod k = D" by simp
  moreover have "0 \<le> D mod k" "D mod k < k" using assms by auto
  ultimately show "k * (D div k) \<le> D" "D < k * (D div k) + k" by linarith+
qed

lemma year_of_bounds: "year_start (year_of d) \<le> d" "d < year_start (year_of d + 1)"
proof -
  define y where "y = 400 * (d + 719528) div 146097"
  have "146097 * y \<le> 400 * (d + 719528)" "400 * (d + 719528) < 146097 * (y + 1)"
    using scaled_quotient [of 146097 "400 * (d + 719528)"] by (simp_all add: y_def)
  then have "year_start (y - 1) \<le> d" "d < year_start (y + 2)"
    using year_start_scaled(2) [of "y - 1"] year_start_scaled(1) [of "y + 2"] by simp_all
  then show "year_start (year_of d) \<le> d" "d < year_start (year_of d + 1)"
    unfolding year_of_def Let_def y_def [symmetric] by (auto simp: algebra_simps)
qed

lemma year_of_unique:
  assumes "year_start y \<le> d" "d < year_start (y + 1)"
  shows "year_of d = y"
proof (rule ccontr)
  assume "year_of d \<noteq> y"
  then consider "year_of d + 1 \<le> y" | "y + 1 \<le> year_of d" by linarith
  then show False
  proof cases
    case 1
    then have "year_start (year_of d + 1) \<le> year_start y" by (rule year_start_mono)
    then show False using assms year_of_bounds(2) [of d] by simp
  next
    case 2
    then have "year_start (y + 1) \<le> year_start (year_of d)" by (rule year_start_mono)
    then show False using assms year_of_bounds(1) [of d] by simp
  qed
qed

lemma year_of_mono:
  assumes "d \<le> d'"
  shows "year_of d \<le> year_of d'"
proof (rule ccontr)
  assume "\<not> year_of d \<le> year_of d'"
  then have "year_start (year_of d' + 1) \<le> year_start (year_of d)" by (intro year_start_mono) simp
  then show False using assms year_of_bounds(1) [of d] year_of_bounds(2) [of d'] by simp
qed

section \<open>Order of dates\<close>

lemma yday0_bounds: "0 \<le> yday0 d" "yday0 d < (if leap (year_of d) then 366 else 365)"
  using year_of_bounds [of d] unfolding yday0_def by (auto simp: year_start_step)

lemma count_below:
  assumes "sorted ss" "i < length ss"
  shows "ss ! i \<le> (x :: int) \<longleftrightarrow> i < length (filter (\<lambda>s. s \<le> x) ss)"
  using assms
proof (induction ss arbitrary: i)
  case (Cons a ss)
  show ?case
  proof (cases "a \<le> x")
    case True
    then show ?thesis using Cons by (cases i) auto
  next
    case False
    then have "filter (\<lambda>s. s \<le> x) ss = []" using Cons.prems by (auto simp: filter_empty_conv)
    moreover have "a \<le> (a # ss) ! i" using Cons.prems by (cases i) auto
    ultimately show ?thesis using False by auto
  qed
qed simp

lemma month_starts_sorted: "sorted (month_starts lp)" "length (month_starts lp) = 12" "month_starts lp ! 0 = 0"
  by (auto simp: month_starts_def)

lemma month_index_less: "month_index d < 12"
proof -
  have "length (filter (\<lambda>s. s \<le> yday0 d) (month_starts (leap (year_of d)))) \<le> 12"
    using length_filter_le [of _ "month_starts (leap (year_of d))"] by (simp add: month_starts_sorted)
  then show ?thesis by (simp add: month_index_def)
qed

lemma month_index_iff:
  assumes "i < 12"
  shows "month_starts (leap (year_of d)) ! i \<le> yday0 d \<longleftrightarrow> i \<le> month_index d"
proof -
  let ?ss = "month_starts (leap (year_of d))"
  have "0 < length (filter (\<lambda>s. s \<le> yday0 d) ?ss)"
    using count_below [of ?ss 0 "yday0 d"] yday0_bounds(1) [of d] by (simp add: month_starts_sorted)
  moreover have "?ss ! i \<le> yday0 d \<longleftrightarrow> i < length (filter (\<lambda>s. s \<le> yday0 d) ?ss)"
    by (rule count_below) (use assms in \<open>simp_all add: month_starts_sorted\<close>)
  ultimately show ?thesis unfolding month_index_def by linarith
qed

text \<open>Year, month and day in that order sort like the day number.\<close>

lemma date_less:
  assumes "d < d'"
  shows "year_of d < year_of d'
    \<or> year_of d = year_of d' \<and> (month_index d < month_index d' \<or> month_index d = month_index d' \<and> mday d < mday d')"
proof (cases "year_of d = year_of d'")
  case True
  then have "yday0 d < yday0 d'" using assms by (simp add: yday0_def)
  moreover have "month_index d \<le> month_index d'"
    using month_index_iff [OF month_index_less [of d], of d'] month_index_iff [OF month_index_less [of d], of d]
      \<open>yday0 d < yday0 d'\<close> True by simp
  ultimately show ?thesis using True by (auto simp: mday_def)
next
  case False
  then show ?thesis using year_of_mono [of d d'] assms by linarith
qed

lemma mday_bounds: "1 \<le> mday d" "mday d \<le> 31"
proof -
  let ?ss = "month_starts (leap (year_of d))" and ?m = "month_index d"
  show "1 \<le> mday d" using month_index_iff [OF month_index_less [of d], of d] by (simp add: mday_def)
  have "yday0 d < ?ss ! ?m + 31"
  proof (cases "?m = 11")
    case True
    then show ?thesis using yday0_bounds(2) [of d] by (auto simp: month_starts_def split: if_splits)
  next
    case False
    then have m: "?m + 1 < 12" using month_index_less [of d] by simp
    then have "yday0 d < ?ss ! (?m + 1)" using month_index_iff [of "?m + 1" d] by simp
    moreover have "list_all (\<lambda>lp. list_all (\<lambda>i. month_starts lp ! (i + 1) \<le> month_starts lp ! i + 31) [0..<11]) [True, False]"
      by code_simp
    then have "list_all (\<lambda>i. month_starts lp ! (i + 1) \<le> month_starts lp ! i + 31) [0..<11]" for lp
      by (cases lp) auto
    then have "?ss ! (?m + 1) \<le> ?ss ! ?m + 31" using m by (simp add: list_all_iff)
    ultimately show ?thesis by simp
  qed
  then show "mday d \<le> 31" by (simp add: mday_def)
qed

lemma date_inject:
  assumes "year_of d = year_of d'" "month_index d = month_index d'" "mday d = mday d'"
  shows "d = d'"
  using date_less [of d d'] date_less [of d' d] assms by (metis less_irrefl linorder_less_linear)

section \<open>Weeks\<close>

lemma thursday_eq: "thursday d = 7 * ((d + 3) div 7)"
proof -
  have r: "0 \<le> (d + 3) mod 7" "(d + 3) mod 7 < 7" by auto
  have "weekday_of d = ((d + 3) mod 7 + 1) mod 7" unfolding weekday_of_def by (simp add: mod_add_left_eq add.assoc)
  then have "weekday_of d = (if (d + 3) mod 7 = 6 then 0 else (d + 3) mod 7 + 1)"
    using r by (auto intro: mod_pos_pos_trivial)
  then have "thursday d = d + 3 - (d + 3) mod 7" using r by (auto simp: thursday_def Let_def)
  also have "\<dots> = 7 * ((d + 3) div 7)" by (simp add: minus_mod_eq_mult_div)
  finally show ?thesis .
qed

lemma week_inject:
  "(year_of (thursday d), yday0 (thursday d) div 7) = (year_of (thursday d'), yday0 (thursday d') div 7)
     \<longleftrightarrow> (d + 3) div 7 = (d' + 3) div 7"
proof
  assume a: "(year_of (thursday d), yday0 (thursday d) div 7) = (year_of (thursday d'), yday0 (thursday d') div 7)"
  define s where "s = year_start (year_of (thursday d))"
  have "(7 * ((d + 3) div 7) - s) div 7 = (7 * ((d' + 3) div 7) - s) div 7"
    using a unfolding yday0_def thursday_eq [symmetric] s_def by (metis prod.inject)
  moreover have "(7 * k - s) div 7 = k + (- s) div 7" for k
    using div_mult_self2 [of 7 "- s" k] by simp
  ultimately show "(d + 3) div 7 = (d' + 3) div 7" by simp
qed (simp add: thursday_eq)

section \<open>Formatting\<close>

text \<open>The layouts the program uses, spelled out.\<close>

definition month_names :: "string list" where
  "month_names = [''Jan'', ''Feb'', ''Mar'', ''Apr'', ''May'', ''Jun'', ''Jul'', ''Aug'', ''Sep'', ''Oct'', ''Nov'', ''Dec'']"

definition fmt_day :: "gtime \<Rightarrow> string" where
  "fmt_day t = appendInt (Year t) 4 @ ''-'' @ appendInt (Month t) 2 @ ''-'' @ appendInt (Day t) 2"

definition fmt_month :: "gtime \<Rightarrow> string" where
  "fmt_month t = appendInt (Year t) 4 @ ''-'' @ appendInt (Month t) 2"

definition fmt_year :: "gtime \<Rightarrow> string" where
  "fmt_year t = appendInt (Year t) 4"

definition fmt_clock :: "gtime \<Rightarrow> string" where
  "fmt_clock t = appendInt (Hour t) 2 @ '':'' @ appendInt (Minute_of t) 2 @ '':'' @ appendInt (Second_of t) 2"

definition fmt_stamp :: "gtime \<Rightarrow> string" where
  "fmt_stamp t = appendInt (Year t) 4 @ appendInt (Month t) 2 @ appendInt (Day t) 2 @ ''-''
     @ appendInt (Hour t) 2 @ appendInt (Minute_of t) 2 @ appendInt (Second_of t) 2"

definition zone_digits :: "string \<Rightarrow> gtime \<Rightarrow> string" where
  "zone_digits sep t =
     (let z = (if g_off t < 0 then - ((- g_off t) div 60) else g_off t div 60) in
      (if z < 0 then ''-'' else ''+'') @ appendInt (abs z div 60) 2 @ sep @ appendInt (abs z mod 60) 2)"

definition fmt_rfc3339 :: "gtime \<Rightarrow> string" where
  "fmt_rfc3339 t = fmt_day t @ ''T'' @ fmt_clock t @ (if g_off t = 0 then ''Z'' else zone_digits '':'' t)"

definition fmt_apache :: "gtime \<Rightarrow> string" where
  "fmt_apache t = ''['' @ appendInt (Day t) 2 @ ''/'' @ month_names ! month_index (day_of t) @ ''/''
     @ appendInt (Year t) 4 @ '':'' @ fmt_clock t @ '' '' @ zone_digits [] t @ '']''"

definition fmt_syslog :: "gtime \<Rightarrow> string" where
  "fmt_syslog t = month_names ! month_index (day_of t) @ '' ''
     @ (if Day t < 10 then '' '' else []) @ Itoa (nat (Day t)) @ '' '' @ fmt_clock t"

text \<open>Two digits for every field below a hundred, four for the years up to 9999.\<close>

lemma field_ranges:
  "0 \<le> Month t" "Month t < 100" "0 \<le> Day t" "Day t < 100" "0 \<le> Hour t" "Hour t < 100"
  "0 \<le> Minute_of t" "Minute_of t < 100" "0 \<le> Second_of t" "Second_of t < 100"
proof -
  have s: "0 \<le> sec_of t" "sec_of t < 86400" by (simp_all add: sec_of_def)
  then have "sec_of t div 3600 < 24" by (simp add: div_less_iff_less_mult)
  then show "0 \<le> Hour t" "Hour t < 100" using s by (simp_all add: Hour_def pos_imp_zdiv_nonneg_iff)
  have "0 \<le> sec_of t mod 3600" "sec_of t mod 3600 < 3600" by simp_all
  then have "sec_of t mod 3600 div 60 < 60" by (simp add: div_less_iff_less_mult)
  then show "0 \<le> Minute_of t" "Minute_of t < 100" by (simp_all add: Minute_of_def pos_imp_zdiv_nonneg_iff)
  have "sec_of t mod 60 < 60" by simp
  then show "0 \<le> Second_of t" "Second_of t < 100" by (simp_all add: Second_of_def)
  show "0 \<le> Month t" "Month t < 100" using month_index_less [of "day_of t"] by (simp_all add: Month_def)
  show "0 \<le> Day t" "Day t < 100" using mday_bounds [of "day_of t"] by (simp_all add: Day_def)
qed

lemma length_appendInt: "0 \<le> x \<Longrightarrow> x < 10 ^ w \<Longrightarrow> length (appendInt x w) = w"
  by (simp add: appendInt_def length_padnat nat_less_iff)

lemma length_fields [simp]:
  "length (appendInt (Month t) 2) = 2" "length (appendInt (Day t) 2) = 2" "length (appendInt (Hour t) 2) = 2"
  "length (appendInt (Minute_of t) 2) = 2" "length (appendInt (Second_of t) 2) = 2"
  by (simp_all add: length_appendInt field_ranges)

lemma appendInt_less:
  assumes "0 \<le> x" "x < y" "y < 10 ^ w"
  shows "appendInt x w < appendInt y w"
  using assms by (simp add: appendInt_def padnat_less nat_less_iff)

section \<open>Formatted times are injective and ordered\<close>

lemma date_inject_iff: "year_of d = year_of d' \<and> month_index d = month_index d' \<and> mday d = mday d' \<longleftrightarrow> d = d'"
  using date_inject by auto

lemma fmt_day_inject: "fmt_day t = fmt_day u \<longleftrightarrow> day_of t = day_of u"
proof -
  have "fmt_day t = fmt_day u \<longleftrightarrow> Year t = Year u \<and> Month t = Month u \<and> Day t = Day u" by (simp add: fmt_day_def)
  then show ?thesis using date_inject_iff [of "day_of t" "day_of u"] by (simp add: Year_def Month_def Day_def)
qed

lemma fmt_month_inject: "fmt_month t = fmt_month u \<longleftrightarrow> Year t = Year u \<and> Month t = Month u"
  by (simp add: fmt_month_def)

lemma week_range: "0 \<le> yday0 d div 7 + 1" "yday0 d div 7 + 1 < 100"
  using yday0_bounds [of d] by (auto split: if_splits)


lemma div_mod_less:
  fixes x y k :: int
  assumes "x < y" "0 < k"
  shows "x div k < y div k \<or> x div k = y div k \<and> x mod k < y mod k"
proof (cases "x div k = y div k")
  case True
  have "x = k * (x div k) + x mod k" "y = k * (y div k) + y mod k" by simp_all
  with True assms(1) have "x mod k < y mod k" by (metis add_less_cancel_left)
  with True show ?thesis by simp
next
  case False
  moreover have "x div k \<le> y div k" using assms by (intro zdiv_mono1) auto
  ultimately show ?thesis by simp
qed

lemma clock_less:
  assumes "sec_of t < sec_of u"
  shows "Hour t < Hour u \<or> Hour t = Hour u \<and> (Minute_of t < Minute_of u \<or> Minute_of t = Minute_of u \<and> Second_of t < Second_of u)"
proof -
  have "x mod 3600 mod 60 = x mod (60 :: int)" for x by (rule mod_mod_cancel) simp
  then show ?thesis
    using div_mod_less [OF assms, of 3600] div_mod_less [of "sec_of t mod 3600" "sec_of u mod 3600" 60]
    unfolding Hour_def Minute_of_def Second_of_def by auto
qed

lemma field_step:
  assumes "a < b \<or> a = b \<and> r < r'" "0 \<le> a" "b < 10 ^ w"
  shows "appendInt a w @ r < appendInt b w @ r'"
  using assms(1)
proof
  assume "a < b"
  then show ?thesis using assms by (intro less_append_first appendInt_less) (simp_all add: length_appendInt)
qed (auto intro: less_append_same)

lemma fmt_stamp_less:
  assumes "g_off t = g_off u" "Unix t < Unix u" "0 \<le> Year t" "Year u < 10000"
  shows "fmt_stamp t < fmt_stamp u"
proof -
  have "local_sec t < local_sec u" using assms by (simp add: local_sec_def)
  then consider "day_of t < day_of u" | "day_of t = day_of u" "sec_of t < sec_of u"
    using div_mod_less [of "local_sec t" "local_sec u" 86400] by (auto simp: day_of_def sec_of_def)
  then have "Year t < Year u \<or> Year t = Year u \<and> (Month t < Month u \<or> Month t = Month u \<and> (Day t < Day u \<or> Day t = Day u
      \<and> (Hour t < Hour u \<or> Hour t = Hour u \<and> (Minute_of t < Minute_of u \<or> Minute_of t = Minute_of u \<and> Second_of t < Second_of u))))"
    using date_less [of "day_of t" "day_of u"] clock_less [of t u] by cases (auto simp: Year_def Month_def Day_def)
  then show ?thesis
    unfolding fmt_stamp_def using field_ranges assms(3,4)
    by (intro field_step less_append_same) (auto intro!: field_step less_append_same appendInt_less)
qed

lemma length_fmt_stamp: "0 \<le> Year t \<Longrightarrow> Year t < 10000 \<Longrightarrow> length (fmt_stamp t) = 15"
  by (simp add: fmt_stamp_def length_appendInt)

lemma Year_mono: "g_off t = g_off u \<Longrightarrow> Unix t \<le> Unix u \<Longrightarrow> Year t \<le> Year u"
  by (simp add: Year_def day_of_def local_sec_def year_of_mono zdiv_mono1)


end
