(* ===== verification/LogLines.thy ===== *)
theory LogLines
  imports GoTime
begin

text \<open>
  File \<open>log/format.go\<close>: the text of one log record. A Go string is ranged over rune by rune, so
  the UTF-8 decoding that \<open>range\<close> performs is modelled: a byte that starts no valid sequence
  becomes the replacement character. JSON and logfmt records, whose quoting is that of library
  packages, are not modelled.
\<close>

section \<open>Runes\<close>

definition in_range :: "nat \<Rightarrow> nat \<Rightarrow> char \<Rightarrow> bool" where
  "in_range lo hi c \<longleftrightarrow> lo \<le> of_char c \<and> of_char c \<le> hi"

definition tail_byte :: "char \<Rightarrow> bool" where
  "tail_byte c \<longleftrightarrow> in_range 128 191 c"

text \<open>The length of the valid UTF-8 sequence a string starts with, if it starts with one.\<close>

fun rune_width :: "string \<Rightarrow> nat option" where
  "rune_width [] = None"
| "rune_width (a # s) =
     (if in_range 0 127 a then Some 1
      else case s of
        [] \<Rightarrow> None
      | b # s \<Rightarrow>
          if in_range 194 223 a \<and> tail_byte b then Some 2
          else (case s of
            [] \<Rightarrow> None
          | c # s \<Rightarrow>
              if tail_byte c \<and>
                 (in_range 224 224 a \<and> in_range 160 191 b \<or> in_range 225 236 a \<and> tail_byte b
                  \<or> in_range 237 237 a \<and> in_range 128 159 b \<or> in_range 238 239 a \<and> tail_byte b) then Some 3
              else (case s of
                [] \<Rightarrow> None
              | d # s \<Rightarrow>
                  if tail_byte c \<and> tail_byte d \<and>
                     (in_range 240 240 a \<and> in_range 144 191 b \<or> in_range 241 243 a \<and> tail_byte b
                      \<or> in_range 244 244 a \<and> in_range 128 143 b) then Some 4
                  else None)))"

definition replacement :: string where
  "replacement = [char_of (239 :: nat), char_of (191 :: nat), char_of (189 :: nat)]"

text \<open>A rune is represented by the bytes \<open>WriteRune\<close> writes for it.\<close>

function runes :: "string \<Rightarrow> string list" where
  "runes s =
     (case s of
        [] \<Rightarrow> []
      | a # r \<Rightarrow>
          (case rune_width s of
             None \<Rightarrow> replacement # runes r
           | Some w \<Rightarrow> take (max 1 w) s # runes (drop (max 1 w) s)))"
  by auto
termination by (relation "measure length") auto

declare runes.simps [simp del]

section \<open>Sanitising a line\<close>

text \<open>The control runes are single bytes.\<close>

definition control_rune :: "string \<Rightarrow> bool" where
  "control_rune r \<longleftrightarrow> (\<exists>c \<in> set r. r = [c] \<and>
     (let n = (of_char c :: nat) in n = 10 \<or> n = 13 \<or> (n < 32 \<and> n \<noteq> 9) \<or> n = 127))"

definition sanitizeLine :: "string \<Rightarrow> string" where
  "sanitizeLine s = (if s = [] then s else concat (filter (\<lambda>r. \<not> control_rune r) (runes s)))"

section \<open>Records\<close>

definition resolveFormat :: "string \<Rightarrow> string \<Rightarrow> string" where
  "resolveFormat configured def = (let f = ToLower (TrimSpace configured) in if f = [] then def else f)"

definition textLine :: "gtime \<Rightarrow> string \<Rightarrow> string \<Rightarrow> string" where
  "textLine now level msg = fmt_rfc3339 now @ '' ['' @ level @ ''] '' @ msg"

definition needsQuote :: "string \<Rightarrow> bool" where
  "needsQuote v \<longleftrightarrow> v = [] \<or> list_ex (\<lambda>c. c = CHR '' '' \<or> c = CHR ''='' \<or> c = CHR 0x22 \<or> c = CHR 0x0A \<or> c = CHR 0x09) v"

fun kvJoin_loop :: "string \<Rightarrow> string list \<Rightarrow> string" where
  "kvJoin_loop b (k # v # kvs) = kvJoin_loop (b @ (if b \<noteq> [] then '' '' else []) @ k @ ''='' @ v) kvs"
| "kvJoin_loop b _ = b"

definition kvJoin :: "string list \<Rightarrow> string" where
  "kvJoin kvpairs = kvJoin_loop [] kvpairs"

fun kvMap_loop :: "(string \<rightharpoonup> string) \<Rightarrow> string list \<Rightarrow> (string \<rightharpoonup> string)" where
  "kvMap_loop m (k # v # kvs) = kvMap_loop (m(k \<mapsto> v)) kvs"
| "kvMap_loop m _ = m"

definition kvMap :: "string list \<Rightarrow> (string \<rightharpoonup> string)" where
  "kvMap kvpairs = kvMap_loop Map.empty kvpairs"

definition fmt_int :: "int \<Rightarrow> string" where
  "fmt_int n = (if n < 0 then ''-'' @ Itoa (nat (- n)) else Itoa (nat n))"

definition syslog3164Line :: "gtime \<Rightarrow> string \<Rightarrow> string \<Rightarrow> int \<Rightarrow> string \<Rightarrow> string" where
  "syslog3164Line now host program pid msg =
     fmt_syslog now @ '' '' @ host @ '' '' @ program @ ''['' @ fmt_int pid @ '']: '' @ msg"

definition syslog5424Line :: "gtime \<Rightarrow> string \<Rightarrow> string \<Rightarrow> int \<Rightarrow> string \<Rightarrow> string" where
  "syslog5424Line now host program pid msg =
     ''<134>1 '' @ fmt_rfc3339 now @ '' '' @ host @ '' '' @ program @ '' '' @ fmt_int pid @ '' - - '' @ msg"

definition ReplaceByte :: "string \<Rightarrow> char \<Rightarrow> string \<Rightarrow> string" where
  "ReplaceByte s c new = concat (map (\<lambda>x. if x = c then new else [x]) s)"

definition backslash :: char where
  "backslash = CHR 0x5C"

definition cefEscapeHeader :: "string \<Rightarrow> string" where
  "cefEscapeHeader s = ReplaceByte (ReplaceByte s backslash [backslash, backslash]) (CHR ''|'') [backslash, CHR ''|'']"

definition cefLine :: "string \<Rightarrow> string \<Rightarrow> string \<Rightarrow> string \<Rightarrow> string \<Rightarrow> int \<Rightarrow> string \<Rightarrow> string" where
  "cefLine vendor product version eventClass name severity extension =
     ''CEF:0|'' @ cefEscapeHeader vendor @ ''|'' @ cefEscapeHeader product @ ''|'' @ cefEscapeHeader version
     @ ''|'' @ cefEscapeHeader eventClass @ ''|'' @ cefEscapeHeader name @ ''|'' @ fmt_int severity @ ''|'' @ extension"

record AccessEntry =
  ae_IP :: string
  ae_Method :: string
  ae_Path :: string
  ae_Proto :: string
  ae_Status :: int
  ae_Bytes :: int
  ae_Referer :: string
  ae_UserAgent :: string
  ae_RequestID :: string

definition quoted :: "string \<Rightarrow> string" where
  "quoted s = CHR 0x22 # s @ [CHR 0x22]"

definition nginxAccessLine :: "gtime \<Rightarrow> AccessEntry \<Rightarrow> string" where
  "nginxAccessLine now e =
     ae_IP e @ '' - - '' @ fmt_apache now @ '' '' @ quoted (ae_Method e @ '' '' @ ae_Path e @ '' '' @ ae_Proto e)
     @ '' '' @ fmt_int (ae_Status e) @ '' '' @ fmt_int (ae_Bytes e)"

definition apacheAccessLine :: "gtime \<Rightarrow> AccessEntry \<Rightarrow> string" where
  "apacheAccessLine now e =
     ae_IP e @ '' - - '' @ fmt_apache now @ '' '' @ quoted (ae_Method e @ '' '' @ ae_Path e @ '' '' @ ae_Proto e)
     @ '' '' @ fmt_int (ae_Status e) @ '' '' @ fmt_int (ae_Bytes e)
     @ '' '' @ quoted (ae_Referer e) @ '' '' @ quoted (ae_UserAgent e) @ '' '' @ ae_RequestID e"

section \<open>A record is one line\<close>

lemma of_char_bound: "(of_char c :: nat) < 256"
  using nat_of_char_less_256 by simp

definition high_byte :: "char \<Rightarrow> bool" where
  "high_byte c \<longleftrightarrow> 128 \<le> (of_char c :: nat)"

lemma tail_byte_high: "tail_byte c \<Longrightarrow> high_byte c"
  by (simp add: tail_byte_def in_range_def high_byte_def)

lemma in_range_high: "128 \<le> lo \<Longrightarrow> in_range lo hi c \<Longrightarrow> high_byte c"
  by (simp add: in_range_def high_byte_def)

lemma rune_width_shape:
  assumes "rune_width s = Some w"
  shows "1 \<le> w \<and> w \<le> length s \<and> (w = 1 \<and> \<not> high_byte (hd s) \<or> (\<forall>c \<in> set (take w s). high_byte c))"
  using assms
  by (cases s) (auto simp: in_range_def high_byte_def tail_byte_def split: if_splits list.splits)

lemma runes_shape: "r \<in> set (runes s) \<Longrightarrow> (\<exists>c. r = [c]) \<or> (\<forall>c \<in> set r. high_byte c)"
proof (induction s rule: runes.induct)
  case (1 s)
  show ?case
  proof (cases s)
    case (Cons a t)
    then show ?thesis
    proof (cases "rune_width s")
      case None
      with 1 Cons show ?thesis
        by (subst (asm) runes.simps) (auto simp: replacement_def high_byte_def)
    next
      case (Some w)
      then have w: "max 1 w = w" using rune_width_shape by (auto simp: max_def)
      then have "r = take w s \<or> r \<in> set (runes (drop w s))"
        using 1(3) Cons Some by (subst (asm) runes.simps) auto
      then show ?thesis
      proof
        assume r: "r = take w s"
        consider "w = 1" | "\<forall>c \<in> set (take w s). high_byte c" using rune_width_shape [OF Some] by auto
        then show ?thesis using r Cons by cases auto
      next
        assume "r \<in> set (runes (drop w s))"
        then show ?thesis using 1(2) [OF Cons Some] w by simp
      qed
    qed
  qed (use 1 in \<open>simp add: runes.simps\<close>)
qed

lemma control_rune_single: "control_rune [c] \<longleftrightarrow> of_char c = (10 :: nat) \<or> of_char c = (13 :: nat)
    \<or> (of_char c < (32 :: nat) \<and> of_char c \<noteq> (9 :: nat)) \<or> of_char c = (127 :: nat)"
  by (simp add: control_rune_def Let_def)

lemma sanitizeLine_no_control: "c \<in> set (sanitizeLine s) \<Longrightarrow> \<not> control_rune [c]"
proof -
  assume "c \<in> set (sanitizeLine s)"
  then obtain r where r: "r \<in> set (runes s)" "\<not> control_rune r" "c \<in> set r"
    by (auto simp: sanitizeLine_def split: if_splits)
  from runes_shape [OF r(1)] show ?thesis
  proof
    assume "\<forall>c \<in> set r. high_byte c"
    then have "high_byte c" using r(3) by simp
    then show ?thesis by (auto simp: control_rune_single high_byte_def)
  qed (use r in auto)
qed

lemma sanitizeLine_no_newline: "CHR 0x0A \<notin> set (sanitizeLine s)"
  using sanitizeLine_no_control [of "CHR 0x0A" s] by (auto simp: control_rune_single)

text \<open>ASCII text without control characters is kept as it is.\<close>

lemma runes_ascii: "\<forall>c \<in> set s. \<not> high_byte c \<Longrightarrow> runes s = map (\<lambda>c. [c]) s"
proof (induction s)
  case (Cons a s)
  then have "rune_width (a # s) = Some 1" by (simp add: in_range_def high_byte_def)
  with Cons show ?case by (subst runes.simps) simp
qed (simp add: runes.simps)

lemma sanitizeLine_id:
  assumes "\<forall>c \<in> set s. \<not> high_byte c \<and> \<not> control_rune [c]"
  shows "sanitizeLine s = s"
proof -
  have "runes s = map (\<lambda>c. [c]) s" using assms by (intro runes_ascii) auto
  moreover have "filter (\<lambda>r. \<not> control_rune r) (map (\<lambda>c. [c]) s) = map (\<lambda>c. [c]) s"
    using assms by (auto simp: filter_id_conv)
  ultimately show ?thesis by (simp add: sanitizeLine_def)
qed

section \<open>CEF headers can be read back\<close>

text \<open>
  The reader of the format: a header field ends at the first separator that no backslash
  precedes, and a backslash stands for the character after it.
\<close>

fun cef_field :: "string \<Rightarrow> (string \<times> string) option" where
  "cef_field [] = None"
| "cef_field (c # s) =
     (if c = CHR ''|'' then Some ([], s)
      else if c = backslash then
        (case s of [] \<Rightarrow> None | d # s' \<Rightarrow> map_option (\<lambda>(f, r). (d # f, r)) (cef_field s'))
      else map_option (\<lambda>(f, r). (c # f, r)) (cef_field s))"

fun cef_fields :: "nat \<Rightarrow> string \<Rightarrow> (string list \<times> string) option" where
  "cef_fields 0 s = Some ([], s)"
| "cef_fields (Suc n) s =
     (case cef_field s of None \<Rightarrow> None
      | Some (f, r) \<Rightarrow> map_option (\<lambda>(fs, ext). (f # fs, ext)) (cef_fields n r))"

lemma cefEscapeHeader_Cons:
  "cefEscapeHeader (x # s) =
     (if x = backslash \<or> x = CHR ''|'' then [backslash, x] else [x]) @ cefEscapeHeader s"
  by (auto simp: cefEscapeHeader_def ReplaceByte_def backslash_def)

lemma cef_field_escaped: "cef_field (cefEscapeHeader v @ CHR ''|'' # rest) = Some (v, rest)"
proof (induction v)
  case (Cons x v)
  then show ?case by (auto simp: cefEscapeHeader_Cons backslash_def)
qed (simp add: cefEscapeHeader_def ReplaceByte_def)

lemma cef_field_plain:
  "\<forall>c \<in> set v. c \<noteq> CHR ''|'' \<and> c \<noteq> backslash \<Longrightarrow> cef_field (v @ CHR ''|'' # rest) = Some (v, rest)"
  by (induction v) auto

lemma fmt_int_plain: "\<forall>c \<in> set (fmt_int n). c \<noteq> CHR ''|'' \<and> c \<noteq> backslash"
proof -
  have "\<not> is_digit CHR ''|''" "\<not> is_digit CHR 0x5C" by (simp_all add: is_digit_def)
  then show ?thesis by (auto simp: fmt_int_def backslash_def dest: Itoa_digits)
qed

text \<open>
  A security record in Common Event Format cannot be forged through its header: whatever
  vendor, product, version, class and name contain, a reader of the format gets exactly these
  fields, the severity and the extension back.
\<close>

theorem cefLine_roundtrip:
  "cef_fields 7 (cefLine vendor product version eventClass name severity extension)
     = Some ([''CEF:0'', vendor, product, version, eventClass, name, fmt_int severity], extension)"
  using cef_field_plain [of "''CEF:0''"] cef_field_plain [OF fmt_int_plain]
  by (simp add: cefLine_def cef_field_escaped backslash_def numeral_eq_Suc)

text \<open>
  The quoted fields of an access line are not escaped, so the line does not determine the
  entry: a quote in the referrer moves text into the user agent.
\<close>

lemma apache_line_ambiguous:
  "apacheAccessLine now (e\<lparr>ae_Referer := ''a'' @ [CHR 0x22] @ '' '' @ [CHR 0x22] @ ''b'', ae_UserAgent := ''c''\<rparr>)
     = apacheAccessLine now (e\<lparr>ae_Referer := ''a'', ae_UserAgent := ''b'' @ [CHR 0x22] @ '' '' @ [CHR 0x22] @ ''c''\<rparr>)"
  by (simp add: apacheAccessLine_def quoted_def)

end
