(* ===== verification/LogRotate.thy ===== *)
theory LogRotate
  imports LogLines
begin

text \<open>
  Files \<open>log/rotate.go\<close> and \<open>log/manager.go\<close>: the self-rotating writer behind every log file. The
  log directory is an association list of names and entries; a file has its bytes and the time
  of its last change. What can fail (closing, renaming, opening, listing, removing, reading
  the state of a file, compressing, writing) is decided by a record of flags, one record per
  call, so every error path of the code is a branch here. A handle refers to the active file;
  the mutex makes each call atomic. The gzip encoding is a parameter.
\<close>

section \<open>Policies\<close>

definition wrap64 :: "int \<Rightarrow> int" where
  "wrap64 x = (x + 2 ^ 63) mod 2 ^ 64 - 2 ^ 63"

record rotatePolicy =
  rp_period :: string
  rp_maxBytes :: int

definition rp_enabled :: "rotatePolicy \<Rightarrow> bool" where
  "rp_enabled p \<longleftrightarrow> rp_period p \<noteq> [] \<or> 0 < rp_maxBytes p"

datatype keepMode = KeepNone | KeepCount int | KeepAge int | KeepForever

definition parseSize :: "string \<Rightarrow> int" where
  "parseSize tok =
     (let (multiplier, digits) =
        (if HasSuffix tok ''kb'' then (1024, TrimSuffix tok ''kb'')
         else if HasSuffix tok ''mb'' then (1024 * 1024, TrimSuffix tok ''mb'')
         else if HasSuffix tok ''gb'' then (1024 * 1024 * 1024, TrimSuffix tok ''gb'')
         else if HasSuffix tok ''b'' then (1, TrimSuffix tok ''b'')
         else (1, tok)) in
      case ParseInt64 (TrimSpace digits) of
        None \<Rightarrow> 0
      | Some n \<Rightarrow> if n \<le> 0 then 0 else wrap64 (n * multiplier))"

definition rotate_token :: "string \<Rightarrow> rotatePolicy \<Rightarrow> rotatePolicy" where
  "rotate_token tok p =
     (let tok = TrimSpace tok in
      if tok \<in> {[], ''never'', ''none''} then p
      else if tok \<in> {''daily'', ''weekly'', ''monthly'', ''yearly''} then p\<lparr>rp_period := tok\<rparr>
      else let n = parseSize tok in if 0 < n then p\<lparr>rp_maxBytes := n\<rparr> else p)"

definition parseRotate :: "string \<Rightarrow> rotatePolicy" where
  "parseRotate s = fold rotate_token (SplitByte (ToLower (TrimSpace s)) (CHR '','')) \<lparr>rp_period = [], rp_maxBytes = 0\<rparr>"

definition day_ns :: int where
  "day_ns = 24 * 3600 * 10 ^ 9"

definition parseKeep :: "string \<Rightarrow> keepMode" where
  "parseKeep s =
     (let s = ToLower (TrimSpace s) in
      if s \<in> {[], ''none''} then KeepNone
      else if s \<in> {''forever'', ''always''} then KeepForever
      else let unit = last s in
        if is_digit unit then
          (case ParseInt64 s of
             None \<Rightarrow> KeepNone
           | Some n \<Rightarrow> if n < 0 then KeepNone else if n = 0 then KeepNone else KeepCount n)
        else
          (case ParseInt64 (butlast s) of
             None \<Rightarrow> KeepNone
           | Some n \<Rightarrow>
               if n \<le> 0 then KeepNone
               else if unit = CHR ''d'' then KeepAge (wrap64 (n * day_ns))
               else if unit = CHR ''w'' then KeepAge (wrap64 (wrap64 (n * 7) * day_ns))
               else if unit = CHR ''m'' then KeepAge (wrap64 (wrap64 (n * 30) * day_ns))
               else KeepNone))"

definition periodKey :: "string \<Rightarrow> gtime \<Rightarrow> string" where
  "periodKey period t =
     (if period = ''daily'' then fmt_day t
      else if period = ''weekly'' then
        (case ISOWeek t of (y, w) \<Rightarrow> appendInt y 4 @ ''-W'' @ appendInt w 2)
      else if period = ''monthly'' then fmt_month t
      else if period = ''yearly'' then fmt_year t
      else [])"

section \<open>Archive names\<close>

text \<open>\<open>filepath.Ext\<close>: from the last dot of the last element on, or nothing.\<close>

definition Ext :: "string \<Rightarrow> string" where
  "Ext path =
     (let base = rev (takeWhile (\<lambda>c. c \<noteq> CHR ''/'') (rev path)) in
      case LastIndexByte base (CHR ''.'') of None \<Rightarrow> [] | Some i \<Rightarrow> drop i base)"

definition archiveName :: "string \<Rightarrow> gtime \<Rightarrow> string" where
  "archiveName filename t =
     (let ext = Ext filename; base = TrimSuffix filename ext in base @ ''-'' @ fmt_stamp t @ ext)"

definition archivePrefixSuffix :: "string \<Rightarrow> string \<times> string" where
  "archivePrefixSuffix filename =
     (let ext = Ext filename; base = TrimSuffix filename ext in (base @ ''-'', ext))"

section \<open>The log directory\<close>

record lfile =
  lf_data :: string
  lf_mtime :: gtime

datatype dentry = Subdir | File lfile

type_synonym logdir = "(string \<times> dentry) list"

definition fs_remove :: "string \<Rightarrow> logdir \<Rightarrow> logdir" where
  "fs_remove n fs = filter (\<lambda>(k, _). k \<noteq> n) fs"

definition fs_put :: "string \<Rightarrow> dentry \<Rightarrow> logdir \<Rightarrow> logdir" where
  "fs_put n e fs = (n, e) # fs_remove n fs"

definition fs_data :: "logdir \<Rightarrow> string \<Rightarrow> string" where
  "fs_data fs n = (case map_of fs n of Some (File f) \<Rightarrow> lf_data f | _ \<Rightarrow> [])"

text \<open>The flags say which system calls fail; \<open>io_compress\<close> makes \<open>compressFile\<close> fail before the archive is replaced.\<close>

record io =
  io_close :: bool
  io_rename :: bool
  io_open :: bool
  io_readdir :: bool
  io_remove :: "string \<Rightarrow> bool"
  io_stat :: "string \<Rightarrow> bool"
  io_compress :: bool
  io_write :: bool

definition fs_rename :: "io \<Rightarrow> string \<Rightarrow> string \<Rightarrow> logdir \<Rightarrow> logdir option" where
  "fs_rename i old new fs =
     (if io_rename i then None
      else case map_of fs old of
        Some (File f) \<Rightarrow>
          (if map_of fs new = Some Subdir then None else Some (fs_put new (File f) (fs_remove old fs)))
      | _ \<Rightarrow> None)"

definition fs_open :: "io \<Rightarrow> gtime \<Rightarrow> string \<Rightarrow> logdir \<Rightarrow> logdir option" where
  "fs_open i now n fs =
     (if io_open i then None
      else case map_of fs n of
        None \<Rightarrow> Some (fs_put n (File \<lparr>lf_data = [], lf_mtime = now\<rparr>) fs)
      | Some (File f) \<Rightarrow> Some fs
      | Some Subdir \<Rightarrow> None)"

definition fs_delete :: "io \<Rightarrow> string \<Rightarrow> logdir \<Rightarrow> logdir option" where
  "fs_delete i n fs = (if io_remove i n \<or> map_of fs n = None then None else Some (fs_remove n fs))"

section \<open>The writer\<close>

datatype handle = HOpen | HClosed

record writer =
  w_file :: "handle option"
  w_dir :: string
  w_filename :: string
  w_format :: string
  w_size :: int
  w_opened :: gtime
  w_rotate :: rotatePolicy
  w_keep :: keepMode
  w_compress :: bool

type_synonym wstate = "writer \<times> logdir"

definition needsRotateLocked :: "gtime \<Rightarrow> int \<Rightarrow> writer \<Rightarrow> bool" where
  "needsRotateLocked now n w =
     (if w_file w = None \<or> \<not> rp_enabled (w_rotate w) \<or> w_size w = 0 then False
      else if 0 < rp_maxBytes (w_rotate w) \<and> rp_maxBytes (w_rotate w) < wrap64 (w_size w + n) then True
      else if rp_period (w_rotate w) \<noteq> [] \<and>
              periodKey (rp_period (w_rotate w)) (w_opened w) \<noteq> periodKey (rp_period (w_rotate w)) now then True
      else False)"

definition fileSize :: "io \<Rightarrow> string \<Rightarrow> logdir \<Rightarrow> int" where
  "fileSize i n fs = (if io_stat i n then 0 else int (length (fs_data fs n)))"

definition compressFile :: "(string \<Rightarrow> string) \<Rightarrow> io \<Rightarrow> gtime \<Rightarrow> string \<Rightarrow> logdir \<Rightarrow> bool \<times> logdir" where
  "compressFile gz i now path fs =
     (if io_compress i \<or> map_of fs path = None \<or> map_of fs (path @ ''.gz'') = Some Subdir then (False, fs)
      else let fs' = fs_put (path @ ''.gz'') (File \<lparr>lf_data = gz (fs_data fs path), lf_mtime = now\<rparr>) fs in
        case fs_delete i path fs' of None \<Rightarrow> (False, fs') | Some fs'' \<Rightarrow> (True, fs''))"

definition is_archive :: "string \<Rightarrow> string \<times> dentry \<Rightarrow> bool" where
  "is_archive filename e =
     (case archivePrefixSuffix filename of
        (prefix, suffix) \<Rightarrow>
          snd e \<noteq> Subdir \<and> HasPrefix (fst e) prefix
          \<and> (HasSuffix (fst e) suffix \<or> HasSuffix (fst e) (suffix @ ''.gz'')))"

text \<open>The archives, newest name first.\<close>

definition archives :: "string \<Rightarrow> logdir \<Rightarrow> string list" where
  "archives filename fs = rev (sort (map fst (filter (is_archive filename) fs)))"

definition prune_remove :: "io \<Rightarrow> string \<Rightarrow> bool \<times> logdir \<Rightarrow> bool \<times> logdir" where
  "prune_remove i n st = (case fs_delete i n (snd st) of None \<Rightarrow> (False, snd st) | Some fs' \<Rightarrow> (fst st, fs'))"

definition mtime :: "logdir \<Rightarrow> string \<Rightarrow> gtime option" where
  "mtime fs n = (case map_of fs n of Some (File f) \<Rightarrow> Some (lf_mtime f) | _ \<Rightarrow> None)"

definition prune_age :: "io \<Rightarrow> gtime \<Rightarrow> string \<Rightarrow> bool \<times> logdir \<Rightarrow> bool \<times> logdir" where
  "prune_age i cutoff n st =
     (if io_stat i n then st
      else case mtime (snd st) n of
        None \<Rightarrow> st
      | Some m \<Rightarrow> if Before m cutoff then prune_remove i n st else st)"

definition pruneLocked :: "io \<Rightarrow> gtime \<Rightarrow> writer \<Rightarrow> logdir \<Rightarrow> bool \<times> logdir" where
  "pruneLocked i now w fs =
     (if w_keep w = KeepForever \<or> w_dir w = [] \<or> w_filename w = [] then (True, fs)
      else if io_readdir i then (False, fs)
      else let as = archives (w_filename w) fs in
        case w_keep w of
          KeepCount count \<Rightarrow> fold (prune_remove i) (drop (nat count) as) (True, fs)
        | KeepAge age \<Rightarrow> fold (prune_age i (Add now (- age))) as (True, fs)
        | _ \<Rightarrow> fold (prune_remove i) as (True, fs))"

definition rotateLocked :: "(string \<Rightarrow> string) \<Rightarrow> io \<Rightarrow> gtime \<Rightarrow> wstate \<Rightarrow> bool \<times> wstate" where
  "rotateLocked gz i now st =
     (case st of (w, fs) \<Rightarrow>
        if w_file w = None \<or> w_dir w = [] \<or> w_filename w = [] then (True, w, fs)
        else let path = w_filename w; archive = archiveName (w_filename w) now in
          if w_file w = Some HClosed \<or> io_close i then (False, w\<lparr>w_file := Some HClosed\<rparr>, fs)
          else let w = w\<lparr>w_file := None\<rparr> in
            case fs_rename i path archive fs of
              None \<Rightarrow>
                (case fs_open i now path fs of
                   None \<Rightarrow> (False, w, fs)
                 | Some fs' \<Rightarrow>
                     (False, w\<lparr>w_file := Some HOpen, w_size := fileSize i path fs', w_opened := now\<rparr>, fs'))
            | Some fs1 \<Rightarrow>
                (case fs_open i now path fs1 of
                   None \<Rightarrow> (False, w, fs1)
                 | Some fs2 \<Rightarrow>
                     let w = w\<lparr>w_file := Some HOpen, w_size := 0, w_opened := now\<rparr>;
                         (ok, fs3) = (if w_compress w then compressFile gz i now archive fs2 else (True, fs2)) in
                     if \<not> ok then (False, w, fs3)
                     else case pruneLocked i now w fs3 of (ok', fs4) \<Rightarrow> (ok', w, fs4)))"

definition rotateIfDue :: "(string \<Rightarrow> string) \<Rightarrow> io \<Rightarrow> gtime \<Rightarrow> wstate \<Rightarrow> bool \<times> wstate" where
  "rotateIfDue gz i now st =
     (case st of (w, fs) \<Rightarrow>
        if w_file w = None then (True, w, fs)
        else if needsRotateLocked now 0 w then rotateLocked gz i now (w, fs)
        else case pruneLocked i now w fs of (ok, fs') \<Rightarrow> (ok, w, fs'))"

definition append_line :: "io \<Rightarrow> gtime \<Rightarrow> string \<Rightarrow> wstate \<Rightarrow> wstate" where
  "append_line i now line st =
     (case st of (w, fs) \<Rightarrow>
        if w_file w \<noteq> Some HOpen \<or> io_write i then (w, fs)
        else (w\<lparr>w_size := wrap64 (w_size w + int (length line) + 1)\<rparr>,
              fs_put (w_filename w) (File \<lparr>lf_data = fs_data fs (w_filename w) @ line @ [CHR 0x0A], lf_mtime = now\<rparr>) fs))"

definition write_line :: "(string \<Rightarrow> string) \<Rightarrow> io \<Rightarrow> gtime \<Rightarrow> string \<Rightarrow> wstate \<Rightarrow> wstate" where
  "write_line gz i now line st =
     (let line = sanitizeLine line in
      if line = [] then st
      else if w_file (fst st) = None then st
      else let n = int (length line) + 1;
               st = (if needsRotateLocked now n (fst st) then snd (rotateLocked gz i now st) else st) in
        if w_file (fst st) = None then st else append_line i now line st)"

definition close_writer :: "writer \<Rightarrow> writer" where
  "close_writer w = w\<lparr>w_file := None\<rparr>"

definition replace_writer :: "writer \<Rightarrow> writer \<Rightarrow> writer \<times> writer" where
  "replace_writer w nxt =
     (w\<lparr>w_file := w_file nxt, w_dir := w_dir nxt, w_filename := w_filename nxt, w_format := w_format nxt,
        w_size := w_size nxt, w_opened := w_opened nxt, w_rotate := w_rotate nxt, w_keep := w_keep nxt,
        w_compress := w_compress nxt\<rparr>,
      nxt\<lparr>w_file := None\<rparr>)"

record LogFileConfig =
  lc_Enabled :: bool
  lc_Filename :: string
  lc_Format :: string
  lc_Rotate :: string
  lc_Keep :: string

definition epoch :: gtime where
  "epoch = \<lparr>g_ns = 0, g_off = 0\<rparr>"

definition idle_writer :: "string \<Rightarrow> writer" where
  "idle_writer fmt = \<lparr>w_file = None, w_dir = [], w_filename = [], w_format = fmt, w_size = 0, w_opened = epoch,
     w_rotate = \<lparr>rp_period = [], rp_maxBytes = 0\<rparr>, w_keep = KeepNone, w_compress = False\<rparr>"

definition openWriter :: "io \<Rightarrow> gtime \<Rightarrow> string \<Rightarrow> LogFileConfig \<Rightarrow> string \<Rightarrow> bool \<Rightarrow> logdir \<Rightarrow> wstate option" where
  "openWriter i now logDir cfg defaultFormat compress fs =
     (let w = idle_writer (resolveFormat (lc_Format cfg) defaultFormat) in
      if \<not> lc_Enabled cfg \<or> logDir = [] \<or> lc_Filename cfg = [] then Some (w, fs)
      else case fs_open i now (lc_Filename cfg) fs of
        None \<Rightarrow> None
      | Some fs' \<Rightarrow>
          let size = fileSize i (lc_Filename cfg) fs' in
          Some (w\<lparr>w_file := Some HOpen, w_dir := logDir, w_filename := lc_Filename cfg,
                  w_rotate := parseRotate (lc_Rotate cfg), w_keep := parseKeep (lc_Keep cfg),
                  w_compress := compress, w_size := size,
                  w_opened := (case mtime fs' (lc_Filename cfg) of
                                 Some m \<Rightarrow> if \<not> io_stat i (lc_Filename cfg) \<and> 0 < size then m else now
                               | None \<Rightarrow> now)\<rparr>, fs'))"

section \<open>Periods and names\<close>

lemma week_key_inject:
  "periodKey ''weekly'' t = periodKey ''weekly'' u \<longleftrightarrow> (day_of t + 3) div 7 = (day_of u + 3) div 7"
proof -
  have "length (appendInt (yday0 d div 7 + 1) 2) = 2" for d using week_range [of d] by (simp add: length_appendInt)
  then have "periodKey ''weekly'' t = periodKey ''weekly'' u \<longleftrightarrow>
    (year_of (thursday (day_of t)), yday0 (thursday (day_of t)) div 7) = (year_of (thursday (day_of u)), yday0 (thursday (day_of u)) div 7)"
    by (simp add: periodKey_def ISOWeek_def Let_def)
  then show ?thesis unfolding week_inject .
qed

text \<open>
  The period key changes exactly when the rotation period rolls over: two instants have the
  same daily, weekly, monthly or yearly key if and only if they lie on the same local day, in
  the same week from Monday to Sunday, in the same month, in the same year.
\<close>

theorem periodKey_exact:
  "(periodKey ''daily'' t = periodKey ''daily'' u \<longleftrightarrow> day_of t = day_of u)
   \<and> (periodKey ''weekly'' t = periodKey ''weekly'' u \<longleftrightarrow> (day_of t + 3) div 7 = (day_of u + 3) div 7)
   \<and> (periodKey ''monthly'' t = periodKey ''monthly'' u \<longleftrightarrow> Year t = Year u \<and> Month t = Month u)
   \<and> (periodKey ''yearly'' t = periodKey ''yearly'' u \<longleftrightarrow> Year t = Year u)"
  unfolding week_key_inject by (simp add: periodKey_def fmt_day_inject fmt_month_inject fmt_year_def)

text \<open>Archive names of one writer sort by the second of their rotation, within a zone offset.\<close>

lemma archiveName_less:
  assumes "g_off t = g_off u" "Unix t < Unix u" "0 \<le> Year t" "Year u < 10000"
  shows "archiveName f t < archiveName f u"
  using assms Year_mono [of t u] unfolding archiveName_def Let_def
  by (intro less_append_same less_append_first fmt_stamp_less) (simp_all add: length_fmt_stamp)

section \<open>Retention\<close>

lemma fs_remove_keys [simp]: "map fst (fs_remove n fs) = filter (\<lambda>k. k \<noteq> n) (map fst fs)"
  by (induction fs) (auto simp: fs_remove_def)

lemma map_of_fs_remove: "map_of (fs_remove n fs) k = (if k = n then None else map_of fs k)"
  by (induction fs) (auto simp: fs_remove_def)

lemma map_of_fs_put [simp]: "map_of (fs_put n e fs) k = (if k = n then Some e else map_of fs k)"
  by (simp add: fs_put_def map_of_fs_remove)

lemma fs_remove_commute: "fs_remove a (fs_remove b fs) = fs_remove b (fs_remove a fs)"
  by (simp add: fs_remove_def conj_commute)

definition dir_ok :: "logdir \<Rightarrow> bool" where
  "dir_ok fs \<longleftrightarrow> distinct (map fst fs)"

lemma dir_ok_ops [simp]: "dir_ok fs \<Longrightarrow> dir_ok (fs_remove n fs)" "dir_ok fs \<Longrightarrow> dir_ok (fs_put n e fs)"
  by (auto simp: dir_ok_def fs_put_def)

lemma set_archives: "set (archives f fs) = fst ` set (filter (is_archive f) fs)"
  by (simp add: archives_def)

lemma distinct_archives: "dir_ok fs \<Longrightarrow> distinct (archives f fs)"
  by (simp add: archives_def dir_ok_def distinct_map_filter)

text \<open>Pruning when no system call fails removes the chosen names and nothing else.\<close>

definition no_faults :: "io \<Rightarrow> bool" where
  "no_faults i \<longleftrightarrow> \<not> io_close i \<and> \<not> io_rename i \<and> \<not> io_open i \<and> \<not> io_readdir i \<and> \<not> io_compress i \<and> \<not> io_write i
     \<and> (\<forall>n. \<not> io_remove i n \<and> \<not> io_stat i n)"

lemma fold_prune_remove:
  assumes "no_faults i" "distinct ns" "set ns \<subseteq> fst ` set fs"
  shows "fold (prune_remove i) ns (True, fs) = (True, filter (\<lambda>e. fst e \<notin> set ns) fs)"
  using assms(2,3)
proof (induction ns arbitrary: fs)
  case (Cons n ns)
  have "prune_remove i n (True, fs) = (True, fs_remove n fs)"
    using Cons.prems assms(1) by (auto simp: prune_remove_def fs_delete_def no_faults_def map_of_eq_None_iff)
  moreover have "set ns \<subseteq> fst ` set (fs_remove n fs)"
    using Cons.prems by (fastforce simp: fs_remove_def)
  ultimately show ?case using Cons by (auto simp: fs_remove_def intro!: filter_cong)
qed simp

lemma archives_present: "n \<in> set (archives f fs) \<Longrightarrow> n \<in> fst ` set fs"
  by (auto simp: set_archives)

definition expired :: "gtime \<Rightarrow> logdir \<Rightarrow> string \<Rightarrow> bool" where
  "expired cutoff fs n \<longleftrightarrow> (case mtime fs n of Some m \<Rightarrow> Before m cutoff | None \<Rightarrow> False)"

lemma expired_remove: "n \<noteq> m \<Longrightarrow> expired c (fs_remove m fs) n = expired c fs n"
  by (simp add: expired_def mtime_def map_of_fs_remove)

lemma fold_prune_age:
  assumes "no_faults i" "distinct ns" "set ns \<subseteq> fst ` set fs"
  shows "fold (prune_age i c) ns (True, fs) = (True, filter (\<lambda>e. fst e \<notin> set (filter (expired c fs) ns)) fs)"
  using assms(2,3)
proof (induction ns arbitrary: fs)
  case (Cons n ns)
  show ?case
  proof (cases "expired c fs n")
    case True
    then have "prune_age i c n (True, fs) = (True, fs_remove n fs)"
      using Cons.prems assms(1) by (auto simp: prune_age_def prune_remove_def fs_delete_def no_faults_def expired_def mtime_def split: option.splits dentry.splits)
    moreover have "set ns \<subseteq> fst ` set (fs_remove n fs)" using Cons.prems by (fastforce simp: fs_remove_def)
    moreover have e: "filter (expired c (fs_remove n fs)) ns = filter (expired c fs) ns"
      using Cons.prems expired_remove [of _ n c fs] by (intro filter_cong refl) (metis distinct.simps(2))
    ultimately have "fold (prune_age i c) (n # ns) (True, fs)
        = (True, filter (\<lambda>e. fst e \<notin> set (filter (expired c fs) ns)) (fs_remove n fs))"
      using Cons.IH [of "fs_remove n fs"] Cons.prems unfolding e [symmetric] by simp
    then show ?thesis using True by (auto simp: fs_remove_def intro!: filter_cong)
  next
    case False
    then have "prune_age i c n (True, fs) = (True, fs)"
      using assms(1) by (auto simp: prune_age_def no_faults_def expired_def split: option.splits)
    then show ?thesis using Cons False by simp
  qed
qed simp

lemma archives_filter:
  "archives f (filter (\<lambda>e. P (fst e)) fs) = filter P (archives f fs)"
proof -
  have "map fst (filter (\<lambda>e. P (fst e) \<and> Q e) xs) = filter P (map fst (filter Q xs))" for Q xs
    by (induction xs) auto
  then have "map fst (filter (is_archive f) (filter (\<lambda>e. P (fst e)) fs)) = filter P (map fst (filter (is_archive f) fs))"
    by (simp only: filter_filter)
  then show ?thesis unfolding archives_def by (simp only: filter_sort rev_filter [symmetric])
qed

lemma filter_notin_drop: "distinct xs \<Longrightarrow> filter (\<lambda>x. x \<notin> set (drop n xs)) xs = take n xs"
proof -
  assume d: "distinct xs"
  have "filter (\<lambda>x. x \<notin> set (drop n xs)) (take n xs @ drop n xs) = take n xs"
    unfolding filter_append using d set_take_disj_set_drop_if_distinct [OF d, of n n] by (auto simp: filter_id_conv filter_empty_conv)
  then show ?thesis by simp
qed

lemma prune_count:
  assumes "no_faults i" "dir_ok fs" "w_keep w = KeepCount n" "w_dir w \<noteq> []" "w_filename w \<noteq> []"
  shows "pruneLocked i now w fs = (True, filter (\<lambda>e. fst e \<notin> set (drop (nat n) (archives (w_filename w) fs))) fs)"
proof -
  let ?as = "archives (w_filename w) fs"
  have "fold (prune_remove i) (drop (nat n) ?as) (True, fs) = (True, filter (\<lambda>e. fst e \<notin> set (drop (nat n) ?as)) fs)"
    using assms(1,2) archives_present [of _ "w_filename w" fs]
    by (intro fold_prune_remove distinct_drop distinct_archives) (auto dest!: in_set_dropD)
  then show ?thesis using assms by (simp add: pruneLocked_def no_faults_def)
qed

text \<open>
  Count retention keeps the newest archives: pruning a log that keeps n archives succeeds, leaves
  the n archives with the greatest names and changes no other entry of the directory.
\<close>

theorem count_retention:
  assumes "no_faults i" "dir_ok fs" "w_keep w = KeepCount n" "w_dir w \<noteq> []" "w_filename w \<noteq> []"
  shows "\<exists>fs'. pruneLocked i now w fs = (True, fs')
    \<and> archives (w_filename w) fs' = take (nat n) (archives (w_filename w) fs)
    \<and> (\<forall>k. k \<notin> set (archives (w_filename w) fs) \<or> k \<in> set (archives (w_filename w) fs') \<longrightarrow> map_of fs' k = map_of fs k)"
proof -
  let ?as = "archives (w_filename w) fs"
  let ?fs = "filter (\<lambda>e. fst e \<notin> set (drop (nat n) ?as)) fs"
  have "archives (w_filename w) ?fs = filter (\<lambda>x. x \<notin> set (drop (nat n) ?as)) ?as"
    using archives_filter [of "w_filename w" "\<lambda>x. x \<notin> set (drop (nat n) ?as)" fs] by simp
  also have "\<dots> = take (nat n) ?as" by (rule filter_notin_drop [OF distinct_archives [OF assms(2)]])
  finally have a: "archives (w_filename w) ?fs = take (nat n) ?as" .
  moreover have "map_of ?fs k = map_of fs k" if "k \<notin> set ?as \<or> k \<in> set (archives (w_filename w) ?fs)" for k
  proof -
    have "k \<notin> set (drop (nat n) ?as)"
      using that set_take_disj_set_drop_if_distinct [OF distinct_archives [OF assms(2)], of "nat n" "nat n"] in_set_dropD
      unfolding a by fast
    then show ?thesis by (subst map_of_filter_key [of "\<lambda>x. x \<notin> set (drop (nat n) ?as)"]) simp
  qed
  ultimately show ?thesis using prune_count [OF assms] by blast
qed

section \<open>The active file is no archive\<close>

lemma Ext_suffix: "HasSuffix f (Ext f)"
proof -
  let ?b = "rev (takeWhile (\<lambda>c. c \<noteq> CHR ''/'') (rev f))"
  have "f = rev (dropWhile (\<lambda>c. c \<noteq> CHR ''/'') (rev f)) @ ?b"
    by (metis rev_append rev_rev_ident takeWhile_dropWhile_id)
  moreover have "HasSuffix ?b (drop k ?b)" for k by (metis HasSuffix_append append_take_drop_id)
  moreover have "HasSuffix f []" using HasSuffix_append [of f "[]"] by simp
  ultimately show ?thesis unfolding Ext_def Let_def
    by (auto split: option.splits simp: HasSuffix_iff) (metis append.assoc)
qed

lemma LastIndexByte_Some:
  assumes "LastIndexByte s c = Some i"
  shows "i < length s \<and> s ! i = c"
proof -
  obtain k where k: "IndexByte (rev s) c = Some k" "i = length s - 1 - k" using assms by (auto simp: LastIndexByte_def)
  then have "k < length s" "rev s ! k = c" using k(1) by (auto simp: IndexByte_Some)
  then show ?thesis using k(2) by (simp add: rev_nth)
qed

lemma Ext_shape: "Ext f = [] \<or> hd (Ext f) = CHR ''.''"
  unfolding Ext_def Let_def by (auto split: option.splits dest!: LastIndexByte_Some simp: hd_drop_conv_nth)

lemma filename_split: "TrimSuffix f (Ext f) @ Ext f = f"
  using Ext_suffix [of f] unfolding TrimSuffix_def HasSuffix_def by (metis append_take_drop_id)

lemma filename_no_prefix: "\<not> HasPrefix f (TrimSuffix f (Ext f) @ ''-'')"
proof
  assume "HasPrefix f (TrimSuffix f (Ext f) @ ''-'')"
  then obtain t where "f = TrimSuffix f (Ext f) @ ''-'' @ t" by (auto simp: HasPrefix_iff)
  then have "Ext f = ''-'' @ t" using filename_split [of f] by (metis same_append_eq)
  then show False using Ext_shape [of f] by auto
qed

lemma active_not_archive: "\<not> is_archive f (f, e)"
  using filename_no_prefix [of f] by (simp add: is_archive_def archivePrefixSuffix_def Let_def)

lemma active_notin_archives: "f \<notin> set (archives f fs)"
  using active_not_archive [of f] by (auto simp: set_archives)

lemma archiveName_is_archive: "is_archive f (archiveName f t, File x)"
  by (simp add: is_archive_def archivePrefixSuffix_def archiveName_def Let_def HasPrefix_iff HasSuffix_iff)

lemma archiveName_neq: "archiveName f t \<noteq> f" "archiveName f t @ ''.gz'' \<noteq> f"
  using filename_no_prefix [of f] by (auto simp: archiveName_def Let_def HasPrefix_iff) (metis append.assoc append_Cons append_Nil)+

lemma prune_filter:
  assumes "no_faults i" "dir_ok fs"
  shows "\<exists>S \<subseteq> set (archives (w_filename w) fs). pruneLocked i now w fs = (True, filter (\<lambda>e. fst e \<notin> S) fs)"
proof -
  let ?as = "archives (w_filename w) fs"
  note d = distinct_archives [OF assms(2), of "w_filename w"]
  have p: "set ?as \<subseteq> fst ` set fs" by (auto dest: archives_present)
  then have pd: "set (drop n ?as) \<subseteq> fst ` set fs" for n by (auto dest!: in_set_dropD)
  consider "w_keep w = KeepForever \<or> w_dir w = [] \<or> w_filename w = []" | n where "w_keep w = KeepCount n" "w_dir w \<noteq> []" "w_filename w \<noteq> []"
    | a where "w_keep w = KeepAge a" "w_dir w \<noteq> []" "w_filename w \<noteq> []" | "w_keep w = KeepNone" "w_dir w \<noteq> []" "w_filename w \<noteq> []"
    by (cases "w_keep w") auto
  then show ?thesis
  proof cases
    case 1
    then show ?thesis by (intro exI [of _ "{}"]) (auto simp: pruneLocked_def)
  next
    case 2
    then show ?thesis using fold_prune_remove [OF assms(1) distinct_drop [OF d] pd] assms(1)
      by (intro exI [of _ "set (drop (nat n) ?as)"]) (auto simp: pruneLocked_def no_faults_def dest: in_set_dropD)
  next
    case 3
    then show ?thesis using fold_prune_age [OF assms(1) d p] assms(1)
      by (intro exI [of _ "set (filter (expired (Add now (- a)) fs) ?as)"]) (auto simp: pruneLocked_def no_faults_def)
  next
    case 4
    then show ?thesis using fold_prune_remove [OF assms(1) d p] assms(1)
      by (intro exI [of _ "set ?as"]) (auto simp: pruneLocked_def no_faults_def)
  qed
qed

lemma prune_keeps:
  assumes "no_faults i" "dir_ok fs"
  shows "\<exists>fs'. pruneLocked i now w fs = (True, fs') \<and> dir_ok fs' \<and> map_of fs' (w_filename w) = map_of fs (w_filename w)"
proof -
  obtain S where S: "S \<subseteq> set (archives (w_filename w) fs)" "pruneLocked i now w fs = (True, filter (\<lambda>e. fst e \<notin> S) fs)"
    using prune_filter [OF assms] by blast
  have "w_filename w \<notin> S" using S(1) active_notin_archives by blast
  then have "map_of (filter (\<lambda>e. fst e \<notin> S) fs) (w_filename w) = map_of fs (w_filename w)"
    by (subst map_of_filter_key [of "\<lambda>x. x \<notin> S"]) simp
  moreover have "dir_ok (filter (\<lambda>e. fst e \<notin> S) fs)" using assms(2) by (simp add: dir_ok_def distinct_map_filter)
  ultimately show ?thesis using S(2) by blast
qed

definition writer_ok :: "wstate \<Rightarrow> bool" where
  "writer_ok st \<longleftrightarrow> (case st of (w, fs) \<Rightarrow>
     w_file w = Some HOpen \<and> w_dir w \<noteq> [] \<and> w_filename w \<noteq> [] \<and> dir_ok fs
     \<and> (\<exists>x. map_of fs (w_filename w) = Some (File x)) \<and> w_size w = int (length (fs_data fs (w_filename w))))"

lemma compress_keeps:
  assumes "dir_ok fs"
  shows "\<exists>ok fs'. compressFile gz i now (archiveName f t) fs = (ok, fs') \<and> dir_ok fs' \<and> map_of fs' f = map_of fs f"
  using assms archiveName_neq [of f t]
  by (auto simp: compressFile_def Let_def fs_delete_def map_of_fs_remove split: option.splits)

text \<open>The writer and the directory a rotation without a failure leaves.\<close>

definition rotated_writer :: "gtime \<Rightarrow> writer \<Rightarrow> writer" where
  "rotated_writer now w = w\<lparr>w_file := Some HOpen, w_size := 0, w_opened := now\<rparr>"

lemma rotate_fields [simp]:
  "w_filename (rotated_writer now w) = w_filename w" "w_rotate (rotated_writer now w) = w_rotate w"
  "w_dir (rotated_writer now w) = w_dir w" "w_file (rotated_writer now w) = Some HOpen" "w_size (rotated_writer now w) = 0"
  "w_keep (rotated_writer now w) = w_keep w" "w_compress (rotated_writer now w) = w_compress w"
  by (simp_all add: rotated_writer_def)

definition archived :: "gtime \<Rightarrow> string \<Rightarrow> logdir \<Rightarrow> logdir" where
  "archived now f fs = fs_put f (File \<lparr>lf_data = [], lf_mtime = now\<rparr>)
     (case map_of fs f of Some e \<Rightarrow> fs_put (archiveName f now) e (fs_remove f fs) | None \<Rightarrow> fs)"

lemma rotate_unfold:
  assumes "no_faults i" "writer_ok (w, fs)" "map_of fs (archiveName (w_filename w) now) \<noteq> Some Subdir"
  shows "rotateLocked gz i now (w, fs) =
    (case (if w_compress w then compressFile gz i now (archiveName (w_filename w) now) (archived now (w_filename w) fs)
           else (True, archived now (w_filename w) fs)) of
       (ok, fs3) \<Rightarrow> if \<not> ok then (False, rotated_writer now w, fs3)
         else case pruneLocked i now (rotated_writer now w) fs3 of (ok', fs4) \<Rightarrow> (ok', rotated_writer now w, fs4))"
proof -
  obtain x where x: "map_of fs (w_filename w) = Some (File x)" using assms(2) by (auto simp: writer_ok_def)
  let ?f = "w_filename w" and ?a = "archiveName (w_filename w) now"
  have "fs_rename i ?f ?a fs = Some (fs_put ?a (File x) (fs_remove ?f fs))"
    using assms x by (simp add: fs_rename_def no_faults_def)
  moreover have "fs_open i now ?f (fs_put ?a (File x) (fs_remove ?f fs)) = Some (archived now ?f fs)"
    using assms(1) x archiveName_neq [of ?f now] by (simp add: fs_open_def no_faults_def map_of_fs_remove archived_def)
  ultimately show ?thesis
    using assms(1,2) by (simp add: rotateLocked_def writer_ok_def no_faults_def rotated_writer_def Let_def split: prod.splits)
qed

lemma rotate_ok:
  assumes "no_faults i" "writer_ok (w, fs)" "map_of fs (archiveName (w_filename w) now) \<noteq> Some Subdir"
  shows "\<exists>ok fs'. rotateLocked gz i now (w, fs) = (ok, rotated_writer now w, fs') \<and> writer_ok (rotated_writer now w, fs')"
proof -
  let ?f = "w_filename w" and ?fs = "archived now (w_filename w) fs"
  have ok: "dir_ok ?fs" "map_of ?fs ?f = Some (File \<lparr>lf_data = [], lf_mtime = now\<rparr>)"
    using assms(2) by (auto simp: writer_ok_def archived_def split: option.splits)
  obtain c fs3 where c: "(if w_compress w then compressFile gz i now (archiveName ?f now) ?fs else (True, ?fs)) = (c, fs3)"
    "dir_ok fs3" "map_of fs3 ?f = map_of ?fs ?f"
    using compress_keeps [OF ok(1), of gz i now ?f now] ok by (cases "w_compress w") auto
  obtain fs4 where p: "pruneLocked i now (rotated_writer now w) fs3 = (True, fs4)" "dir_ok fs4" "map_of fs4 ?f = map_of fs3 ?f"
    using prune_keeps [OF assms(1) c(2), of now "rotated_writer now w"] by auto
  have "writer_ok (rotated_writer now w, fs')" if "dir_ok fs'" "map_of fs' ?f = map_of ?fs ?f" for fs'
    using that assms(2) ok by (auto simp: writer_ok_def fs_data_def)
  then show ?thesis using rotate_unfold [OF assms, of gz] c p by auto
qed

lemma wrap64_id: "- (2 ^ 63) \<le> x \<Longrightarrow> x < 2 ^ 63 \<Longrightarrow> wrap64 x = x"
  by (simp add: wrap64_def)

lemma fs_data_put [simp]: "fs_data (fs_put n (File x) fs) k = (if k = n then lf_data x else fs_data fs k)"
  by (simp add: fs_data_def)

lemma append_ok:
  assumes "no_faults i" "writer_ok (w, fs)" "w_size w + int (length line) + 1 < 2 ^ 63"
  shows "\<exists>w' fs'. append_line i now line (w, fs) = (w', fs') \<and> writer_ok (w', fs') \<and> w_filename w' = w_filename w
     \<and> fs_data fs' (w_filename w) = fs_data fs (w_filename w) @ line @ [CHR 0x0A]"
  using assms by (auto simp: append_line_def writer_ok_def no_faults_def wrap64_id)

text \<open>
  The size ceiling holds: after any write of a non-empty line the active file is within the
  ceiling or consists of that one line, the writer is still open, and its size counter is the
  length of the file.
\<close>

theorem write_bounded:
  assumes "no_faults i" "writer_ok (w, fs)" "map_of fs (archiveName (w_filename w) now) \<noteq> Some Subdir"
    and "sanitizeLine line \<noteq> []" "0 < rp_maxBytes (w_rotate w)"
    and "w_size w + int (length (sanitizeLine line)) + 1 < 2 ^ 63"
    and "write_line gz i now line (w, fs) = (w', fs')"
  shows "writer_ok (w', fs')
     \<and> (fs_data fs' (w_filename w) = sanitizeLine line @ [CHR 0x0A]
        \<or> int (length (fs_data fs' (w_filename w))) \<le> rp_maxBytes (w_rotate w))"
proof (cases "needsRotateLocked now (int (length (sanitizeLine line)) + 1) w")
  case True
  obtain ok fs1 where r: "rotateLocked gz i now (w, fs) = (ok, rotated_writer now w, fs1)" "writer_ok (rotated_writer now w, fs1)"
    using rotate_ok [OF assms(1-3)] by blast
  then have "fs_data fs1 (w_filename w) = []" by (simp add: writer_ok_def)
  have "write_line gz i now line (w, fs) = append_line i now (sanitizeLine line) (rotated_writer now w, fs1)"
    using assms True r by (simp add: write_line_def Let_def writer_ok_def)
  then show ?thesis using append_ok [OF assms(1) r(2), of "sanitizeLine line" now] assms \<open>fs_data fs1 (w_filename w) = []\<close>
    by (auto simp: writer_ok_def)
next
  case False
  have "write_line gz i now line (w, fs) = append_line i now (sanitizeLine line) (w, fs)"
    using assms False by (simp add: write_line_def Let_def writer_ok_def)
  moreover have "fs_data fs (w_filename w) = [] \<or> w_size w + int (length (sanitizeLine line)) + 1 \<le> rp_maxBytes (w_rotate w)"
    using False assms by (auto simp: needsRotateLocked_def rp_enabled_def writer_ok_def wrap64_id algebra_simps split: if_splits)
  moreover have "w_size w = int (length (fs_data fs (w_filename w)))" using assms(2) by (simp add: writer_ok_def)
  ultimately show ?thesis using append_ok [OF assms(1,2,6), of now] assms(7) by (auto simp: algebra_simps)
qed

section \<open>A sample directory\<close>

definition no_io_faults :: io where
  "no_io_faults = \<lparr>io_close = False, io_rename = False, io_open = False, io_readdir = False,
     io_remove = (\<lambda>_. False), io_stat = (\<lambda>_. False), io_compress = False, io_write = False\<rparr>"

lemma no_io_faults_ok: "no_faults no_io_faults"
  by (simp add: no_faults_def no_io_faults_def)

definition sample_file :: "string \<Rightarrow> int \<Rightarrow> dentry" where
  "sample_file d t = File \<lparr>lf_data = d, lf_mtime = \<lparr>g_ns = t, g_off = 0\<rparr>\<rparr>"

definition sample_dir :: logdir where
  "sample_dir = [(''app-1.log'', sample_file ''x'' 1), (''app.log'', sample_file ''new'' 3), (''app-2.log'', sample_file ''y'' 2)]"

definition sample_writer :: "keepMode \<Rightarrow> writer" where
  "sample_writer k = (idle_writer ''text'')\<lparr>w_file := Some HOpen, w_dir := ''/log'', w_filename := ''app.log'', w_size := 3,
     w_rotate := \<lparr>rp_period = [], rp_maxBytes = 20\<rparr>, w_keep := k\<rparr>"

lemmas sample_defs = sample_dir_def sample_file_def sample_writer_def idle_writer_def

lemmas archive_eval = archives_def is_archive_def archivePrefixSuffix_def Ext_def LastIndexByte_def TrimSuffix_def
  HasSuffix_def HasPrefix_def Let_def

theorem count_retention_witness:
  "\<exists>fs'. pruneLocked no_io_faults epoch (sample_writer (KeepCount 1)) sample_dir = (True, fs')
     \<and> archives ''app.log'' fs' = [''app-2.log''] \<and> map_of fs' ''app.log'' = Some (sample_file ''new'' 3)"
proof -
  have ok: "dir_ok sample_dir" "w_keep (sample_writer (KeepCount 1)) = KeepCount 1"
    "w_dir (sample_writer (KeepCount 1)) \<noteq> []" "w_filename (sample_writer (KeepCount 1)) = ''app.log''"
    by (simp_all add: dir_ok_def sample_defs)
  then obtain fs' where f: "pruneLocked no_io_faults epoch (sample_writer (KeepCount 1)) sample_dir = (True, fs')"
    "archives ''app.log'' fs' = take (nat 1) (archives ''app.log'' sample_dir)"
    "\<forall>k. k \<notin> set (archives ''app.log'' sample_dir) \<or> k \<in> set (archives ''app.log'' fs') \<longrightarrow> map_of fs' k = map_of sample_dir k"
    using count_retention [OF no_io_faults_ok ok(1,2,3), of epoch] by auto
  have "archives ''app.log'' sample_dir = [''app-2.log'', ''app-1.log'']" by (simp add: archive_eval sample_defs)
  then show ?thesis using f by (simp add: sample_defs)
qed

lemma sane_line: "sanitizeLine ''line'' = ''line''"
  by (simp add: sanitizeLine_id high_byte_def control_rune_single)

theorem write_bounded_witness:
  "\<exists>w' fs'. write_line id no_io_faults epoch ''line'' (sample_writer KeepNone, sample_dir) = (w', fs')
     \<and> writer_ok (w', fs') \<and> (fs_data fs' ''app.log'' = ''line'' @ [CHR 0x0A] \<or> length (fs_data fs' ''app.log'') \<le> 20)"
proof -
  let ?w = "sample_writer KeepNone"
  obtain w' fs' where w: "write_line id no_io_faults epoch ''line'' (?w, sample_dir) = (w', fs')" by fastforce
  have a: "map_of sample_dir n \<noteq> Some Subdir" for n by (simp add: sample_defs)
  have b: "writer_ok (?w, sample_dir)" "w_filename ?w = ''app.log''" "w_rotate ?w = \<lparr>rp_period = [], rp_maxBytes = 20\<rparr>" "w_size ?w = 3"
    by (simp_all add: writer_ok_def dir_ok_def fs_data_def sample_defs)
  show ?thesis
    using write_bounded [OF no_io_faults_ok b(1) a _ _ _ w] w by (simp add: b sane_line)
qed

section \<open>What the policies do not guarantee\<close>

text \<open>An unrelated file whose name begins with the base name and a dash counts as an archive.\<close>

lemma prune_takes_unrelated:
  "pruneLocked no_io_faults epoch (sample_writer KeepNone) [(''app-debug.log'', sample_file ''d'' 1)] = (True, [])"
  by (simp add: pruneLocked_def archive_eval sample_defs no_io_faults_def prune_remove_def fs_delete_def fs_remove_def)

text \<open>An age that does not fit a duration becomes negative, and an archive of this instant is expired.\<close>

lemma long_age_is_negative: "parseKeep ''200000d'' = KeepAge (- 1166744073709551616)"
  by (simp add: parseKeep_def str_simps ParseInt64_def parse_uint_def is_digit_def digit_val_def wrap64_def day_ns_def Let_def)

lemma long_age_deletes_all:
  "pruneLocked no_io_faults \<lparr>g_ns = 1, g_off = 0\<rparr> (sample_writer (parseKeep ''200000d'')) [(''app-1.log'', sample_file ''x'' 1)] = (True, [])"
  by (simp add: long_age_is_negative pruneLocked_def archive_eval sample_defs no_io_faults_def prune_age_def prune_remove_def
      mtime_def Before_def Add_def fs_delete_def fs_remove_def)

text \<open>When the file cannot be opened again after the rename, the writer has no handle and stays silent.\<close>

lemma no_handle_is_silent: "w_file w = None \<Longrightarrow> write_line gz i now line (w, fs) = (w, fs)"
  by (simp add: write_line_def Let_def)

lemma reopen_failure_silences:
  assumes "writer_ok (w, fs)" "\<not> io_close i" "\<not> io_rename i" "io_open i"
    and "map_of fs (archiveName (w_filename w) now) \<noteq> Some Subdir"
  shows "w_file (fst (snd (rotateLocked gz i now (w, fs)))) = None"
  using assms by (auto simp: rotateLocked_def writer_ok_def fs_rename_def fs_open_def Let_def)

text \<open>In the repeated hour at the end of summer time a later archive has a smaller name.\<close>

lemma summer_time_order:
  "archiveName ''app.log'' \<lparr>g_ns = 1761442200 * 10 ^ 9, g_off = 3600\<rparr>
     < archiveName ''app.log'' \<lparr>g_ns = 1761440340 * 10 ^ 9, g_off = 7200\<rparr>"
  by (simp add: archiveName_def fmt_stamp_def appendInt_def padnat_def dchar_def Ext_def LastIndexByte_def TrimSuffix_def HasSuffix_def
      char_of_literal Year_def Month_def Day_def Hour_def Minute_of_def Second_of_def day_of_def sec_of_def local_sec_def Unix_def
      year_of_def year_start_def month_index_def mday_def yday0_def month_starts_def leap_def Let_def)

end
