(* ===== verification/LogHistory.thy ===== *)
theory LogHistory
  imports LogRotate
begin

text \<open>
  What a log holds over a whole history of writes: the archives in the order of their names,
  followed by the active file, are the sanitised records in the order they were written. This
  needs retention that keeps archives, and rotations in different seconds, since a second
  rotation in one second renames over the archive of the first.
\<close>

section \<open>Histories\<close>

definition log_text :: "string \<Rightarrow> logdir \<Rightarrow> string" where
  "log_text f fs = concat (map (fs_data fs) (rev (archives f fs))) @ fs_data fs f"

fun write_all :: "(string \<Rightarrow> string) \<Rightarrow> io \<Rightarrow> (gtime \<times> string) list \<Rightarrow> wstate \<Rightarrow> wstate" where
  "write_all gz i [] st = st"
| "write_all gz i ((t, l) # ws) st = write_all gz i ws (write_line gz i t l st)"

definition rotates :: "gtime \<Rightarrow> string \<Rightarrow> writer \<Rightarrow> bool" where
  "rotates t l w \<longleftrightarrow> sanitizeLine l \<noteq> [] \<and> w_file w \<noteq> None \<and> needsRotateLocked t (int (length (sanitizeLine l)) + 1) w"

fun rotation_times :: "(string \<Rightarrow> string) \<Rightarrow> io \<Rightarrow> (gtime \<times> string) list \<Rightarrow> wstate \<Rightarrow> gtime list" where
  "rotation_times gz i [] st = []"
| "rotation_times gz i ((t, l) # ws) st =
     (if rotates t l (fst st) then [t] else []) @ rotation_times gz i ws (write_line gz i t l st)"

definition record_text :: "string \<Rightarrow> string" where
  "record_text l = (let s = sanitizeLine l in if s = [] then [] else s @ [CHR 0x0A])"

lemma insort_last: "\<forall>y \<in> set ys. y < a \<Longrightarrow> insort a ys = ys @ [a :: 'a :: linorder]"
  by (induction ys) auto

lemma sort_last: "\<forall>y \<in> set ys. y < a \<Longrightarrow> sort (a # ys) = sort ys @ [a :: 'a :: linorder]"
  by (simp add: insort_last)

lemma filter_remove: "\<not> P (n, e) \<Longrightarrow> (\<And>x. \<not> P (n, x)) \<Longrightarrow> filter P (fs_remove n fs) = filter P fs"
  by (induction fs) (auto simp: fs_remove_def)

lemma fs_remove_absent: "map_of fs n = None \<Longrightarrow> fs_remove n fs = fs"
  by (induction fs) (auto simp: fs_remove_def split: if_splits)

lemma archives_put_active: "archives f (fs_put f e fs) = archives f fs"
  using filter_remove [of "is_archive f" f e fs] active_not_archive [of f] by (simp add: archives_def fs_put_def)

lemma archives_archived:
  assumes "map_of fs f = Some (File x)" "\<forall>a \<in> set (archives f fs). a < archiveName f now" "map_of fs (archiveName f now) = None"
  shows "archives f (archived now f fs) = archiveName f now # archives f fs"
proof -
  let ?a = "archiveName f now"
  have "fs_remove ?a (fs_remove f fs) = fs_remove f fs"
    using assms(3) by (intro fs_remove_absent) (simp add: map_of_fs_remove)
  then have "archives f (fs_put ?a (File x) (fs_remove f fs)) = rev (sort (?a # map fst (filter (is_archive f) fs)))"
    using filter_remove [of "is_archive f" f "File x" fs] active_not_archive [of f] archiveName_is_archive [of f now x]
    by (simp add: archives_def fs_put_def)
  also have "\<dots> = ?a # archives f fs"
    using assms(2) by (subst sort_last) (auto simp: archives_def)
  finally show ?thesis using assms(1) by (simp add: archived_def archives_put_active)
qed

lemma log_text_archived:
  assumes "map_of fs f = Some (File x)" "\<forall>a \<in> set (archives f fs). a < archiveName f now" "map_of fs (archiveName f now) = None"
  shows "log_text f (archived now f fs) = log_text f fs"
proof -
  have "fs_data (archived now f fs) a = fs_data fs a" if "a \<in> set (archives f fs)" for a
    using that assms active_notin_archives [of f fs] by (auto simp: fs_data_def archived_def map_of_fs_remove)
  moreover have "fs_data (archived now f fs) (archiveName f now) = fs_data fs f" "fs_data (archived now f fs) f = []"
    using assms(1) archiveName_neq [of f now] by (auto simp: fs_data_def archived_def)
  moreover from calculation have "map (fs_data (archived now f fs)) (rev (archives f fs)) = map (fs_data fs) (rev (archives f fs))"
    by (intro map_cong) auto
  ultimately show ?thesis
    by (simp only: log_text_def archives_archived [OF assms] rev.simps map_append concat_append) simp
qed

lemma log_text_append:
  "log_text f (fs_put f (File \<lparr>lf_data = fs_data fs f @ s, lf_mtime = t\<rparr>) fs) = log_text f fs @ s"
proof -
  have "map (fs_data (fs_put f (File \<lparr>lf_data = fs_data fs f @ s, lf_mtime = t\<rparr>) fs)) (rev (archives f fs)) = map (fs_data fs) (rev (archives f fs))"
    using active_notin_archives [of f fs] by (intro map_cong) auto
  then show ?thesis by (simp only: log_text_def archives_put_active) simp
qed

definition plain_writer :: "wstate \<Rightarrow> bool" where
  "plain_writer st \<longleftrightarrow> writer_ok st \<and> w_keep (fst st) = KeepForever \<and> \<not> w_compress (fst st)"

definition new_name :: "string \<Rightarrow> logdir \<Rightarrow> gtime \<Rightarrow> bool" where
  "new_name f fs t \<longleftrightarrow> (\<forall>a \<in> set (archives f fs). a < archiveName f t) \<and> map_of fs (archiveName f t) \<noteq> Some Subdir"

lemma new_name_free:
  assumes "new_name f fs t"
  shows "map_of fs (archiveName f t) = None"
proof (cases "map_of fs (archiveName f t)")
  case (Some e)
  then obtain x where "e = File x" using assms by (cases e) (auto simp: new_name_def)
  then have "(archiveName f t, File x) \<in> set fs" using Some by (auto dest: map_of_SomeD)
  then have "archiveName f t \<in> set (archives f fs)" using archiveName_is_archive [of f t x] by (force simp: set_archives)
  then show ?thesis using assms by (auto simp: new_name_def)
qed simp

lemma rotate_plain:
  assumes "no_faults i" "plain_writer (w, fs)" "new_name (w_filename w) fs now"
  shows "rotateLocked gz i now (w, fs) = (True, rotated_writer now w, archived now (w_filename w) fs)"
    and "plain_writer (rotated_writer now w, archived now (w_filename w) fs)"
proof -
  have ok: "writer_ok (w, fs)" "w_keep w = KeepForever" "\<not> w_compress w" using assms(2) by (auto simp: plain_writer_def)
  have "map_of fs (archiveName (w_filename w) now) \<noteq> Some Subdir" using assms(3) by (simp add: new_name_def)
  then show r: "rotateLocked gz i now (w, fs) = (True, rotated_writer now w, archived now (w_filename w) fs)"
    using rotate_unfold [OF assms(1) ok(1)] ok by (simp add: pruneLocked_def)
  show "plain_writer (rotated_writer now w, archived now (w_filename w) fs)"
    using rotate_ok [OF assms(1) ok(1), of now gz] r ok assms(3) by (auto simp: plain_writer_def new_name_def)
qed

lemma write_idle: "sanitizeLine l = [] \<Longrightarrow> write_line gz i t l st = st"
  by (simp add: write_line_def)

lemma append_plain:
  assumes "no_faults i" "plain_writer (w, fs)" "w_size w + int (length s) + 1 < 2 ^ 63"
  shows "\<exists>w' fs'. append_line i t s (w, fs) = (w', fs') \<and> plain_writer (w', fs') \<and> w_filename w' = w_filename w
    \<and> archives (w_filename w) fs' = archives (w_filename w) fs \<and> log_text (w_filename w) fs' = log_text (w_filename w) fs @ s @ [CHR 0x0A]
    \<and> (\<forall>k. k \<noteq> w_filename w \<longrightarrow> map_of fs' k = map_of fs k)"
proof -
  have "append_line i t s (w, fs) = (w\<lparr>w_size := wrap64 (w_size w + int (length s) + 1)\<rparr>,
      fs_put (w_filename w) (File \<lparr>lf_data = fs_data fs (w_filename w) @ s @ [CHR 0x0A], lf_mtime = t\<rparr>) fs)"
    using assms(1,2) by (simp add: append_line_def plain_writer_def writer_ok_def no_faults_def)
  then show ?thesis
    using append_ok [of i w fs s t] assms
    by (auto simp: plain_writer_def archives_put_active log_text_append)
qed

text \<open>One write: the text grows by the record, the archives by at most the one of this second.\<close>

lemma write_plain:
  assumes "no_faults i" "plain_writer (w, fs)" "rotates t l w \<Longrightarrow> new_name (w_filename w) fs t"
    and "w_size w + int (length (sanitizeLine l)) + 1 < 2 ^ 63"
  shows "\<exists>w' fs'. write_line gz i t l (w, fs) = (w', fs') \<and> plain_writer (w', fs') \<and> w_filename w' = w_filename w
    \<and> log_text (w_filename w) fs' = log_text (w_filename w) fs @ record_text l
    \<and> archives (w_filename w) fs' = (if rotates t l w then [archiveName (w_filename w) t] else []) @ archives (w_filename w) fs
    \<and> (\<forall>k. map_of fs' k = Some Subdir \<longleftrightarrow> map_of fs k = Some Subdir)"
proof (cases "sanitizeLine l = []")
  case True
  then show ?thesis using assms(2) by (auto simp: write_idle record_text_def rotates_def)
next
  case False
  let ?f = "w_filename w" and ?s = "sanitizeLine l"
  have open1: "w_file w = Some HOpen" using assms(2) by (simp add: plain_writer_def writer_ok_def)
  obtain x where x: "map_of fs ?f = Some (File x)" using assms(2) by (auto simp: plain_writer_def writer_ok_def)
  show ?thesis
  proof (cases "rotates t l w")
    case True
    note new = assms(3) [OF True]
    let ?st = "(rotated_writer t w, archived t ?f fs)"
    note r = rotate_plain(1) [OF assms(1,2) new, of gz] rotate_plain(2) [OF assms(1,2) new]
    have w: "write_line gz i t l (w, fs) = append_line i t ?s ?st"
      using True False r(1) open1 by (simp add: write_line_def Let_def rotates_def)
    have "w_size (rotated_writer t w) + int (length ?s) + 1 < 2 ^ 63"
      using assms(2,4) by (simp add: plain_writer_def writer_ok_def)
    then obtain w' fs' where a: "append_line i t ?s ?st = (w', fs')" "plain_writer (w', fs')" "w_filename w' = ?f"
      "archives ?f fs' = archives ?f (archived t ?f fs)" "log_text ?f fs' = log_text ?f (archived t ?f fs) @ ?s @ [CHR 0x0A]"
      "\<forall>k. k \<noteq> ?f \<longrightarrow> map_of fs' k = map_of (archived t ?f fs) k"
      using append_plain [OF assms(1) r(2), of ?s t] unfolding rotate_fields by blast
    have old: "\<forall>b \<in> set (archives ?f fs). b < archiveName ?f t" "map_of fs (archiveName ?f t) = None"
      using new new_name_free [OF new] by (auto simp: new_name_def)
    have "map_of fs' k = Some Subdir \<longleftrightarrow> map_of fs k = Some Subdir" for k
      using a(2,3,6) x old(2) by (cases "k = ?f") (auto simp: archived_def map_of_fs_remove plain_writer_def writer_ok_def)
    then show ?thesis using w a True False archives_archived [OF x old] log_text_archived [OF x old]
      by (simp add: record_text_def Let_def)
  next
    case no: False
    have "write_line gz i t l (w, fs) = append_line i t ?s (w, fs)"
      using False no open1 by (simp add: write_line_def Let_def rotates_def)
    moreover obtain w' fs' where a: "append_line i t ?s (w, fs) = (w', fs')" "plain_writer (w', fs')" "w_filename w' = ?f"
      "archives ?f fs' = archives ?f fs" "log_text ?f fs' = log_text ?f fs @ ?s @ [CHR 0x0A]" "\<forall>k. k \<noteq> ?f \<longrightarrow> map_of fs' k = map_of fs k"
      using append_plain [OF assms(1,2,4), of t] by blast
    moreover have "map_of fs' k = Some Subdir \<longleftrightarrow> map_of fs k = Some Subdir" for k
      using a(2,3,6) x by (cases "k = ?f") (auto simp: plain_writer_def writer_ok_def)
    ultimately show ?thesis using no False by (simp add: record_text_def Let_def)
  qed
qed

fun sizes_ok :: "(string \<Rightarrow> string) \<Rightarrow> io \<Rightarrow> (gtime \<times> string) list \<Rightarrow> wstate \<Rightarrow> bool" where
  "sizes_ok gz i [] st = True"
| "sizes_ok gz i ((t, l) # ws) st =
     (w_size (fst st) + int (length (sanitizeLine l)) + 1 < 2 ^ 63 \<and> sizes_ok gz i ws (write_line gz i t l st))"

definition later :: "gtime \<Rightarrow> gtime \<Rightarrow> bool" where
  "later t u \<longleftrightarrow> g_off t = g_off u \<and> Unix t < Unix u \<and> 0 \<le> Year t \<and> Year u < 10000"


section \<open>A sample history\<close>

definition noon :: "int \<Rightarrow> gtime" where
  "noon s = \<lparr>g_ns = (1767268800 + s) * 10 ^ 9, g_off = 0\<rparr>"

definition small_log :: LogFileConfig where
  "small_log = \<lparr>lc_Enabled = True, lc_Filename = ''app.log'', lc_Format = [], lc_Rotate = ''1b'', lc_Keep = ''forever''\<rparr>"

definition small_writer :: wstate where
  "small_writer = (case openWriter no_io_faults (noon 0) ''/log'' small_log ''text'' False [] of Some st \<Rightarrow> st | None \<Rightarrow> (idle_writer [], []))"

lemma noon_days: "day_of (noon 0) = 20454" "day_of (noon 1) = 20454" "day_of (noon 2) = 20454"
  "sec_of (noon 0) = 43200" "sec_of (noon 1) = 43201" "sec_of (noon 2) = 43202"
  "Unix (noon 0) = 1767268800" "Unix (noon 1) = 1767268801" "Unix (noon 2) = 1767268802"
  by (simp_all add: day_of_def sec_of_def local_sec_def Unix_def noon_def)

lemma day_20454: "year_of 20454 = 2026" "month_index 20454 = 0" "mday 20454 = 1"
  by (simp_all add: year_of_def year_start_def month_index_def mday_def yday0_def month_starts_def leap_def Let_def)

lemmas noon_fields = noon_days day_20454 Year_def Month_def Day_def Hour_def Minute_of_def Second_of_def

lemma small: "small_writer = ((idle_writer ''text'')\<lparr>w_file := Some HOpen, w_dir := ''/log'', w_filename := ''app.log'', w_rotate := \<lparr>rp_period = [], rp_maxBytes = 1\<rparr>,
   w_keep := KeepForever, w_opened := noon 0\<rparr>, [(''app.log'', File \<lparr>lf_data = [], lf_mtime = noon 0\<rparr>)])"
  by (simp add: small_writer_def openWriter_def small_log_def no_io_faults_def fs_open_def fs_put_def fs_remove_def fileSize_def fs_data_def resolveFormat_def str_simps
     parseRotate_def rotate_token_def parseSize_def parseKeep_def ParseInt64_def parse_uint_def is_digit_def digit_val_def wrap64_def mtime_def Let_def idle_writer_def)

lemma sane: "sanitizeLine ''a'' = ''a''" "sanitizeLine ''b'' = ''b''" "sanitizeLine ''c'' = ''c''"
  by (simp_all add: sanitizeLine_id high_byte_def control_rune_single)

lemma archive_names: "archiveName ''app.log'' (noon 1) = ''app-20260101-120001.log''" "archiveName ''app.log'' (noon 2) = ''app-20260101-120002.log''"
  by (simp_all add: archiveName_def fmt_stamp_def noon_fields appendInt_def padnat_def dchar_def Ext_def LastIndexByte_def TrimSuffix_def HasSuffix_def char_of_literal)

lemmas write_eval = write_line_def append_line_def rotateLocked_def needsRotateLocked_def rp_enabled_def fs_rename_def fs_open_def fs_put_def fs_remove_def
  fs_data_def pruneLocked_def no_io_faults_def idle_writer_def wrap64_def sane archive_names Let_def

text \<open>Three records in one second with a tiny ceiling: the second rotation overwrites the archive of the first.\<close>

lemma same_second_loses:
  "log_text ''app.log'' (snd (write_all id no_io_faults [(noon 1, ''a''), (noon 1, ''b''), (noon 1, ''c'')] small_writer))
     = ''b'' @ [CHR 0x0A] @ ''c'' @ [CHR 0x0A]"
  by (simp add: small write_eval log_text_def archives_def is_archive_def archivePrefixSuffix_def Ext_def LastIndexByte_def TrimSuffix_def HasSuffix_def HasPrefix_def)

lemma sample_run:
  "rotation_times id no_io_faults [(noon 1, ''a''), (noon 1, ''b''), (noon 2, ''c'')] small_writer = [noon 1, noon 2]"
  "sizes_ok id no_io_faults [(noon 1, ''a''), (noon 1, ''b''), (noon 2, ''c'')] small_writer"
  by (simp_all add: small write_eval rotates_def)

lemma small_plain: "plain_writer small_writer"
  by (simp add: plain_writer_def small writer_ok_def dir_ok_def fs_data_def idle_writer_def)


end
