(* ===== verification/BackupRetention.thy ===== *)
theory BackupRetention
  imports GoTime "HOL-Library.Multiset"
begin

text \<open>
  File \<open>backup_retention.go\<close>: which backups survive. The backup directory is the list of its
  entries; which removals fail is decided by a predicate on names. \<open>sort.Slice\<close> is not stable, so
  the sorter is a parameter of which only its contract is used: a permutation, newest first. The
  size cap is an argument, as its text is read with floating-point arithmetic.
\<close>

section \<open>Listing\<close>

record backupFileInfo =
  bf_name :: string
  bf_mod :: gtime
  bf_size :: int

datatype backup_entry = BackupDir string | BackupFile backupFileInfo | NoInfo string

definition sorts :: "(backupFileInfo list \<Rightarrow> backupFileInfo list) \<Rightarrow> bool" where
  "sorts srt \<longleftrightarrow> (\<forall>xs. mset (srt xs) = mset xs \<and> sorted_wrt (\<lambda>a b. \<not> After (bf_mod b) (bf_mod a)) (srt xs))"

definition is_full :: "string \<Rightarrow> bool" where
  "is_full n \<longleftrightarrow> HasPrefix n ''ipgaze_backup_'' \<and> Contains n ''.tar.gz''"

definition backupIncrementalFileRe :: "string \<Rightarrow> bool" where
  "backupIncrementalFileRe n \<longleftrightarrow>
     n \<in> {''ipgaze-daily.tar.gz'', ''ipgaze-daily.tar.gz.enc'', ''ipgaze-hourly.tar.gz'', ''ipgaze-hourly.tar.gz.enc''}"

fun files_where :: "(string \<Rightarrow> bool) \<Rightarrow> backup_entry list \<Rightarrow> backupFileInfo list" where
  "files_where P [] = []"
| "files_where P (BackupFile f # es) = (if P (bf_name f) then f # files_where P es else files_where P es)"
| "files_where P (_ # es) = files_where P es"

text \<open>\<open>None\<close> for the directory is a read error other than its absence.\<close>

definition listFullBackups ::
  "(backupFileInfo list \<Rightarrow> backupFileInfo list) \<Rightarrow> backup_entry list option \<Rightarrow> backupFileInfo list option" where
  "listFullBackups srt d = map_option (\<lambda>es. srt (files_where is_full es)) d"

definition listAllBackupFiles ::
  "(backupFileInfo list \<Rightarrow> backupFileInfo list) \<Rightarrow> backup_entry list option \<Rightarrow> backupFileInfo list option" where
  "listAllBackupFiles srt d = map_option (\<lambda>es. srt (files_where (\<lambda>n. is_full n \<or> backupIncrementalFileRe n) es)) d"

definition isFalseyRetentionValue :: "string \<Rightarrow> bool" where
  "isFalseyRetentionValue s \<longleftrightarrow>
     ToLower (TrimSpace s) \<in> {''0'', ''false'', ''no'', ''none'', ''disable'', ''disabled'', ''off'', []}"

section \<open>Retention\<close>

fun keep_loop :: "int \<Rightarrow> int \<Rightarrow> (gtime \<Rightarrow> bool) \<Rightarrow> backupFileInfo list \<Rightarrow> string list \<Rightarrow> string list" where
  "keep_loop kept n matches [] keep = keep"
| "keep_loop kept n matches (f # fulls) keep =
     (if \<not> matches (bf_mod f) then keep_loop kept n matches fulls keep
      else let keep = bf_name f # keep; kept = kept + 1 in
        if n \<le> kept then keep else keep_loop kept n matches fulls keep)"

definition keepPeriodic :: "int \<Rightarrow> (gtime \<Rightarrow> bool) \<Rightarrow> backupFileInfo list \<Rightarrow> string list \<Rightarrow> string list" where
  "keepPeriodic n matches fulls keep = (if n \<le> 0 then keep else keep_loop 0 n matches fulls keep)"

record BackupRetentionConfig =
  rc_MaxBackups :: int
  rc_KeepWeekly :: int
  rc_KeepMonthly :: int
  rc_KeepYearly :: int

definition maxBackups :: "BackupRetentionConfig \<Rightarrow> int" where
  "maxBackups r = (if rc_MaxBackups r < 1 then 1 else rc_MaxBackups r)"

definition keep_names :: "BackupRetentionConfig \<Rightarrow> backupFileInfo list \<Rightarrow> string list" where
  "keep_names r fulls =
     keepPeriodic (rc_KeepYearly r) (\<lambda>t. YearDay t = 1) fulls
       (keepPeriodic (rc_KeepMonthly r) (\<lambda>t. Day t = 1) fulls
         (keepPeriodic (rc_KeepWeekly r) (\<lambda>t. Weekday t = 0) fulls
           (map bf_name (take (nat (maxBackups r)) fulls))))"

fun entry_name :: "backup_entry \<Rightarrow> string" where
  "entry_name (BackupDir n) = n"
| "entry_name (BackupFile f) = bf_name f"
| "entry_name (NoInfo n) = n"

definition remove_entry :: "string \<Rightarrow> backup_entry list \<Rightarrow> backup_entry list" where
  "remove_entry n es = filter (\<lambda>e. entry_name e \<noteq> n) es"

text \<open>The state of a pass: the directory and the names deleted so far.\<close>

fun delete_loop :: "(string \<Rightarrow> bool) \<Rightarrow> string list \<Rightarrow> backupFileInfo list \<Rightarrow> backup_entry list \<times> string list \<Rightarrow> backup_entry list \<times> string list" where
  "delete_loop rmFails keep [] st = st"
| "delete_loop rmFails keep (f # fulls) (es, deleted) =
     (if bf_name f \<in> set keep then delete_loop rmFails keep fulls (es, deleted)
      else if rmFails (bf_name f) then delete_loop rmFails keep fulls (es, deleted)
      else delete_loop rmFails keep fulls (remove_entry (bf_name f) es, deleted @ [bf_name f]))"

text \<open>The loop of the size cap runs over the files from the oldest on; the list is given oldest first.\<close>

fun cap_loop :: "(string \<Rightarrow> bool) \<Rightarrow> int \<Rightarrow> int \<Rightarrow> backupFileInfo list \<Rightarrow> backup_entry list \<times> string list \<Rightarrow> backup_entry list \<times> string list" where
  "cap_loop rmFails cap tot [] st = st"
| "cap_loop rmFails cap tot (f # fs) (es, deleted) =
     (if \<not> cap < tot then (es, deleted)
      else if rmFails (bf_name f) then cap_loop rmFails cap tot fs (es, deleted)
      else cap_loop rmFails cap (tot - bf_size f) fs (remove_entry (bf_name f) es, deleted @ [bf_name f]))"

definition total_size :: "backupFileInfo list \<Rightarrow> int" where
  "total_size fs = sum_list (map bf_size fs)"

definition applyBackupRetention ::
  "(backupFileInfo list \<Rightarrow> backupFileInfo list) \<Rightarrow> (string \<Rightarrow> bool) \<Rightarrow> int option \<Rightarrow> BackupRetentionConfig
     \<Rightarrow> backup_entry list option \<Rightarrow> backup_entry list option \<times> string list" where
  "applyBackupRetention srt rmFails cap r d =
     (case (listFullBackups srt d, listAllBackupFiles srt d) of
        (Some fulls, Some allFiles) \<Rightarrow>
          if fulls = [] \<and> allFiles = [] then (d, [])
          else (case d of
            None \<Rightarrow> (d, [])
          | Some es \<Rightarrow>
              let (es, deleted) = delete_loop rmFails (keep_names r fulls) fulls (es, []) in
              (case cap of
                 None \<Rightarrow> (Some es, deleted)
               | Some c \<Rightarrow>
                   (case listAllBackupFiles srt (Some es) of
                      None \<Rightarrow> (Some es, deleted)
                    | Some remaining \<Rightarrow>
                        (case cap_loop rmFails c (total_size remaining) (rev remaining) (es, deleted) of
                           (es, deleted) \<Rightarrow> (Some es, deleted)))))
      | _ \<Rightarrow> (d, []))"

section \<open>Disk space\<close>

definition u64wrap :: "int \<Rightarrow> int" where
  "u64wrap x = x mod 2 ^ 64"

text \<open>\<open>disk\<close> is the free space and the used percentage, or an error; the result is whether to skip.\<close>

definition backupDiskSpaceExceeded ::
  "(backupFileInfo list \<Rightarrow> backupFileInfo list) \<Rightarrow> (int \<times> int) option \<Rightarrow> int \<Rightarrow> backup_entry list option \<Rightarrow> bool" where
  "backupDiskSpaceExceeded srt disk thresholdPercent d =
     (case disk of
        None \<Rightarrow> False
      | Some (free, usedPercent) \<Rightarrow>
          let threshold = (if thresholdPercent \<le> 0 \<or> 100 < thresholdPercent then 90 else thresholdPercent);
              mostRecentSize = (case listFullBackups srt d of Some (f # _) \<Rightarrow> bf_size f | _ \<Rightarrow> 0);
              insufficientFree = (0 < mostRecentSize \<and> free < u64wrap (2 * mostRecentSize)) in
          \<not> (\<not> insufficientFree \<and> usedPercent \<le> threshold))"

section \<open>Rendering a size\<close>

text \<open>The divisor and the index into the unit letters \<open>KMGTPE\<close> that \<open>formatByteSize\<close> computes.\<close>

function unit_loop :: "int \<Rightarrow> int \<Rightarrow> nat \<Rightarrow> int \<times> nat" where
  "unit_loop v d e = (if 1024 \<le> v then unit_loop (v div 1024) (d * 1024) (e + 1) else (d, e))"
  by auto
termination by (relation "measure (\<lambda>(v, d, e). nat v)") auto

declare unit_loop.simps [simp del]

definition formatByteSize_unit :: "int \<Rightarrow> (int \<times> nat) option" where
  "formatByteSize_unit n = (if n < 1024 then None else Some (unit_loop (n div 1024) 1024 0))"

section \<open>What is kept\<close>

definition newest_matching :: "int \<Rightarrow> (gtime \<Rightarrow> bool) \<Rightarrow> backupFileInfo list \<Rightarrow> backupFileInfo list" where
  "newest_matching n matches fulls = take (nat n) (filter (\<lambda>f. matches (bf_mod f)) fulls)"

lemma keep_loop_set:
  "kept < n \<Longrightarrow> set (keep_loop kept n m fulls keep) = set keep \<union> bf_name ` set (newest_matching (n - kept) m fulls)"
proof (induction fulls arbitrary: kept keep)
  case (Cons f fulls)
  have "nat (n - kept) = Suc (nat (n - (kept + 1)))" using Cons.prems by simp
  then show ?case
    using Cons.prems Cons.IH [of kept keep] Cons.IH [of "kept + 1" "bf_name f # keep"]
    by (cases "n \<le> kept + 1") (auto simp: newest_matching_def)
qed (simp add: newest_matching_def)

lemma keepPeriodic_set:
  "set (keepPeriodic n m fulls keep) = set keep \<union> bf_name ` set (newest_matching n m fulls)"
  using keep_loop_set [of 0 n m fulls keep] by (auto simp: keepPeriodic_def newest_matching_def)

definition retained :: "BackupRetentionConfig \<Rightarrow> backupFileInfo list \<Rightarrow> backupFileInfo set" where
  "retained r fulls =
     set (take (nat (maxBackups r)) fulls) \<union> set (newest_matching (rc_KeepWeekly r) (\<lambda>t. Weekday t = 0) fulls)
     \<union> set (newest_matching (rc_KeepMonthly r) (\<lambda>t. Day t = 1) fulls)
     \<union> set (newest_matching (rc_KeepYearly r) (\<lambda>t. YearDay t = 1) fulls)"

lemma keep_names_set: "set (keep_names r fulls) = bf_name ` retained r fulls"
  by (auto simp: keep_names_def keepPeriodic_set retained_def)

lemma retained_subset: "retained r fulls \<subseteq> set fulls"
  by (auto simp: retained_def newest_matching_def dest: in_set_takeD)

section \<open>Deleting\<close>

lemma delete_loop_exact:
  "delete_loop (\<lambda>_. False) keep fulls (es, deleted)
     = (filter (\<lambda>e. entry_name e \<notin> bf_name ` set fulls - set keep) es,
        deleted @ filter (\<lambda>n. n \<notin> set keep) (map bf_name fulls))"
proof (induction fulls arbitrary: es deleted)
  case (Cons f fulls)
  then show ?case by (auto simp: remove_entry_def intro!: filter_cong)
qed simp

lemma set_files_where: "f \<in> set (files_where P es) \<longleftrightarrow> BackupFile f \<in> set es \<and> P (bf_name f)"
  by (induction P es rule: files_where.induct) auto

lemma files_where_filter: "files_where P (filter (\<lambda>e. Q (entry_name e)) es) = filter (\<lambda>f. Q (bf_name f)) (files_where P es)"
  by (induction P es rule: files_where.induct) auto

lemma distinct_files: "distinct (map entry_name es) \<Longrightarrow> distinct (map bf_name (files_where P es))"
proof (induction P es rule: files_where.induct)
  case (2 P f es)
  then show ?case using set_files_where [of _ P es] by (force simp: image_iff)
qed auto

lemma sorts_set: "sorts srt \<Longrightarrow> set (srt xs) = set xs"
  by (metis sorts_def set_mset_mset)

lemma sorts_distinct: "sorts srt \<Longrightarrow> distinct (map bf_name xs) \<Longrightarrow> distinct (map bf_name (srt xs))"
proof -
  assume "sorts srt" "distinct (map bf_name xs)"
  then have "mset (map bf_name (srt xs)) = mset (map bf_name xs)" by (simp add: sorts_def)
  then show ?thesis using \<open>distinct (map bf_name xs)\<close> by (metis distinct_count_atmost_1 mset_eq_setD)
qed

lemma cap_loop_exact:
  assumes "distinct (map bf_name fs)"
  shows "\<exists>k \<le> length fs. cap_loop (\<lambda>_. False) cap tot fs (es, deleted)
      = (filter (\<lambda>e. entry_name e \<notin> bf_name ` set (take k fs)) es, deleted @ map bf_name (take k fs))
    \<and> (k = length fs \<or> tot - total_size (take k fs) \<le> cap)
    \<and> (\<forall>j < k. cap < tot - total_size (take j fs))"
  using assms
proof (induction fs arbitrary: tot es deleted)
  case (Cons f fs)
  show ?case
  proof (cases "cap < tot")
    case True
    obtain k where k: "k \<le> length fs" "cap_loop (\<lambda>_. False) cap (tot - bf_size f) fs (remove_entry (bf_name f) es, deleted @ [bf_name f])
      = (filter (\<lambda>e. entry_name e \<notin> bf_name ` set (take k fs)) (remove_entry (bf_name f) es), (deleted @ [bf_name f]) @ map bf_name (take k fs))"
      "k = length fs \<or> tot - bf_size f - total_size (take k fs) \<le> cap" "\<forall>j < k. cap < tot - bf_size f - total_size (take j fs)"
      using Cons.IH [of "tot - bf_size f" "remove_entry (bf_name f) es" "deleted @ [bf_name f]"] Cons.prems by auto
    have "\<forall>j < Suc k. cap < tot - total_size (take j (f # fs))"
      using k(4) True by (auto simp: total_size_def less_Suc_eq_0_disj algebra_simps)
    then show ?thesis using k True
      by (intro exI [of _ "Suc k"]) (auto simp: total_size_def remove_entry_def algebra_simps intro!: filter_cong)
  next
    case False
    then show ?thesis by (intro exI [of _ 0]) (auto simp: total_size_def)
  qed
qed simp

lemma inj_names: "distinct (map entry_name es) \<Longrightarrow> x \<in> set es \<Longrightarrow> y \<in> set es \<Longrightarrow> entry_name x = entry_name y \<Longrightarrow> x = y"
  by (simp add: distinct_map inj_on_def)

text \<open>The directory after count retention.\<close>

definition after_count :: "BackupRetentionConfig \<Rightarrow> backupFileInfo list \<Rightarrow> backup_entry list \<Rightarrow> backup_entry list" where
  "after_count r fulls es = filter (\<lambda>e. entry_name e \<notin> bf_name ` set fulls - bf_name ` retained r fulls) es"

lemma after_count_set:
  assumes "sorts srt" "distinct (map entry_name es)" "fulls = srt (files_where is_full es)"
  shows "set (after_count r fulls es) = {e \<in> set es. \<forall>f. e = BackupFile f \<and> is_full (bf_name f) \<longrightarrow> f \<in> retained r fulls}"
proof -
  have f: "g \<in> set fulls \<longleftrightarrow> BackupFile g \<in> set es \<and> is_full (bf_name g)" for g
    using assms(1,3) by (simp add: sorts_set set_files_where)
  have "entry_name e \<in> bf_name ` set fulls - bf_name ` retained r fulls
      \<longleftrightarrow> (\<exists>g. e = BackupFile g \<and> is_full (bf_name g) \<and> g \<notin> retained r fulls)" if e: "e \<in> set es" for e
  proof
    assume a: "entry_name e \<in> bf_name ` set fulls - bf_name ` retained r fulls"
    then obtain g where g: "g \<in> set fulls" "entry_name e = bf_name g" by auto
    then have "e = BackupFile g" using inj_names [OF assms(2) e] f by (metis entry_name.simps(2))
    then show "\<exists>g. e = BackupFile g \<and> is_full (bf_name g) \<and> g \<notin> retained r fulls" using a g f by auto
  next
    assume "\<exists>g. e = BackupFile g \<and> is_full (bf_name g) \<and> g \<notin> retained r fulls"
    then obtain g where g: "e = BackupFile g" "is_full (bf_name g)" "g \<notin> retained r fulls" by blast
    then have "g \<in> set fulls" using f e by simp
    moreover have "bf_name g \<notin> bf_name ` retained r fulls"
    proof
      assume "bf_name g \<in> bf_name ` retained r fulls"
      then obtain h where h: "h \<in> retained r fulls" "bf_name g = bf_name h" by auto
      then have "BackupFile h \<in> set es" using retained_subset f by blast
      then have "BackupFile h = BackupFile g" using inj_names [OF assms(2)] e g(1) h(2) by (metis entry_name.simps(2))
      then show False using h g by simp
    qed
    ultimately show "entry_name e \<in> bf_name ` set fulls - bf_name ` retained r fulls" using g(1) by auto
  qed
  then show ?thesis by (auto simp: after_count_def)
qed

lemma apply_retention_unfold:
  assumes "sorts srt"
  shows "applyBackupRetention srt (\<lambda>_. False) cap r (Some es) =
     (let fulls = srt (files_where is_full es);
          es1 = after_count r fulls es;
          del = filter (\<lambda>n. n \<notin> set (keep_names r fulls)) (map bf_name fulls);
          remaining = srt (files_where (\<lambda>n. is_full n \<or> backupIncrementalFileRe n) es1) in
      case cap of None \<Rightarrow> (Some es1, del)
      | Some c \<Rightarrow> (case cap_loop (\<lambda>_. False) c (total_size remaining) (rev remaining) (es1, del) of (es2, del2) \<Rightarrow> (Some es2, del2)))"
proof (cases "srt (files_where is_full es) = [] \<and> srt (files_where (\<lambda>n. is_full n \<or> backupIncrementalFileRe n) es) = []")
  case True
  then have "after_count r [] es = es" by (simp add: after_count_def)
  then show ?thesis using True by (auto simp: applyBackupRetention_def listFullBackups_def listAllBackupFiles_def Let_def split: option.splits)
next
  case False
  then show ?thesis
    by (auto simp: applyBackupRetention_def listFullBackups_def listAllBackupFiles_def delete_loop_exact keep_names_set after_count_def Let_def split: option.splits)
qed

lemma apply_returns:
  "sorts srt \<Longrightarrow> \<exists>es' del. applyBackupRetention srt (\<lambda>_. False) cap r (Some es) = (Some es', del)"
  by (simp add: apply_retention_unfold Let_def split: option.split prod.split)

text \<open>
  C38. Count retention is exact: when removals succeed, the directory afterwards holds every entry it
  held except the full backups that are neither among the newest \<open>max_backups\<close> (at least one)
  nor among the newest configured number made on a Sunday, on the first of a month or on the
  first of January.
\<close>

theorem retention_exact:
  assumes "sorts srt" "distinct (map entry_name es)" "fulls = srt (files_where is_full es)"
    and "applyBackupRetention srt (\<lambda>_. False) None r (Some es) = (Some es', del)"
  shows "set es' = {e \<in> set es. \<forall>f. e = BackupFile f \<and> is_full (bf_name f) \<longrightarrow> f \<in> retained r fulls}"
proof -
  have "es' = after_count r fulls es"
    using assms(4) unfolding apply_retention_unfold [OF assms(1)] Let_def assms(3) by simp
  then show ?thesis using after_count_set [OF assms(1-3)] by blast
qed

text \<open>
  The size cap keeps as many of the newest archives as fit: when removals succeed, the archives left
  after the cap are the longest newest-first run of what count retention left whose sizes sum to
  at most the cap.
\<close>

theorem retention_cap:
  assumes "sorts srt" "distinct (map entry_name es)" "fulls = srt (files_where is_full es)" "0 \<le> c"
    and "remaining = srt (files_where (\<lambda>n. is_full n \<or> backupIncrementalFileRe n) (after_count r fulls es))"
    and "applyBackupRetention srt (\<lambda>_. False) (Some c) r (Some es) = (Some es', del)"
  shows "\<exists>m \<le> length remaining.
      set (files_where (\<lambda>n. is_full n \<or> backupIncrementalFileRe n) es') = set (take m remaining)
    \<and> total_size (take m remaining) \<le> c
    \<and> (\<forall>j. m < j \<and> j \<le> length remaining \<longrightarrow> c < total_size (take j remaining))"
proof -
  let ?P = "\<lambda>n. is_full n \<or> backupIncrementalFileRe n" and ?es = "after_count r fulls es" and ?n = "length remaining"
  have "distinct (map entry_name ?es)" using assms(2) by (simp add: after_count_def distinct_map_filter)
  then have d: "distinct (map bf_name remaining)" using assms(1,5) by (simp add: sorts_distinct distinct_files)
  obtain del0 where loop: "cap_loop (\<lambda>_. False) c (total_size remaining) (rev remaining) (?es, del0) = (es', del)"
    using assms(6) unfolding apply_retention_unfold [OF assms(1)] Let_def assms(3) [symmetric] assms(5) [symmetric]
    by (auto split: prod.splits)
  have "distinct (map bf_name (rev remaining))" using d by (simp add: rev_map [symmetric])
  then obtain k where k: "k \<le> ?n" "es' = filter (\<lambda>e. entry_name e \<notin> bf_name ` set (take k (rev remaining))) ?es"
    "k = ?n \<or> total_size remaining - total_size (take k (rev remaining)) \<le> c"
    "\<forall>j < k. c < total_size remaining - total_size (take j (rev remaining))"
    using cap_loop_exact [of "rev remaining" c "total_size remaining" ?es del0] loop by auto
  have split: "total_size remaining - total_size (take j (rev remaining)) = total_size (take (?n - j) remaining)" for j
  proof -
    have "total_size remaining = total_size (take (?n - j) remaining) + total_size (drop (?n - j) remaining)"
      by (metis append_take_drop_id map_append sum_list.append total_size_def)
    then show ?thesis by (simp add: take_rev total_size_def rev_map [symmetric] sum_list_rev)
  qed
  have "set (files_where ?P es') = {f \<in> set remaining. bf_name f \<notin> bf_name ` set (drop (?n - k) remaining)}"
  proof -
    have "files_where ?P es' = filter (\<lambda>f. bf_name f \<notin> bf_name ` set (take k (rev remaining))) (files_where ?P ?es)"
      unfolding k(2) by (rule files_where_filter)
    moreover have "set (files_where ?P ?es) = set remaining" unfolding assms(5) by (simp add: sorts_set [OF assms(1)])
    ultimately show ?thesis by (auto simp: take_rev)
  qed
  also have "\<dots> = set (take (?n - k) remaining)"
  proof -
    have "distinct (map bf_name (take (?n - k) remaining) @ map bf_name (drop (?n - k) remaining))"
      using d by (simp add: map_append [symmetric] del: map_append)
    moreover have "set remaining = set (take (?n - k) remaining) \<union> set (drop (?n - k) remaining)"
      by (metis append_take_drop_id set_append)
    ultimately show ?thesis by auto
  qed
  finally have "set (files_where ?P es') = set (take (?n - k) remaining)" .
  moreover have "total_size (take (?n - k) remaining) \<le> c"
    using k(3) split [of k] assms(4) by (auto simp: total_size_def)
  moreover have "c < total_size (take j remaining)" if "?n - k < j" "j \<le> ?n" for j
  proof -
    have "?n - j < k" "?n - (?n - j) = j" using that k(1) by linarith+
    then show ?thesis using k(4) split [of "?n - j"] by metis
  qed
  ultimately show ?thesis by (intro exI [of _ "?n - k"]) auto
qed

text \<open>The cap has no floor: an archive larger than the cap is deleted even when it is the newest and only one.\<close>

lemma cap_may_delete_newest:
  assumes "sorts srt" "is_full (bf_name f)" "c < bf_size f"
  shows "applyBackupRetention srt (\<lambda>_. False) (Some c) r (Some [BackupFile f]) = (Some [], [bf_name f])"
proof -
  have s: "srt [g] = [g]" for g
  proof -
    have "mset (srt [g]) = {#g#}" using assms(1) by (simp add: sorts_def)
    then show ?thesis by (metis mset_single_iff_right)
  qed
  have "retained r [f] = {f}" using retained_subset [of r "[f]"] by (auto simp: retained_def maxBackups_def)
  then have "after_count r [f] [BackupFile f] = [BackupFile f]" "set (keep_names r [f]) = {bf_name f}"
    by (simp_all add: after_count_def keep_names_set)
  then show ?thesis using assms by (simp add: apply_retention_unfold s Let_def total_size_def remove_entry_def)
qed

section \<open>Disk space and units\<close>

text \<open>
  A backup is not started on a full disk: if the check lets a backup proceed although the
  disk state is known, the used percentage is within the threshold and twice the size of the
  newest full backup is free.
\<close>

theorem disk_check_sound:
  assumes "\<not> backupDiskSpaceExceeded srt (Some (free, used)) threshold d"
    and "listFullBackups srt d = Some (f # fs)" "0 \<le> bf_size f" "bf_size f < 2 ^ 63" "0 \<le> free"
  shows "2 * bf_size f \<le> free \<and> used \<le> (if threshold \<le> 0 \<or> 100 < threshold then 90 else threshold)"
  using assms by (auto simp: backupDiskSpaceExceeded_def u64wrap_def Let_def split: if_splits)

lemma le_div_unit: "a \<le> n div 1024 \<longleftrightarrow> a * 1024 \<le> (n :: int)"
  using scaled_quotient [of 1024 n] by (intro iffI) linarith+

lemma div_less_unit: "n div 1024 < a \<longleftrightarrow> (n :: int) < a * 1024"
  using le_div_unit [of a n] by linarith

lemma unit_loop_exact:
  assumes "1 \<le> v"
  shows "\<exists>k. unit_loop v d e = (d * 1024 ^ k, e + k) \<and> 1024 ^ k \<le> v \<and> v < 1024 ^ Suc k"
  using assms
proof (induction v d e rule: unit_loop.induct)
  case (1 v d e)
  show ?case
  proof (cases "1024 \<le> v")
    case True
    then have "1 \<le> v div 1024" by (simp add: le_div_unit)
    then obtain k where k: "unit_loop (v div 1024) (d * 1024) (e + 1) = (d * 1024 * 1024 ^ k, e + 1 + k)"
      "1024 ^ k \<le> v div 1024" "v div 1024 < 1024 ^ Suc k" using 1 True by blast
    have "1024 ^ k * 1024 \<le> v" "v < 1024 ^ Suc k * 1024"
      using k(2,3) by (simp_all add: le_div_unit div_less_unit)
    then show ?thesis using k(1) True
      by (intro exI [of _ "Suc k"]) (simp add: unit_loop.simps [of v] mult.commute mult.left_commute)
  next
    case False
    then show ?thesis using 1 by (intro exI [of _ 0]) (simp add: unit_loop.simps [of v])
  qed
qed

text \<open>
  C40. Rendering a size ends with a valid unit: for every size an \<open>int64\<close> can hold the loop
  terminates with an index into the six unit letters, and the divisor is the largest power of
  1024 that is not above the size.
\<close>

theorem formatByteSize_in_range:
  assumes "1024 \<le> n" "n < 2 ^ 63"
  shows "\<exists>d e. formatByteSize_unit n = Some (d, e) \<and> e < 6 \<and> d = 1024 ^ Suc e \<and> d \<le> n \<and> n < d * 1024"
proof -
  have "1 \<le> n div 1024" using assms(1) by (simp add: le_div_unit)
  then obtain k where k: "unit_loop (n div 1024) 1024 0 = (1024 * 1024 ^ k, k)" "1024 ^ k \<le> n div 1024" "n div 1024 < 1024 ^ Suc k"
    using unit_loop_exact [of "n div 1024" 1024 0] by auto
  have b: "1024 ^ k * 1024 \<le> n" "n < 1024 ^ Suc k * 1024"
    using k(2,3) by (simp_all add: le_div_unit div_less_unit)
  have "k < 6"
  proof (rule ccontr)
    assume "\<not> k < 6"
    then have "(1024 :: int) ^ 6 \<le> 1024 ^ k" by (intro power_increasing) auto
    then show False using b(1) assms(2) by simp
  qed
  then show ?thesis using k(1) b assms(1) by (simp add: formatByteSize_unit_def mult.commute)
qed

section \<open>Witnesses\<close>

definition by_time :: "backupFileInfo list \<Rightarrow> backupFileInfo list" where
  "by_time xs = sort_key (\<lambda>f. - g_ns (bf_mod f)) xs"

lemma by_time_sorts: "sorts by_time"
proof -
  have "sorted_wrt (\<lambda>a b. - g_ns (bf_mod a) \<le> - g_ns (bf_mod b)) (by_time xs)" for xs
    using sorted_sort_key [of "\<lambda>f. - g_ns (bf_mod f)" xs] by (simp add: by_time_def sorted_wrt_map)
  then show ?thesis by (simp add: sorts_def After_def not_less by_time_def)
qed

definition sample_backup :: "string \<Rightarrow> int \<Rightarrow> backup_entry" where
  "sample_backup n day = BackupFile \<lparr>bf_name = ''ipgaze_backup_'' @ n @ ''.tar.gz'',
     bf_mod = \<lparr>g_ns = day * 86400 * 10 ^ 9, g_off = 0\<rparr>, bf_size = 10\<rparr>"

definition keep_one :: BackupRetentionConfig where
  "keep_one = \<lparr>rc_MaxBackups = 1, rc_KeepWeekly = 0, rc_KeepMonthly = 0, rc_KeepYearly = 0\<rparr>"

theorem retention_exact_witness:
  "set (the (fst (applyBackupRetention by_time (\<lambda>_. False) None keep_one (Some [sample_backup ''1'' 1, BackupDir ''x'', sample_backup ''2'' 2]))))
     = {BackupDir ''x'', sample_backup ''2'' 2}"
proof -
  let ?es = "[sample_backup ''1'' 1, BackupDir ''x'', sample_backup ''2'' 2]"
  have d: "distinct (map entry_name ?es)" by (simp add: sample_backup_def)
  obtain es' del where r: "applyBackupRetention by_time (\<lambda>_. False) None keep_one (Some ?es) = (Some es', del)"
    by (simp add: apply_retention_unfold [OF by_time_sorts] Let_def)
  have "set es' = {e \<in> set ?es. \<forall>f. e = BackupFile f \<and> is_full (bf_name f) \<longrightarrow> f \<in> retained keep_one (by_time (files_where is_full ?es))}"
    by (rule retention_exact [OF by_time_sorts d refl r])
  also have "\<dots> = {BackupDir ''x'', sample_backup ''2'' 2}"
    by (auto simp: sample_backup_def is_full_def HasPrefix_def Contains_def retained_def by_time_def newest_matching_def keep_one_def maxBackups_def)
  finally show ?thesis using r by simp
qed

theorem retention_cap_witness:
  "set (files_where (\<lambda>n. is_full n \<or> backupIncrementalFileRe n)
       (the (fst (applyBackupRetention by_time (\<lambda>_. False) (Some 15) (keep_one\<lparr>rc_MaxBackups := 2\<rparr>)
          (Some [sample_backup ''1'' 1, sample_backup ''2'' 2])))))
     = {\<lparr>bf_name = ''ipgaze_backup_2.tar.gz'', bf_mod = \<lparr>g_ns = 2 * 86400 * 10 ^ 9, g_off = 0\<rparr>, bf_size = 10\<rparr>}"
proof -
  let ?es = "[sample_backup ''1'' 1, sample_backup ''2'' 2]" and ?r = "keep_one\<lparr>rc_MaxBackups := 2\<rparr>"
  let ?f1 = "\<lparr>bf_name = ''ipgaze_backup_1.tar.gz'', bf_mod = \<lparr>g_ns = 1 * 86400 * 10 ^ 9, g_off = 0\<rparr>, bf_size = 10\<rparr>"
  let ?f2 = "\<lparr>bf_name = ''ipgaze_backup_2.tar.gz'', bf_mod = \<lparr>g_ns = 2 * 86400 * 10 ^ 9, g_off = 0\<rparr>, bf_size = 10\<rparr>"
  let ?all = "\<lambda>n. is_full n \<or> backupIncrementalFileRe n"
  have full: "is_full ''ipgaze_backup_1.tar.gz''" "is_full ''ipgaze_backup_2.tar.gz''"
    by (simp_all add: is_full_def HasPrefix_def Contains_def)
  have d: "distinct (map entry_name ?es)" by (simp add: sample_backup_def)
  have fulls: "by_time (files_where is_full ?es) = [?f2, ?f1]" by (simp add: sample_backup_def full by_time_def)
  have "retained ?r [?f2, ?f1] = {?f1, ?f2}" by (auto simp: retained_def newest_matching_def keep_one_def maxBackups_def)
  then have rem: "by_time (files_where ?all (after_count ?r [?f2, ?f1] ?es)) = [?f2, ?f1]"
    by (simp add: after_count_def sample_backup_def full by_time_def)
  obtain es' del where r: "applyBackupRetention by_time (\<lambda>_. False) (Some 15) ?r (Some ?es) = (Some es', del)"
    using apply_returns [OF by_time_sorts] by blast
  obtain m where m: "m \<le> length [?f2, ?f1]" "set (files_where ?all es') = set (take m [?f2, ?f1])"
    "total_size (take m [?f2, ?f1]) \<le> 15" "\<forall>j. m < j \<and> j \<le> length [?f2, ?f1] \<longrightarrow> 15 < total_size (take j [?f2, ?f1])"
    using retention_cap [OF by_time_sorts d fulls [symmetric] _ rem [symmetric] r] by auto
  have "m = 1" using m(1,3) m(4) [rule_format, of 1] by (auto simp: total_size_def le_Suc_eq numeral_2_eq_2)
  then show ?thesis using m(2) r by simp
qed

theorem disk_check_sound_witness:
  "2 * 10 \<le> (1000 :: int) \<and> \<not> backupDiskSpaceExceeded by_time (Some (1000, 50)) 0 (Some [sample_backup ''1'' 1])"
proof -
  let ?f = "\<lparr>bf_name = ''ipgaze_backup_1.tar.gz'', bf_mod = \<lparr>g_ns = 1 * 86400 * 10 ^ 9, g_off = 0\<rparr>, bf_size = 10\<rparr>"
  have l: "listFullBackups by_time (Some [sample_backup ''1'' 1]) = Some [?f]"
    by (simp add: listFullBackups_def sample_backup_def is_full_def HasPrefix_def Contains_def by_time_def)
  then have n: "\<not> backupDiskSpaceExceeded by_time (Some (1000, 50)) 0 (Some [sample_backup ''1'' 1])"
    by (simp add: backupDiskSpaceExceeded_def u64wrap_def)
  show ?thesis using disk_check_sound [OF n l] n by simp
qed

theorem formatByteSize_in_range_witness:
  "\<exists>d e. formatByteSize_unit 9223372036854775807 = Some (d, e) \<and> e < 6 \<and> d = 1024 ^ Suc e"
  using formatByteSize_in_range [of 9223372036854775807] by auto

end
