(* ===== verification/Updater.thy ===== *)
theory Updater
  imports GoStrings
begin

text \<open>
  Files \<open>common/updatechannel/channel.go\<close>, \<open>updater/update.go\<close>, \<open>updater/replace_unix.go\<close>,
  \<open>config/bool.go\<close> and \<open>mode/mode.go\<close>: update channels, the choice of a release, its verified
  installation, and the readers of boolean and mode settings. The network, the decoded JSON,
  \<open>time.Parse\<close> and SHA-256 are parameters; which file operations fail is a record of flags.
\<close>

section \<open>Channels\<close>

definition Normalize :: "string \<Rightarrow> string option" where
  "Normalize value =
     (let v = ToLower (TrimSpace value) in
      if v = ''stable'' then Some ''stable''
      else if v = ''beta'' then Some ''beta''
      else if v \<in> {''devel'', ''daily'', ''rolling'', ''dev'', ''development''} then Some ''devel''
      else None)"

definition canonical :: "string \<Rightarrow> string" where
  "canonical branch = (case Normalize branch of Some c \<Rightarrow> c | None \<Rightarrow> ''stable'')"

record Asset =
  as_Name :: string
  as_URL :: string

record Release =
  rl_TagName :: string
  rl_Prerelease :: bool
  rl_PublishedAt :: string
  rl_Assets :: "Asset list"

definition matchesBranch :: "Release \<Rightarrow> string \<Rightarrow> bool" where
  "matchesBranch r branch =
     (let branch = canonical branch;
          isBeta = HasSuffix (rl_TagName r) ''-beta'';
          isDevel = (rl_TagName r = ''devel'');
          isStable = (\<not> rl_Prerelease r \<and> \<not> isDevel) in
      if branch = ''stable'' then isStable
      else if branch = ''beta'' then isStable \<or> isBeta
      else if branch = ''devel'' then isStable \<or> isBeta \<or> isDevel
      else False)"

text \<open>\<open>parse\<close> is \<open>time.Parse\<close> with the RFC 3339 layout, in nanoseconds.\<close>

definition publishedAfter :: "(string \<Rightarrow> int option) \<Rightarrow> Release \<Rightarrow> int \<Rightarrow> bool" where
  "publishedAfter parse r buildEpoch =
     (if buildEpoch \<le> 0 \<or> rl_PublishedAt r = [] then False
      else case parse (rl_PublishedAt r) of None \<Rightarrow> False | Some ns \<Rightarrow> buildEpoch < ns div 10 ^ 9)"

definition dur64 :: "int \<Rightarrow> int" where
  "dur64 x = (x + 2 ^ 63) mod 2 ^ 64 - 2 ^ 63"

definition IsEligible :: "(string \<Rightarrow> int option) \<Rightarrow> int \<Rightarrow> Release \<Rightarrow> int \<Rightarrow> bool" where
  "IsEligible parse now r deferDays =
     (if deferDays \<le> 0 then True
      else if rl_PublishedAt r = [] then True
      else case parse (rl_PublishedAt r) of
        None \<Rightarrow> True
      | Some published \<Rightarrow> dur64 (dur64 (deferDays * 24) * (3600 * 10 ^ 9)) \<le> now - published)"

section \<open>The choice of a release\<close>

datatype api_reply = ApiError string | ApiStatus int | Latest Release | Releases "Release list"

definition is_current :: "string \<Rightarrow> Release \<Rightarrow> bool" where
  "is_current currentVersion r \<longleftrightarrow>
     rl_TagName r = currentVersion \<or> TrimPrefix (rl_TagName r) ''v'' = currentVersion"

fun choose_release :: "(string \<Rightarrow> int option) \<Rightarrow> string \<Rightarrow> string \<Rightarrow> int \<Rightarrow> Release list \<Rightarrow> Release option" where
  "choose_release parse currentVersion branch buildEpoch [] = None"
| "choose_release parse currentVersion branch buildEpoch (r # rs) =
     (if \<not> matchesBranch r branch then choose_release parse currentVersion branch buildEpoch rs
      else if rl_TagName r = ''devel'' then
        (if publishedAfter parse r buildEpoch then Some r else choose_release parse currentVersion branch buildEpoch rs)
      else if is_current currentVersion r then None
      else Some r)"

text \<open>
  \<open>api\<close> answers the request for the latest release (\<open>True\<close>) or for all of them; a status other
  than 200 has no body. The result is an error, or a release to install, or none.
\<close>

definition CheckForUpdate ::
  "(bool \<Rightarrow> api_reply) \<Rightarrow> (string \<Rightarrow> int option) \<Rightarrow> string \<Rightarrow> string \<Rightarrow> int \<Rightarrow> string + Release option" where
  "CheckForUpdate api parse currentVersion branch buildEpoch =
     (let branch = canonical branch in
      case api (branch = ''stable'') of
        ApiError e \<Rightarrow> Inl e
      | ApiStatus code \<Rightarrow> if code = 404 then Inr None else Inl ''GitHub API error''
      | Latest r \<Rightarrow>
          if branch = ''stable'' then (if is_current currentVersion r then Inr None else Inr (Some r))
          else Inl ''cannot unmarshal''
      | Releases rs \<Rightarrow>
          if branch = ''stable'' then Inl ''cannot unmarshal''
          else Inr (choose_release parse currentVersion branch buildEpoch rs))"

section \<open>Installation\<close>

definition getBinaryName :: "string \<Rightarrow> string \<Rightarrow> string" where
  "getBinaryName os arch = ''ipgaze-'' @ os @ ''-'' @ arch @ (if os = ''windows'' then ''.exe'' else [])"

fun asset_url :: "string \<Rightarrow> Asset list \<Rightarrow> string" where
  "asset_url name [] = []"
| "asset_url name (a # as) = (if as_Name a = name then as_URL a else asset_url name as)"

type_synonym fetcher = "string \<Rightarrow> (nat \<times> string) option"

fun checksum_line :: "string \<Rightarrow> string list \<Rightarrow> string option" where
  "checksum_line assetName [] = None"
| "checksum_line assetName (line # ls) =
     (case Fields line of
        [h, n] \<Rightarrow> if n = assetName then Some (ToLower h) else checksum_line assetName ls
      | _ \<Rightarrow> checksum_line assetName ls)"

definition fetchExpectedChecksum :: "fetcher \<Rightarrow> Release \<Rightarrow> string \<Rightarrow> string option" where
  "fetchExpectedChecksum fetch release assetName =
     (let url = asset_url ''sha256.txt'' (rl_Assets release) in
      if url = [] then None
      else case fetch url of
        None \<Rightarrow> None
      | Some (status, body) \<Rightarrow>
          if status \<noteq> 200 then None
          else checksum_line assetName (SplitByte (take (2 ^ 20) body) (CHR 0x0A)))"

record file_faults =
  ff_temp :: bool
  ff_write :: bool
  ff_chmod :: bool
  ff_exe :: bool
  ff_stat :: bool
  ff_rename :: bool
  ff_restore :: bool

definition replaceBinary :: "file_faults \<Rightarrow> string \<Rightarrow> string \<Rightarrow> bool \<times> string" where
  "replaceBinary ff current new =
     (if ff_stat ff then (False, current)
      else if ff_rename ff then (False, current)
      else if ff_restore ff then (False, new)
      else (True, new))"

text \<open>The installed binary is a byte string; the flag is whether the update succeeded.\<close>

definition DoUpdate ::
  "fetcher \<Rightarrow> (string \<Rightarrow> string) \<Rightarrow> file_faults \<Rightarrow> string \<Rightarrow> string \<Rightarrow> Release \<Rightarrow> string \<Rightarrow> bool \<times> string" where
  "DoUpdate fetch sha256hex ff os arch release current =
     (let assetName = getBinaryName os arch;
          downloadURL = asset_url assetName (rl_Assets release) in
      if downloadURL = [] then (False, current)
      else case fetchExpectedChecksum fetch release assetName of
        None \<Rightarrow> (False, current)
      | Some expectedSum \<Rightarrow>
          if ff_temp ff then (False, current)
          else case fetch downloadURL of
            None \<Rightarrow> (False, current)
          | Some (status, body) \<Rightarrow>
              if status \<noteq> 200 then (False, current)
              else if ff_write ff then (False, current)
              else if sha256hex body \<noteq> expectedSum then (False, current)
              else if os \<noteq> ''windows'' \<and> ff_chmod ff then (False, current)
              else if ff_exe ff then (False, current)
              else replaceBinary ff current body)"

section \<open>Boolean and mode settings\<close>

definition truthyValues :: "string list" where
  "truthyValues = [''1'', ''y'', ''t'', ''yes'', ''true'', ''on'', ''ok'', ''enable'', ''enabled'', ''yep'', ''yup'', ''yeah'',
     ''aye'', ''si'', ''oui'', ''da'', ''hai'', ''affirmative'', ''accept'', ''allow'', ''grant'', ''sure'', ''totally'']"

definition falsyValues :: "string list" where
  "falsyValues = [''0'', ''n'', ''f'', ''no'', ''false'', ''off'', ''disable'', ''disabled'', ''nope'', ''nah'', ''nay'',
     ''nein'', ''non'', ''niet'', ''iie'', ''lie'', ''negative'', ''reject'', ''block'', ''revoke'', ''deny'', ''never'', ''noway'']"

definition ParseBool :: "string \<Rightarrow> bool \<Rightarrow> bool option" where
  "ParseBool s defaultVal =
     (let s = TrimSpace (ToLower s) in
      if s = [] then Some defaultVal
      else if s \<in> set truthyValues then Some True
      else if s \<in> set falsyValues then Some False
      else None)"

definition IsTruthy :: "string \<Rightarrow> bool" where
  "IsTruthy s \<longleftrightarrow> TrimSpace (ToLower s) \<in> set truthyValues"

definition IsFalsy :: "string \<Rightarrow> bool" where
  "IsFalsy s \<longleftrightarrow> TrimSpace (ToLower s) \<in> set falsyValues"

datatype AppMode = AppModeProduction | AppModeDevelopment | AppModeDebug

fun mode_String :: "AppMode \<Rightarrow> string" where
  "mode_String AppModeProduction = ''production''"
| "mode_String AppModeDevelopment = ''development''"
| "mode_String AppModeDebug = ''debug''"

definition ParseMode :: "string \<Rightarrow> AppMode \<times> bool" where
  "ParseMode s =
     (let normalized = ToLower (TrimSpace s) in
      if normalized \<in> {''dev'', ''devel'', ''development''} then (AppModeDevelopment, True)
      else if normalized \<in> {''prod'', ''production''} then (AppModeProduction, True)
      else (AppModeProduction, False))"

definition ParseModeWithDebugAlias :: "string \<Rightarrow> AppMode \<times> bool \<times> bool" where
  "ParseModeWithDebugAlias s =
     (if ToLower (TrimSpace s) = ''debug'' then (AppModeDebug, True, True)
      else case ParseMode s of (m, ok) \<Rightarrow> (m, False, ok))"

section \<open>Channels are cumulative\<close>

text \<open>The channels in the order of what they include.\<close>

datatype channel = ChStable | ChBeta | ChDevel

fun rank :: "channel \<Rightarrow> nat" where
  "rank ChStable = 0"
| "rank ChBeta = 1"
| "rank ChDevel = 2"

instantiation channel :: linorder
begin

definition less_eq_channel :: "channel \<Rightarrow> channel \<Rightarrow> bool" where
  "less_eq_channel c d \<longleftrightarrow> rank c \<le> rank d"

definition less_channel :: "channel \<Rightarrow> channel \<Rightarrow> bool" where
  "less_channel c d \<longleftrightarrow> rank c < rank d"

instance
proof
  fix c d :: channel
  show "c \<le> d \<Longrightarrow> d \<le> c \<Longrightarrow> c = d" by (cases c; cases d) (simp_all add: less_eq_channel_def)
qed (auto simp: less_eq_channel_def less_channel_def)

end

definition channel_of :: "string \<Rightarrow> channel" where
  "channel_of branch = (let c = canonical branch in
     if c = ''beta'' then ChBeta else if c = ''devel'' then ChDevel else ChStable)"

lemma canonical_cases: "canonical b = ''stable'' \<or> canonical b = ''beta'' \<or> canonical b = ''devel''"
  by (auto simp: canonical_def Normalize_def Let_def split: option.splits)

text \<open>
  Channels are cumulative: a release offered on a channel is offered on every wider one, in the
  order stable, beta, devel, however the channel is spelled; an unknown name is stable, and every
  channel offers the releases that are not pre-releases.
\<close>

theorem channels_cumulative:
  assumes "channel_of b \<le> channel_of b'" "matchesBranch r b"
  shows "matchesBranch r b'"
  using assms canonical_cases [of b] canonical_cases [of b']
  by (auto simp: channel_of_def matchesBranch_def less_eq_channel_def Let_def)


lemma failed_update_keeps_binary:
  assumes "DoUpdate fetch sha256hex ff os arch release current = (False, installed)" "\<not> ff_restore ff"
  shows "installed = current"
  using assms by (auto simp: DoUpdate_def replaceBinary_def Let_def split: if_splits option.splits prod.splits)

section \<open>What is offered\<close>

lemma choose_release_Some:
  "choose_release parse cur b e rs = Some r \<Longrightarrow>
     r \<in> set rs \<and> matchesBranch r b \<and> (if rl_TagName r = ''devel'' then publishedAfter parse r e else \<not> is_current cur r)"
  by (induction rs) (auto split: if_splits)

lemma canonical_idem [simp]: "canonical (canonical b) = canonical b"
  using canonical_cases [of b]
  by (elim disjE) (simp_all add: canonical_def [of "''stable''"] canonical_def [of "''beta''"] canonical_def [of "''devel''"] Normalize_def str_simps)

lemma matchesBranch_canonical [simp]: "matchesBranch r (canonical b) = matchesBranch r b"
  by (simp add: matchesBranch_def)

text \<open>
  An offered release belongs to the channel: on the beta and devel channels the release that
  \<open>CheckForUpdate\<close> returns is one of the listed ones and matches the channel; it is not the
  running version, and the rolling devel release is offered only if it was published after
  the running binary was built.
\<close>

theorem offered_release_matches:
  assumes "CheckForUpdate api parse cur branch epoch = Inr (Some r)" "canonical branch \<noteq> ''stable''"
  shows "(\<exists>rs. api False = Releases rs \<and> r \<in> set rs) \<and> matchesBranch r branch
    \<and> (if rl_TagName r = ''devel'' then publishedAfter parse r epoch else \<not> is_current cur r)"
  using assms choose_release_Some [of parse cur "canonical branch" epoch _ r]
  by (auto simp: CheckForUpdate_def Let_def split: api_reply.splits if_splits)

text \<open>No order of versions is consulted: the latest stable release is offered also when it is older.\<close>

lemma older_release_offered:
  "CheckForUpdate (\<lambda>_. Latest \<lparr>rl_TagName = ''v1.9.0'', rl_Prerelease = False, rl_PublishedAt = [], rl_Assets = []\<rparr>)
     parse ''2.0.0'' ''stable'' epoch
   = Inr (Some \<lparr>rl_TagName = ''v1.9.0'', rl_Prerelease = False, rl_PublishedAt = [], rl_Assets = []\<rparr>)"
  by (simp add: CheckForUpdate_def canonical_def Normalize_def is_current_def str_simps)

text \<open>A waiting period of more than about 292 years wraps around and waits for nothing.\<close>

lemma long_defer_is_none:
  "IsEligible (\<lambda>_. Some 0) 0 \<lparr>rl_TagName = ''v1'', rl_Prerelease = False, rl_PublishedAt = ''x'', rl_Assets = []\<rparr> 106752"
  by (simp add: IsEligible_def dur64_def)

section \<open>Settings\<close>

lemma truthy_falsy_disjoint: "set truthyValues \<inter> set falsyValues = {}"
proof -
  have "list_all (\<lambda>t. t \<notin> set falsyValues) truthyValues" by code_simp
  then show ?thesis by (auto simp: list_all_iff)
qed

lemma empty_no_setting: "[] \<notin> set truthyValues" "[] \<notin> set falsyValues"
  by (simp_all add: truthyValues_def falsyValues_def)

text \<open>
  Boolean settings are read consistently: no text is both truthy and falsy, \<open>ParseBool\<close> answers
  yes or no exactly for these texts whatever the default is, uses the default exactly for blank
  text, and refuses everything else.
\<close>

theorem ParseBool_consistent:
  "\<not> (IsTruthy s \<and> IsFalsy s)
   \<and> (IsTruthy s \<longleftrightarrow> ParseBool s False = Some True)
   \<and> (IsFalsy s \<longleftrightarrow> ParseBool s True = Some False)
   \<and> (ParseBool s True \<noteq> ParseBool s False \<longleftrightarrow> TrimSpace (ToLower s) = [])
   \<and> (ParseBool s d = None \<longleftrightarrow> TrimSpace (ToLower s) \<noteq> [] \<and> \<not> IsTruthy s \<and> \<not> IsFalsy s)"
  using truthy_falsy_disjoint empty_no_setting
  by (auto simp: IsTruthy_def IsFalsy_def ParseBool_def Let_def)

lemma mode_roundtrip: "ParseModeWithDebugAlias (mode_String m) = (m, m = AppModeDebug, True)"
  by (cases m) (simp_all add: ParseModeWithDebugAlias_def ParseMode_def str_simps)

section \<open>Witnesses\<close>

definition sample_release :: Release where
  "sample_release = \<lparr>rl_TagName = ''v2-beta'', rl_Prerelease = True, rl_PublishedAt = [],
     rl_Assets = [\<lparr>as_Name = ''sha256.txt'', as_URL = ''u1''\<rparr>, \<lparr>as_Name = ''ipgaze-linux-amd64'', as_URL = ''u2''\<rparr>]\<rparr>"

definition sample_fetch :: fetcher where
  "sample_fetch u = (if u = ''u1'' then Some (200, ''AB  ipgaze-linux-amd64'') else Some (200, ''new''))"

definition no_file_faults :: file_faults where
  "no_file_faults = \<lparr>ff_temp = False, ff_write = False, ff_chmod = False, ff_exe = False, ff_stat = False,
     ff_rename = False, ff_restore = False\<rparr>"

theorem channels_cumulative_witness: "matchesBranch sample_release '' Rolling''"
proof -
  have "channel_of ''beta'' \<le> channel_of '' Rolling''"
    by (simp add: channel_of_def canonical_def Normalize_def str_simps less_eq_channel_def)
  moreover have "matchesBranch sample_release ''beta''"
    by (simp add: matchesBranch_def canonical_def Normalize_def sample_release_def str_simps)
  ultimately show ?thesis by (rule channels_cumulative)
qed


theorem offered_release_matches_witness:
  "matchesBranch sample_release ''beta'' \<and> CheckForUpdate (\<lambda>_. Releases [sample_release]) (\<lambda>_. None) ''1'' ''beta'' 0 = Inr (Some sample_release)"
proof -
  have c: "canonical ''beta'' = ''beta''" by (simp add: canonical_def Normalize_def str_simps)
  then have m: "CheckForUpdate (\<lambda>_. Releases [sample_release]) (\<lambda>_. None) ''1'' ''beta'' 0 = Inr (Some sample_release)"
    by (simp add: CheckForUpdate_def matchesBranch_def is_current_def sample_release_def str_simps)
  show ?thesis using offered_release_matches [OF m] c m by simp
qed

end
