(* ===== verification/SecurityHeaders.thy ===== *)
theory SecurityHeaders
  imports Complex_Main BodyLimits "HOL-Library.List_Lexorder"
begin

text \<open>
  The response headers of \<open>server/middleware.go\<close> and \<open>server/middleware_headers.go\<close>: the security
  headers with their configuration, the buffering writer of debug mode, and the Onion-Location
  advertisement. A response writer keeps the headers being prepared and, once sent, the status
  and headers on the wire; a handler is the sequence of its writer operations. The sample rate of
  network error logging is a number whose rendering is a parameter.
\<close>

section \<open>Configuration\<close>

definition sq :: "string \<Rightarrow> string" where
  "sq s = CHR 0x27 # s @ [CHR 0x27]"

definition dq :: "string \<Rightarrow> string" where
  "dq s = CHR 0x22 # s @ [CHR 0x22]"

record CSPDirective =
  cd_Name :: string
  cd_Value :: string
  cd_Extra :: string
  cd_Override :: string

definition resolved :: "CSPDirective \<Rightarrow> string" where
  "resolved d =
     (let value = (if cd_Override d \<noteq> [] then cd_Override d else cd_Value d);
          value = (if cd_Extra d \<noteq> [] then (if value = [] then cd_Extra d else value @ '' '' @ cd_Extra d) else value) in
      if value = [] then cd_Name d else cd_Name d @ '' '' @ value)"

record CSPHeaderConfig =
  cs_Enabled :: bool
  cs_Mode :: string
  cs_Directives :: "CSPDirective list"

record HSTSHeaderConfig =
  hs_Enabled :: bool
  hs_MaxAgeSeconds :: int
  hs_IncludeSubdomains :: bool
  hs_Preload :: bool

record NELHeaderConfig =
  ne_Enabled :: bool
  ne_MaxAgeSeconds :: int
  ne_IncludeSubdomains :: bool
  ne_SampleRate :: rat

record MiscHeaderConfig =
  mh_ContentTypeOptions :: string
  mh_FrameOptions :: string
  mh_XSSProtection :: string
  mh_ReferrerPolicy :: string
  mh_COOP :: string
  mh_COEP :: string
  mh_CORP :: string
  mh_OriginAgentCluster :: bool
  mh_CrossDomainPolicies :: string
  mh_DNSPrefetchControl :: string

record SecurityHeaderConfig =
  sh_HSTS :: HSTSHeaderConfig
  sh_CSP :: CSPHeaderConfig
  sh_PermissionsPolicy :: "(string \<times> string) list"
  sh_Headers :: MiscHeaderConfig
  sh_NEL :: NELHeaderConfig
  sh_ReportsPath :: string
  sh_ReportToMaxAgeSeconds :: int

definition directive :: "string \<Rightarrow> string \<Rightarrow> CSPDirective" where
  "directive n v = \<lparr>cd_Name = n, cd_Value = v, cd_Extra = [], cd_Override = []\<rparr>"

definition default_directives :: "CSPDirective list" where
  "default_directives =
    [directive ''default-src'' (sq ''self''),
     directive ''script-src'' (sq ''self''),
     directive ''style-src'' (sq ''self'' @ '' '' @ sq ''unsafe-inline''),
     directive ''img-src'' (sq ''self'' @ '' data: blob: https:''),
     directive ''font-src'' (sq ''self'' @ '' https:''),
     directive ''connect-src'' (sq ''self''),
     directive ''media-src'' (sq ''self'' @ '' blob:''),
     directive ''worker-src'' (sq ''self'' @ '' blob:''),
     directive ''manifest-src'' (sq ''self''),
     directive ''frame-src'' (sq ''self'' @ '' https://www.openstreetmap.org''),
     directive ''frame-ancestors'' (sq ''self''),
     directive ''base-uri'' (sq ''self''),
     directive ''form-action'' (sq ''self''),
     directive ''object-src'' (sq ''none''),
     directive ''upgrade-insecure-requests'' ([]),
     directive ''report-to'' (''default''),
     directive ''report-uri'' (''/api/v1/server/reports/csp'')]"

definition default_permissions :: "(string \<times> string) list" where
  "default_permissions =
    [(''accelerometer'', ''()''), (''ambient-light-sensor'', ''()''), (''attribution-reporting'', ''()''),
     (''autoplay'', ''(self)''), (''battery'', ''()''), (''browsing-topics'', ''()''),
     (''camera'', ''()''), (''cross-origin-isolated'', ''()''), (''display-capture'', ''()''),
     (''document-domain'', ''()''), (''encrypted-media'', ''(self)''), (''execution-while-not-rendered'', ''()''),
     (''execution-while-out-of-viewport'', ''()''), (''fullscreen'', ''(self)''), (''geolocation'', ''()''),
     (''gyroscope'', ''()''), (''interest-cohort'', ''()''), (''keyboard-map'', ''()''),
     (''magnetometer'', ''()''), (''microphone'', ''()''), (''midi'', ''()''),
     (''navigation-override'', ''()''), (''payment'', ''(self)''), (''picture-in-picture'', ''(self)''),
     (''publickey-credentials-get'', ''(self)''), (''screen-wake-lock'', ''()''), (''storage-access'', ''(self)''),
     (''sync-xhr'', ''()''), (''usb'', ''()''), (''web-share'', ''(self)''),
     (''xr-spatial-tracking'', ''()'')]"

definition DefaultSecurityHeaderConfig :: SecurityHeaderConfig where
  "DefaultSecurityHeaderConfig = \<lparr>
     sh_HSTS = \<lparr>hs_Enabled = True, hs_MaxAgeSeconds = 63072000, hs_IncludeSubdomains = True, hs_Preload = True\<rparr>,
     sh_CSP = \<lparr>cs_Enabled = True, cs_Mode = [], cs_Directives = default_directives\<rparr>,
     sh_PermissionsPolicy = default_permissions,
     sh_Headers = \<lparr>mh_ContentTypeOptions = ''nosniff'', mh_FrameOptions = ''SAMEORIGIN'', mh_XSSProtection = ''1; mode=block'',
       mh_ReferrerPolicy = ''strict-origin-when-cross-origin'', mh_COOP = ''unsafe-none'', mh_COEP = ''unsafe-none'',
       mh_CORP = ''cross-origin'', mh_OriginAgentCluster = True, mh_CrossDomainPolicies = ''none'', mh_DNSPrefetchControl = []\<rparr>,
     sh_NEL = \<lparr>ne_Enabled = True, ne_MaxAgeSeconds = 2592000, ne_IncludeSubdomains = True, ne_SampleRate = 1\<rparr>,
     sh_ReportsPath = ''/api/v1/server/reports'', sh_ReportToMaxAgeSeconds = 10886400\<rparr>"

text \<open>The \<open>web\<close> section of the operator's file.\<close>

record CSPConfig =
  wc_Enabled :: bool
  wc_Mode :: string
  wc_ReportsEnabled :: bool
  wc_ScriptSrc :: "string \<times> string"
  wc_StyleSrc :: "string \<times> string"
  wc_ImgSrc :: "string \<times> string"
  wc_FontSrc :: "string \<times> string"
  wc_ConnectSrc :: "string \<times> string"
  wc_FrameSrc :: "string \<times> string"
  wc_FormAction :: "string \<times> string"

text \<open>Each pair is the extra and the override value of one directive.\<close>

definition adjustments :: "CSPConfig \<Rightarrow> (string \<times> string \<times> string) list" where
  "adjustments csp =
     [(''script-src'', wc_ScriptSrc csp), (''style-src'', wc_StyleSrc csp), (''img-src'', wc_ImgSrc csp),
      (''font-src'', wc_FontSrc csp), (''connect-src'', wc_ConnectSrc csp), (''frame-src'', wc_FrameSrc csp),
      (''form-action'', wc_FormAction csp)]"

definition applyHSTSConfig :: "HSTSHeaderConfig \<Rightarrow> SecurityHeaderConfig \<Rightarrow> SecurityHeaderConfig" where
  "applyHSTSConfig hsts target =
     target\<lparr>sh_HSTS := hsts\<lparr>hs_MaxAgeSeconds :=
       (if 0 < hs_MaxAgeSeconds hsts then hs_MaxAgeSeconds hsts else hs_MaxAgeSeconds (sh_HSTS target))\<rparr>\<rparr>"

definition adjust_directive :: "CSPConfig \<Rightarrow> CSPDirective \<Rightarrow> CSPDirective" where
  "adjust_directive csp d =
     (case map_of (adjustments csp) (cd_Name d) of
        None \<Rightarrow> d
      | Some (extra, override) \<Rightarrow> d\<lparr>cd_Extra := TrimSpace extra, cd_Override := TrimSpace override\<rparr>)"

definition applyCSPConfig :: "CSPConfig \<Rightarrow> SecurityHeaderConfig \<Rightarrow> SecurityHeaderConfig" where
  "applyCSPConfig csp target =
     target\<lparr>sh_CSP := \<lparr>cs_Enabled = wc_Enabled csp, cs_Mode = wc_Mode csp,
       cs_Directives = map (adjust_directive csp)
         (filter (\<lambda>d. \<not> (\<not> wc_ReportsEnabled csp \<and> (cd_Name d = ''report-to'' \<or> cd_Name d = ''report-uri'')))
           (cs_Directives (sh_CSP target)))\<rparr>\<rparr>"

text \<open>The feature map, given by its pairs, is listed in the order of its names.\<close>

definition applyPermissionsPolicyConfig :: "(string \<times> string) list \<Rightarrow> SecurityHeaderConfig \<Rightarrow> SecurityHeaderConfig" where
  "applyPermissionsPolicyConfig features target =
     (if features = [] then target else target\<lparr>sh_PermissionsPolicy := sort_key fst features\<rparr>)"

definition applyMiscHeaderConfig :: "MiscHeaderConfig \<Rightarrow> SecurityHeaderConfig \<Rightarrow> SecurityHeaderConfig" where
  "applyMiscHeaderConfig headers target = target\<lparr>sh_Headers := headers\<rparr>"

definition applyNELConfig :: "NELHeaderConfig \<Rightarrow> SecurityHeaderConfig \<Rightarrow> SecurityHeaderConfig" where
  "applyNELConfig nel target =
     target\<lparr>sh_NEL := nel\<lparr>
       ne_MaxAgeSeconds := (if 0 < ne_MaxAgeSeconds nel then ne_MaxAgeSeconds nel else ne_MaxAgeSeconds (sh_NEL target)),
       ne_SampleRate := (if 0 < ne_SampleRate nel \<and> ne_SampleRate nel \<le> 1 then ne_SampleRate nel else ne_SampleRate (sh_NEL target))\<rparr>\<rparr>"

record web_config =
  web_HSTS :: HSTSHeaderConfig
  web_CSP :: CSPConfig
  web_Permissions :: "(string \<times> string) list"
  web_Headers :: MiscHeaderConfig
  web_NEL :: NELHeaderConfig

definition SecurityHeaderConfigFromApp :: "web_config option \<Rightarrow> SecurityHeaderConfig" where
  "SecurityHeaderConfigFromApp cfg =
     (case cfg of
        None \<Rightarrow> DefaultSecurityHeaderConfig
      | Some c \<Rightarrow>
          applyNELConfig (web_NEL c) (applyMiscHeaderConfig (web_Headers c)
            (applyPermissionsPolicyConfig (web_Permissions c) (applyCSPConfig (web_CSP c)
              (applyHSTSConfig (web_HSTS c) DefaultSecurityHeaderConfig)))))"

section \<open>Header values\<close>

definition fmt_d :: "int \<Rightarrow> string" where
  "fmt_d n = (if n < 0 then ''-'' @ Itoa (nat (- n)) else Itoa (nat n))"

definition cspHeaderValue :: "CSPHeaderConfig \<Rightarrow> string" where
  "cspHeaderValue c = Join (map resolved (cs_Directives c)) ''; ''"

definition cspHeaderName :: "CSPHeaderConfig \<Rightarrow> bool \<Rightarrow> string" where
  "cspHeaderName c debug =
     (let m = ToLower (TrimSpace (cs_Mode c)) in
      if m = ''enforce'' then ''Content-Security-Policy''
      else if m \<in> {''report-only'', ''report_only'', ''reportonly''} then ''Content-Security-Policy-Report-Only''
      else if debug then ''Content-Security-Policy-Report-Only''
      else ''Content-Security-Policy'')"

definition permissionsPolicyValue :: "(string \<times> string) list \<Rightarrow> string" where
  "permissionsPolicyValue features =
     Join (map (\<lambda>(f, v). f @ ''='' @ v) (filter (\<lambda>(f, v). v \<noteq> []) features)) '', ''"

definition hstsHeaderValue :: "HSTSHeaderConfig \<Rightarrow> string" where
  "hstsHeaderValue h =
     ''max-age='' @ fmt_d (hs_MaxAgeSeconds h) @ (if hs_IncludeSubdomains h then ''; includeSubDomains'' else [])
     @ (if hs_Preload h then ''; preload'' else [])"

definition nelHeaderValue :: "(rat \<Rightarrow> string) \<Rightarrow> NELHeaderConfig \<Rightarrow> string" where
  "nelHeaderValue fmt_g n =
     ''{'' @ dq ''report_to'' @ '':'' @ dq ''default'' @ '','' @ dq ''max_age'' @ '':'' @ fmt_d (ne_MaxAgeSeconds n)
     @ '','' @ dq ''include_subdomains'' @ '':'' @ (if ne_IncludeSubdomains n then ''true'' else ''false'')
     @ (if 0 \<le> ne_SampleRate n \<and> ne_SampleRate n < 1 then '','' @ dq ''failure_fraction'' @ '':'' @ fmt_g (ne_SampleRate n) else [])
     @ ''}''"

section \<open>Writers\<close>

record rwriter =
  rw_Header :: header
  rw_Sent :: "(nat \<times> header) option"
  rw_Body :: string

definition rw_WriteHeader :: "nat \<Rightarrow> rwriter \<Rightarrow> rwriter" where
  "rw_WriteHeader code w = (if rw_Sent w = None then w\<lparr>rw_Sent := Some (code, rw_Header w)\<rparr> else w)"

definition rw_Write :: "string \<Rightarrow> rwriter \<Rightarrow> rwriter" where
  "rw_Write b w = (rw_WriteHeader 200 w)\<lparr>rw_Body := rw_Body w @ b\<rparr>"

fun base_op :: "handler_op \<Rightarrow> rwriter \<Rightarrow> rwriter" where
  "base_op (SetHeader n v) w = w\<lparr>rw_Header := Header_Set (rw_Header w) n v\<rparr>"
| "base_op (OpWriteHeader st) w = rw_WriteHeader st w"
| "base_op (OpWrite b) w = rw_Write b w"
| "base_op OpFlush w = rw_WriteHeader 200 w"

text \<open>A handler that wrote nothing is answered with status 200 when it returns.\<close>

definition finish :: "rwriter \<Rightarrow> rwriter" where
  "finish w = rw_WriteHeader 200 w"

text \<open>The buffering writer of debug mode; it implements no flush.\<close>

record timingResponseWriter =
  tw_buf :: string
  tw_status :: nat
  tw_headerMap :: header

fun timing_op :: "handler_op \<Rightarrow> timingResponseWriter \<Rightarrow> timingResponseWriter" where
  "timing_op (SetHeader n v) t = t\<lparr>tw_headerMap := Header_Set (tw_headerMap t) n v\<rparr>"
| "timing_op (OpWriteHeader st) t = t\<lparr>tw_status := st\<rparr>"
| "timing_op (OpWrite b) t = t\<lparr>tw_buf := tw_buf t @ b\<rparr>"
| "timing_op OpFlush t = t"

definition timing_flush :: "timingResponseWriter \<Rightarrow> rwriter \<Rightarrow> rwriter" where
  "timing_flush t w =
     rw_Write (tw_buf t) (rw_WriteHeader (tw_status t)
       (w\<lparr>rw_Header := fold (\<lambda>(k, v) h. Header_Add h k v) (tw_headerMap t) (rw_Header w)\<rparr>))"

definition setHeaderIfSet :: "string \<Rightarrow> string \<Rightarrow> header \<Rightarrow> header" where
  "setHeaderIfSet name value h = (if value = [] then h else Header_Set h name value)"

definition set_when :: "bool \<Rightarrow> string \<Rightarrow> string \<Rightarrow> header \<Rightarrow> header" where
  "set_when c name value h = (if c then Header_Set h name value else h)"

definition security_headers :: "(rat \<Rightarrow> string) \<Rightarrow> SecurityHeaderConfig \<Rightarrow> bool \<Rightarrow> bool \<Rightarrow> string \<Rightarrow> header \<Rightarrow> header" where
  "security_headers fmt_g cfg sslEnabled debug host h =
     (let cspValue = cspHeaderValue (sh_CSP cfg);
          m = sh_Headers cfg;
          reportsEndpoint = dq (''https://'' @ host @ sh_ReportsPath cfg @ ''/default'');
          h = setHeaderIfSet ''X-Content-Type-Options'' (mh_ContentTypeOptions m) h;
          h = setHeaderIfSet ''X-Frame-Options'' (mh_FrameOptions m) h;
          h = setHeaderIfSet ''X-XSS-Protection'' (mh_XSSProtection m) h;
          h = setHeaderIfSet ''Referrer-Policy'' (mh_ReferrerPolicy m) h;
          h = set_when (cs_Enabled (sh_CSP cfg) \<and> cspValue \<noteq> []) (cspHeaderName (sh_CSP cfg) debug) cspValue h;
          h = setHeaderIfSet ''Permissions-Policy'' (permissionsPolicyValue (sh_PermissionsPolicy cfg)) h;
          h = setHeaderIfSet ''X-Permitted-Cross-Domain-Policies'' (mh_CrossDomainPolicies m) h;
          h = setHeaderIfSet ''X-DNS-Prefetch-Control'' (mh_DNSPrefetchControl m) h;
          h = set_when (mh_OriginAgentCluster m) ''Origin-Agent-Cluster'' ''?1'' h;
          h = setHeaderIfSet ''Cross-Origin-Opener-Policy'' (mh_COOP m) h;
          h = setHeaderIfSet ''Cross-Origin-Embedder-Policy'' (mh_COEP m) h;
          h = setHeaderIfSet ''Cross-Origin-Resource-Policy'' (mh_CORP m) h;
          h = Header_Set h ''Reporting-Endpoints'' (''default='' @ reportsEndpoint);
          h = Header_Set h ''Report-To'' (''{'' @ dq ''group'' @ '':'' @ dq ''default'' @ '','' @ dq ''max_age'' @ '':''
                @ fmt_d (sh_ReportToMaxAgeSeconds cfg) @ '','' @ dq ''endpoints'' @ '':[{'' @ dq ''url'' @ '':'' @ reportsEndpoint @ ''}]}'');
          h = set_when (ne_Enabled (sh_NEL cfg)) ''NEL'' (nelHeaderValue fmt_g (sh_NEL cfg)) h in
      set_when (sslEnabled \<and> hs_Enabled (sh_HSTS cfg)) ''Strict-Transport-Security'' (hstsHeaderValue (sh_HSTS cfg)) h)"

text \<open>\<open>timing\<close> is the rendered duration; the handler is the list of its operations.\<close>

definition SecurityHeadersMiddleware ::
  "(rat \<Rightarrow> string) \<Rightarrow> SecurityHeaderConfig \<Rightarrow> bool \<Rightarrow> bool \<Rightarrow> string \<Rightarrow> string \<Rightarrow> handler_op list \<Rightarrow> rwriter \<Rightarrow> rwriter" where
  "SecurityHeadersMiddleware fmt_g cfg sslEnabled debug host timing ops w =
     (let w = w\<lparr>rw_Header := security_headers fmt_g cfg sslEnabled debug host (rw_Header w)\<rparr> in
      if debug then
        (let t = fold timing_op ops \<lparr>tw_buf = [], tw_status = 200, tw_headerMap = []\<rparr> in
         timing_flush (t\<lparr>tw_headerMap := Header_Set (tw_headerMap t) ''Server-Timing'' timing\<rparr>) w)
      else fold base_op ops w)"

section \<open>Onion-Location\<close>

record onionLocationWriter =
  ow_base :: rwriter
  ow_wroteHeader :: bool

definition onion_WriteHeader :: "nat \<Rightarrow> onionLocationWriter \<Rightarrow> onionLocationWriter" where
  "onion_WriteHeader code w =
     (let w = (if \<not> ow_wroteHeader w then
                 (let htmlResponse = HasPrefix (ToLower (Header_Get (rw_Header (ow_base w)) ''Content-Type'')) ''text/html'' in
                  w\<lparr>ow_wroteHeader := True,
                    ow_base := (if code < 200 \<or> 300 \<le> code \<or> \<not> htmlResponse
                      then (ow_base w)\<lparr>rw_Header := Header_Del (rw_Header (ow_base w)) ''Onion-Location''\<rparr>
                      else ow_base w)\<rparr>)
               else w) in
      w\<lparr>ow_base := rw_WriteHeader code (ow_base w)\<rparr>)"

fun onion_op :: "handler_op \<Rightarrow> onionLocationWriter \<Rightarrow> onionLocationWriter" where
  "onion_op (SetHeader n v) w = w\<lparr>ow_base := base_op (SetHeader n v) (ow_base w)\<rparr>"
| "onion_op (OpWriteHeader st) w = onion_WriteHeader st w"
| "onion_op (OpWrite b) w = w\<lparr>ow_base := rw_Write b (ow_base w)\<rparr>"
| "onion_op OpFlush w = w\<lparr>ow_base := rw_WriteHeader 200 (ow_base w)\<rparr>"

definition isOnionLocationCandidate :: "http_request \<Rightarrow> bool" where
  "isOnionLocationCandidate r =
     (if rq_Method r \<noteq> ''GET'' \<and> rq_Method r \<noteq> ''HEAD'' then False
      else let host = ToLower (rq_Host r);
               host = (case IndexByte host (CHR '':'') of Some i \<Rightarrow> take i host | None \<Rightarrow> host) in
        if HasSuffix host ''.onion'' then False
        else if HasPrefix (rq_Path r) ''/api/'' then False
        else let dest = Header_Get (rq_Header r) ''Sec-Fetch-Dest'' in
          if dest \<in> {''document'', ''iframe'', ''frame''} then True
          else if dest = [] then Contains (Header_Get (rq_Header r) ''Accept'') ''text/html''
          else False)"

definition OnionLocationMiddleware :: "string option \<Rightarrow> string \<Rightarrow> http_request \<Rightarrow> handler_op list \<Rightarrow> rwriter \<Rightarrow> rwriter" where
  "OnionLocationMiddleware onionAddress requestURI r ops w =
     (let address = (case onionAddress of None \<Rightarrow> [] | Some a \<Rightarrow> TrimSpace a) in
      if address = [] \<or> \<not> isOnionLocationCandidate r then fold base_op ops w
      else ow_base (fold onion_op ops
        \<lparr>ow_base = w\<lparr>rw_Header := Header_Set (rw_Header w) ''Onion-Location'' (''http://'' @ address @ requestURI)\<rparr>,
         ow_wroteHeader = False\<rparr>))"

definition resolveOnionAddress :: "(bool \<times> bool \<times> string) option \<Rightarrow> string" where
  "resolveOnionAddress st =
     (case st of None \<Rightarrow> [] | Some (available, running, host) \<Rightarrow> if \<not> available \<or> \<not> running then [] else host)"

section \<open>Configured headers reach the wire\<close>

text \<open>The headers the configuration asks for, as a list of names and values.\<close>

definition header_table :: "(rat \<Rightarrow> string) \<Rightarrow> SecurityHeaderConfig \<Rightarrow> bool \<Rightarrow> bool \<Rightarrow> string \<Rightarrow> (bool \<times> string \<times> string) list" where
  "header_table fmt_g cfg sslEnabled debug host =
     (let csp = cspHeaderValue (sh_CSP cfg); m = sh_Headers cfg;
          permissions = permissionsPolicyValue (sh_PermissionsPolicy cfg);
          endpoint = dq (''https://'' @ host @ sh_ReportsPath cfg @ ''/default'') in
      [(mh_ContentTypeOptions m \<noteq> [], ''X-Content-Type-Options'', mh_ContentTypeOptions m),
       (mh_FrameOptions m \<noteq> [], ''X-Frame-Options'', mh_FrameOptions m),
       (mh_XSSProtection m \<noteq> [], ''X-XSS-Protection'', mh_XSSProtection m),
       (mh_ReferrerPolicy m \<noteq> [], ''Referrer-Policy'', mh_ReferrerPolicy m),
       (cs_Enabled (sh_CSP cfg) \<and> csp \<noteq> [], cspHeaderName (sh_CSP cfg) debug, csp),
       (permissions \<noteq> [], ''Permissions-Policy'', permissions),
       (mh_CrossDomainPolicies m \<noteq> [], ''X-Permitted-Cross-Domain-Policies'', mh_CrossDomainPolicies m),
       (mh_DNSPrefetchControl m \<noteq> [], ''X-DNS-Prefetch-Control'', mh_DNSPrefetchControl m),
       (mh_OriginAgentCluster m, ''Origin-Agent-Cluster'', ''?1''),
       (mh_COOP m \<noteq> [], ''Cross-Origin-Opener-Policy'', mh_COOP m),
       (mh_COEP m \<noteq> [], ''Cross-Origin-Embedder-Policy'', mh_COEP m),
       (mh_CORP m \<noteq> [], ''Cross-Origin-Resource-Policy'', mh_CORP m),
       (True, ''Reporting-Endpoints'', ''default='' @ endpoint),
       (True, ''Report-To'', ''{'' @ dq ''group'' @ '':'' @ dq ''default'' @ '','' @ dq ''max_age'' @ '':''
          @ fmt_d (sh_ReportToMaxAgeSeconds cfg) @ '','' @ dq ''endpoints'' @ '':[{'' @ dq ''url'' @ '':'' @ endpoint @ ''}]}''),
       (ne_Enabled (sh_NEL cfg), ''NEL'', nelHeaderValue fmt_g (sh_NEL cfg)),
       (sslEnabled \<and> hs_Enabled (sh_HSTS cfg), ''Strict-Transport-Security'', hstsHeaderValue (sh_HSTS cfg))])"

definition configured_headers :: "(rat \<Rightarrow> string) \<Rightarrow> SecurityHeaderConfig \<Rightarrow> bool \<Rightarrow> bool \<Rightarrow> string \<Rightarrow> header" where
  "configured_headers fmt_g cfg sslEnabled debug host = map snd (filter fst (header_table fmt_g cfg sslEnabled debug host))"

definition set_all :: "header \<Rightarrow> header \<Rightarrow> header" where
  "set_all nvs h = fold (\<lambda>(n, v) h. Header_Set h n v) nvs h"

lemma set_all_Cons [simp]: "set_all ((n, v) # xs) h = set_all xs (Header_Set h n v)"
  by (simp add: set_all_def)

lemma set_all_Nil [simp]: "set_all [] h = h"
  by (simp add: set_all_def)

lemma set_all_table:
  "set_all (map snd (filter fst ((c, n, v) # xs))) h = set_all (map snd (filter fst xs)) (set_when c n v h)"
  by (simp add: set_when_def)

lemma setHeaderIfSet_when: "setHeaderIfSet n v h = set_when (v \<noteq> []) n v h"
  by (simp add: setHeaderIfSet_def set_when_def)

lemma set_when_True: "Header_Set h n v = set_when True n v h"
  by (simp add: set_when_def)

lemma security_headers_set_all: "security_headers fmt_g cfg ssl debug host h = set_all (configured_headers fmt_g cfg ssl debug host) h"
  unfolding security_headers_def configured_headers_def header_table_def Let_def set_all_table setHeaderIfSet_when set_when_True
  by simp

definition names_apart :: "header \<Rightarrow> bool" where
  "names_apart nvs \<longleftrightarrow> distinct (map (\<lambda>(n, v). ToLower n) nvs)"

lemma get_set_all_other: "\<forall>(k, v) \<in> set nvs. ToLower k \<noteq> ToLower n \<Longrightarrow> Header_Get (set_all nvs h) n = Header_Get h n"
proof (induction nvs arbitrary: h)
  case (Cons p nvs)
  then show ?case by (cases p) (auto simp: Header_Get_Set_other EqualFold_def)
qed simp

lemma get_set_all: "names_apart nvs \<Longrightarrow> (n, v) \<in> set nvs \<Longrightarrow> Header_Get (set_all nvs h) n = v"
proof (induction nvs arbitrary: h)
  case (Cons p nvs)
  obtain k w where p: "p = (k, w)" by (cases p)
  show ?case
  proof (cases "(n, v) \<in> set nvs")
    case True
    then show ?thesis using Cons by (simp add: p names_apart_def)
  next
    case False
    then have "k = n" "w = v" using Cons.prems p by auto
    moreover have "\<forall>(k', v') \<in> set nvs. ToLower k' \<noteq> ToLower n"
      using Cons.prems(1) \<open>k = n\<close> by (force simp: p names_apart_def)
    ultimately show ?thesis by (simp add: p get_set_all_other)
  qed
qed simp

lemma table_names_distinct:
  "distinct (map (\<lambda>(c, n, v). ToLower n) (header_table fmt_g cfg ssl debug host))"
proof -
  have "distinct (map ToLower [''X-Content-Type-Options'', ''X-Frame-Options'', ''X-XSS-Protection'', ''Referrer-Policy'', c,
      ''Permissions-Policy'', ''X-Permitted-Cross-Domain-Policies'', ''X-DNS-Prefetch-Control'', ''Origin-Agent-Cluster'',
      ''Cross-Origin-Opener-Policy'', ''Cross-Origin-Embedder-Policy'', ''Cross-Origin-Resource-Policy'', ''Reporting-Endpoints'',
      ''Report-To'', ''NEL'', ''Strict-Transport-Security''])"
    if "c = ''Content-Security-Policy'' \<or> c = ''Content-Security-Policy-Report-Only''" for c
    using that by (elim disjE; hypsubst; code_simp)
  moreover have "cspHeaderName (sh_CSP cfg) debug = ''Content-Security-Policy''
      \<or> cspHeaderName (sh_CSP cfg) debug = ''Content-Security-Policy-Report-Only''"
    by (simp add: cspHeaderName_def Let_def)
  ultimately show ?thesis unfolding header_table_def Let_def list.map prod.case by blast
qed

lemma configured_apart: "names_apart (configured_headers fmt_g cfg ssl debug host)"
proof -
  have "map (\<lambda>(n, v). ToLower n) (map snd xs) = map (\<lambda>(c, n, v). ToLower n) xs" for xs :: "(bool \<times> string \<times> string) list"
    by (induction xs) auto
  then show ?thesis
    unfolding names_apart_def configured_headers_def using distinct_map_filter [OF table_names_distinct] by metis
qed

fun sets_header :: "string \<Rightarrow> handler_op \<Rightarrow> bool" where
  "sets_header n (SetHeader k v) = (ToLower k = ToLower n)"
| "sets_header n _ = False"

definition carries :: "string \<Rightarrow> string \<Rightarrow> rwriter \<Rightarrow> bool" where
  "carries n v w \<longleftrightarrow> Header_Get (rw_Header w) n = v \<and> (\<forall>st h. rw_Sent w = Some (st, h) \<longrightarrow> Header_Get h n = v)"

lemma carries_op: "carries n v w \<Longrightarrow> \<not> sets_header n op \<Longrightarrow> carries n v (base_op op w)"
  by (cases op) (auto simp: carries_def rw_WriteHeader_def rw_Write_def Header_Get_Set_other EqualFold_def)

lemma carries_fold: "carries n v w \<Longrightarrow> list_all (\<lambda>op. \<not> sets_header n op) ops \<Longrightarrow> carries n v (fold base_op ops w)"
  by (induction ops arbitrary: w) (simp_all add: carries_op)

lemma carries_finish: "carries n v w \<Longrightarrow> \<exists>st h. rw_Sent (finish w) = Some (st, h) \<and> Header_Get h n = v"
  by (cases "rw_Sent w") (auto simp: finish_def rw_WriteHeader_def carries_def)

lemma Header_Get_append: "Header_Get h n \<noteq> [] \<Longrightarrow> Header_Get (h @ k) n = Header_Get h n"
proof -
  assume "Header_Get h n \<noteq> []"
  then obtain p where "find (\<lambda>(k, v). EqualFold k n) h = Some p" by (auto simp: Header_Get_def split: option.splits)
  moreover have "find P xs = Some y \<Longrightarrow> find P (xs @ ys) = Some y" for P :: "string \<times> string \<Rightarrow> bool" and xs ys y
    by (induction xs) (auto split: if_splits)
  ultimately show ?thesis by (simp add: Header_Get_def)
qed

lemma fold_Header_Add: "fold (\<lambda>(k, v) h. Header_Add h k v) xs h = h @ xs"
  by (induction xs arbitrary: h) (auto simp: Header_Add_def)

lemma carries_flush:
  assumes "carries n v w" "v \<noteq> []"
  shows "carries n v (timing_flush t w)"
  using assms Header_Get_append [of "rw_Header w" n]
  by (auto simp: timing_flush_def carries_def fold_Header_Add rw_Write_def rw_WriteHeader_def)


text \<open>
  The operator cannot lose a policy directive: whatever the \<open>web\<close> section says, the directives of
  the resulting policy are the default ones in their order, less the two reporting directives
  when reports are switched off; a value changes only for the adjustable directives.
\<close>

theorem csp_directives_kept:
  "map cd_Name (cs_Directives (sh_CSP (SecurityHeaderConfigFromApp (Some c))))
     = map cd_Name (filter (\<lambda>d. wc_ReportsEnabled (web_CSP c) \<or> cd_Name d \<notin> {''report-to'', ''report-uri''}) default_directives)
   \<and> (\<forall>d \<in> set (cs_Directives (sh_CSP (SecurityHeaderConfigFromApp (Some c)))).
        cd_Name d \<notin> {''script-src'', ''style-src'', ''img-src'', ''font-src'', ''connect-src'', ''frame-src'', ''form-action''} \<longrightarrow> d \<in> set default_directives)"
proof -
  have d: "cs_Directives (sh_CSP (SecurityHeaderConfigFromApp (Some c)))
    = map (adjust_directive (web_CSP c)) (filter (\<lambda>d. wc_ReportsEnabled (web_CSP c) \<or> cd_Name d \<notin> {''report-to'', ''report-uri''}) default_directives)"
    by (auto simp: SecurityHeaderConfigFromApp_def applyNELConfig_def applyMiscHeaderConfig_def applyPermissionsPolicyConfig_def
        applyCSPConfig_def applyHSTSConfig_def DefaultSecurityHeaderConfig_def intro!: filter_cong)
  have n: "cd_Name (adjust_directive csp d) = cd_Name d" for csp d
    by (simp add: adjust_directive_def split: option.splits prod.splits)
  have "adjust_directive csp d = d"
    if "cd_Name d \<notin> {''script-src'', ''style-src'', ''img-src'', ''font-src'', ''connect-src'', ''frame-src'', ''form-action''}" for csp d
    using that by (simp add: adjust_directive_def adjustments_def)
  then show ?thesis unfolding d by (auto simp: n)
qed

section \<open>Debug mode\<close>

text \<open>A header that a handler sets too is sent twice in debug mode, once in production.\<close>

lemma debug_duplicates:
  assumes "(''X-Content-Type-Options'', v) \<in> set (rw_Header w)" "rw_Sent w = None"
  shows "\<exists>h. rw_Sent (timing_flush \<lparr>tw_buf = [], tw_status = 200, tw_headerMap = [(''X-Content-Type-Options'', v)]\<rparr> w) = Some (200, h)
     \<and> 2 \<le> length (filter (\<lambda>(k, _). k = ''X-Content-Type-Options'') h)"
proof -
  obtain a b where "rw_Header w = a @ (''X-Content-Type-Options'', v) # b" using split_list [OF assms(1)] by blast
  then show ?thesis using assms(2) by (simp add: timing_flush_def rw_Write_def rw_WriteHeader_def Header_Add_def)
qed

text \<open>The buffering writer keeps the last status, the writer of \<open>net/http\<close> the first.\<close>

lemma debug_last_status:
  "tw_status (fold timing_op [OpWriteHeader 404, OpWriteHeader 200] t) = 200"
  "rw_Sent w = None \<Longrightarrow> \<exists>h. rw_Sent (fold base_op [OpWriteHeader 404, OpWriteHeader 200] w) = Some (404, h)"
  by (simp_all add: rw_WriteHeader_def)

section \<open>The onion advertisement\<close>

text \<open>
  The onion address is advertised only to clearnet page loads: a response to a request for the
  onion host, for the API, with another method than GET or HEAD, or without an address to
  advertise is what it would be without the middleware; and a handler that states a status
  outside 2xx, or a non-HTML content type, before it writes sends no Onion-Location.
\<close>

theorem onion_location_confined:
  assumes "rw_Sent w = None"
  shows "(\<not> isOnionLocationCandidate r \<or> onionAddress = None \<longrightarrow>
       OnionLocationMiddleware onionAddress uri r ops w = fold base_op ops w)
   \<and> (isOnionLocationCandidate r \<longrightarrow> rq_Method r \<in> {''GET'', ''HEAD''} \<and> \<not> HasPrefix (rq_Path r) ''/api/'')
   \<and> (isOnionLocationCandidate r \<and> onionAddress = Some a \<and> TrimSpace a \<noteq> []
       \<and> (code < 200 \<or> 300 \<le> code \<or> \<not> HasPrefix (ToLower ct) ''text/html'') \<longrightarrow>
       (\<exists>h. rw_Sent (OnionLocationMiddleware onionAddress uri r (SetHeader ''Content-Type'' ct # OpWriteHeader code # ops) w) = Some (code, h)
          \<and> Header_Get h ''Onion-Location'' = []))"
proof -
  have sent: "rw_Sent (ow_base w) = Some x \<Longrightarrow> rw_Sent (ow_base (fold onion_op ops w)) = Some x" for w x
  proof (induction ops arbitrary: w)
    case (Cons op ops)
    then have "rw_Sent (ow_base (onion_op op w)) = Some x"
      by (cases op) (auto simp: onion_WriteHeader_def rw_WriteHeader_def rw_Write_def Let_def)
    then show ?case using Cons.IH by simp
  qed simp
  have "\<exists>h. rw_Sent (OnionLocationMiddleware onionAddress uri r (SetHeader ''Content-Type'' ct # OpWriteHeader code # ops) w) = Some (code, h)
          \<and> Header_Get h ''Onion-Location'' = []"
    if "isOnionLocationCandidate r" "onionAddress = Some a" "TrimSpace a \<noteq> []" "code < 200 \<or> 300 \<le> code \<or> \<not> HasPrefix (ToLower ct) ''text/html''"
  proof -
    let ?h = "Header_Del (Header_Set (Header_Set (rw_Header w) ''Onion-Location'' (''http://'' @ TrimSpace a @ uri)) ''Content-Type'' ct) ''Onion-Location''"
    let ?w2 = "fold onion_op [SetHeader ''Content-Type'' ct, OpWriteHeader code]
      \<lparr>ow_base = w\<lparr>rw_Header := Header_Set (rw_Header w) ''Onion-Location'' (''http://'' @ TrimSpace a @ uri)\<rparr>, ow_wroteHeader = False\<rparr>"
    have "rw_Sent (ow_base ?w2) = Some (code, ?h)"
      using that(4) assms by (auto simp: onion_WriteHeader_def rw_WriteHeader_def Let_def)
    from sent [OF this] show ?thesis using that by (simp add: OnionLocationMiddleware_def Let_def)
  qed
  then show ?thesis
    by (auto simp: OnionLocationMiddleware_def isOnionLocationCandidate_def Let_def split: if_splits)
qed

text \<open>
  A handler that writes without stating a status sends the advertisement whatever its content
  type is: the implicit status is sent by the wrapped writer, not by \<open>onionLocationWriter\<close>.
\<close>

lemma implicit_status_keeps_onion:
  assumes "isOnionLocationCandidate r" "rw_Sent w = None"
  shows "\<exists>h. rw_Sent (OnionLocationMiddleware (Some ''x.onion'') ''/'' r [SetHeader ''Content-Type'' ''application/json'', OpWrite ''{}''] w) = Some (200, h)
     \<and> Header_Get h ''Onion-Location'' = ''http://x.onion/''"
proof -
  have "\<not> EqualFold ''Content-Type'' ''Onion-Location''" by (simp add: EqualFold_def ToLower_def lower_char_def)
  then show ?thesis
    using assms by (simp add: OnionLocationMiddleware_def rw_Write_def rw_WriteHeader_def Header_Get_Set_other str_simps)
qed

section \<open>Witnesses\<close>

definition fresh_rwriter :: rwriter where
  "fresh_rwriter = \<lparr>rw_Header = [], rw_Sent = None, rw_Body = []\<rparr>"

lemma default_hsts:
  "(''Strict-Transport-Security'', hstsHeaderValue (sh_HSTS DefaultSecurityHeaderConfig))
     \<in> set (configured_headers fmt_g DefaultSecurityHeaderConfig True debug host)"
  by (simp add: configured_headers_def header_table_def Let_def DefaultSecurityHeaderConfig_def)


definition page_request :: http_request where
  "page_request = \<lparr>rq_Method = ''GET'', rq_Path = ''/'', rq_Host = ''example.com'', rq_URLHost = [], rq_RemoteAddr = [], rq_TLS = True,
     rq_Header = [(''Sec-Fetch-Dest'', ''document'')]\<rparr>"

lemma page_candidate: "isOnionLocationCandidate page_request"
  by (simp add: isOnionLocationCandidate_def page_request_def Header_Get_def str_simps)

theorem onion_location_confined_witness:
  "\<exists>h. rw_Sent (OnionLocationMiddleware (Some ''x.onion'') ''/'' page_request [SetHeader ''Content-Type'' ''text/html'', OpWriteHeader 404] fresh_rwriter) = Some (404, h)
     \<and> Header_Get h ''Onion-Location'' = []"
  using onion_location_confined [of fresh_rwriter page_request "Some ''x.onion''" "''/''" "[]" "''x.onion''" 404 "''text/html''"] page_candidate
  by (simp add: fresh_rwriter_def str_simps)

definition quiet_web :: web_config where
  "quiet_web = \<lparr>web_HSTS = sh_HSTS DefaultSecurityHeaderConfig,
     web_CSP = \<lparr>wc_Enabled = True, wc_Mode = [], wc_ReportsEnabled = False, wc_ScriptSrc = ([], ''x''), wc_StyleSrc = ([], []),
       wc_ImgSrc = ([], []), wc_FontSrc = ([], []), wc_ConnectSrc = ([], []), wc_FrameSrc = ([], []), wc_FormAction = ([], [])\<rparr>,
     web_Permissions = [], web_Headers = sh_Headers DefaultSecurityHeaderConfig, web_NEL = sh_NEL DefaultSecurityHeaderConfig\<rparr>"

theorem csp_directives_kept_witness:
  "length (cs_Directives (sh_CSP (SecurityHeaderConfigFromApp (Some quiet_web)))) = 15"
proof -
  have "map cd_Name (cs_Directives (sh_CSP (SecurityHeaderConfigFromApp (Some quiet_web))))
    = map cd_Name (filter (\<lambda>d. wc_ReportsEnabled (web_CSP quiet_web) \<or> cd_Name d \<notin> {''report-to'', ''report-uri''}) default_directives)"
    using csp_directives_kept [of quiet_web] by (rule conjunct1)
  from arg_cong [OF this, of length] show ?thesis by (simp add: quiet_web_def default_directives_def directive_def)
qed

end
