(* ===== verification/LogManager.thy ===== *)
theory LogManager
  imports LogRotate
begin

text \<open>
  File \<open>log/manager.go\<close>: the manager that owns one writer per log category, all in one
  directory. JSON and logfmt records and the audit event are library encodings: the functions
  that choose a format return no line for them here, and the theorems speak of any line. The
  local host name and the process id are arguments.
\<close>

section \<open>The manager\<close>

datatype slot = Access | Server | ErrLog | App | Auth | Audit | Security | Debug

definition slots :: "slot list" where
  "slots = [Access, Server, ErrLog, App, Auth, Audit, Security, Debug]"

record LoggerConfig =
  cf_Program :: string
  cf_Version :: string
  cf_Files :: "slot \<Rightarrow> LogFileConfig"
  cf_AuditCompress :: bool

record Manager =
  m_logDir :: string
  m_program :: string
  m_version :: string
  m_w :: "slot \<Rightarrow> writer"

fun default_format :: "slot \<Rightarrow> string" where
  "default_format Access = ''apache''"
| "default_format Server = ''text''"
| "default_format ErrLog = ''text''"
| "default_format App = ''logfmt''"
| "default_format Auth = ''syslog''"
| "default_format Audit = ''json''"
| "default_format Security = ''fail2ban''"
| "default_format Debug = ''text''"

fun default_file :: "slot \<Rightarrow> LogFileConfig" where
  "default_file Access = \<lparr>lc_Enabled = True, lc_Filename = ''access.log'', lc_Format = ''apache'', lc_Rotate = ''monthly'', lc_Keep = ''none''\<rparr>"
| "default_file Server = \<lparr>lc_Enabled = True, lc_Filename = ''server.log'', lc_Format = ''text'', lc_Rotate = ''weekly,50MB'', lc_Keep = ''none''\<rparr>"
| "default_file ErrLog = \<lparr>lc_Enabled = True, lc_Filename = ''error.log'', lc_Format = ''text'', lc_Rotate = ''weekly,50MB'', lc_Keep = ''none''\<rparr>"
| "default_file App = \<lparr>lc_Enabled = True, lc_Filename = ''app.log'', lc_Format = ''logfmt'', lc_Rotate = ''weekly,50MB'', lc_Keep = ''none''\<rparr>"
| "default_file Auth = \<lparr>lc_Enabled = True, lc_Filename = ''auth.log'', lc_Format = ''syslog'', lc_Rotate = ''weekly,50MB'', lc_Keep = ''none''\<rparr>"
| "default_file Audit = \<lparr>lc_Enabled = True, lc_Filename = ''audit.log'', lc_Format = ''json'', lc_Rotate = ''daily'', lc_Keep = ''none''\<rparr>"
| "default_file Security = \<lparr>lc_Enabled = True, lc_Filename = ''security.log'', lc_Format = ''fail2ban'', lc_Rotate = ''weekly,50MB'', lc_Keep = ''none''\<rparr>"
| "default_file Debug = \<lparr>lc_Enabled = False, lc_Filename = ''debug.log'', lc_Format = ''text'', lc_Rotate = ''weekly,50MB'', lc_Keep = ''none''\<rparr>"

definition DefaultConfig :: LoggerConfig where
  "DefaultConfig = \<lparr>cf_Program = ''ipgaze'', cf_Version = [], cf_Files = default_file, cf_AuditCompress = False\<rparr>"

text \<open>The files are opened in order; the first failure ends the attempt, with the files opened so far on disk.\<close>

fun open_slots ::
  "io \<Rightarrow> gtime \<Rightarrow> string \<Rightarrow> LoggerConfig \<Rightarrow> slot list \<Rightarrow> (slot \<Rightarrow> writer) \<Rightarrow> logdir \<Rightarrow> (slot \<Rightarrow> writer) option \<times> logdir" where
  "open_slots i now dir cfg [] ws fs = (Some ws, fs)"
| "open_slots i now dir cfg (s # ss) ws fs =
     (case openWriter i now dir (cf_Files cfg s) (default_format s) (s = Audit \<and> cf_AuditCompress cfg) fs of
        None \<Rightarrow> (None, fs)
      | Some (w, fs') \<Rightarrow> open_slots i now dir cfg ss (ws(s := w)) fs')"

definition NewManager :: "io \<Rightarrow> gtime \<Rightarrow> string \<Rightarrow> LoggerConfig \<Rightarrow> logdir \<Rightarrow> Manager option \<times> logdir" where
  "NewManager i now logDir cfg fs =
     (case open_slots i now logDir cfg slots (\<lambda>_. idle_writer []) fs of
        (None, fs') \<Rightarrow> (None, fs')
      | (Some ws, fs') \<Rightarrow>
          (Some \<lparr>m_logDir = logDir, m_program = (if cf_Program cfg = [] then ''ipgaze'' else cf_Program cfg),
                 m_version = cf_Version cfg, m_w = ws\<rparr>, fs'))"

definition Close :: "Manager \<Rightarrow> Manager" where
  "Close m = m\<lparr>m_w := (\<lambda>s. close_writer (m_w m s))\<rparr>"

definition Reconfigure :: "io \<Rightarrow> gtime \<Rightarrow> LoggerConfig \<Rightarrow> Manager \<times> logdir \<Rightarrow> bool \<times> Manager \<times> logdir" where
  "Reconfigure i now cfg st =
     (case st of (m, fs) \<Rightarrow>
        (case NewManager i now (m_logDir m) cfg fs of
           (None, fs') \<Rightarrow> (False, m, fs')
         | (Some nxt, fs') \<Rightarrow>
             (True, m\<lparr>m_w := (\<lambda>s. fst (replace_writer (m_w m s) (m_w nxt s)))\<rparr>, fs')))"

definition rotate_slot :: "(string \<Rightarrow> string) \<Rightarrow> io \<Rightarrow> gtime \<Rightarrow> slot \<Rightarrow> bool \<times> Manager \<times> logdir \<Rightarrow> bool \<times> Manager \<times> logdir" where
  "rotate_slot gz i now s st =
     (case st of (ok, m, fs) \<Rightarrow>
        (case rotateIfDue gz i now (m_w m s, fs) of
           (ok', w, fs') \<Rightarrow> (ok \<and> ok', m\<lparr>m_w := (m_w m)(s := w)\<rparr>, fs')))"

definition Rotate :: "(string \<Rightarrow> string) \<Rightarrow> io \<Rightarrow> gtime \<Rightarrow> Manager \<times> logdir \<Rightarrow> bool \<times> Manager \<times> logdir" where
  "Rotate gz i now st = fold (rotate_slot gz i now) slots (True, st)"

definition write_slot :: "(string \<Rightarrow> string) \<Rightarrow> io \<Rightarrow> gtime \<Rightarrow> slot \<Rightarrow> string \<Rightarrow> Manager \<times> logdir \<Rightarrow> Manager \<times> logdir" where
  "write_slot gz i now s line st =
     (case st of (m, fs) \<Rightarrow>
        (case write_line gz i now line (m_w m s, fs) of (w, fs') \<Rightarrow> (m\<lparr>m_w := (m_w m)(s := w)\<rparr>, fs')))"

section \<open>The records\<close>

text \<open>\<open>None\<close> stands for a JSON record.\<close>

definition access_line :: "gtime \<Rightarrow> string \<Rightarrow> AccessEntry \<Rightarrow> string option" where
  "access_line now fmt e =
     (let e = (if ae_Referer e = [] then e\<lparr>ae_Referer := ''-''\<rparr> else e);
          e = (if ae_UserAgent e = [] then e\<lparr>ae_UserAgent := ''-''\<rparr> else e) in
      if fmt = ''nginx'' then Some (nginxAccessLine now e)
      else if fmt = ''json'' then None
      else Some (apacheAccessLine now e))"

definition leveled_line :: "gtime \<Rightarrow> string \<Rightarrow> string \<Rightarrow> string \<Rightarrow> string option" where
  "leveled_line now fmt level message = (if fmt = ''json'' then None else Some (textLine now level message))"

definition auth_line :: "gtime \<Rightarrow> string \<Rightarrow> string \<Rightarrow> string \<Rightarrow> string \<Rightarrow> int \<Rightarrow> string list \<Rightarrow> string option" where
  "auth_line now fmt host own program pid kvpairs =
     (let program = (if program = [] then own else program) in
      if fmt = ''json'' then None
      else Some (syslog3164Line now host program pid (''auth: '' @ kvJoin kvpairs)))"

definition auth_failure_line :: "gtime \<Rightarrow> string \<Rightarrow> string \<Rightarrow> string \<Rightarrow> int \<Rightarrow> string \<Rightarrow> string \<Rightarrow> string \<Rightarrow> string option" where
  "auth_failure_line now fmt host own pid ip endpoint reason =
     auth_line now fmt host own [] pid
       [''ip'', ip, ''endpoint'', endpoint, ''result'', ''fail'', ''reason'', reason]"

definition security_line :: "gtime \<Rightarrow> string \<Rightarrow> string \<Rightarrow> string \<Rightarrow> string \<Rightarrow> int \<Rightarrow> string \<Rightarrow> string \<Rightarrow> string option" where
  "security_line now fmt host program version pid message ip =
     (if fmt = ''syslog'' then Some (syslog5424Line now host program pid (''security: '' @ message @ '' from '' @ ip))
      else if fmt = ''cef'' then Some (cefLine ''CasjaysDev'' program version ''security'' message 5 (''src='' @ ip))
      else if fmt = ''json'' then None
      else if fmt = ''text'' then Some (textLine now ''SECURITY'' (message @ '' from '' @ ip))
      else Some (fmt_rfc3339 now @ '' [security] '' @ message @ '' from '' @ ip))"

definition WriteAccessRequest :: "(string \<Rightarrow> string) \<Rightarrow> io \<Rightarrow> gtime \<Rightarrow> AccessEntry \<Rightarrow> Manager \<times> logdir \<Rightarrow> (Manager \<times> logdir) option" where
  "WriteAccessRequest gz i now e st =
     map_option (\<lambda>l. write_slot gz i now Access l st) (access_line now (w_format (m_w (fst st) Access)) e)"

definition WriteSecurity ::
  "(string \<Rightarrow> string) \<Rightarrow> io \<Rightarrow> gtime \<Rightarrow> string \<Rightarrow> int \<Rightarrow> string \<Rightarrow> string \<Rightarrow> Manager \<times> logdir \<Rightarrow> (Manager \<times> logdir) option" where
  "WriteSecurity gz i now host pid message ip st =
     map_option (\<lambda>l. write_slot gz i now Security l st)
       (security_line now (w_format (m_w (fst st) Security)) host (m_program (fst st)) (m_version (fst st)) pid message ip)"

section \<open>One log does not disturb another\<close>

text \<open>
  The names a writer may touch: its active file and everything that begins with its base name
  and a dash. The bound holds whatever system calls fail.
\<close>

definition own_name :: "string \<Rightarrow> string \<Rightarrow> bool" where
  "own_name f k \<longleftrightarrow> k = f \<or> HasPrefix k (TrimSuffix f (Ext f) @ ''-'')"

lemma own_archive: "own_name f (archiveName f t)" "own_name f (archiveName f t @ ''.gz'')"
  by (simp_all add: own_name_def archiveName_def Let_def HasPrefix_iff)

lemma own_archives: "a \<in> set (archives f fs) \<Longrightarrow> own_name f a"
  by (auto simp: set_archives is_archive_def archivePrefixSuffix_def own_name_def Let_def)

definition leaves :: "string \<Rightarrow> logdir \<Rightarrow> logdir \<Rightarrow> bool" where
  "leaves f fs fs' \<longleftrightarrow> (\<forall>k. own_name f k \<or> map_of fs' k = map_of fs k)"

lemma leaves_refl [simp]: "leaves f fs fs"
  by (simp add: leaves_def)

lemma leaves_trans: "leaves f fs fs' \<Longrightarrow> leaves f fs' fs'' \<Longrightarrow> leaves f fs fs''"
  unfolding leaves_def by (metis (no_types))

lemma leaves_put: "own_name f n \<Longrightarrow> leaves f fs (fs_put n e fs)"
  by (auto simp: leaves_def)

lemma leaves_remove: "own_name f n \<Longrightarrow> leaves f fs (fs_remove n fs)"
  by (auto simp: leaves_def map_of_fs_remove)

lemma leaves_delete: "own_name f n \<Longrightarrow> fs_delete i n fs = Some fs' \<Longrightarrow> leaves f fs fs'"
  by (auto simp: fs_delete_def leaves_remove split: if_splits)

lemma leaves_prune_remove: "own_name f n \<Longrightarrow> leaves f (snd st) (snd (prune_remove i n st))"
  by (auto simp: prune_remove_def leaves_delete split: option.splits)

lemma leaves_prune_age: "own_name f n \<Longrightarrow> leaves f (snd st) (snd (prune_age i c n st))"
  by (auto simp: prune_age_def leaves_prune_remove split: option.splits)

lemma leaves_fold:
  assumes "\<And>n st. n \<in> set ns \<Longrightarrow> leaves f (snd st) (snd (g n st))"
  shows "leaves f (snd st) (snd (fold g ns st))"
  using assms
proof (induction ns arbitrary: st)
  case (Cons n ns)
  then show ?case using leaves_trans [of f "snd st" "snd (g n st)"] by simp
qed simp

lemma leaves_prune: "leaves (w_filename w) fs (snd (pruneLocked i now w fs))"
proof -
  have "leaves (w_filename w) fs (snd (fold (prune_remove i) ns (True, fs)))"
    if "set ns \<subseteq> set (archives (w_filename w) fs)" for ns
    using leaves_fold [of ns "w_filename w" "prune_remove i" "(True, fs)"] that own_archives leaves_prune_remove by force
  moreover have "leaves (w_filename w) fs (snd (fold (prune_age i c) (archives (w_filename w) fs) (True, fs)))" for c
    using leaves_fold [of "archives (w_filename w) fs" "w_filename w" "prune_age i c" "(True, fs)"] own_archives leaves_prune_age by force
  ultimately show ?thesis
    by (auto simp: pruneLocked_def Let_def set_drop_subset split: keepMode.splits)
qed

lemma leaves_open: "own_name f n \<Longrightarrow> fs_open i now n fs = Some fs' \<Longrightarrow> leaves f fs fs'"
  by (auto simp: fs_open_def leaves_put split: if_splits option.splits dentry.splits)

lemma leaves_rename: "own_name f a \<Longrightarrow> own_name f b \<Longrightarrow> fs_rename i a b fs = Some fs' \<Longrightarrow> leaves f fs fs'"
  using leaves_trans [OF leaves_remove leaves_put]
  by (auto simp: fs_rename_def split: if_splits option.splits dentry.splits)

lemma leaves_compress: "leaves f fs (snd (compressFile gz i now (archiveName f t) fs))"
  using leaves_put [OF own_archive(2)] leaves_trans [OF leaves_put [OF own_archive(2)] leaves_delete [OF own_archive(1)]]
  by (auto simp: compressFile_def Let_def split: option.splits)

lemma own_self: "own_name f f"
  by (simp add: own_name_def)

lemma rotate_leaves:
  assumes "rotateLocked gz i now (w, fs) = (ok, w', fs')"
  shows "leaves (w_filename w) fs fs' \<and> w_filename w' = w_filename w"
proof -
  let ?f = "w_filename w"
  have c: "leaves ?f fs2 fs3" if "compressFile gz i now (archiveName ?f now) fs2 = (k, fs3)" for k fs2 fs3
    using leaves_compress [of ?f fs2 gz i now now] that by simp
  have p: "leaves ?f fs3 fs4"
    if "pruneLocked i now (w\<lparr>w_file := Some HOpen, w_size := 0, w_opened := now\<rparr>) fs3 = (k, fs4)" for k fs3 fs4
    using leaves_prune [of "w\<lparr>w_file := Some HOpen, w_size := 0, w_opened := now\<rparr>" fs3 i now] that by simp
  show ?thesis
    using assms
    by (auto simp: rotateLocked_def Let_def split: if_splits option.splits prod.splits
        dest!: leaves_open [OF own_self] leaves_rename [OF own_self own_archive(1)] c p)
      (meson leaves_trans)+
qed

lemma rotateIfDue_leaves:
  assumes "rotateIfDue gz i now (w, fs) = (ok, w', fs')"
  shows "leaves (w_filename w) fs fs' \<and> w_filename w' = w_filename w"
  using assms rotate_leaves [of gz i now w fs ok w' fs'] leaves_prune [of w fs i now]
  by (auto simp: rotateIfDue_def split: if_splits prod.splits)

lemma append_leaves:
  assumes "append_line i now line (w, fs) = (w', fs')"
  shows "leaves (w_filename w) fs fs' \<and> w_filename w' = w_filename w"
  using assms leaves_put [OF own_self] by (auto simp: append_line_def split: if_splits)

lemma write_leaves:
  assumes "write_line gz i now line (w, fs) = (w', fs')"
  shows "leaves (w_filename w) fs fs' \<and> w_filename w' = w_filename w"
proof -
  let ?r = "rotateLocked gz i now (w, fs)"
  obtain ok w1 fs1 where r: "?r = (ok, w1, fs1)" by (cases ?r) auto
  have 1: "leaves (w_filename w) fs fs1" "w_filename w1 = w_filename w" using rotate_leaves [OF r] by simp_all
  show ?thesis
    using assms 1 append_leaves [of i now "sanitizeLine line" w fs w' fs'] append_leaves [of i now "sanitizeLine line" w1 fs1 w' fs']
      leaves_trans [OF 1(1)]
    by (auto simp: write_line_def Let_def r split: if_splits)
qed

definition separate :: "Manager \<Rightarrow> bool" where
  "separate m \<longleftrightarrow> list_all (\<lambda>s. list_all (\<lambda>u. s = u \<or> \<not> own_name (w_filename (m_w m s)) (w_filename (m_w m u))) slots) slots"

lemma in_slots [simp]: "s \<in> set slots"
  by (cases s) (simp_all add: slots_def)

lemma separateD: "separate m \<Longrightarrow> s \<noteq> u \<Longrightarrow> \<not> own_name (w_filename (m_w m s)) (w_filename (m_w m u))"
  using in_slots [of s] in_slots [of u] unfolding separate_def list_all_iff by blast

text \<open>
  Log files are independent: when no active file has the name of an archive of another log, a
  record written to one log, with any rotation, compression or pruning it causes and whatever
  system calls fail, leaves the writer and the active file of every other log as they were.
\<close>

theorem write_slot_independent:
  assumes "separate m" "s \<noteq> u" "write_slot gz i now s line (m, fs) = (m', fs')"
  shows "m_w m' u = m_w m u \<and> map_of fs' (w_filename (m_w m u)) = map_of fs (w_filename (m_w m u)) \<and> separate m'"
proof -
  obtain w' where w: "write_line gz i now line (m_w m s, fs) = (w', fs')" "m' = m\<lparr>m_w := (m_w m)(s := w')\<rparr>"
    using assms(3) by (auto simp: write_slot_def split: prod.splits)
  have l: "leaves (w_filename (m_w m s)) fs fs'" "w_filename w' = w_filename (m_w m s)" using write_leaves [OF w(1)] by simp_all
  have "map_of fs' (w_filename (m_w m u)) = map_of fs (w_filename (m_w m u))"
    using l(1) separateD [OF assms(1,2)] by (auto simp: leaves_def)
  moreover have "w_filename (m_w m' v) = w_filename (m_w m v)" for v using w(2) l(2) by simp
  then have "separate m'" using assms(1) by (simp add: separate_def)
  ultimately show ?thesis using w(2) assms(2) by simp
qed

text \<open>The names of the default configuration are separate, and stay so whatever is opened.\<close>

lemma default_names: "list_all (\<lambda>s. list_all (\<lambda>u. s = u \<or> \<not> own_name (lc_Filename (default_file s)) (lc_Filename (default_file u))) slots) slots"
  by code_simp

lemma reconfigure_failure_keeps: "Reconfigure i now cfg (m, fs) = (False, m', fs') \<Longrightarrow> m' = m"
  by (auto simp: Reconfigure_def split: prod.splits option.splits)

definition default_manager :: Manager where
  "default_manager = \<lparr>m_logDir = ''/log'', m_program = ''ipgaze'', m_version = [],
     m_w = (\<lambda>s. (sample_writer KeepNone)\<lparr>w_filename := lc_Filename (default_file s)\<rparr>)\<rparr>"

lemma default_separate: "separate default_manager"
  using default_names by (simp add: separate_def default_manager_def list_all_iff)

theorem write_slot_independent_witness:
  "map_of (snd (write_slot id no_io_faults epoch Security ''line'' (default_manager, sample_dir))) ''app.log''
     = Some (sample_file ''new'' 3)"
proof -
  obtain m' fs' where w: "write_slot id no_io_faults epoch Security ''line'' (default_manager, sample_dir) = (m', fs')" by fastforce
  have "w_filename (m_w default_manager App) = ''app.log''" by (simp add: default_manager_def)
  then show ?thesis using write_slot_independent [OF default_separate _ w, of App] w by (simp add: sample_dir_def)
qed

end
