(* ===== verification/OperatorAuth.thy ===== *)
theory OperatorAuth
  imports RateLimit Negotiate LogManager
begin

text \<open>
  The operator token and the public report endpoint of \<open>server/middleware.go\<close> and
  \<open>server/http.go\<close>, and the access log of \<open>LoggingMiddleware\<close>. SHA-256, the translated
  message and the clock are arguments; the time a rejection takes is part of the result.
\<close>

section \<open>The operator token\<close>

record operator_state =
  op_hasToken :: bool
  op_hash :: string

definition SetOperatorToken :: "(string \<Rightarrow> string) \<Rightarrow> string \<Rightarrow> operator_state" where
  "SetOperatorToken sha256 rawToken =
     (if rawToken = [] then \<lparr>op_hasToken = False, op_hash = replicate 32 (CHR 0x00)\<rparr>
      else \<lparr>op_hasToken = True, op_hash = sha256 rawToken\<rparr>)"

definition ValidateOperatorToken :: "(string \<Rightarrow> string) \<Rightarrow> operator_state \<Rightarrow> string \<Rightarrow> bool" where
  "ValidateOperatorToken sha256 st rawToken =
     (if \<not> op_hasToken st then False else sha256 rawToken = op_hash st)"

definition failedAuthFloor :: gotime where
  "failedAuthFloor = 100 * 10 ^ 6"

definition padFailedAuth :: "gotime \<Rightarrow> gotime \<Rightarrow> gotime" where
  "padFailedAuth start now =
     (let remaining = failedAuthFloor - (now - start) in if 0 < remaining then now + remaining else now)"

datatype unauthorized_body = UnauthorizedText string | UnauthorizedJSON string string

record unauthorized_answer =
  ua_Status :: nat
  ua_ContentType :: string
  ua_Body :: unauthorized_body

definition writeUnauthorized :: "string \<Rightarrow> http_request \<Rightarrow> unauthorized_answer" where
  "writeUnauthorized message r =
     (if apiNotFoundWantsText r
      then \<lparr>ua_Status = 401, ua_ContentType = ''text/plain; charset=utf-8'', ua_Body = UnauthorizedText message\<rparr>
      else \<lparr>ua_Status = 401, ua_ContentType = jsonMediaType, ua_Body = UnauthorizedJSON ''UNAUTHORIZED'' message\<rparr>)"

text \<open>A rejection carries the answer, the record for auth.log (address, path, reason) and the time it ends.\<close>

datatype auth_outcome = Authorized | Rejected unauthorized_answer "string \<times> string \<times> string" gotime

definition presented_token :: "http_request \<Rightarrow> string \<times> string" where
  "presented_token r =
     (let auth = Header_Get (rq_Header r) ''Authorization'';
          rawToken = TrimPrefix auth ''Bearer '' in
      if rawToken = auth then ([], ''missing_token'') else (rawToken, ''invalid_token''))"

definition RequireOperatorToken ::
  "(string \<Rightarrow> string) \<Rightarrow> operator_state \<Rightarrow> TrustResolver option \<Rightarrow> string \<Rightarrow> gotime \<Rightarrow> gotime \<Rightarrow> http_request \<Rightarrow> auth_outcome" where
  "RequireOperatorToken sha256 st tro message start now r =
     (case presented_token r of
        (rawToken, reason) \<Rightarrow>
          if \<not> ValidateOperatorToken sha256 st rawToken
          then Rejected (writeUnauthorized message r)
                 (sanitizeLogValue (GetClientIdentifier r tro), sanitizeLogValue (rq_Path r), reason)
                 (padFailedAuth start now)
          else Authorized)"

section \<open>Reports\<close>

definition maxReportBodyBytes :: nat where
  "maxReportBodyBytes = 16 * 1024"

definition securityEventForReport :: "string \<Rightarrow> string" where
  "securityEventForReport reportType =
     (if reportType = ''csp'' then ''security.csp_violation'' else ''security.'' @ reportType @ ''_report'')"

text \<open>The status answered, the limiter afterwards and the record for security.log (message, address).\<close>

definition reportsHandler ::
  "'l limiter_ops \<Rightarrow> TrustResolver option \<Rightarrow> string \<Rightarrow> gotime \<Rightarrow> http_request \<Rightarrow> string option \<Rightarrow> 'l ReportRateLimiter
     \<Rightarrow> nat \<times> (string \<times> string) option \<times> 'l ReportRateLimiter" where
  "reportsHandler ops tro reportType now r body lim =
     (let clientIP = GetClientIdentifier r tro in
      case Report_Allow ops now clientIP lim of
        (ok, lim') \<Rightarrow>
          if \<not> ok then (429, None, lim')
          else let b = (case body of None \<Rightarrow> [] | Some s \<Rightarrow> take maxReportBodyBytes s) in
            (204, Some (securityEventForReport reportType @ '' '' @ sanitizeLogValue b, clientIP), lim'))"

section \<open>The access log\<close>

text \<open>\<open>escapedPath\<close>, \<open>rawQuery\<close> and \<open>forceQuery\<close> are those of the request URL; \<open>unescape\<close> decodes a query key.\<close>

definition requestURIForLog :: "(string \<Rightarrow> string option) \<Rightarrow> string \<Rightarrow> string \<Rightarrow> bool \<Rightarrow> string" where
  "requestURIForLog unescape escapedPath rawQuery forceQuery =
     (let path = (if escapedPath = [] then ''/'' else escapedPath);
          query = sanitizeLogQuery unescape rawQuery in
      sanitizeLogValue (if query \<noteq> [] then path @ ''?'' @ query else if forceQuery then path @ ''?'' else path))"

definition suppressAccessLog :: "http_request \<Rightarrow> nat \<Rightarrow> bool \<Rightarrow> bool" where
  "suppressAccessLog r status debug =
     (if debug then False
      else if rq_Method r \<noteq> ''GET'' \<and> rq_Method r \<noteq> ''HEAD'' then False
      else if status < 200 \<or> 299 < status then False
      else rq_Path r \<in> set healthCheckPaths)"

definition access_entry ::
  "TrustResolver option \<Rightarrow> string \<Rightarrow> string \<Rightarrow> string \<Rightarrow> nat \<Rightarrow> nat \<Rightarrow> http_request \<Rightarrow> AccessEntry" where
  "access_entry tro requestURI proto requestID status bytes r =
     (let dash = (\<lambda>s. if s = [] then ''-'' else s) in
      \<lparr>ae_IP = GetClientIdentifier r tro, ae_Method = rq_Method r, ae_Path = requestURI, ae_Proto = proto,
       ae_Status = int status, ae_Bytes = int bytes,
       ae_Referer = dash (sanitizeLogValue (Header_Get (rq_Header r) ''Referer'')),
       ae_UserAgent = dash (sanitizeLogValue (Header_Get (rq_Header r) ''User-Agent'')),
       ae_RequestID = sanitizeLogValue requestID\<rparr>)"

definition LoggingMiddleware ::
  "(string \<Rightarrow> string) \<Rightarrow> io \<Rightarrow> gtime \<Rightarrow> TrustResolver option \<Rightarrow> bool \<Rightarrow> string \<Rightarrow> string \<Rightarrow> string \<Rightarrow> nat \<Rightarrow> nat \<Rightarrow> http_request
     \<Rightarrow> Manager \<times> logdir \<Rightarrow> (Manager \<times> logdir) option" where
  "LoggingMiddleware gz i now tro debug requestURI proto requestID status bytes r st =
     (if suppressAccessLog r status debug then Some st
      else WriteAccessRequest gz i now (access_entry tro requestURI proto requestID status bytes r) st)"

section \<open>Who passes\<close>

lemma presented_Bearer: "presented_token r = (t, ''invalid_token'') \<longleftrightarrow> Header_Get (rq_Header r) ''Authorization'' = ''Bearer '' @ t"
  by (auto simp: presented_token_def TrimPrefix_def HasPrefix_iff Let_def)

lemma presented_cases: "presented_token r = ([], ''missing_token'') \<or> (\<exists>t. presented_token r = (t, ''invalid_token''))"
  by (simp add: presented_token_def Let_def)

text \<open>
  C35. Only the operator passes: with a configured token and a hash that does not collide on it, a
  request is let through exactly if its Authorization header is the word Bearer, a blank and
  that token; with no token configured nobody passes.
\<close>

theorem operator_token_gate:
  assumes "\<And>x. sha256 x = sha256 token \<Longrightarrow> x = token"
  shows "RequireOperatorToken sha256 (SetOperatorToken sha256 token) tro message start now r = Authorized
     \<longleftrightarrow> token \<noteq> [] \<and> Header_Get (rq_Header r) ''Authorization'' = ''Bearer '' @ token"
proof -
  have h: "sha256 x = sha256 token \<longleftrightarrow> x = token" for x using assms by blast
  obtain t reason where p: "presented_token r = (t, reason)" by fastforce
  then have "RequireOperatorToken sha256 (SetOperatorToken sha256 token) tro message start now r = Authorized \<longleftrightarrow> token \<noteq> [] \<and> t = token"
    by (simp add: RequireOperatorToken_def ValidateOperatorToken_def SetOperatorToken_def h)
  also have "\<dots> \<longleftrightarrow> token \<noteq> [] \<and> presented_token r = (token, ''invalid_token'')"
    using presented_cases [of r] p by auto
  finally show ?thesis by (simp add: presented_Bearer)
qed

text \<open>
  A rejection does not tell why: two rejected requests that ask for the same kind of answer get
  the same status, content type and body whatever credentials they carried, and no rejection
  ends earlier than a tenth of a second after it began.
\<close>

theorem rejection_uniform:
  assumes "RequireOperatorToken sha256 st tro message start now r = Rejected a l t"
    and "RequireOperatorToken sha256 st' tro' message start' now' r' = Rejected a' l' t'"
    and "apiNotFoundWantsText r = apiNotFoundWantsText r'"
  shows "a = a' \<and> ua_Status a = 401 \<and> failedAuthFloor \<le> t - start \<and> now \<le> t"
  using assms by (auto simp: RequireOperatorToken_def writeUnauthorized_def padFailedAuth_def Let_def split: prod.splits if_splits)

section \<open>What is logged\<close>

lemma healthy_probe_suppressed:
  "suppressAccessLog r status debug \<longleftrightarrow>
     \<not> debug \<and> rq_Method r \<in> {''GET'', ''HEAD''} \<and> 200 \<le> status \<and> status \<le> 299 \<and> rq_Path r \<in> set healthCheckPaths"
  by (auto simp: suppressAccessLog_def)

text \<open>A run of reports: the time, the kind, the request and its body if it can be read.\<close>

type_synonym report_call = "gotime \<times> string \<times> http_request \<times> string option"

fun run_reports ::
  "'l limiter_ops \<Rightarrow> TrustResolver option \<Rightarrow> report_call list \<Rightarrow> 'l ReportRateLimiter \<Rightarrow> (string \<times> string) option list" where
  "run_reports ops tro [] lim = []"
| "run_reports ops tro ((now, kind, r, body) # cs) lim =
     (case reportsHandler ops tro kind now r body lim of (_, e, lim') \<Rightarrow> e # run_reports ops tro cs lim')"

definition recorded_for :: "string \<Rightarrow> (string \<times> string) option \<Rightarrow> bool" where
  "recorded_for i e = (case e of Some (_, ip) \<Rightarrow> ip = i | None \<Rightarrow> False)"

lemma records_are_takes:
  "length (filter (recorded_for i) (run_reports ops tro cs lim)) =
     count_list (run_takes (Report_Allow ops) (map (\<lambda>(t, _, r, _). (t, GetClientIdentifier r tro)) cs) lim) (True, i)"
  by (induction ops tro cs lim rule: run_reports.induct)
    (auto simp: reportsHandler_def recorded_for_def Let_def split: prod.splits)

text \<open>
  Reports cannot flood the log: over any run of reports in time order, the records written for
  one client identity number at most the burst plus the configured rate per minute times the
  minutes elapsed.
\<close>

theorem reports_bounded:
  assumes "rate_law ops" "sorted (map fst cs)" "cs \<noteq> []" "1 \<le> perMinute" "1 \<le> burst"
  shows "Minute * int (length (filter (recorded_for i) (run_reports ops tro cs (NewReportRateLimiter perMinute burst))))
    \<le> Minute * burst + perMinute * (fst (last cs) - fst (hd cs))"
proof -
  let ?c = "\<lambda>(t, _ :: string, r, _ :: string option). (t, GetClientIdentifier r tro)"
  have f: "fst (?c x) = fst x" for x by (cases x) simp
  have "report_limiter ops (NewReportRateLimiter perMinute burst) i = lo_new ops perMinute Minute burst"
    using assms(4,5) by (simp add: report_limiter_def NewReportRateLimiter_def)
  from rrt.admitted_per_key [OF assms(1) this, of "map ?c cs"] show ?thesis
    using assms by (simp add: records_are_takes f comp_def last_map hd_map Minute_def Second_def)
qed

section \<open>Witnesses\<close>

definition token_request :: http_request where
  "token_request = \<lparr>rq_Method = ''GET'', rq_Path = ''/x'', rq_Host = [], rq_URLHost = [], rq_RemoteAddr = ''192.0.2.1:1'', rq_TLS = True,
     rq_Header = [(''Authorization'', ''Bearer t'')]\<rparr>"

theorem operator_token_gate_witness:
  "RequireOperatorToken (\<lambda>x. x) (SetOperatorToken (\<lambda>x. x) ''t'') None ''no'' 0 1 token_request = Authorized
   \<and> RequireOperatorToken (\<lambda>x. x) (SetOperatorToken (\<lambda>x. x) ''u'') None ''no'' 0 1 token_request \<noteq> Authorized"
  using operator_token_gate [of "\<lambda>x. x" "''t''" None "''no''" 0 1 token_request] operator_token_gate [of "\<lambda>x. x" "''u''" None "''no''" 0 1 token_request]
  by (simp add: token_request_def Header_Get_def str_simps)

theorem rejection_uniform_witness:
  "\<exists>a l t. RequireOperatorToken (\<lambda>x. x) (SetOperatorToken (\<lambda>x. x) ''u'') None ''no'' 0 1 token_request = Rejected a l t
     \<and> ua_Status a = 401 \<and> failedAuthFloor \<le> t"
proof -
  obtain a l t where e: "RequireOperatorToken (\<lambda>x. x) (SetOperatorToken (\<lambda>x. x) ''u'') None ''no'' 0 1 token_request = Rejected a l t"
    by (auto simp: RequireOperatorToken_def ValidateOperatorToken_def SetOperatorToken_def presented_token_def token_request_def Header_Get_def str_simps
        TrimPrefix_def Let_def)
  from rejection_uniform [OF e e] have "ua_Status a = 401" "failedAuthFloor \<le> t" by simp_all
  with e show ?thesis by blast
qed

theorem reports_bounded_witness:
  "length (filter (recorded_for ''192.0.2.1'') (run_reports bucket_ops None
     (map (\<lambda>n. (0, ''csp'', token_request, Some ''x'')) [0..<20]) (NewReportRateLimiter 60 10))) \<le> 10"
proof -
  have "sorted (map fst (map (\<lambda>n. (0::int, ''csp'', token_request, Some ''x'')) [0..<20]))"
    by (simp add: sorted_iff_nth_mono)
  from reports_bounded [OF bucket_rate_law this, of 60 10 "''192.0.2.1''" None] show ?thesis
    by (simp add: Minute_def Second_def last_map hd_map)
qed

end
