(* ===== verification/HotReload.thy ===== *)
theory HotReload
  imports GoStrings "HOL-Library.List_Lexorder" "HOL-Library.Char_ord"
begin

text \<open>
  File \<open>config/hot_reload.go\<close>: what happens when \<open>server.yml\<close> changes while the server runs. The
  source walks the configuration by reflection, so a configuration is a value of the kinds it
  distinguishes. A struct carries its field descriptors, a map its entries in the order of their
  printed keys, and every value its type. The configuration types use no interfaces, so a
  reference is a pointer and every value can be set. YAML decoding and the clock are arguments.
\<close>

section \<open>Reflected values\<close>

record struct_field =
  sf_Name :: string
  sf_PkgPath :: string
  sf_Tag :: string

datatype cfgval =
  Basic string string
| Ptr string "cfgval option"
| Struct string "(struct_field \<times> cfgval) list"
| MapVal string bool "(string \<times> cfgval) list"
| Slice string bool "cfgval list"

fun val_type :: "cfgval \<Rightarrow> string" where
  "val_type (Basic t _) = t"
| "val_type (Ptr t _) = t"
| "val_type (Struct t _) = t"
| "val_type (MapVal t _ _) = t"
| "val_type (Slice t _ _) = t"

definition yamlFieldName :: "struct_field \<Rightarrow> string \<times> bool \<times> bool" where
  "yamlFieldName field =
     (let parts = SplitByte (sf_Tag field) (CHR '','');
          name = hd parts;
          inline = list_ex (\<lambda>option. option = ''inline'') (tl parts) in
      if name = ''-'' then ([], False, True)
      else if name = [] then (ToLower (sf_Name field), inline, False)
      else (name, inline, False))"

definition joinConfigPath :: "string \<Rightarrow> string \<Rightarrow> string" where
  "joinConfigPath parent child = (if parent = [] then child else parent @ ''.'' @ child)"

text \<open>The path of a field below a path, or nothing when the walk leaves the field out.\<close>

definition field_path :: "struct_field \<Rightarrow> string \<Rightarrow> string option" where
  "field_path field path =
     (if sf_PkgPath field \<noteq> [] then None
      else case yamlFieldName field of (name, inline, skip) \<Rightarrow>
        if skip then None else if inline then Some path else Some (joinConfigPath path name))"

section \<open>Comparing\<close>

definition note_change :: "string \<Rightarrow> string list" where
  "note_change path = (if path \<noteq> [] then [path] else [])"

definition map_keys :: "(string \<times> 'a) list \<Rightarrow> (string \<times> 'a) list \<Rightarrow> string list" where
  "map_keys xs ys = sort (remdups (map fst xs @ map fst ys))"

definition item :: "'a list \<Rightarrow> nat \<Rightarrow> 'a option" where
  "item xs i = (if i < length xs then Some (xs ! i) else None)"

definition index_path :: "string \<Rightarrow> nat \<Rightarrow> string" where
  "index_path path i = path @ ''['' @ Itoa i @ '']''"

text \<open>Parts are smaller than what they are part of.\<close>

definition opt_size :: "cfgval option \<Rightarrow> nat" where
  "opt_size v = (case v of None \<Rightarrow> 0 | Some w \<Rightarrow> size w)"

lemma opt_size_simps [simp]: "opt_size None = 0" "opt_size (Some v) = size v"
  by (simp_all add: opt_size_def)

lemma size_field1: "(f, u) \<in> set fs \<Longrightarrow> size u < size (Struct s fs)"
  using size_list_estimation' [of "(f, u)" fs "size u" "size_prod (\<lambda>_. 0) size"] by simp

lemma size_field: "((f, u), (g, v)) \<in> set (zip fs gs) \<Longrightarrow> size u + size v < size (Struct s fs) + size (Struct t gs)"
  by (metis add_strict_mono set_zip_leftD set_zip_rightD size_field1)

lemma size_entry: "opt_size (map_of xs k) < size (MapVal s m xs)"
proof (cases "map_of xs k")
  case (Some v)
  then have "(k, v) \<in> set xs" by (rule map_of_SomeD)
  then have "size v \<le> size_list (size_prod (\<lambda>_. 0) size) xs"
    by (rule size_list_estimation') simp
  with Some show ?thesis by simp
qed simp

lemma size_item: "opt_size (item xs i) < size (Slice s m xs)"
proof (cases "i < length xs")
  case True
  then have "size (xs ! i) \<le> size_list size xs"
    by (intro size_list_estimation' [of "xs ! i"]) auto
  with True show ?thesis by (simp add: item_def)
qed (simp add: item_def)

function (sequential) compareConfigValue :: "cfgval option \<Rightarrow> cfgval option \<Rightarrow> string \<Rightarrow> string list" where
  "compareConfigValue None None path = []"
| "compareConfigValue (Some _) None path = note_change path"
| "compareConfigValue None (Some _) path = note_change path"
| "compareConfigValue (Some a) (Some b) path =
     (if val_type a \<noteq> val_type b then note_change path
      else case (a, b) of
        (Ptr _ x, Ptr _ y) \<Rightarrow>
          if x = None \<or> y = None then if (x = None) \<noteq> (y = None) then note_change path else []
          else compareConfigValue x y path
      | (Struct _ fs, Struct _ gs) \<Rightarrow>
          concat (map (\<lambda>z. case field_path (fst (fst z)) path of
              None \<Rightarrow> []
            | Some p \<Rightarrow> compareConfigValue (Some (snd (fst z))) (Some (snd (snd z))) p) (zip fs gs))
      | (MapVal _ m xs, MapVal _ n ys) \<Rightarrow>
          if m \<noteq> n \<and> xs = [] \<and> ys = [] then note_change path
          else concat (map (\<lambda>k. compareConfigValue (map_of xs k) (map_of ys k) (joinConfigPath path k)) (map_keys xs ys))
      | (Slice _ m xs, Slice _ n ys) \<Rightarrow>
          if m \<noteq> n \<and> xs = [] \<and> ys = [] then note_change path
          else concat (map (\<lambda>i. compareConfigValue (item xs i) (item ys i) (index_path path i))
                 [0..<max (length xs) (length ys)])
      | (Basic _ x, Basic _ y) \<Rightarrow> if x \<noteq> y then note_change path else []
      | _ \<Rightarrow> [])"
  by pat_completeness auto
termination
  by (relation "measure (\<lambda>(a, b, p). opt_size a + opt_size b)")
    (auto simp del: cfgval.size simp: cfgval.size(7) add_strict_mono size_entry size_item dest: size_field split: if_splits)

definition app_config :: string where
  "app_config = ''config.AppConfig''"

definition compareConfigs :: "cfgval \<Rightarrow> cfgval \<Rightarrow> string list" where
  "compareConfigs old new =
     sort (compareConfigValue (Some (Ptr (''*'' @ app_config) (Some old))) (Some (Ptr (''*'' @ app_config) (Some new))) [])"

section \<open>Which changes need what\<close>

definition restartRequiredPrefixes :: "string list" where
  "restartRequiredPrefixes =
     [''server.port'', ''server.address'', ''server.daemonize'', ''ssl.'', ''server.ssl.'', ''database.'',
      ''server.database.'', ''tor.'', ''server.tor.'']"

definition requiresRestart :: "string \<Rightarrow> bool" where
  "requiresRestart setting \<longleftrightarrow>
     list_ex (\<lambda>prefix. setting = TrimSuffix prefix ''.'' \<or> (HasSuffix prefix ''.'' \<and> HasPrefix setting prefix))
       restartRequiredPrefixes"

definition isRestartPathAncestor :: "string \<Rightarrow> bool" where
  "isRestartPathAncestor path \<longleftrightarrow>
     path = [] \<or> list_ex (\<lambda>prefix. HasPrefix (TrimSuffix prefix ''.'') (path @ ''.'')) restartRequiredPrefixes"

definition requiresGracefulReload :: "string \<Rightarrow> bool" where
  "requiresGracefulReload setting \<longleftrightarrow>
     setting = ''server.baseurl'' \<or> HasPrefix setting ''server.logging.'' \<and> setting \<noteq> ''server.logging.level''
     \<or> setting \<in> set [''server.limits.read_timeout'', ''server.limits.write_timeout'', ''server.limits.idle_timeout'',
          ''server.timeouts.read'', ''server.timeouts.write'', ''server.timeouts.idle'']"

definition categorizeReloadChanges :: "string list \<Rightarrow> string list \<times> string list \<times> string list" where
  "categorizeReloadChanges changes =
     (filter (\<lambda>s. \<not> requiresRestart s \<and> \<not> requiresGracefulReload s) changes,
      filter (\<lambda>s. \<not> requiresRestart s \<and> requiresGracefulReload s) changes,
      filter requiresRestart changes)"

definition changesMatching :: "string list \<Rightarrow> (string \<Rightarrow> bool) \<Rightarrow> string list" where
  "changesMatching changes match = filter match changes"

definition categorizeChanges :: "string list \<Rightarrow> string list \<times> string list" where
  "categorizeChanges changes =
     (case categorizeReloadChanges changes of (hotReload, _, needsRestart) \<Rightarrow>
        (hotReload @ changesMatching changes requiresGracefulReload, needsRestart))"

section \<open>Keeping active values\<close>

function preserveRestartValues :: "cfgval \<Rightarrow> cfgval \<Rightarrow> string \<Rightarrow> cfgval" where
  "preserveRestartValues old new path =
     (if val_type old \<noteq> val_type new then new
      else if path \<noteq> [] \<and> requiresRestart path then old
      else if path \<noteq> [] \<and> \<not> isRestartPathAncestor path then new
      else case old of
        Ptr t x \<Rightarrow>
          (case new of
             Ptr t' y \<Rightarrow>
               (case x of
                  None \<Rightarrow> old
                | Some u \<Rightarrow> (case y of None \<Rightarrow> old | Some v \<Rightarrow> Ptr t' (Some (preserveRestartValues u v path))))
           | _ \<Rightarrow> new)
      | Struct t fs \<Rightarrow>
          (case new of
             Struct t' gs \<Rightarrow>
               Struct t' (map (\<lambda>z. (fst (snd z),
                 case field_path (fst (fst z)) path of
                   None \<Rightarrow> snd (snd z)
                 | Some p \<Rightarrow> preserveRestartValues (snd (fst z)) (snd (snd z)) p)) (zip fs gs))
           | _ \<Rightarrow> new)
      | _ \<Rightarrow> new)"
  by auto
termination
  by (relation "measure (\<lambda>(a, b, p). size a + size b)")
    (auto simp del: cfgval.size simp: cfgval.size(7) dest: size_field split: if_splits)

declare preserveRestartValues.simps [simp del]

definition preserveRestartRequiredSettings :: "cfgval \<Rightarrow> cfgval \<Rightarrow> cfgval" where
  "preserveRestartRequiredSettings oldCfg newCfg = preserveRestartValues oldCfg newCfg []"

text \<open>The loop over the fields ends at the first one whose name matches.\<close>

definition names_field :: "string \<Rightarrow> struct_field \<Rightarrow> bool" where
  "names_field name field \<longleftrightarrow>
     sf_PkgPath field = [] \<and> (case yamlFieldName field of (n, inline, skip) \<Rightarrow> \<not> skip \<and> \<not> inline \<and> n = name)"

fun copyConfigPath :: "cfgval \<Rightarrow> cfgval \<Rightarrow> string list \<Rightarrow> cfgval"
  and copy_field :: "(struct_field \<times> cfgval) list \<Rightarrow> (struct_field \<times> cfgval) list \<Rightarrow> string list \<Rightarrow> (struct_field \<times> cfgval) list" where
  "copyConfigPath old new parts =
     (if parts = [] then new
      else case old of
        Ptr t x \<Rightarrow>
          (case new of
             Ptr t' y \<Rightarrow>
               (case x of
                  None \<Rightarrow> new
                | Some u \<Rightarrow> (case y of None \<Rightarrow> new | Some v \<Rightarrow> Ptr t' (Some (copyConfigPath u v parts))))
           | _ \<Rightarrow> new)
      | Struct t fs \<Rightarrow> (case new of Struct t' gs \<Rightarrow> Struct t' (copy_field fs gs parts) | _ \<Rightarrow> new)
      | _ \<Rightarrow> new)"
| "copy_field ((f, u) # fs) ((g, v) # gs) parts =
     (if names_field (hd parts) f
      then (g, if length parts = 1 then u else copyConfigPath u v (tl parts)) # gs
      else (g, v) # copy_field fs gs parts)"
| "copy_field _ gs parts = gs"

declare copyConfigPath.simps [simp del]

definition preserveConfigPaths :: "cfgval \<Rightarrow> cfgval \<Rightarrow> string list \<Rightarrow> cfgval" where
  "preserveConfigPaths oldCfg newCfg paths =
     fold (\<lambda>path new. copyConfigPath oldCfg new (SplitByte path (CHR ''.''))) paths newCfg"

section \<open>Applying a changed file\<close>

text \<open>
  The active configuration (a package variable), the fields of the manager, and the calls made
  to the reload handler. A handler answers whether it succeeded.
\<close>

record reload_state =
  rs_current :: "cfgval option"
  rs_lastFileModTime :: int
  rs_pendingRestart :: bool
  rs_restartSettings :: "string list"
  rs_calls :: "(cfgval \<times> string list) list"

type_synonym reload_handler = "cfgval \<Rightarrow> string list \<Rightarrow> bool"

definition NewConfigManager :: "cfgval option \<Rightarrow> int option \<Rightarrow> reload_state" where
  "NewConfigManager cur stat =
     \<lparr>rs_current = cur, rs_lastFileModTime = (case stat of None \<Rightarrow> 0 | Some t \<Rightarrow> t), rs_pendingRestart = False,
      rs_restartSettings = [], rs_calls = []\<rparr>"

definition applyHotReloadSettings :: "cfgval \<Rightarrow> reload_state \<Rightarrow> reload_state" where
  "applyHotReloadSettings newCfg st = st\<lparr>rs_current := Some newCfg\<rparr>"

definition call_handler :: "cfgval \<Rightarrow> string list \<Rightarrow> reload_state \<Rightarrow> reload_state" where
  "call_handler cfg settings st = st\<lparr>rs_calls := rs_calls st @ [(cfg, settings)]\<rparr>"

text \<open>The block that makes hot and graceful changes effective, with the settings left for a restart.\<close>

definition reload_settings ::
  "reload_handler option \<Rightarrow> cfgval \<Rightarrow> cfgval \<Rightarrow> string list \<Rightarrow> string list \<Rightarrow> string list \<Rightarrow> reload_state
     \<Rightarrow> reload_state \<times> string list" where
  "reload_settings handler oldCfg newCfg hotReloadable gracefulReload needsRestart st =
     (if hotReloadable = [] \<and> gracefulReload = [] then (st, needsRestart)
      else let newCfg = preserveRestartRequiredSettings oldCfg newCfg;
               st = applyHotReloadSettings newCfg st;
               applied = hotReloadable @ gracefulReload in
        (case handler of
           None \<Rightarrow> (st, needsRestart)
         | Some h \<Rightarrow>
             let st = call_handler newCfg applied st in
             if gracefulReload \<noteq> [] \<and> \<not> h newCfg applied
             then let newCfg = preserveConfigPaths oldCfg newCfg gracefulReload;
                      st = applyHotReloadSettings newCfg st in
               (if hotReloadable \<noteq> [] then call_handler newCfg hotReloadable st else st, needsRestart @ gracefulReload)
             else (st, needsRestart)))"

definition applyConfigChanges :: "reload_handler option \<Rightarrow> cfgval \<Rightarrow> reload_state \<Rightarrow> reload_state" where
  "applyConfigChanges handler newCfg st =
     (case rs_current st of
        None \<Rightarrow> st
      | Some oldCfg \<Rightarrow>
          let changes = compareConfigs oldCfg newCfg in
          if changes = [] then st
          else (case categorizeReloadChanges changes of
            (hotReloadable, gracefulReload, needsRestart) \<Rightarrow>
              (case (if gracefulReload \<noteq> [] \<and> handler = None
                     then reload_settings handler oldCfg (preserveConfigPaths oldCfg newCfg gracefulReload)
                            hotReloadable [] (needsRestart @ gracefulReload) st
                     else reload_settings handler oldCfg newCfg hotReloadable gracefulReload needsRestart st) of
                 (st, needsRestart) \<Rightarrow>
                   if needsRestart \<noteq> []
                   then st\<lparr>rs_pendingRestart := True, rs_restartSettings := rs_restartSettings st @ needsRestart\<rparr>
                   else st)))"

text \<open>\<open>stat\<close> is the modification time, \<open>parsed\<close> what reading and decoding the file gave.\<close>

definition checkFileChanges :: "reload_handler option \<Rightarrow> int option \<Rightarrow> cfgval option \<Rightarrow> reload_state \<Rightarrow> reload_state" where
  "checkFileChanges handler stat parsed st =
     (case stat of
        None \<Rightarrow> st
      | Some t \<Rightarrow>
          if t = rs_lastFileModTime st then st
          else let st = st\<lparr>rs_lastFileModTime := t\<rparr> in
            (case parsed of None \<Rightarrow> st | Some newCfg \<Rightarrow> applyConfigChanges handler newCfg st))"

definition ClearPendingRestart :: "reload_state \<Rightarrow> reload_state" where
  "ClearPendingRestart st = st\<lparr>rs_pendingRestart := False, rs_restartSettings := []\<rparr>"

section \<open>Paths\<close>

definition extends :: "string \<Rightarrow> string \<Rightarrow> bool" where
  "extends path p \<longleftrightarrow> (\<exists>r. p = path @ ''.'' @ r) \<or> (\<exists>r. p = path @ ''['' @ r)"

lemma extends_trans: "extends a b \<Longrightarrow> extends b c \<Longrightarrow> extends a c"
  unfolding extends_def by (metis append.assoc append_Cons)

lemma set_note [simp]: "p \<in> set (note_change path) \<longleftrightarrow> p = path \<and> path \<noteq> []"
  by (auto simp: note_change_def)

lemma note_Nil [simp]: "note_change path = [] \<longleftrightarrow> path = []"
  by (simp add: note_change_def)

lemma field_path_cases:
  "field_path f path = Some p \<Longrightarrow> p = path \<or> p = joinConfigPath path (fst (yamlFieldName f))"
  by (auto simp: field_path_def split: prod.splits if_splits)

lemma join_extends: "path \<noteq> [] \<Longrightarrow> extends path (joinConfigPath path k)"
  by (simp add: extends_def joinConfigPath_def)

lemma index_extends: "extends path (index_path path i)"
  by (simp add: extends_def index_path_def)

text \<open>The comparison case by case.\<close>

declare compareConfigValue.simps(4) [simp del]

lemma compare_types: "val_type a \<noteq> val_type b \<Longrightarrow> compareConfigValue (Some a) (Some b) path = note_change path"
  by (simp add: compareConfigValue.simps(4))

lemma compare_Basic:
  "compareConfigValue (Some (Basic t x)) (Some (Basic t y)) path = (if x \<noteq> y then note_change path else [])"
  by (simp add: compareConfigValue.simps(4))

lemma compare_Ptr:
  "compareConfigValue (Some (Ptr t x)) (Some (Ptr t y)) path =
     (if x = None \<or> y = None then if (x = None) \<noteq> (y = None) then note_change path else [] else compareConfigValue x y path)"
  by (subst compareConfigValue.simps(4)) simp

lemma compare_Struct:
  "compareConfigValue (Some (Struct t fs)) (Some (Struct t gs)) path =
     concat (map (\<lambda>z. case field_path (fst (fst z)) path of
         None \<Rightarrow> []
       | Some p \<Rightarrow> compareConfigValue (Some (snd (fst z))) (Some (snd (snd z))) p) (zip fs gs))"
  by (subst compareConfigValue.simps(4)) simp

lemma compare_MapVal:
  "compareConfigValue (Some (MapVal t m xs)) (Some (MapVal t n ys)) path =
     (if m \<noteq> n \<and> xs = [] \<and> ys = [] then note_change path
      else concat (map (\<lambda>k. compareConfigValue (map_of xs k) (map_of ys k) (joinConfigPath path k)) (map_keys xs ys)))"
  by (subst compareConfigValue.simps(4)) simp

lemma compare_Slice:
  "compareConfigValue (Some (Slice t m xs)) (Some (Slice t n ys)) path =
     (if m \<noteq> n \<and> xs = [] \<and> ys = [] then note_change path
      else concat (map (\<lambda>i. compareConfigValue (item xs i) (item ys i) (index_path path i)) [0..<max (length xs) (length ys)]))"
  by (subst compareConfigValue.simps(4)) simp

lemma set_compare_Struct:
  "p \<in> set (compareConfigValue (Some (Struct t fs)) (Some (Struct t gs)) path) \<longleftrightarrow>
     (\<exists>f u g v q. ((f, u), (g, v)) \<in> set (zip fs gs) \<and> field_path f path = Some q
        \<and> p \<in> set (compareConfigValue (Some u) (Some v) q))"
proof -
  have "p \<in> set (case x of None \<Rightarrow> [] | Some q \<Rightarrow> h q) \<longleftrightarrow> (\<exists>q. x = Some q \<and> p \<in> set (h q))"
    for x :: "string option" and h by (cases x) auto
  then show ?thesis unfolding compare_Struct by (simp add: Bex_def)
qed

lemmas compare_cases = compare_types compare_Basic compare_Ptr compare_Struct compare_MapVal compare_Slice

text \<open>The comparisons a comparison consists of.\<close>

inductive sub_compare :: "cfgval \<Rightarrow> cfgval \<Rightarrow> string \<Rightarrow> cfgval option \<Rightarrow> cfgval option \<Rightarrow> string \<Rightarrow> bool" where
  sub_Ptr: "sub_compare (Ptr t (Some u)) (Ptr t (Some v)) path (Some u) (Some v) path"
| sub_Struct: "((f, u), (g, v)) \<in> set (zip fs gs) \<Longrightarrow> field_path f path = Some q
     \<Longrightarrow> sub_compare (Struct t fs) (Struct t gs) path (Some u) (Some v) q"
| sub_MapVal: "k \<in> set (map_keys xs ys)
     \<Longrightarrow> sub_compare (MapVal t m xs) (MapVal t n ys) path (map_of xs k) (map_of ys k) (joinConfigPath path k)"
| sub_Slice: "i < max (length xs) (length ys)
     \<Longrightarrow> sub_compare (Slice t m xs) (Slice t n ys) path (item xs i) (item ys i) (index_path path i)"

lemma sub_compare_size: "sub_compare a b path a' b' q \<Longrightarrow> opt_size a' + opt_size b' < size a + size b"
proof (induction rule: sub_compare.induct)
  case sub_Struct
  then show ?case using size_field by auto
qed (auto simp del: cfgval.size simp: cfgval.size(7) add_strict_mono size_entry size_item)

lemma sub_compare_path: "sub_compare a b path a' b' q \<Longrightarrow> path \<noteq> [] \<Longrightarrow> q = path \<or> extends path q"
  by (induction rule: sub_compare.induct) (use field_path_cases join_extends index_extends in blast)+

lemma compare_sub:
  assumes "p \<in> set (compareConfigValue (Some a) (Some b) path)"
  shows "p = path \<and> path \<noteq> [] \<or> (\<exists>a' b' q. sub_compare a b path a' b' q \<and> p \<in> set (compareConfigValue a' b' q))"
proof (cases "val_type a = val_type b")
  case True
  then show ?thesis
  proof (cases a; cases b)
    fix t t' fs gs assume ab: "a = Struct t fs" "b = Struct t' gs"
    then obtain f u g v q where "((f, u), (g, v)) \<in> set (zip fs gs)" "field_path f path = Some q"
      "p \<in> set (compareConfigValue (Some u) (Some v) q)"
      using assms True unfolding ab by (auto simp: set_compare_Struct)
    then show ?thesis using ab True by (auto intro: sub_Struct)
  next
    fix t t' m n xs ys assume "a = MapVal t m xs" "b = MapVal t' n ys"
    then show ?thesis using assms True by (auto simp: compare_MapVal intro: sub_MapVal split: if_splits)
  next
    fix t t' m n xs ys assume ab: "a = Slice t m xs" "b = Slice t' n ys"
    then consider "p = path \<and> path \<noteq> []" | i where "i < max (length xs) (length ys)" "p \<in> set (compareConfigValue (item xs i) (item ys i) (index_path path i))"
      using assms True by (auto simp: compare_Slice split: if_splits)
    then show ?thesis using ab True by cases (auto intro: sub_Slice)
  next
    fix t t' x y assume "a = Ptr t x" "b = Ptr t' y"
    then show ?thesis using assms True by (auto simp: compare_Ptr intro: sub_Ptr split: if_splits)
  qed (use assms in \<open>auto simp: compare_Basic compareConfigValue.simps(4) split: if_splits\<close>)
qed (use assms in \<open>simp add: compare_types\<close>)

lemma compare_below:
  assumes "p \<in> set (compareConfigValue a b path)" "path \<noteq> []"
  shows "p = path \<or> extends path p"
  using assms
proof (induction "opt_size a + opt_size b" arbitrary: a b path rule: less_induct)
  case less
  show ?case
  proof (cases "a = None \<or> b = None")
    case True
    with less.prems show ?thesis by (cases a; cases b) auto
  next
    case False
    then obtain u v where ab: "a = Some u" "b = Some v" by auto
    from compare_sub [OF less.prems(1) [unfolded ab]] show ?thesis
    proof
      assume "\<exists>a' b' q. sub_compare u v path a' b' q \<and> p \<in> set (compareConfigValue a' b' q)"
      then obtain a' b' q where s: "sub_compare u v path a' b' q" "p \<in> set (compareConfigValue a' b' q)" by blast
      have q: "q = path \<or> extends path q" by (rule sub_compare_path [OF s(1) less.prems(2)])
      then have "q \<noteq> []" using less.prems(2) by (auto simp: extends_def)
      then have "p = q \<or> extends q p" using less.hyps [OF _ s(2)] sub_compare_size [OF s(1)] ab by simp
      then show ?thesis using q extends_trans by blast
    qed simp
  qed
qed

lemma compare_refl: "compareConfigValue a a path = []"
proof (induction "opt_size a" arbitrary: a path rule: less_induct)
  case less
  show ?case
  proof (cases a)
    case (Some u)
    have sub: "compareConfigValue x x q = []" if "sub_compare u u path x x q" for x q
      using less sub_compare_size [OF that] Some by simp
    then show ?thesis unfolding Some
    proof (cases u)
      case (Struct t fs)
      then have "compareConfigValue (Some v) (Some v) q = []" if "(f, v) \<in> set fs" "field_path f path = Some q" for f v q
        using that by (intro sub) (auto simp: zip_same intro!: sub_compare.sub_Struct)
      then show "compareConfigValue (Some u) (Some u) path = []"
        by (auto simp: Struct compare_Struct zip_same split: option.splits)
    next
      case (Slice t m xs)
      then have "compareConfigValue (item xs i) (item xs i) (index_path path i) = []" if "i < length xs" for i
        using that by (intro sub) (auto intro!: sub_compare.sub_Slice)
      then show "compareConfigValue (Some u) (Some u) path = []" by (simp add: Slice compare_Slice)
    qed (auto simp: compare_cases intro: sub sub_compare.intros)
  qed simp
qed

section \<open>Types\<close>

text \<open>What the Go type of a value fixes: its kind, the element of a pointer, the fields of a struct.\<close>

datatype kind = KBasic | KPtr string | KStruct "(struct_field \<times> string) list" | KMap | KSlice

definition inline_field :: "struct_field \<Rightarrow> bool" where
  "inline_field f \<longleftrightarrow> fst (snd (yamlFieldName f))"

definition hidden :: "struct_field \<Rightarrow> bool" where
  "hidden f \<longleftrightarrow> sf_PkgPath f \<noteq> [] \<or> snd (snd (yamlFieldName f))"

fun typed :: "(string \<Rightarrow> kind) \<Rightarrow> cfgval \<Rightarrow> bool" where
  "typed \<Gamma> (Basic t x) = (\<Gamma> t = KBasic)"
| "typed \<Gamma> (Ptr t x) = (case x of None \<Rightarrow> \<exists>e. \<Gamma> t = KPtr e | Some v \<Rightarrow> \<Gamma> t = KPtr (val_type v) \<and> typed \<Gamma> v)"
| "typed \<Gamma> (Struct t fs) = (\<Gamma> t = KStruct (map (\<lambda>(f, v). (f, val_type v)) fs)
     \<and> list_all (\<lambda>(f, v). typed \<Gamma> v \<and> sf_Name f \<noteq> [] \<and> (inline_field f \<longrightarrow> (\<exists>fts. \<Gamma> (val_type v) = KStruct fts))) fs)"
| "typed \<Gamma> (MapVal t m xs) = (\<Gamma> t = KMap \<and> sorted_wrt (<) (map fst xs) \<and> (m \<longrightarrow> xs = []) \<and> list_all (\<lambda>(k, v). typed \<Gamma> v) xs)"
| "typed \<Gamma> (Slice t m xs) = (\<Gamma> t = KSlice \<and> (m \<longrightarrow> xs = []) \<and> list_all (typed \<Gamma>) xs)"

text \<open>What of a value is visible as settings: the values of hidden fields are forgotten.\<close>

fun visible :: "cfgval \<Rightarrow> cfgval" where
  "visible (Basic t x) = Basic t x"
| "visible (Ptr t x) = Ptr t (map_option visible x)"
| "visible (Struct t fs) = Struct t (map (\<lambda>(f, v). (f, if hidden f then Basic [] [] else visible v)) fs)"
| "visible (MapVal t m xs) = MapVal t m (map (\<lambda>(k, v). (k, visible v)) xs)"
| "visible (Slice t m xs) = Slice t m (map visible xs)"

lemma val_type_visible [simp]: "val_type (visible v) = val_type v"
  by (cases v) auto

lemma field_path_hidden: "field_path f path = None \<longleftrightarrow> hidden f"
  by (auto simp: field_path_def hidden_def split: prod.splits)

lemma field_name_nonempty: "sf_Name f \<noteq> [] \<Longrightarrow> \<not> hidden f \<Longrightarrow> fst (yamlFieldName f) \<noteq> []"
  by (auto simp: yamlFieldName_def hidden_def Let_def ToLower_def)

lemma field_path_visible:
  "\<not> hidden f \<Longrightarrow> field_path f path = Some (if inline_field f then path else joinConfigPath path (fst (yamlFieldName f)))"
  by (auto simp: field_path_def hidden_def inline_field_def split: prod.splits)

text \<open>An empty list of changes means that nothing visible differs.\<close>

definition comparable :: "cfgval option \<Rightarrow> cfgval option \<Rightarrow> string \<Rightarrow> bool" where
  "comparable a b path \<longleftrightarrow> path \<noteq> [] \<or> (\<exists>t fs gs. a = Some (Struct t fs) \<and> b = Some (Struct t gs))"

lemma typed_struct: "typed \<Gamma> v \<Longrightarrow> \<Gamma> (val_type v) = KStruct fts \<Longrightarrow> \<exists>t fs. v = Struct t fs"
  by (cases v) (auto split: option.splits)

lemma struct_fields:
  assumes "typed \<Gamma> (Struct t fs)" "typed \<Gamma> (Struct t gs)"
  shows "length fs = length gs" "\<And>i. i < length fs \<Longrightarrow> fst (fs ! i) = fst (gs ! i) \<and> val_type (snd (fs ! i)) = val_type (snd (gs ! i))"
proof -
  let ?h = "\<lambda>(f, v). (f, val_type v)"
  have e: "map ?h fs = map ?h gs" using assms by simp
  show l: "length fs = length gs" using e by (metis length_map)
  show "fst (fs ! i) = fst (gs ! i) \<and> val_type (snd (fs ! i)) = val_type (snd (gs ! i))" if "i < length fs" for i
    using arg_cong [OF e, of "\<lambda>l. l ! i"] that l by (simp add: case_prod_beta)
qed

lemma map_keys_iff: "k \<in> set (map_keys xs ys) \<longleftrightarrow> map_of xs k \<noteq> None \<or> map_of ys k \<noteq> None"
  by (auto simp: map_keys_def map_of_eq_None_iff)

lemma map_of_visible: "map_of (map (\<lambda>(k, v). (k, visible v)) xs) k = map_option visible (map_of xs k)"
  by (simp add: map_of_map)

lemma compare_Struct_Nil:
  assumes "length fs = length gs"
  shows "compareConfigValue (Some (Struct t fs)) (Some (Struct t gs)) path = [] \<longleftrightarrow>
    (\<forall>i < length fs. \<forall>q. field_path (fst (fs ! i)) path = Some q
       \<longrightarrow> compareConfigValue (Some (snd (fs ! i))) (Some (snd (gs ! i))) q = [])"
proof -
  have z: "set (zip fs gs) = (\<lambda>i. (fs ! i, gs ! i)) ` {..<length fs}"
    using assms by (fastforce simp: set_zip)
  show ?thesis by (auto simp: compare_Struct z split: option.splits)
qed

lemma zip_nth_mem:
  "i < length fs \<Longrightarrow> length fs = length gs
     \<Longrightarrow> ((fst (fs ! i), snd (fs ! i)), (fst (gs ! i), snd (gs ! i))) \<in> set (zip fs gs)"
  unfolding set_zip by (intro CollectI exI [of _ i]) simp

lemma visible_Struct_iff:
  assumes "length fs = length gs" "\<And>i. i < length fs \<Longrightarrow> fst (fs ! i) = fst (gs ! i)"
  shows "visible (Struct t fs) = visible (Struct t gs) \<longleftrightarrow>
    (\<forall>i < length fs. hidden (fst (fs ! i)) \<or> visible (snd (fs ! i)) = visible (snd (gs ! i)))"
  using assms by (auto simp: list_eq_iff_nth_eq case_prod_beta)

definition agrees :: "cfgval option \<Rightarrow> cfgval option \<Rightarrow> string \<Rightarrow> bool" where
  "agrees a b path \<longleftrightarrow> (compareConfigValue a b path = [] \<longleftrightarrow> map_option visible a = map_option visible b)"

text \<open>The fields of two structs of one type can be compared again.\<close>

lemma field_comparable:
  assumes "typed \<Gamma> (Struct t fs)" "typed \<Gamma> (Struct t gs)" "i < length fs" "field_path (fst (fs ! i)) path = Some q"
  shows "typed \<Gamma> (snd (fs ! i))" "typed \<Gamma> (snd (gs ! i))" "comparable (Some (snd (fs ! i))) (Some (snd (gs ! i))) q"
    "sub_compare (Struct t fs) (Struct t gs) path (Some (snd (fs ! i))) (Some (snd (gs ! i))) q"
proof -
  note sf = struct_fields [OF assms(1,2)]
  have f: "fs ! i \<in> set fs" "gs ! i \<in> set gs" using assms(3) sf by auto
  then have t: "typed \<Gamma> (snd (fs ! i))" "typed \<Gamma> (snd (gs ! i))" "sf_Name (fst (fs ! i)) \<noteq> []"
    "inline_field (fst (fs ! i)) \<Longrightarrow> \<exists>fts. \<Gamma> (val_type (snd (fs ! i))) = KStruct fts"
    using assms(1,2) by (auto simp: list_all_iff case_prod_beta)
  then show "typed \<Gamma> (snd (fs ! i))" "typed \<Gamma> (snd (gs ! i))" by simp_all
  have nh: "\<not> hidden (fst (fs ! i))" using assms(4) field_path_hidden [of "fst (fs ! i)" path] by simp
  show "comparable (Some (snd (fs ! i))) (Some (snd (gs ! i))) q"
  proof (cases "inline_field (fst (fs ! i))")
    case True
    then obtain fts where k: "\<Gamma> (val_type (snd (fs ! i))) = KStruct fts" using t(4) by blast
    moreover have "val_type (snd (gs ! i)) = val_type (snd (fs ! i))" using sf assms(3) by simp
    ultimately show ?thesis using typed_struct [OF t(1)] typed_struct [OF t(2)] by (fastforce simp: comparable_def)
  next
    case False
    then have "q = joinConfigPath path (fst (yamlFieldName (fst (fs ! i))))" using assms(4) field_path_visible [OF nh] by simp
    then show ?thesis using field_name_nonempty [OF t(3) nh] by (simp add: comparable_def joinConfigPath_def)
  qed
  have "((fst (fs ! i), snd (fs ! i)), (fst (gs ! i), snd (gs ! i))) \<in> set (zip fs gs)"
    using assms(3) sf(1) by (rule zip_nth_mem)
  then show "sub_compare (Struct t fs) (Struct t gs) path (Some (snd (fs ! i))) (Some (snd (gs ! i))) q"
    using assms(4) by (rule sub_compare.sub_Struct)
qed

lemma agrees_Struct:
  assumes "typed \<Gamma> (Struct t fs)" "typed \<Gamma> (Struct t gs)"
    and "\<And>u v q. sub_compare (Struct t fs) (Struct t gs) path (Some u) (Some v) q \<Longrightarrow> typed \<Gamma> u \<Longrightarrow> typed \<Gamma> v
      \<Longrightarrow> comparable (Some u) (Some v) q \<Longrightarrow> agrees (Some u) (Some v) q"
  shows "agrees (Some (Struct t fs)) (Some (Struct t gs)) path"
proof -
  note sf = struct_fields [OF assms(1,2)]
  have "compareConfigValue (Some (snd (fs ! i))) (Some (snd (gs ! i))) q = [] \<longleftrightarrow> visible (snd (fs ! i)) = visible (snd (gs ! i))"
    if "i < length fs" "field_path (fst (fs ! i)) path = Some q" for i q
    using assms(3) field_comparable [OF assms(1,2) that] by (simp add: agrees_def)
  then show ?thesis
    using sf field_path_hidden
    by (simp only: agrees_def option.map option.inject compare_Struct_Nil visible_Struct_iff) (metis not_None_eq)
qed

lemma agrees_MapVal:
  assumes "typed \<Gamma> (MapVal t m xs)" "typed \<Gamma> (MapVal t n ys)" "path \<noteq> []"
    and "\<And>a b q. sub_compare (MapVal t m xs) (MapVal t n ys) path a b q \<Longrightarrow> pred_option (typed \<Gamma>) a \<Longrightarrow> pred_option (typed \<Gamma>) b
      \<Longrightarrow> comparable a b q \<Longrightarrow> agrees a b q"
  shows "agrees (Some (MapVal t m xs)) (Some (MapVal t n ys)) path"
proof -
  have tm: "pred_option (typed \<Gamma>) (map_of zs k)" if "list_all (\<lambda>(k, v). typed \<Gamma> v) zs" for zs k
    using that by (cases "map_of zs k") (auto simp: list_all_iff dest: map_of_SomeD)
  have k: "agrees (map_of xs k) (map_of ys k) (joinConfigPath path k)" if "k \<in> set (map_keys xs ys)" for k
    using that assms(1-3) tm
    by (intro assms(4) sub_compare.sub_MapVal) (auto simp: comparable_def joinConfigPath_def)
  have "(\<forall>k \<in> set (map_keys xs ys). map_option visible (map_of xs k) = map_option visible (map_of ys k))
      \<longleftrightarrow> map_of (map (\<lambda>(k, v). (k, visible v)) xs) = map_of (map (\<lambda>(k, v). (k, visible v)) ys)"
    unfolding fun_eq_iff map_of_visible using map_keys_iff [of _ xs ys] by (metis option.map_disc_iff)
  also have "\<dots> \<longleftrightarrow> map (\<lambda>(k, v). (k, visible v)) xs = map (\<lambda>(k, v). (k, visible v)) ys"
    using sorted_alist_eq [of "map (\<lambda>(k, v). (k, visible v)) xs" "map (\<lambda>(k, v). (k, visible v)) ys"] assms(1,2)
    by (auto simp: comp_def case_prod_beta)
  finally show ?thesis using k assms(1-3) by (auto simp: compare_MapVal agrees_def)
qed

lemma agrees_Slice:
  assumes "typed \<Gamma> (Slice t m xs)" "typed \<Gamma> (Slice t n ys)" "path \<noteq> []"
    and "\<And>a b q. sub_compare (Slice t m xs) (Slice t n ys) path a b q \<Longrightarrow> pred_option (typed \<Gamma>) a \<Longrightarrow> pred_option (typed \<Gamma>) b
      \<Longrightarrow> comparable a b q \<Longrightarrow> agrees a b q"
  shows "agrees (Some (Slice t m xs)) (Some (Slice t n ys)) path"
proof -
  have k: "agrees (item xs i) (item ys i) (index_path path i)" if "i < max (length xs) (length ys)" for i
    using that assms(1,2)
    by (intro assms(4) sub_compare.sub_Slice) (auto simp: comparable_def index_path_def item_def list_all_length)
  have "(\<forall>i < max (length xs) (length ys). map_option visible (item xs i) = map_option visible (item ys i))
      \<longleftrightarrow> map visible xs = map visible ys" (is "?l \<longleftrightarrow> ?r")
  proof
    assume ?l
    then have "i < length xs \<longleftrightarrow> i < length ys" if "i < max (length xs) (length ys)" for i
      using that by (auto simp: item_def split: if_splits)
    from this [of "length xs"] this [of "length ys"] have "length xs = length ys"
      by (cases "length xs" "length ys" rule: linorder_cases) auto
    with \<open>?l\<close> show ?r by (auto simp: list_eq_iff_nth_eq item_def)
  qed (auto simp: list_eq_iff_nth_eq item_def)
  then show ?thesis using k assms(1-3) by (auto simp: compare_Slice agrees_def)
qed

lemma same_kind:
  assumes "typed \<Gamma> u" "typed \<Gamma> v" "val_type u = val_type v"
  obtains t x y where "u = Basic t x" "v = Basic t y" | t x y where "u = Ptr t x" "v = Ptr t y"
  | t fs gs where "u = Struct t fs" "v = Struct t gs" | t m n xs ys where "u = MapVal t m xs" "v = MapVal t n ys"
  | t m n xs ys where "u = Slice t m xs" "v = Slice t n ys"
  using assms by (cases u; cases v) (auto split: option.splits)

lemma compare_Nil:
  assumes "pred_option (typed \<Gamma>) a" "pred_option (typed \<Gamma>) b" "comparable a b path"
  shows "agrees a b path"
  using assms
proof (induction "opt_size a + opt_size b" arbitrary: a b path rule: less_induct)
  case less
  show ?case
  proof (cases "a = None \<or> b = None")
    case True
    then show ?thesis using less.prems(3) by (cases a; cases b) (auto simp: comparable_def agrees_def)
  next
    case False
    then obtain u v where ab: "a = Some u" "b = Some v" by auto
    note ty = less.prems(1,2) [unfolded ab option.pred_inject]
    have IH: "agrees a' b' q" if "sub_compare u v path a' b' q" "pred_option (typed \<Gamma>) a'" "pred_option (typed \<Gamma>) b'" "comparable a' b' q" for a' b' q
      using less.hyps sub_compare_size [OF that(1)] that ab by simp
    show ?thesis
    proof (cases "val_type u = val_type v")
      case False
      then have "visible u \<noteq> visible v" by (metis val_type_visible)
      then show ?thesis using less.prems(3) False by (auto simp: ab compare_types comparable_def agrees_def)
    next
      case True
      from ty True show ?thesis unfolding ab
      proof (cases rule: same_kind)
        case (1 t x y)
        then show "agrees (Some u) (Some v) path"
          using less.prems(3) by (auto simp: ab compare_Basic comparable_def agrees_def)
      next
        case (2 t x y)
        moreover have "path \<noteq> []" using less.prems(3) 2 by (auto simp: ab comparable_def)
        ultimately show "agrees (Some u) (Some v) path"
          using IH [of x y path] ty
          by (cases x; cases y) (auto simp: compare_Ptr comparable_def agrees_def intro: sub_compare.sub_Ptr)
      next
        case (3 t fs gs)
        then show "agrees (Some u) (Some v) path" using ty IH by (auto intro!: agrees_Struct)
      next
        case (4 t m n xs ys)
        then have "path \<noteq> []" using less.prems(3) by (auto simp: ab comparable_def)
        from ty this IH show "agrees (Some u) (Some v) path" unfolding 4 by (rule agrees_MapVal)
      next
        case (5 t m n xs ys)
        then have "path \<noteq> []" using less.prems(3) by (auto simp: ab comparable_def)
        from ty this IH show "agrees (Some u) (Some v) path" unfolding 5 by (rule agrees_Slice)
      qed
    qed
  qed
qed

section \<open>Restart paths\<close>

definition restart_roots :: "string list" where
  "restart_roots = [''ssl'', ''database'', ''tor'', ''server.ssl'', ''server.database'', ''server.tor'']"

definition restart_leaves :: "string list" where
  "restart_leaves = [''server.port'', ''server.address'', ''server.daemonize'']"

lemma requiresRestart_iff:
  "requiresRestart p \<longleftrightarrow> p \<in> set restart_leaves \<or> p \<in> set restart_roots \<or> (\<exists>r \<in> set restart_roots. HasPrefix p (r @ ''.''))"
  by (simp add: requiresRestart_def restartRequiredPrefixes_def restart_roots_def restart_leaves_def TrimSuffix_def HasSuffix_def)
    (simp only: disj_ac)

lemma isRestartPathAncestor_roots:
  "isRestartPathAncestor path \<longleftrightarrow> path = [] \<or> (\<exists>r \<in> set restart_roots \<union> set restart_leaves. HasPrefix r (path @ ''.''))"
proof -
  have "set (map (\<lambda>p. TrimSuffix p ''.'') restartRequiredPrefixes) = set restart_roots \<union> set restart_leaves"
    by (auto simp: restartRequiredPrefixes_def restart_roots_def restart_leaves_def TrimSuffix_def HasSuffix_def)
  then show ?thesis unfolding isRestartPathAncestor_def list_ex_iff by (metis (no_types, lifting) image_iff set_map)
qed

lemma root_dots:
  assumes "r \<in> set restart_roots \<union> set restart_leaves" "r = path @ ''.'' @ x"
  shows "path = ''server''"
proof -
  have "length (filter (\<lambda>c. c = CHR ''.'') r) \<le> 1 \<and> (CHR ''.'' \<in> set r \<longrightarrow> takeWhile (\<lambda>c. c \<noteq> CHR ''.'') r = ''server'')"
    using assms(1) by (auto simp: restart_roots_def restart_leaves_def)
  then have "CHR ''.'' \<notin> set path" "takeWhile (\<lambda>c. c \<noteq> CHR ''.'') r = ''server''" using assms(2) by (auto simp: filter_empty_conv)
  then show ?thesis using assms(2) by (subst (asm) assms(2)) (auto simp: takeWhile_append split: if_splits)
qed

lemma isRestartPathAncestor_iff: "isRestartPathAncestor path \<longleftrightarrow> path = [] \<or> path = ''server''"
proof -
  have "HasPrefix ''server.port'' (''server'' @ ''.'')" "''server.port'' \<in> set restart_leaves"
    by (simp_all add: HasPrefix_def restart_leaves_def)
  then show ?thesis unfolding isRestartPathAncestor_roots using root_dots by (auto simp: HasPrefix_iff)
qed

text \<open>Below a setting that needs no restart, apart from the server section itself, nothing does.\<close>

lemma restart_not_below:
  assumes "extends path p" "requiresRestart p" "\<not> requiresRestart path"
  shows "path = [] \<or> path = ''server''"
proof -
  have nb: "CHR ''['' \<notin> set r" if "r \<in> set restart_roots \<union> set restart_leaves" for r
    using that by (auto simp: restart_roots_def restart_leaves_def)
  have anc: "isRestartPathAncestor path" if "r \<in> set restart_roots \<union> set restart_leaves" "r = path @ ''.'' @ x" for r x
    using root_dots [OF that] by (simp add: isRestartPathAncestor_iff)
  from assms(2) consider r where "r \<in> set restart_roots \<union> set restart_leaves" "p = r"
    | r x where "r \<in> set restart_roots" "p = r @ ''.'' @ x"
    unfolding requiresRestart_iff by (auto simp: HasPrefix_iff)
  then have "isRestartPathAncestor path"
  proof cases
    case 1
    then show ?thesis using assms(1) nb anc by (fastforce simp: extends_def)
  next
    case (2 r x)
    then obtain c y where c: "r @ ''.'' @ x = path @ c # y" "c = CHR ''.'' \<or> c = CHR ''[''"
      using assms(1) by (auto simp: extends_def)
    from c(1) consider us where "r = path @ us" "us @ ''.'' @ x = c # y" | us where "path = r @ us" "''.'' @ x = us @ c # y"
      by (auto simp: append_eq_append_conv2)
    then show ?thesis
    proof cases
      case (1 us)
      then show ?thesis using assms(3) 2(1) nb [of r] c(2) anc [of r "tl us"]
        by (cases us) (auto simp: requiresRestart_iff)
    next
      case (2 us)
      then show ?thesis using assms(3) \<open>r \<in> set restart_roots\<close>
        by (cases us) (auto simp: requiresRestart_iff HasPrefix_iff)
    qed
  qed
  then show ?thesis by (simp add: isRestartPathAncestor_iff)
qed

section \<open>The schema\<close>

text \<open>
  What the two outer types of the configuration look like: the server section is a struct, the
  restart sections are structs, the other restart settings plain values, and no field of the two
  is inlined.
\<close>

definition struct_type :: "(string \<Rightarrow> kind) \<Rightarrow> string \<Rightarrow> bool" where
  "struct_type \<Gamma> t \<longleftrightarrow> (case \<Gamma> t of KStruct _ \<Rightarrow> True | _ \<Rightarrow> False)"

definition field_ok :: "(string \<Rightarrow> kind) \<Rightarrow> string \<Rightarrow> struct_field \<times> string \<Rightarrow> bool" where
  "field_ok \<Gamma> path ft = (case ft of (f, t) \<Rightarrow>
     \<not> inline_field f \<and>
     (case field_path f path of
        None \<Rightarrow> True
      | Some p \<Rightarrow> (p \<in> set restart_leaves \<longrightarrow> \<Gamma> t = KBasic) \<and> (p \<in> set restart_roots \<longrightarrow> struct_type \<Gamma> t)))"

definition fields_ok :: "(string \<Rightarrow> kind) \<Rightarrow> string \<Rightarrow> string \<Rightarrow> bool" where
  "fields_ok \<Gamma> path t = (case \<Gamma> t of KStruct fts \<Rightarrow> list_all (field_ok \<Gamma> path) fts | _ \<Rightarrow> False)"

definition schema :: "(string \<Rightarrow> kind) \<Rightarrow> bool" where
  "schema \<Gamma> \<longleftrightarrow> fields_ok \<Gamma> [] app_config
     \<and> (case \<Gamma> app_config of
          KStruct fts \<Rightarrow> list_all (\<lambda>(f, t). field_path f [] = Some ''server'' \<longrightarrow> fields_ok \<Gamma> ''server'' t) fts
        | _ \<Rightarrow> False)"

definition is_config :: "(string \<Rightarrow> kind) \<Rightarrow> cfgval \<Rightarrow> bool" where
  "is_config \<Gamma> v \<longleftrightarrow> typed \<Gamma> v \<and> val_type v = app_config"

text \<open>All differences below a restart setting are themselves restart settings.\<close>

lemma struct_below:
  assumes "p \<in> set (compareConfigValue (Some (Struct t fs)) (Some (Struct t gs)) path)"
    and "typed \<Gamma> (Struct t fs)" "typed \<Gamma> (Struct t gs)" "path \<noteq> []"
  shows "\<exists>r. p = path @ ''.'' @ r"
  using assms
proof (induction "size (Struct t fs)" arbitrary: t fs gs rule: less_induct)
  case less
  from less.prems(1) obtain i q where i: "i < length fs" "field_path (fst (fs ! i)) path = Some q"
    "p \<in> set (compareConfigValue (Some (snd (fs ! i))) (Some (snd (gs ! i))) q)"
    unfolding set_compare_Struct by (auto simp: in_set_zip)
  note fc = field_comparable [OF less.prems(2,3) i(1,2)]
  show ?case
  proof (cases "inline_field (fst (fs ! i))")
    case True
    have "\<not> hidden (fst (fs ! i))" using i(2) field_path_hidden [of "fst (fs ! i)" path] by simp
    then have q: "q = path" using i(2) True by (simp add: field_path_visible)
    have m: "fs ! i \<in> set fs" using i(1) by simp
    then obtain fts where "\<Gamma> (val_type (snd (fs ! i))) = KStruct fts"
      using less.prems(2) True by (auto simp: list_all_iff case_prod_beta)
    moreover have "val_type (snd (gs ! i)) = val_type (snd (fs ! i))" using struct_fields [OF less.prems(2,3)] i(1) by simp
    ultimately obtain t' fs' gs' where s: "snd (fs ! i) = Struct t' fs'" "snd (gs ! i) = Struct t' gs'"
      using typed_struct [OF fc(1)] typed_struct [OF fc(2)] by fastforce
    have "size (Struct t' fs') < size (Struct t fs)" using size_field1 [of "fst (fs ! i)" "snd (fs ! i)" fs] m unfolding s(1) [symmetric] by (simp del: cfgval.size)
    then show ?thesis using less.hyps i(3) fc less.prems(4) q s by auto
  next
    case False
    have "\<not> hidden (fst (fs ! i))" using i(2) field_path_hidden [of "fst (fs ! i)" path] by simp
    then have "q = path @ ''.'' @ fst (yamlFieldName (fst (fs ! i)))"
      using i(2) False less.prems(4) by (simp add: field_path_visible joinConfigPath_def)
    then show ?thesis using compare_below [OF i(3)] by (auto simp: extends_def)
  qed
qed

section \<open>What is kept and what changes\<close>

text \<open>
  A value \<open>w\<close> put in place of a new value \<open>v\<close> over an old value \<open>u\<close>: it has the same type, no restart
  setting differs from the old value, and it is the new value if no restart setting changed.
\<close>

definition restored :: "(string \<Rightarrow> kind) \<Rightarrow> cfgval \<Rightarrow> cfgval \<Rightarrow> string \<Rightarrow> cfgval \<Rightarrow> bool" where
  "restored \<Gamma> u v path w \<longleftrightarrow> typed \<Gamma> w \<and> val_type w = val_type v
     \<and> (\<forall>p \<in> set (compareConfigValue (Some u) (Some w) path). \<not> requiresRestart p)
     \<and> ((\<forall>p \<in> set (compareConfigValue (Some u) (Some v) path). \<not> requiresRestart p) \<longrightarrow> visible w = visible v)"

lemma val_type_preserve [simp]: "val_type (preserveRestartValues old new path) = val_type new"
  by (subst preserveRestartValues.simps) (auto split: cfgval.splits option.splits)

lemma restart_below_restart:
  assumes "requiresRestart path" "p \<in> set (compareConfigValue (Some u) (Some v) path)" "path \<noteq> []"
    and "typed \<Gamma> u" "typed \<Gamma> v" "val_type u = val_type v"
    and "path \<in> set restart_leaves \<Longrightarrow> \<Gamma> (val_type u) = KBasic" "path \<in> set restart_roots \<Longrightarrow> struct_type \<Gamma> (val_type u)"
  shows "requiresRestart p"
proof -
  consider "path \<in> set restart_leaves" | "path \<in> set restart_roots" | r x where "r \<in> set restart_roots" "path = r @ ''.'' @ x"
    using assms(1) by (auto simp: requiresRestart_iff HasPrefix_iff)
  then show ?thesis
  proof cases
    case 1
    then obtain t x y where "u = Basic t x" "v = Basic t y" using assms(4-7) by (cases u; cases v) (auto split: option.splits)
    then show ?thesis using assms(1,2) by (auto simp: compare_Basic split: if_splits)
  next
    case 2
    obtain fts where "\<Gamma> (val_type u) = KStruct fts" using assms(8) [OF 2] by (auto simp: struct_type_def split: kind.splits)
    then obtain t fs gs where "u = Struct t fs" "v = Struct t gs"
      using typed_struct [OF assms(4)] typed_struct [OF assms(5)] assms(6) by fastforce
    then obtain x where "p = path @ ''.'' @ x" using struct_below [of p t fs gs path \<Gamma>] assms by auto
    then show ?thesis using 2 by (auto simp: requiresRestart_iff HasPrefix_iff)
  next
    case 3
    then show ?thesis using compare_below [OF assms(2,3)] by (auto simp: requiresRestart_iff HasPrefix_iff extends_def)
  qed
qed

lemma restored_plain:
  assumes "typed \<Gamma> u" "typed \<Gamma> v" "val_type u = val_type v" "path \<noteq> []" "path \<noteq> ''server''"
    and "path \<in> set restart_leaves \<Longrightarrow> \<Gamma> (val_type u) = KBasic" "path \<in> set restart_roots \<Longrightarrow> struct_type \<Gamma> (val_type u)"
  shows "restored \<Gamma> u v path (preserveRestartValues u v path)"
proof (cases "requiresRestart path")
  case True
  have w: "preserveRestartValues u v path = u" by (subst preserveRestartValues.simps) (simp add: True assms(3,4))
  have "compareConfigValue (Some u) (Some v) path = []"
    if "\<forall>p \<in> set (compareConfigValue (Some u) (Some v) path). \<not> requiresRestart p"
    using that restart_below_restart [OF True _ assms(4,1-3,6,7)] by (metis last_in_set)
  moreover have "agrees (Some u) (Some v) path" using assms(1,2,4) by (intro compare_Nil) (auto simp: comparable_def)
  ultimately show ?thesis using assms(1,3) by (auto simp: restored_def w compare_refl agrees_def)
next
  case False
  have w: "preserveRestartValues u v path = v"
    using assms(4,5) by (subst preserveRestartValues.simps) (simp add: False isRestartPathAncestor_iff)
  have "\<not> requiresRestart p" if "p \<in> set (compareConfigValue (Some u) (Some v) path)" for p
    using compare_below [OF that assms(4)] restart_not_below [of path p] False assms(4,5) by blast
  then show ?thesis using assms(2) by (auto simp: restored_def w)
qed

lemma typed_same_fields:
  assumes "typed \<Gamma> (Struct t gs)" "length hs = length gs"
    and "\<And>i. i < length gs \<Longrightarrow> fst (hs ! i) = fst (gs ! i) \<and> val_type (snd (hs ! i)) = val_type (snd (gs ! i)) \<and> typed \<Gamma> (snd (hs ! i))"
  shows "typed \<Gamma> (Struct t hs)"
proof -
  have "map (\<lambda>(f, v). (f, val_type v)) hs = map (\<lambda>(f, v). (f, val_type v)) gs"
    using assms(2,3) by (auto simp: list_eq_iff_nth_eq case_prod_beta)
  then show ?thesis using assms by (simp add: list_all_length case_prod_beta)
qed

lemma restored_Struct:
  assumes "typed \<Gamma> (Struct t fs)" "typed \<Gamma> (Struct t gs)" "path = [] \<or> path = ''server''"
    and "\<And>i q. i < length fs \<Longrightarrow> field_path (fst (fs ! i)) path = Some q
      \<Longrightarrow> restored \<Gamma> (snd (fs ! i)) (snd (gs ! i)) q (preserveRestartValues (snd (fs ! i)) (snd (gs ! i)) q)"
  shows "restored \<Gamma> (Struct t fs) (Struct t gs) path (preserveRestartValues (Struct t fs) (Struct t gs) path)"
proof -
  note sf = struct_fields [OF assms(1,2)]
  define keep where "keep = (\<lambda>z :: (struct_field \<times> cfgval) \<times> (struct_field \<times> cfgval).
    (fst (snd z), case field_path (fst (fst z)) path of
        None \<Rightarrow> snd (snd z) | Some p \<Rightarrow> preserveRestartValues (snd (fst z)) (snd (snd z)) p))"
  define hs where "hs = map keep (zip fs gs)"
  have nr: "\<not> requiresRestart ''server''"
    by (simp add: requiresRestart_iff restart_roots_def restart_leaves_def HasPrefix_def)
  have w: "preserveRestartValues (Struct t fs) (Struct t gs) path = Struct t hs"
    using assms(3) by (subst preserveRestartValues.simps) (auto simp: hs_def keep_def nr isRestartPathAncestor_iff)
  have len: "length hs = length fs" using sf(1) by (simp add: hs_def)
  have hn: "hs ! i = (fst (gs ! i), case field_path (fst (fs ! i)) path of
      None \<Rightarrow> snd (gs ! i) | Some q \<Rightarrow> preserveRestartValues (snd (fs ! i)) (snd (gs ! i)) q)" if "i < length fs" for i
    using that sf(1) by (simp add: hs_def keep_def split: option.split)
  have vt: "val_type (snd (hs ! i)) = val_type (snd (gs ! i))" if "i < length fs" for i
    using that hn by (simp split: option.split)
  have ty: "typed \<Gamma> (snd (hs ! i))" if "i < length fs" for i
  proof -
    have "typed \<Gamma> (snd (gs ! i))" using that sf(1) assms(2) by (auto simp: list_all_length case_prod_beta)
    then show ?thesis using that hn assms(4) by (auto simp: restored_def split: option.split)
  qed
  have fn: "fst (hs ! i) = fst (gs ! i)" if "i < length fs" for i using hn [OF that] by simp
  have tw: "typed \<Gamma> (Struct t hs)"
    by (rule typed_same_fields [OF assms(2)]) (use ty vt fn len sf(1) in simp_all)
  have old: "\<not> requiresRestart p" if "p \<in> set (compareConfigValue (Some (Struct t fs)) (Some (Struct t hs)) path)" for p
  proof -
    from that obtain i q where "i < length fs" "field_path (fst (fs ! i)) path = Some q"
      "p \<in> set (compareConfigValue (Some (snd (fs ! i))) (Some (snd (hs ! i))) q)"
      unfolding set_compare_Struct using len by (auto simp: in_set_zip)
    then show ?thesis using assms(4) hn by (auto simp: restored_def)
  qed
  have "visible (Struct t hs) = visible (Struct t gs)"
    if all: "\<forall>p \<in> set (compareConfigValue (Some (Struct t fs)) (Some (Struct t gs)) path). \<not> requiresRestart p"
  proof -
    have "visible (snd (hs ! i)) = visible (snd (gs ! i))" if i: "i < length fs" and h: "\<not> hidden (fst (hs ! i))" for i
    proof -
      obtain q where q: "field_path (fst (fs ! i)) path = Some q"
        using h hn [OF i] sf(2) [OF i] field_path_hidden [of "fst (fs ! i)" path] by auto
      have "\<not> requiresRestart p" if "p \<in> set (compareConfigValue (Some (snd (fs ! i))) (Some (snd (gs ! i))) q)" for p
        using all set_compare_Struct [of p t fs gs path] zip_nth_mem [OF i sf(1)] that q by blast
      then show ?thesis using assms(4) [OF i q] hn [OF i] q by (simp add: restored_def)
    qed
    then show ?thesis using len sf(1) hn by (subst visible_Struct_iff) auto
  qed
  then show ?thesis using tw old by (simp add: restored_def w)
qed

lemma field_ok_at:
  assumes "typed \<Gamma> (Struct t fs)" "fields_ok \<Gamma> path t" "i < length fs" "field_path (fst (fs ! i)) path = Some q"
  shows "q = joinConfigPath path (fst (yamlFieldName (fst (fs ! i))))" "q \<noteq> []"
    "q \<in> set restart_leaves \<Longrightarrow> \<Gamma> (val_type (snd (fs ! i))) = KBasic"
    "q \<in> set restart_roots \<Longrightarrow> struct_type \<Gamma> (val_type (snd (fs ! i)))"
proof -
  let ?ft = "(fst (fs ! i), val_type (snd (fs ! i)))"
  have "?ft = map (\<lambda>(f, v). (f, val_type v)) fs ! i" using assms(3) by (simp add: case_prod_beta)
  then have "field_ok \<Gamma> path ?ft" using assms(1-3) by (simp add: fields_ok_def list_all_length)
  then have ok: "\<not> inline_field (fst (fs ! i))"
    "q \<in> set restart_leaves \<longrightarrow> \<Gamma> (val_type (snd (fs ! i))) = KBasic" "q \<in> set restart_roots \<longrightarrow> struct_type \<Gamma> (val_type (snd (fs ! i)))"
    using assms(4) by (simp_all add: field_ok_def)
  have nh: "\<not> hidden (fst (fs ! i))" using assms(4) field_path_hidden [of "fst (fs ! i)" path] by simp
  show q: "q = joinConfigPath path (fst (yamlFieldName (fst (fs ! i))))" using assms(4) ok(1) nh by (simp add: field_path_visible)
  have "sf_Name (fst (fs ! i)) \<noteq> []" using assms(1,3) by (auto simp: list_all_length case_prod_beta)
  then show "q \<noteq> []" using field_name_nonempty [OF _ nh] q by (simp add: joinConfigPath_def)
qed (use assms(1-4) in \<open>auto simp: fields_ok_def field_ok_def list_all_length case_prod_beta\<close>)

lemma restored_server:
  assumes "typed \<Gamma> (Struct t fs)" "typed \<Gamma> (Struct t gs)" "fields_ok \<Gamma> ''server'' t"
  shows "restored \<Gamma> (Struct t fs) (Struct t gs) ''server'' (preserveRestartValues (Struct t fs) (Struct t gs) ''server'')"
proof (rule restored_Struct [OF assms(1,2)])
  fix i q assume i: "i < length fs" "field_path (fst (fs ! i)) ''server'' = Some q"
  note ok = field_ok_at [OF assms(1,3) i]
  show "restored \<Gamma> (snd (fs ! i)) (snd (gs ! i)) q (preserveRestartValues (snd (fs ! i)) (snd (gs ! i)) q)"
    using field_comparable [OF assms(1,2) i] struct_fields [OF assms(1,2)] i(1) ok
    by (intro restored_plain) (auto simp: joinConfigPath_def)
qed simp

lemma restored_root:
  assumes "schema \<Gamma>" "is_config \<Gamma> old" "is_config \<Gamma> new"
  shows "restored \<Gamma> old new [] (preserveRestartRequiredSettings old new)"
proof -
  have ok: "fields_ok \<Gamma> [] app_config" using assms(1) by (simp add: schema_def)
  then obtain fts where k: "\<Gamma> app_config = KStruct fts" by (auto simp: fields_ok_def split: kind.splits)
  then obtain fs gs where s: "old = Struct app_config fs" "new = Struct app_config gs"
    using assms(2,3) typed_struct unfolding is_config_def by (metis val_type.simps(3))
  have ty: "typed \<Gamma> (Struct app_config fs)" "typed \<Gamma> (Struct app_config gs)" using assms(2,3) s by (auto simp: is_config_def)
  show ?thesis unfolding preserveRestartRequiredSettings_def s
  proof (rule restored_Struct [OF ty])
    fix i q assume i: "i < length fs" "field_path (fst (fs ! i)) [] = Some q"
    note ok = field_ok_at [OF ty(1) ok i] and fc = field_comparable [OF ty i]
    have vt: "val_type (snd (fs ! i)) = val_type (snd (gs ! i))" using struct_fields [OF ty] i(1) by simp
    show "restored \<Gamma> (snd (fs ! i)) (snd (gs ! i)) q (preserveRestartValues (snd (fs ! i)) (snd (gs ! i)) q)"
    proof (cases "q = ''server''")
      case True
      have f: "fields_ok \<Gamma> ''server'' (val_type (snd (fs ! i)))"
        using assms(1) ty(1) i True by (auto simp: schema_def list_all_length case_prod_beta)
      then obtain gts where "\<Gamma> (val_type (snd (fs ! i))) = KStruct gts" by (auto simp: fields_ok_def split: kind.splits)
      then obtain t us vs where "snd (fs ! i) = Struct t us" "snd (gs ! i) = Struct t vs"
        using typed_struct [OF fc(1)] typed_struct [OF fc(2)] vt by fastforce
      then show ?thesis using restored_server fc f True by auto
    qed (use restored_plain [OF fc(1,2) vt] ok in auto)
  qed simp
qed

text \<open>Copying old values back can only take differences away.\<close>

lemma val_type_copy [simp]: "val_type (copyConfigPath old new parts) = val_type new"
  by (subst copyConfigPath.simps) (auto split: cfgval.splits option.splits)

lemma compare_Struct_Cons:
  "compareConfigValue (Some (Struct t ((f, u) # fs))) (Some (Struct t ((g, v) # gs))) path =
     (case field_path f path of None \<Rightarrow> [] | Some p \<Rightarrow> compareConfigValue (Some u) (Some v) p)
     @ compareConfigValue (Some (Struct t fs)) (Some (Struct t gs)) path"
  by (simp add: compare_Struct split: option.split)

lemma copy_cases:
  obtains (ptr) t u t' v where "parts \<noteq> []" "old = Ptr t (Some u)" "new = Ptr t' (Some v)"
      "copyConfigPath old new parts = Ptr t' (Some (copyConfigPath u v parts))"
  | (struct) t fs t' gs where "parts \<noteq> []" "old = Struct t fs" "new = Struct t' gs"
      "copyConfigPath old new parts = Struct t' (copy_field fs gs parts)"
  | (same) "copyConfigPath old new parts = new"
proof (cases "parts = []")
  case False
  show thesis
  proof (cases "\<exists>t u t' v. old = Ptr t (Some u) \<and> new = Ptr t' (Some v)")
    case True
    then show thesis using ptr False by (auto simp: copyConfigPath.simps)
  next
    case np: False
    show thesis
    proof (cases "\<exists>t fs t' gs. old = Struct t fs \<and> new = Struct t' gs")
      case True
      then show thesis using struct False by (auto simp: copyConfigPath.simps)
    next
      case False
      have "copyConfigPath old new parts = new"
        using np False by (subst copyConfigPath.simps) (cases old; cases new; auto split: option.split)
      then show thesis by (rule same)
    qed
  qed
qed (simp add: same copyConfigPath.simps)

lemma copy_below:
  "set (compareConfigValue (Some old) (Some (copyConfigPath old new parts)) path) \<subseteq> set (compareConfigValue (Some old) (Some new) path)"
  "set (compareConfigValue (Some (Struct t fs)) (Some (Struct t (copy_field fs gs parts))) path)
     \<subseteq> set (compareConfigValue (Some (Struct t fs)) (Some (Struct t gs)) path)"
proof (induction old new parts and fs gs parts arbitrary: path and t path rule: copyConfigPath_copy_field.induct)
  case (1 old new parts)
  show ?case
  proof (cases rule: copy_cases [of parts old new])
    case (ptr t u t' v)
    then show ?thesis using "1.IH"(1) [of t "Some u" t' "Some v" u v]
      by (cases "t = t'") (simp_all add: compare_Ptr compare_types)
  next
    case (struct t fs t' gs)
    then show ?thesis using "1.IH"(2) [of t fs t' gs]
      by (cases "t = t'") (simp_all add: compare_types)
  qed simp
next
  case (2 f u fs g v gs parts)
  show ?case
  proof (cases "names_field (hd parts) f")
    case True
    then show ?thesis using "2.IH"(1)
      by (auto simp: compare_Struct_Cons compare_refl split: option.splits)
  next
    case False
    then show ?thesis using "2.IH"(2) by (auto simp: compare_Struct_Cons)
  qed
qed auto

lemma typed_Struct_Cons:
  "typed \<Gamma> (Struct t ((f, u) # fs)) \<Longrightarrow> typed \<Gamma> u \<and> sf_Name f \<noteq> [] \<and> (inline_field f \<longrightarrow> (\<exists>fts. \<Gamma> (val_type u) = KStruct fts))"
  by simp

text \<open>Field lists of one type, whatever struct they are the tail of.\<close>

definition fields_typed :: "(string \<Rightarrow> kind) \<Rightarrow> (struct_field \<times> cfgval) list \<Rightarrow> bool" where
  "fields_typed \<Gamma> fs \<longleftrightarrow> list_all (\<lambda>(f, v). typed \<Gamma> v \<and> sf_Name f \<noteq> [] \<and> (inline_field f \<longrightarrow> (\<exists>fts. \<Gamma> (val_type v) = KStruct fts))) fs"

definition field_types :: "(struct_field \<times> cfgval) list \<Rightarrow> (struct_field \<times> string) list" where
  "field_types fs = map (\<lambda>(f, v). (f, val_type v)) fs"

lemma typed_Struct_iff: "typed \<Gamma> (Struct t fs) \<longleftrightarrow> \<Gamma> t = KStruct (field_types fs) \<and> fields_typed \<Gamma> fs"
  by (simp add: fields_typed_def field_types_def)

lemma copy_typed:
  "typed \<Gamma> old \<Longrightarrow> typed \<Gamma> new \<Longrightarrow> val_type old = val_type new \<Longrightarrow> typed \<Gamma> (copyConfigPath old new parts)"
  "fields_typed \<Gamma> fs \<Longrightarrow> fields_typed \<Gamma> gs \<Longrightarrow> field_types fs = field_types gs
     \<Longrightarrow> fields_typed \<Gamma> (copy_field fs gs parts) \<and> field_types (copy_field fs gs parts) = field_types gs"
proof (induction old new parts and fs gs parts rule: copyConfigPath_copy_field.induct)
  case (1 old new parts)
  show ?case
  proof (cases rule: copy_cases [of parts old new])
    case (ptr t u t' v)
    then show ?thesis using "1.IH"(1) [of t "Some u" t' "Some v" u v] "1.prems" by simp
  next
    case (struct t fs t' gs)
    then show ?thesis using "1.IH"(2) [of t fs t' gs] "1.prems" by (simp add: typed_Struct_iff del: typed.simps)
  qed (use 1 in simp)
next
  case (2 f u fs g v gs parts)
  have h: "g = f" "val_type u = val_type v" "fields_typed \<Gamma> fs" "fields_typed \<Gamma> gs" "field_types fs = field_types gs"
    "typed \<Gamma> u" "typed \<Gamma> v"
    using "2.prems" by (auto simp: fields_typed_def field_types_def)
  show ?case
  proof (cases "names_field (hd parts) f")
    case True
    then show ?thesis using "2.IH"(1) "2.prems" h by (auto simp: fields_typed_def field_types_def)
  next
    case False
    then show ?thesis using "2.IH"(2) "2.prems" h by (auto simp: fields_typed_def field_types_def)
  qed
qed auto

definition no_restart_change :: "cfgval \<Rightarrow> cfgval \<Rightarrow> bool" where
  "no_restart_change old new \<longleftrightarrow> (\<forall>p \<in> set (compareConfigs old new). \<not> requiresRestart p)"

lemma set_compareConfigs: "set (compareConfigs old new) = set (compareConfigValue (Some old) (Some new) [])"
  by (simp add: compareConfigs_def compare_Ptr)

lemma compareConfigs_Nil:
  assumes "is_config \<Gamma> old" "is_config \<Gamma> new" "struct_type \<Gamma> app_config"
  shows "compareConfigs old new = [] \<longleftrightarrow> visible old = visible new"
proof -
  obtain fts where k: "\<Gamma> app_config = KStruct fts" using assms(3) by (auto simp: struct_type_def split: kind.splits)
  then obtain fs gs where s: "old = Struct app_config fs" "new = Struct app_config gs"
    using assms(1,2) typed_struct unfolding is_config_def by (metis val_type.simps(3))
  have "agrees (Some old) (Some new) []"
    using assms(1,2) s by (intro compare_Nil [of \<Gamma>]) (auto simp: is_config_def comparable_def)
  moreover have "compareConfigs old new = [] \<longleftrightarrow> compareConfigValue (Some old) (Some new) [] = []"
    using set_compareConfigs [of old new] by (metis set_empty)
  ultimately show ?thesis by (simp add: agrees_def)
qed

text \<open>
  C22. No change goes unnoticed: for two configurations of the program's type, the list of changes
  is empty exactly if every setting visible under a YAML name is equal in both.
\<close>

theorem compareConfigs_complete:
  assumes "is_config \<Gamma> old" "is_config \<Gamma> new" "struct_type \<Gamma> app_config"
  shows "compareConfigs old new = [] \<longleftrightarrow> visible old = visible new"
  using assms by (rule compareConfigs_Nil)

lemma copies_keep:
  assumes "is_config \<Gamma> old" "is_config \<Gamma> new"
  shows "is_config \<Gamma> (preserveConfigPaths old new paths)
    \<and> set (compareConfigValue (Some old) (Some (preserveConfigPaths old new paths)) []) \<subseteq> set (compareConfigValue (Some old) (Some new) [])"
  using assms(2) unfolding preserveConfigPaths_def
proof (induction paths arbitrary: new)
  case (Cons p paths)
  have "is_config \<Gamma> (copyConfigPath old new (SplitByte p (CHR ''.'')))"
    using assms(1) Cons.prems by (auto simp: is_config_def intro: copy_typed)
  from Cons.IH [OF this] show ?case using copy_below(1) by fastforce
qed simp

lemma restored_config:
  assumes "schema \<Gamma>" "is_config \<Gamma> old" "is_config \<Gamma> new"
  shows "is_config \<Gamma> (preserveRestartRequiredSettings old new)"
    "no_restart_change old (preserveRestartRequiredSettings old new)"
    "no_restart_change old new \<Longrightarrow> visible (preserveRestartRequiredSettings old new) = visible new"
  using restored_root [OF assms] assms(3)
  by (simp_all add: restored_def is_config_def no_restart_change_def set_compareConfigs)

lemma no_restart_copies:
  "is_config \<Gamma> old \<Longrightarrow> is_config \<Gamma> new \<Longrightarrow> no_restart_change old new \<Longrightarrow> no_restart_change old (preserveConfigPaths old new paths)"
  using copies_keep by (fastforce simp: no_restart_change_def set_compareConfigs)

lemma reload_settings_outcome:
  assumes "schema \<Gamma>" "is_config \<Gamma> old" "is_config \<Gamma> new" "rs_current st = Some old"
    and "reload_settings handler old new hot graceful restart st = (st', rest)"
  shows "\<exists>cur. rs_current st' = Some cur \<and> is_config \<Gamma> cur \<and> no_restart_change old cur
    \<and> (rest = [] \<longrightarrow> hot = [] \<and> graceful = [] \<or> cur = preserveRestartRequiredSettings old new)
    \<and> (restart \<noteq> [] \<longrightarrow> rest \<noteq> [])"
proof -
  note rc = restored_config [OF assms(1-3)]
  note ck = copies_keep [OF assms(2) rc(1), of graceful, THEN conjunct1] and nc = no_restart_copies [OF assms(2) rc(1,2), of graceful]
  have refl: "no_restart_change old old" by (simp add: no_restart_change_def set_compareConfigs compare_refl)
  show ?thesis using assms(2,4,5) rc ck nc refl
    by (auto simp: reload_settings_def applyHotReloadSettings_def call_handler_def Let_def split: if_splits option.splits)
qed

text \<open>
  C21. A changed file is either in effect or announced: after a reload the active configuration is
  well typed, no setting that needs a restart differs from its value before,
  and unless a restart is marked as pending every visible setting has its value from the file.
\<close>

theorem reload_in_effect_or_pending:
  assumes "schema \<Gamma>" "is_config \<Gamma> old" "is_config \<Gamma> new" "rs_current st = Some old"
  shows "\<exists>cur. rs_current (applyConfigChanges handler new st) = Some cur \<and> is_config \<Gamma> cur \<and> no_restart_change old cur
    \<and> (rs_pendingRestart (applyConfigChanges handler new st) \<or> visible cur = visible new)"
proof (cases "compareConfigs old new = []")
  case True
  have "struct_type \<Gamma> app_config" using assms(1) by (auto simp: schema_def fields_ok_def struct_type_def split: kind.splits)
  then have "visible old = visible new" using compareConfigs_Nil [OF assms(2,3)] True by simp
  then show ?thesis using assms(2,4) True
    by (simp add: applyConfigChanges_def no_restart_change_def set_compareConfigs compare_refl)
next
  case False
  obtain hot graceful restart where c: "categorizeReloadChanges (compareConfigs old new) = (hot, graceful, restart)"
    using prod_cases3 by blast
  define new' where "new' = (if graceful \<noteq> [] \<and> handler = None then preserveConfigPaths old new graceful else new)"
  define g where "g = (if graceful \<noteq> [] \<and> handler = None then [] else graceful)"
  define r where "r = (if graceful \<noteq> [] \<and> handler = None then restart @ graceful else restart)"
  obtain st' rest where s: "reload_settings handler old new' hot g r st = (st', rest)" by fastforce
  have n': "is_config \<Gamma> new'" using copies_keep [OF assms(2,3)] assms(3) by (simp add: new'_def)
  have a: "applyConfigChanges handler new st = (if rest \<noteq> []
      then st'\<lparr>rs_pendingRestart := True, rs_restartSettings := rs_restartSettings st' @ rest\<rparr> else st')"
    using s False assms(4) by (auto simp: applyConfigChanges_def c new'_def g_def r_def split: if_splits)
  from reload_settings_outcome [OF assms(1,2) n' assms(4) s] obtain cur where cur:
    "rs_current st' = Some cur" "is_config \<Gamma> cur" "no_restart_change old cur"
    "rest = [] \<longrightarrow> hot = [] \<and> g = [] \<or> cur = preserveRestartRequiredSettings old new'" "r \<noteq> [] \<longrightarrow> rest \<noteq> []" by blast
  have "visible cur = visible new" if "rest = []"
  proof -
    have r: "restart = []" "g = graceful" "new' = new" using cur(5) that by (auto simp: r_def g_def new'_def split: if_splits)
    then have n: "no_restart_change old new" using c by (auto simp: categorizeReloadChanges_def no_restart_change_def filter_empty_conv)
    moreover have "hot \<noteq> [] \<or> graceful \<noteq> []"
      using c r(1) last_in_set [OF False] by (auto simp: categorizeReloadChanges_def filter_empty_conv)
    ultimately show ?thesis using cur(4) that r restored_config(3) [OF assms(1-3)] by auto
  qed
  then show ?thesis using cur by (auto simp: a)
qed

text \<open>A file that cannot be parsed leaves everything but the remembered time as it is.\<close>

lemma parse_error_keeps: "checkFileChanges handler (Some t) None st = st\<lparr>rs_lastFileModTime := t\<rparr>"
  by (simp add: checkFileChanges_def Let_def)

section \<open>Inlined sections are not put back\<close>

definition plain_field :: "string \<Rightarrow> struct_field" where
  "plain_field n = \<lparr>sf_Name = ''F'', sf_PkgPath = [], sf_Tag = n\<rparr>"

text \<open>
  The file name of the audit log is a field of an inlined struct. When the reload handler fails,
  the path is reported as waiting for a restart, but the copy does not find it.
\<close>

lemma inline_not_copied:
  "copyConfigPath
     (Struct ''LoggingConfig'' [(plain_field ''audit'', Struct ''AuditLogFileConfig'' [(plain_field '',inline'', Struct ''LogFileConfig'' [(plain_field ''filename'', Basic ''string'' ''a'')])])])
     (Struct ''LoggingConfig'' [(plain_field ''audit'', Struct ''AuditLogFileConfig'' [(plain_field '',inline'', Struct ''LogFileConfig'' [(plain_field ''filename'', Basic ''string'' ''b'')])])])
     [''audit'', ''filename'']
   = Struct ''LoggingConfig'' [(plain_field ''audit'', Struct ''AuditLogFileConfig'' [(plain_field '',inline'', Struct ''LogFileConfig'' [(plain_field ''filename'', Basic ''string'' ''b'')])])]"
  by (simp add: copyConfigPath.simps names_field_def plain_field_def yamlFieldName_def str_simps)

section \<open>Witnesses\<close>

definition tiny_types :: "string \<Rightarrow> kind" where
  "tiny_types t =
     (if t = app_config then KStruct [(plain_field ''server'', ''ServerConfig''), (plain_field ''web'', ''string'')]
      else if t = ''ServerConfig'' then KStruct [(plain_field ''port'', ''string'')] else KBasic)"

definition tiny_config :: "string \<Rightarrow> string \<Rightarrow> cfgval" where
  "tiny_config port theme =
     Struct app_config [(plain_field ''server'', Struct ''ServerConfig'' [(plain_field ''port'', Basic ''string'' port)]),
       (plain_field ''web'', Basic ''string'' theme)]"

lemma yaml_plain:
  "yamlFieldName (plain_field ''server'') = (''server'', False, False)"
  "yamlFieldName (plain_field ''web'') = (''web'', False, False)"
  "yamlFieldName (plain_field ''port'') = (''port'', False, False)"
  by (simp_all add: yamlFieldName_def plain_field_def str_simps)

lemma path_plain:
  "field_path (plain_field ''server'') [] = Some ''server''"
  "field_path (plain_field ''web'') [] = Some ''web''"
  "field_path (plain_field ''port'') ''server'' = Some ''server.port''"
  by (simp_all add: field_path_def yaml_plain joinConfigPath_def) (simp_all add: plain_field_def)

lemmas tiny_simps = tiny_types_def app_config_def inline_field_def yaml_plain path_plain

lemma tiny_schema: "schema tiny_types"
  by (simp add: schema_def fields_ok_def field_ok_def struct_type_def restart_leaves_def restart_roots_def tiny_simps)

lemma tiny_is_config: "is_config tiny_types (tiny_config p t)"
  by (simp add: is_config_def tiny_config_def tiny_simps) (simp add: plain_field_def)

lemma visible_tiny: "visible (tiny_config p t) = tiny_config p t"
proof -
  have "\<not> hidden (plain_field n)" if "n \<in> {''server'', ''web'', ''port''}" for n
    using that yaml_plain by (auto simp: hidden_def) (simp_all add: plain_field_def)
  then show ?thesis by (simp add: tiny_config_def)
qed

theorem compareConfigs_complete_witness:
  "compareConfigs (tiny_config ''80'' ''dark'') (tiny_config ''81'' ''dark'') \<noteq> []
   \<and> compareConfigs (tiny_config ''80'' ''dark'') (tiny_config ''80'' ''dark'') = []"
  using compareConfigs_complete [OF tiny_is_config tiny_is_config, of "''80''" "''dark''" "''81''" "''dark''"]
    compareConfigs_complete [OF tiny_is_config tiny_is_config, of "''80''" "''dark''" "''80''" "''dark''"]
  by (simp add: struct_type_def tiny_types_def visible_tiny) (simp add: tiny_config_def)

theorem reload_in_effect_or_pending_witness:
  "\<exists>cur. rs_current (applyConfigChanges None (tiny_config ''81'' ''light'') (NewConfigManager (Some (tiny_config ''80'' ''dark'')) None)) = Some cur
     \<and> no_restart_change (tiny_config ''80'' ''dark'') cur"
  using reload_in_effect_or_pending [OF tiny_schema tiny_is_config tiny_is_config,
      of "NewConfigManager (Some (tiny_config ''80'' ''dark'')) None" "''80''" "''dark''" None "''81''" "''light''"]
  by (auto simp: NewConfigManager_def)

end
