(* ===== verification/GoUrl.thy ===== *)
theory GoUrl
  imports GoHttp
begin

text \<open>
  The part of Go's \<open>net/url\<close> the sources use: percent-encoding in the modes of the package,
  \<open>Parse\<close>, the accessors of a URL and the decoding of a query string. A URL is parsed the way the
  package does it, cutting the fragment, the scheme, the query and the authority in this order.
  Which hosts are well formed differs between releases of Go, so the parser of the host is an
  argument; it gives the host of the authority or fails.
\<close>

section \<open>Percent-encoding\<close>

datatype encoding = encodePath | encodePathSegment | encodeUserPassword | encodeQueryComponent | encodeFragment

definition is_alnum :: "char \<Rightarrow> bool" where
  "is_alnum c \<longleftrightarrow> (let n = (of_char c :: nat) in 97 \<le> n \<and> n \<le> 122 \<or> 65 \<le> n \<and> n \<le> 90 \<or> 48 \<le> n \<and> n \<le> 57)"

definition shouldEscape :: "char \<Rightarrow> encoding \<Rightarrow> bool" where
  "shouldEscape c mode \<longleftrightarrow>
     \<not> is_alnum c \<and> c \<notin> set ''-_.~''
     \<and> (if c \<in> set ''$&+,/:;=?@'' then
          (case mode of
             encodePath \<Rightarrow> c = CHR ''?''
           | encodePathSegment \<Rightarrow> c \<in> set ''/;,?''
           | encodeUserPassword \<Rightarrow> c \<in> set ''@/?:''
           | encodeQueryComponent \<Rightarrow> True
           | encodeFragment \<Rightarrow> False)
        else \<not> (mode = encodeFragment \<and> c \<in> set ''!()*''))"

definition unhex :: "char \<Rightarrow> nat option" where
  "unhex c = (let n = (of_char c :: nat) in
     if 48 \<le> n \<and> n \<le> 57 then Some (n - 48)
     else if 97 \<le> n \<and> n \<le> 102 then Some (n - 87)
     else if 65 \<le> n \<and> n \<le> 70 then Some (n - 55) else None)"

definition upperhex :: "nat \<Rightarrow> char" where
  "upperhex n = char_of (if n < 10 then 48 + n else 55 + n)"

fun unescape :: "encoding \<Rightarrow> string \<Rightarrow> string option" where
  "unescape m [] = Some []"
| "unescape m (c # s) =
     (if c = CHR ''%'' then
        (case s of
           a # b # r \<Rightarrow>
             (case (unhex a, unhex b) of
                (Some x, Some y) \<Rightarrow> map_option ((#) (char_of (16 * x + y))) (unescape m r)
              | _ \<Rightarrow> None)
         | _ \<Rightarrow> None)
      else map_option ((#) (if c = CHR ''+'' \<and> m = encodeQueryComponent then CHR '' '' else c)) (unescape m s))"

definition escape_char :: "encoding \<Rightarrow> char \<Rightarrow> string" where
  "escape_char m c =
     (if shouldEscape c m then
        (if c = CHR '' '' \<and> m = encodeQueryComponent then ''+''
         else [CHR ''%'', upperhex ((of_char c :: nat) div 16), upperhex ((of_char c :: nat) mod 16)])
      else [c])"

definition escape :: "encoding \<Rightarrow> string \<Rightarrow> string" where
  "escape m s = concat (map (escape_char m) s)"

abbreviation PathEscape :: "string \<Rightarrow> string" where "PathEscape \<equiv> escape encodePathSegment"
abbreviation QueryEscape :: "string \<Rightarrow> string" where "QueryEscape \<equiv> escape encodeQueryComponent"
abbreviation QueryUnescape :: "string \<Rightarrow> string option" where "QueryUnescape \<equiv> unescape encodeQueryComponent"

definition validEncoded :: "encoding \<Rightarrow> string \<Rightarrow> bool" where
  "validEncoded m s \<longleftrightarrow> list_all (\<lambda>c. c \<in> set ''!$&()*+,;=:@[]%'' \<or> c = CHR 0x27 \<or> \<not> shouldEscape c m) s"

section \<open>Parsing\<close>

record url =
  u_Scheme :: string
  u_Opaque :: string
  u_User :: "(string \<times> string option) option"
  u_Host :: string
  u_Path :: string
  u_RawPath :: string
  u_ForceQuery :: bool
  u_RawQuery :: string
  u_Fragment :: string
  u_RawFragment :: string

definition Cut :: "string \<Rightarrow> char \<Rightarrow> string \<times> string" where
  "Cut s c = (case IndexByte s c of None \<Rightarrow> (s, []) | Some i \<Rightarrow> (take i s, drop (Suc i) s))"

definition is_letter :: "char \<Rightarrow> bool" where
  "is_letter c \<longleftrightarrow> (let n = (of_char c :: nat) in 97 \<le> n \<and> n \<le> 122 \<or> 65 \<le> n \<and> n \<le> 90)"

text \<open>The scan for a scheme: the characters seen so far, and the rest. \<open>None\<close> is the missing scheme.\<close>

fun getScheme_at :: "string \<Rightarrow> string \<Rightarrow> string \<Rightarrow> (string \<times> string) option" where
  "getScheme_at raw acc [] = Some ([], raw)"
| "getScheme_at raw acc (c # s) =
     (if is_letter c then getScheme_at raw (acc @ [c]) s
      else if is_digit c \<or> c \<in> set ''+-.'' then (if acc = [] then Some ([], raw) else getScheme_at raw (acc @ [c]) s)
      else if c = CHR '':'' then (if acc = [] then None else Some (acc, s))
      else Some ([], raw))"

definition getScheme :: "string \<Rightarrow> (string \<times> string) option" where
  "getScheme raw = getScheme_at raw [] raw"

definition valid_userinfo :: "string \<Rightarrow> bool" where
  "valid_userinfo s \<longleftrightarrow> list_all (\<lambda>c. is_alnum c \<or> c \<in> set ''-._:~!$&()*+,;=%@'' \<or> c = CHR 0x27) s"

type_synonym host_parser = "string \<Rightarrow> string \<Rightarrow> string option"

definition parse_user :: "string \<Rightarrow> (string \<times> string option) option" where
  "parse_user userinfo =
     (if CHR '':'' \<notin> set userinfo then map_option (\<lambda>u. (u, None)) (unescape encodeUserPassword userinfo)
      else case Cut userinfo (CHR '':'') of (username, password) \<Rightarrow>
        (case unescape encodeUserPassword username of
           None \<Rightarrow> None
         | Some u \<Rightarrow> map_option (\<lambda>p. (u, Some p)) (unescape encodeUserPassword password)))"

definition parseAuthority :: "host_parser \<Rightarrow> string \<Rightarrow> string \<Rightarrow> ((string \<times> string option) option \<times> string) option" where
  "parseAuthority ph scheme authority =
     (case LastIndexByte authority (CHR ''@'') of
        None \<Rightarrow> map_option (\<lambda>h. (None, h)) (ph scheme authority)
      | Some i \<Rightarrow>
          (case ph scheme (drop (Suc i) authority) of
             None \<Rightarrow> None
           | Some h \<Rightarrow>
               if \<not> valid_userinfo (take i authority) then None
               else map_option (\<lambda>u. (Some u, h)) (parse_user (take i authority))))"

definition setPath :: "string \<Rightarrow> url \<Rightarrow> url option" where
  "setPath p u =
     map_option (\<lambda>path. u\<lparr>u_Path := path, u_RawPath := (if p = escape encodePath path then [] else p)\<rparr>) (unescape encodePath p)"

definition setFragment :: "string \<Rightarrow> url \<Rightarrow> url option" where
  "setFragment f u =
     map_option (\<lambda>frag. u\<lparr>u_Fragment := frag, u_RawFragment := (if f = escape encodeFragment frag then [] else f)\<rparr>) (unescape encodeFragment f)"

definition is_ctl :: "char \<Rightarrow> bool" where
  "is_ctl c \<longleftrightarrow> (of_char c :: nat) < 32 \<or> (of_char c :: nat) = 127"

definition no_url :: url where
  "no_url = \<lparr>u_Scheme = [], u_Opaque = [], u_User = None, u_Host = [], u_Path = [], u_RawPath = [], u_ForceQuery = False,
     u_RawQuery = [], u_Fragment = [], u_RawFragment = []\<rparr>"

definition cut_query :: "string \<Rightarrow> string \<times> bool \<times> string" where
  "cut_query rest =
     (if HasSuffix rest ''?'' \<and> length (filter (\<lambda>c. c = CHR ''?'') rest) = 1 then (take (length rest - 1) rest, True, [])
      else case Cut rest (CHR ''?'') of (r, q) \<Rightarrow> (r, False, q))"

definition parse_rest :: "host_parser \<Rightarrow> string \<Rightarrow> url \<Rightarrow> url option" where
  "parse_rest ph rest u =
     (if HasPrefix rest ''//'' \<and> (u_Scheme u \<noteq> [] \<or> \<not> HasPrefix rest ''///'') then
        (let a = drop 2 rest;
             i = (case IndexByte a (CHR ''/'') of None \<Rightarrow> length a | Some i \<Rightarrow> i) in
         case parseAuthority ph (u_Scheme u) (take i a) of
           None \<Rightarrow> None
         | Some (user, host) \<Rightarrow> setPath (drop i a) (u\<lparr>u_User := user, u_Host := host\<rparr>))
      else setPath rest u)"

definition parse_url :: "host_parser \<Rightarrow> string \<Rightarrow> url option" where
  "parse_url ph raw =
     (if list_ex is_ctl raw then None
      else if raw = ''*'' then Some (no_url\<lparr>u_Path := ''*''\<rparr>)
      else case getScheme raw of
        None \<Rightarrow> None
      | Some (scheme, rest) \<Rightarrow>
          (case cut_query rest of (rest, forceQuery, query) \<Rightarrow>
             let u = no_url\<lparr>u_Scheme := ToLower scheme, u_ForceQuery := forceQuery, u_RawQuery := query\<rparr> in
             if \<not> HasPrefix rest ''/'' \<and> scheme \<noteq> [] then Some (u\<lparr>u_Opaque := rest\<rparr>)
             else if \<not> HasPrefix rest ''/'' \<and> CHR '':'' \<in> set (fst (Cut rest (CHR ''/''))) then None
             else parse_rest ph rest u))"

definition url_Parse :: "host_parser \<Rightarrow> string \<Rightarrow> url option" where
  "url_Parse ph raw =
     (case Cut raw (CHR ''#'') of (u, frag) \<Rightarrow>
        (case parse_url ph u of
           None \<Rightarrow> None
         | Some url \<Rightarrow> if frag = [] then Some url else setFragment frag url))"

section \<open>Accessors\<close>

abbreviation IsAbs :: "url \<Rightarrow> bool" where "IsAbs u \<equiv> u_Scheme u \<noteq> []"

definition EscapedPath :: "url \<Rightarrow> string" where
  "EscapedPath u =
     (if u_RawPath u \<noteq> [] \<and> validEncoded encodePath (u_RawPath u) \<and> unescape encodePath (u_RawPath u) = Some (u_Path u)
      then u_RawPath u
      else if u_Path u = ''*'' then ''*'' else escape encodePath (u_Path u))"

definition validOptionalPort :: "string \<Rightarrow> bool" where
  "validOptionalPort port \<longleftrightarrow> port = [] \<or> hd port = CHR '':'' \<and> list_all is_digit (tl port)"

definition splitHostPort :: "string \<Rightarrow> string \<times> string" where
  "splitHostPort hostPort =
     (let (host, port) =
        (case LastIndexByte hostPort (CHR '':'') of
           Some i \<Rightarrow> if validOptionalPort (drop i hostPort) then (take i hostPort, drop (Suc i) hostPort) else (hostPort, [])
         | None \<Rightarrow> (hostPort, [])) in
      (if HasPrefix host ''['' \<and> HasSuffix host '']'' then butlast (tl host) else host, port))"

definition Hostname :: "url \<Rightarrow> string" where
  "Hostname u = fst (splitHostPort (u_Host u))"

definition Port :: "url \<Rightarrow> string" where
  "Port u = snd (splitHostPort (u_Host u))"

section \<open>Query strings\<close>

text \<open>\<open>ParseQuery\<close>: the pairs it keeps, and whether it reports no error.\<close>

definition query_pair :: "string \<Rightarrow> (string \<times> string) option" where
  "query_pair part =
     (if CHR '';'' \<in> set part then None
      else case Cut part (CHR ''='') of (k, v) \<Rightarrow>
        (case (QueryUnescape k, QueryUnescape v) of (Some k, Some v) \<Rightarrow> Some (k, v) | _ \<Rightarrow> None))"

definition ParseQuery :: "string \<Rightarrow> (string \<times> string) list \<times> bool" where
  "ParseQuery q =
     (let parts = filter (\<lambda>p. p \<noteq> []) (SplitByte q (CHR ''&'')) in
      (List.map_filter query_pair parts, list_all (\<lambda>p. query_pair p \<noteq> None) parts))"

definition Values_Get :: "(string \<times> string) list \<Rightarrow> string \<Rightarrow> string" where
  "Values_Get vs k = (case map_of vs k of None \<Rightarrow> [] | Some v \<Rightarrow> v)"

section \<open>Facts\<close>

lemma unhex_upperhex [simp]: "n < 16 \<Longrightarrow> unhex (upperhex n) = Some n"
  by (cases "n < 10") (simp_all add: unhex_def upperhex_def Let_def of_char_of)

lemma plain_char:
  assumes "\<not> shouldEscape c m"
  shows "c \<noteq> CHR ''%''" "m = encodeQueryComponent \<Longrightarrow> c \<noteq> CHR ''+''"
  using assms by (auto simp: shouldEscape_def is_alnum_def)

lemma unescape_escape_char: "unescape m (escape_char m c @ s) = map_option ((#) c) (unescape m s)"
proof (cases "shouldEscape c m")
  case True
  have "(of_char c :: nat) < 256" by (metis of_char_of char_of_eq_iff nat_of_char_less_256)
  then have d: "(of_char c :: nat) div 16 < 16" "(of_char c :: nat) mod 16 < 16" by (simp_all add: less_mult_imp_div_less)
  have "char_of (16 * ((of_char c :: nat) div 16) + (of_char c :: nat) mod 16) = c" by simp
  with True d show ?thesis by (auto simp: escape_char_def)
next
  case False
  with plain_char [OF False] show ?thesis by (auto simp: escape_char_def)
qed

lemma unescape_escape [simp]: "unescape m (escape m s) = Some s"
  by (induction s) (simp_all add: escape_def unescape_escape_char)

lemma escape_inj: "escape m s = escape m t \<longleftrightarrow> s = t"
  by (metis option.inject unescape_escape)

lemma escape_Nil [simp]: "escape m [] = []"
  by (simp add: escape_def)

lemma escape_Cons: "escape m (c # s) = escape_char m c @ escape m s"
  by (simp add: escape_def)

lemma escape_char_slash [simp]: "escape_char encodePath (CHR ''/'') = ''/''"
  by (simp add: escape_char_def shouldEscape_def is_alnum_def)

text \<open>What is written out by the escaper is printable ASCII, whatever the text.\<close>

lemma is_alnum_printable: "is_alnum c \<Longrightarrow> 32 < (of_char c :: nat) \<and> (of_char c :: nat) < 127"
  by (auto simp: is_alnum_def Let_def)

lemma Cut_Nil: "Cut [] c = ([], [])"
  by (simp add: Cut_def)

lemma Cut_Cons: "Cut (x # s) c = (if x = c then ([], s) else (x # fst (Cut s c), snd (Cut s c)))"
  by (cases "IndexByte s c") (simp_all add: Cut_def del: IndexByte_None)

end
