(* ===== verification/Encodings.thy ===== *)
theory Encodings
  imports Numerals
begin

text \<open>
  Packages \<open>encoding/hex\<close>, \<open>encoding/base32\<close> and \<open>encoding/base64\<close>: a byte string is read as bits,
  most significant first, and written in groups of four, five or six bits, the last one filled
  with zeros. The padded forms append \<open>=\<close> up to the block length.
\<close>

section \<open>Groups of bits\<close>

function chunks :: "nat \<Rightarrow> 'a list \<Rightarrow> 'a list list" where
  "chunks k xs = (if k = 0 \<or> xs = [] then [] else take k xs # chunks k (drop k xs))"
  by auto
termination by (relation "measure (length \<circ> snd)") (auto simp: neq_Nil_conv)

declare chunks.simps [simp del]

lemma chunks_Nil [simp]: "chunks k [] = []"
  by (simp add: chunks.simps)

lemma concat_chunks: "0 < k \<Longrightarrow> concat (chunks k xs) = xs"
proof (induction k xs rule: chunks.induct)
  case (1 k xs)
  then show ?case by (cases "xs = []") (auto simp: chunks.simps [of k xs])
qed

lemma length_chunk: "0 < k \<Longrightarrow> k dvd length xs \<Longrightarrow> g \<in> set (chunks k xs) \<Longrightarrow> length g = k \<and> set g \<subseteq> set xs"
proof (induction k xs rule: chunks.induct)
  case (1 k xs)
  then show ?case
  proof (cases "xs = []")
    case False
    then have "k \<le> length xs" using 1 by (simp add: dvd_imp_le)
    moreover have "k dvd length (drop k xs)" using 1 by (simp add: dvd_diff_nat)
    ultimately show ?thesis using 1 False
      by (auto simp: chunks.simps [of k xs] dest: in_set_takeD in_set_dropD)
  qed simp
qed

lemma length_chunks: "0 < k \<Longrightarrow> k dvd length xs \<Longrightarrow> length (chunks k xs) = length xs div k"
proof (induction k xs rule: chunks.induct)
  case (1 k xs)
  then show ?case
  proof (cases "xs = []")
    case False
    then have "k \<le> length xs" using 1 by (simp add: dvd_imp_le)
    moreover have "k dvd length (drop k xs)" using 1 by (simp add: dvd_diff_nat)
    ultimately show ?thesis using 1 False by (auto simp: chunks.simps [of k xs] le_div_geq)
  qed simp
qed

lemma chunks_append: "length g = k \<Longrightarrow> 0 < k \<Longrightarrow> chunks k (g @ xs) = g # chunks k xs"
  by (subst chunks.simps) auto

lemma chunks_concat: "0 < k \<Longrightarrow> \<forall>g \<in> set gs. length g = k \<Longrightarrow> chunks k (concat gs) = gs"
  by (induction gs) (auto simp: chunks_append)

lemma length_concat_const: "\<forall>g \<in> set gs. length g = k \<Longrightarrow> length (concat gs) = k * length gs"
  by (induction gs) auto

section \<open>Bytes and bits\<close>

definition byte_bits :: "char \<Rightarrow> nat list" where
  "byte_bits c = to_base 2 8 (of_char c)"

definition bits_of :: "string \<Rightarrow> nat list" where
  "bits_of s = concat (map byte_bits s)"

definition bytes_of :: "nat list \<Rightarrow> string" where
  "bytes_of bs = map (\<lambda>g. char_of (of_base 2 g)) (chunks 8 bs)"

lemma length_byte_bits [simp]: "length (byte_bits c) = 8"
  by (simp add: byte_bits_def del: to_base_numeral)

lemma length_bits_of [simp]: "length (bits_of s) = 8 * length s"
  by (simp add: bits_of_def length_concat_const [of _ 8])

lemma bits_below: "b \<in> set (bits_of s) \<Longrightarrow> b < 2"
  using to_base_digits [of 2 b 8] by (auto simp: bits_of_def byte_bits_def simp del: to_base_numeral)

lemma bytes_of_bits [simp]: "bytes_of (bits_of s) = s"
proof -
  have "char_of (of_base 2 (byte_bits c)) = c" for c
    using nat_of_char_less_256 [of c] by (simp add: byte_bits_def of_base_to_base del: to_base_numeral)
  then show ?thesis by (simp add: bytes_of_def bits_of_def chunks_concat comp_def)
qed

section \<open>Encoding with an alphabet\<close>

text \<open>The number of zero bits that fill the last group.\<close>

definition fill :: "nat \<Rightarrow> nat \<Rightarrow> nat" where
  "fill k n = (k - n mod k) mod k"

definition encode_bits :: "nat \<Rightarrow> string \<Rightarrow> string \<Rightarrow> string" where
  "encode_bits k alphabet s =
     map (\<lambda>g. alphabet ! of_base 2 g) (chunks k (bits_of s @ replicate (fill k (8 * length s)) 0))"

definition decode_bits :: "nat \<Rightarrow> string \<Rightarrow> string \<Rightarrow> string option" where
  "decode_bits k alphabet s =
     (if list_all (\<lambda>c. c \<in> set alphabet) s
      then let bs = concat (map (\<lambda>c. to_base 2 k (the (IndexByte alphabet c))) s) in
        Some (bytes_of (take (8 * (length bs div 8)) bs))
      else None)"

lemma fill_dvd: "0 < k \<Longrightarrow> k dvd n + fill k n"
proof (cases "n mod k = 0")
  case False
  assume k: "0 < k"
  then have "n mod k < k" by simp
  then have "fill k n = k - n mod k" using False by (simp add: fill_def)
  then have "n + fill k n = k * (n div k) + k" using \<open>n mod k < k\<close> mult_div_mod_eq [of k n] by linarith
  then show ?thesis by simp
qed (auto simp: fill_def)

lemma fill_less: "0 < k \<Longrightarrow> fill k n < k"
  by (simp add: fill_def)

lemma length_encode_bits: "0 < k \<Longrightarrow> length (encode_bits k alphabet s) = (8 * length s + fill k (8 * length s)) div k"
  using fill_dvd [of k "8 * length s"] by (simp add: encode_bits_def length_chunks)

lemma IndexByte_nth: "distinct xs \<Longrightarrow> i < length xs \<Longrightarrow> IndexByte xs (xs ! i) = Some i"
  by (auto simp: IndexByte_Some nth_eq_iff_index_eq in_set_conv_nth)

locale alphabet =
  fixes k :: nat and letters :: string
  assumes width: "0 < k" "k \<le> 8" and size: "length letters = 2 ^ k" and distinct_letters: "distinct letters"
begin

lemma group_value:
  assumes "g \<in> set (chunks k (bits_of s @ replicate (fill k (8 * length s)) 0))"
  shows "of_base 2 g < 2 ^ k" "to_base 2 k (of_base 2 g) = g"
proof -
  have "k dvd length (bits_of s @ replicate (fill k (8 * length s)) 0)" using fill_dvd width by simp
  from length_chunk [OF width(1) this assms] have l: "length g = k" and sub: "set g \<subseteq> set (bits_of s) \<union> {0}"
    by (auto split: if_splits)
  have d: "\<forall>b \<in> set g. b < 2" using sub bits_below by fastforce
  then show "of_base 2 g < 2 ^ k" "to_base 2 k (of_base 2 g) = g"
    using of_base_bound [of g 2] to_base_of_base [of g 2] l by auto
qed

lemma encode_letters: "set (encode_bits k letters s) \<subseteq> set letters"
  using group_value(1) size by (fastforce simp: encode_bits_def)

lemma decode_encode: "decode_bits k letters (encode_bits k letters s) = Some s"
proof -
  let ?bs = "bits_of s @ replicate (fill k (8 * length s)) 0"
  have "map (\<lambda>c. to_base 2 k (the (IndexByte letters c))) (encode_bits k letters s) = chunks k ?bs"
    using group_value [of _ s] by (auto simp: encode_bits_def comp_def IndexByte_nth distinct_letters size intro!: map_idI)
  then have c: "concat (map (\<lambda>c. to_base 2 k (the (IndexByte letters c))) (encode_bits k letters s)) = ?bs"
    using width by (simp add: concat_chunks)
  have "(8 * length s + fill k (8 * length s)) div 8 = length s"
    using fill_less [OF width(1), of "8 * length s"] width(2) by simp
  then have "take (8 * (length ?bs div 8)) ?bs = bits_of s" by simp
  then show ?thesis using encode_letters [of s] unfolding decode_bits_def c by (auto simp: list_all_iff Let_def)
qed

lemma encode_inj: "encode_bits k letters s = encode_bits k letters t \<longleftrightarrow> s = t"
  using decode_encode by (metis option.inject)

end

section \<open>The encodings\<close>

definition hex_digits :: string where
  "hex_digits = ''0123456789abcdef''"

definition base32_letters :: string where
  "base32_letters = ''abcdefghijklmnopqrstuvwxyz234567''"

interpretation hex: alphabet 4 hex_digits
  by unfold_locales (simp_all add: hex_digits_def)

interpretation b32: alphabet 5 base32_letters
  by unfold_locales (simp_all add: base32_letters_def)

definition hex_EncodeToString :: "string \<Rightarrow> string" where
  "hex_EncodeToString = encode_bits 4 hex_digits"

section \<open>Base 64\<close>

text \<open>
  The two alphabets, each without and with padding. A decoder passes over line ends; the padded form
  has groups of four letters, at most two of them the padding at the end.
\<close>

definition no_newlines :: "string \<Rightarrow> string" where
  "no_newlines s = filter (\<lambda>c. c \<noteq> CHR 0x0A \<and> c \<noteq> CHR 0x0D) s"

definition raw64_decode :: "string \<Rightarrow> string \<Rightarrow> string option" where
  "raw64_decode letters s = (let s = no_newlines s in if length s mod 4 = 1 then None else decode_bits 6 letters s)"

definition padded64_encode :: "string \<Rightarrow> string \<Rightarrow> string" where
  "padded64_encode letters s = (let e = encode_bits 6 letters s in e @ replicate (fill 4 (length e)) (CHR ''=''))"

definition padded64_decode :: "string \<Rightarrow> string \<Rightarrow> string option" where
  "padded64_decode letters s =
     (let s = no_newlines s; e = takeWhile (\<lambda>c. c \<noteq> CHR ''='') s in
      if length s mod 4 \<noteq> 0 \<or> s \<noteq> e @ replicate (fill 4 (length e)) (CHR ''='') then None
      else if length e mod 4 = 1 then None
      else decode_bits 6 letters e)"

lemma b64_length_mod: "length (encode_bits 6 letters s) mod 4 \<noteq> 1"
proof -
  have "(8 * n + fill 6 (8 * n)) div 6 mod 4 \<noteq> 1" for n
  proof -
    define q r where "q = n div 3" and "r = n mod 3"
    have n: "n = 3 * q + r" "r < 3" by (simp_all add: q_def r_def)
    then have "r = 0 \<or> r = 1 \<or> r = 2" by linarith
    moreover have "8 * n = 8 * r + 6 * (4 * q)" using n by simp
    then have "8 * n mod 6 = 8 * r mod 6" "8 * n div 6 = 8 * r div 6 + 4 * q"
      by (simp_all only: mod_mult_self2 div_mult_self2 [OF numeral_neq_zero] add.commute)
    ultimately show ?thesis using n by (auto simp: fill_def) presburger
  qed
  then show ?thesis by (simp add: length_encode_bits)
qed

lemma no_newlines_idle: "CHR 0x0A \<notin> set s \<Longrightarrow> CHR 0x0D \<notin> set s \<Longrightarrow> no_newlines s = s"
  by (auto simp: no_newlines_def intro!: filter_True)

locale alphabet64 = alphabet 6 letters for letters :: string +
  assumes plain_letters: "CHR ''='' \<notin> set letters" "CHR 0x0A \<notin> set letters" "CHR 0x0D \<notin> set letters"
begin

lemma plain_encoding: "CHR ''='' \<notin> set (encode_bits 6 letters s)" "CHR 0x0A \<notin> set (encode_bits 6 letters s)"
  "CHR 0x0D \<notin> set (encode_bits 6 letters s)"
  using encode_letters [of s] plain_letters by auto

lemma raw_roundtrip: "raw64_decode letters (encode_bits 6 letters s) = Some s"
  using b64_length_mod by (simp add: raw64_decode_def no_newlines_idle plain_encoding decode_encode)

lemma padded_roundtrip: "padded64_decode letters (padded64_encode letters s) = Some s"
proof -
  let ?e = "encode_bits 6 letters s"
  have "no_newlines (padded64_encode letters s) = padded64_encode letters s"
    by (rule no_newlines_idle) (auto simp: padded64_encode_def Let_def plain_encoding)
  moreover have "takeWhile (\<lambda>c. c \<noteq> CHR ''='') (padded64_encode letters s) = ?e"
    using plain_encoding(1) [of s] by (auto simp: padded64_encode_def Let_def takeWhile_append takeWhile_replicate)
  ultimately show ?thesis using b64_length_mod [of letters s] fill_dvd [of 4 "length ?e"]
    by (simp add: padded64_decode_def decode_encode padded64_encode_def Let_def dvd_eq_mod_eq_0)
qed

end

definition base64_letters :: string where
  "base64_letters = ''ABCDEFGHIJKLMNOPQRSTUVWXYZabcdefghijklmnopqrstuvwxyz0123456789+/''"

definition base64url_letters :: string where
  "base64url_letters = ''ABCDEFGHIJKLMNOPQRSTUVWXYZabcdefghijklmnopqrstuvwxyz0123456789-_''"

interpretation b64: alphabet64 base64_letters
  by unfold_locales (simp_all add: base64_letters_def)

interpretation b64url: alphabet64 base64url_letters
  by unfold_locales (simp_all add: base64url_letters_def)

abbreviation RawStdEncoding_Encode :: "string \<Rightarrow> string" where
  "RawStdEncoding_Encode \<equiv> encode_bits 6 base64_letters"

abbreviation RawStdEncoding_Decode :: "string \<Rightarrow> string option" where
  "RawStdEncoding_Decode \<equiv> raw64_decode base64_letters"

abbreviation StdEncoding_Encode :: "string \<Rightarrow> string" where
  "StdEncoding_Encode \<equiv> padded64_encode base64_letters"

abbreviation StdEncoding_Decode :: "string \<Rightarrow> string option" where
  "StdEncoding_Decode \<equiv> padded64_decode base64_letters"

abbreviation RawURLEncoding_Encode :: "string \<Rightarrow> string" where
  "RawURLEncoding_Encode \<equiv> encode_bits 6 base64url_letters"

abbreviation RawURLEncoding_Decode :: "string \<Rightarrow> string option" where
  "RawURLEncoding_Decode \<equiv> raw64_decode base64url_letters"

abbreviation URLEncoding_Decode :: "string \<Rightarrow> string option" where
  "URLEncoding_Decode \<equiv> padded64_decode base64url_letters"

lemmas RawStd_roundtrip = b64.raw_roundtrip
lemmas Std_roundtrip = b64.padded_roundtrip
lemmas RawURL_roundtrip = b64url.raw_roundtrip

section \<open>Hexadecimal\<close>

lemma hex_inj: "hex_EncodeToString s = hex_EncodeToString t \<longleftrightarrow> s = t"
  by (simp add: hex_EncodeToString_def hex.encode_inj)

lemma length_hex [simp]: "length (hex_EncodeToString s) = 2 * length s"
proof -
  have "fill 4 (8 * length s) = 0" by (simp add: fill_def)
  then show ?thesis by (simp add: hex_EncodeToString_def length_encode_bits)
qed

lemma encode64_head: "\<exists>rest. encode_bits 6 letters (c # s) = letters ! ((of_char c :: nat) div 4) # rest"
proof -
  let ?n = "of_char c :: nat"
  have "?n div 4 < 2 ^ 6" using nat_of_char_less_256 [of c] by (simp add: less_mult_imp_div_less)
  then have v: "of_base 2 (to_base 2 6 (?n div 4)) = ?n div 4" by (simp add: of_base_to_base del: to_base_numeral)
  have step: "to_base 2 (Suc (Suc m)) n = to_base 2 m (n div 4) @ [n div 2 mod 2, n mod 2]" for m n
    by (simp add: div_mult2_eq [symmetric])
  have eight: "(8 :: nat) = Suc (Suc 6)" by simp
  have "byte_bits c = to_base 2 6 (?n div 4) @ [?n div 2 mod 2, ?n mod 2]"
    unfolding byte_bits_def eight by (rule step)
  then show ?thesis by (simp add: encode_bits_def bits_of_def chunks_append v del: to_base_numeral)
qed

end
