(* ===== verification/Preferences.thy ===== *)
theory Preferences
  imports GoUrl Trust Locale Encodings SafePaths Updater
begin

text \<open>
  The visitor's preferences in \<open>server/handler/pages.go\<close> and \<open>server/handler/guest_preferences.go\<close>: where a
  form may send the browser back to, the cookies for theme, language, widget, consent and dismissed
  announcements, and the export and import of preferences. A request carries its raw query, the form
  \<open>net/http\<close> parsed and its cookies; a reply is its status, its location and the cookies it sets.
\<close>

section \<open>Requests and replies\<close>

record page_request =
  pq_Req :: http_request
  pq_RawQuery :: string
  pq_Form :: "(string \<times> string) list"
  pq_Cookies :: "(string \<times> string) list"

abbreviation page_FormValue :: "page_request \<Rightarrow> string \<Rightarrow> string" where
  "page_FormValue r k \<equiv> Values_Get (pq_Form r) k"

abbreviation page_Query :: "page_request \<Rightarrow> (string \<times> string) list" where
  "page_Query r \<equiv> fst (ParseQuery (pq_RawQuery r))"

abbreviation page_Header :: "page_request \<Rightarrow> string \<Rightarrow> string" where
  "page_Header r k \<equiv> Header_Get (rq_Header (pq_Req r)) k"

record http_cookie =
  hc_Name :: string
  hc_Value :: string
  hc_HttpOnly :: bool
  hc_Secure :: bool

text \<open>Every cookie of these handlers has path \<open>/\<close>, lasts a year and is \<open>SameSite=Lax\<close>.\<close>

record page_reply =
  pg_Status :: nat
  pg_Location :: "string option"
  pg_Cookies :: "http_cookie list"

record PagesHandler =
  ph_Trust :: "TrustResolver option"
  ph_DetectTheme :: "(page_request \<Rightarrow> string) option"

text \<open>What the handlers read of the process: the machine and the host parser of \<open>net/url\<close>.\<close>

record page_env =
  pe_Machine :: machine
  pe_ParseHost :: host_parser

abbreviation page_URL :: "page_env \<Rightarrow> page_request \<Rightarrow> TrustResolver option \<Rightarrow> string \<Rightarrow> string" where
  "page_URL e r trust path \<equiv> BuildURL (pe_Machine e) (pq_Req r) trust path"

section \<open>Redirect targets\<close>

abbreviation crlf :: "string \<Rightarrow> bool" where
  "crlf s \<equiv> CHR 0x0D \<in> set s \<or> CHR 0x0A \<in> set s"

definition backslash :: char where
  "backslash = CHR 0x5C"

definition rejected_target :: "string \<Rightarrow> bool" where
  "rejected_target target \<longleftrightarrow>
     target = [] \<or> crlf target \<or> \<not> HasPrefix target ''/'' \<or> HasPrefix target ''//'' \<or> HasPrefix target [CHR ''/'', backslash]"

definition safeRedirectTarget :: "page_env \<Rightarrow> page_request \<Rightarrow> string \<Rightarrow> string" where
  "safeRedirectTarget e r target =
     (if rejected_target target then ''/''
      else case url_Parse (pe_ParseHost e) target of
        None \<Rightarrow> ''/''
      | Some u \<Rightarrow>
          if u_Host u \<noteq> [] \<and> u_Host u \<noteq> rq_Host (pq_Req r) then ''/''
          else u_Path u @ (if u_RawQuery u \<noteq> [] then ''?'' @ u_RawQuery u else []))"

text \<open>The path and query of a URL, as both redirects put them together.\<close>

definition path_query :: "url \<Rightarrow> string" where
  "path_query u = EscapedPath u @ (if u_RawQuery u \<noteq> [] then ''?'' @ u_RawQuery u else [])"

definition validPreferencesRedirect :: "page_env \<Rightarrow> string \<Rightarrow> string option" where
  "validPreferencesRedirect e target =
     (if rejected_target target then None
      else case url_Parse (pe_ParseHost e) target of
        None \<Rightarrow> None
      | Some u \<Rightarrow>
          if IsAbs u \<or> u_Host u \<noteq> [] then None
          else if u_Path u \<in> {''/server/preferences'', ''/server/preferences/import'', ''/server/preferences/export''} then None
          else Some (path_query u))"

text \<open>The target a referring page of this very origin gives.\<close>

definition referer_target :: "page_env \<Rightarrow> page_request \<Rightarrow> TrustResolver option \<Rightarrow> string \<Rightarrow> string option" where
  "referer_target e r trust referer =
     (case (url_Parse (pe_ParseHost e) referer, url_Parse (pe_ParseHost e) (page_URL e r trust ''/'')) of
        (Some ref, Some origin) \<Rightarrow>
          if EqualFold (u_Scheme ref) (u_Scheme origin) \<and> EqualFold (u_Host ref) (u_Host origin)
          then validPreferencesRedirect e (path_query ref)
          else None
      | _ \<Rightarrow> None)"

definition preferencesRedirectTarget :: "page_env \<Rightarrow> page_request \<Rightarrow> TrustResolver option \<Rightarrow> string" where
  "preferencesRedirectTarget e r trust =
     (case validPreferencesRedirect e (Values_Get (page_Query r) ''redirect'') of
        Some target \<Rightarrow> target
      | None \<Rightarrow>
          let referer = page_Header r ''Referer'' in
          if referer = [] then ''/''
          else case (if HasPrefix referer ''/'' then validPreferencesRedirect e referer else None) of
            Some target \<Rightarrow> target
          | None \<Rightarrow> (case referer_target e r trust referer of Some target \<Rightarrow> target | None \<Rightarrow> ''/''))"

text \<open>
  The location \<open>http.Redirect\<close> writes: a target with neither scheme nor host is made absolute and its
  path is cleaned; anything else is written as it is.
\<close>

definition http_Redirect :: "page_env \<Rightarrow> page_request \<Rightarrow> string \<Rightarrow> string" where
  "http_Redirect e r target =
     (case url_Parse (pe_ParseHost e) target of
        None \<Rightarrow> target
      | Some u \<Rightarrow>
          if u_Scheme u \<noteq> [] \<or> u_Host u \<noteq> [] then target
          else
            (let old = (if rq_Path (pq_Req r) = [] then ''/'' else rq_Path (pq_Req r));
                 dir = take (case LastIndexByte old (CHR ''/'') of None \<Rightarrow> 0 | Some i \<Rightarrow> Suc i) old;
                 target = (if target = [] \<or> hd target \<noteq> CHR ''/'' then dir @ target else target);
                 i = (case IndexByte target (CHR ''?'') of None \<Rightarrow> length target | Some i \<Rightarrow> i);
                 p = take i target; c = Clean p in
             (if HasSuffix p ''/'' \<and> \<not> HasSuffix c ''/'' then c @ ''/'' else c) @ drop i target))"

section \<open>Preference values\<close>

definition NextTheme :: "string \<Rightarrow> string" where
  "NextTheme current = (if current = ''dark'' then ''light'' else if current = ''light'' then ''auto'' else ''dark'')"

definition isValidTheme :: "string \<Rightarrow> bool" where
  "isValidTheme theme \<longleftrightarrow> theme = ''light'' \<or> theme = ''dark'' \<or> theme = ''auto''"

definition normalizeThemeValue :: "string \<Rightarrow> string" where
  "normalizeThemeValue theme = (if isValidTheme theme then theme else ''dark'')"

definition widget_key :: string where
  "widget_key = ''ipgaze_pref_widget''"

definition validLookupWidget :: "string \<Rightarrow> bool" where
  "validLookupWidget value \<longleftrightarrow> value \<in> set [''ip'', ''country'', ''country-iso'', ''city'', ''asn'', ''json'', ''port'']"

definition lookupWidgetPreference :: "page_request \<Rightarrow> string" where
  "lookupWidgetPreference r = (case map_of (pq_Cookies r) widget_key of
     Some v \<Rightarrow> if validLookupWidget v then v else ''ip'' | None \<Rightarrow> ''ip'')"

definition currentLookupPreferences :: "page_request \<Rightarrow> string option" where
  "currentLookupPreferences r = (case map_of (pq_Cookies r) widget_key of
     Some v \<Rightarrow> if validLookupWidget v then Some v else None | None \<Rightarrow> None)"

definition isSecurePreferenceRequest :: "page_env \<Rightarrow> page_request \<Rightarrow> TrustResolver option \<Rightarrow> bool" where
  "isSecurePreferenceRequest e r trust = HasPrefix (page_URL e r trust ''/'') ''https://''"

definition preference_cookie :: "page_env \<Rightarrow> page_request \<Rightarrow> TrustResolver option \<Rightarrow> string \<Rightarrow> string \<Rightarrow> http_cookie" where
  "preference_cookie e r trust name v =
     \<lparr>hc_Name = name, hc_Value = v, hc_HttpOnly = False, hc_Secure = isSecurePreferenceRequest e r trust\<rparr>"

definition setThemeCookie :: "page_env \<Rightarrow> page_request \<Rightarrow> TrustResolver option \<Rightarrow> string \<Rightarrow> http_cookie list" where
  "setThemeCookie e r trust theme = [preference_cookie e r trust ''theme'' theme]"

definition setLangPreferenceCookie :: "page_env \<Rightarrow> page_request \<Rightarrow> TrustResolver option \<Rightarrow> string \<Rightarrow> http_cookie list" where
  "setLangPreferenceCookie e r trust lang = [preference_cookie e r trust ''lang'' lang]"

definition setLookupWidgetPreference :: "page_env \<Rightarrow> page_request \<Rightarrow> TrustResolver option \<Rightarrow> string \<Rightarrow> http_cookie list" where
  "setLookupWidgetPreference e r trust value =
     (if \<not> validLookupWidget value then [] else [preference_cookie e r trust widget_key value])"

text \<open>Both searches run over the supported locales in their order.\<close>

definition canonicalPreferenceLanguage :: "string \<Rightarrow> string" where
  "canonicalPreferenceLanguage candidate =
     (case find (\<lambda>code. EqualFold candidate code) SupportedLocales of
        Some code \<Rightarrow> code
      | None \<Rightarrow>
          if CHR ''-'' \<in> set candidate then
            (case find (\<lambda>code. EqualFold (fst (Cut candidate (CHR ''-''))) code) SupportedLocales of Some code \<Rightarrow> code | None \<Rightarrow> [])
          else [])"

definition page_locale :: "page_request \<Rightarrow> string" where
  "page_locale r = DetectLocale \<lparr>lr_Query = Values_Get (page_Query r) ''lang'', lr_Cookie = map_of (pq_Cookies r) ''lang'',
     lr_AcceptLanguage = page_Header r ''Accept-Language'', lr_TLS = rq_TLS (pq_Req r)\<rparr>"

definition currentTheme :: "PagesHandler \<Rightarrow> page_request \<Rightarrow> string" where
  "currentTheme h r = (case ph_DetectTheme h of None \<Rightarrow> ''dark'' | Some f \<Rightarrow> f r)"

section \<open>Update\<close>

definition method_not_allowed :: page_reply where
  "method_not_allowed = \<lparr>pg_Status = 405, pg_Location = None, pg_Cookies = []\<rparr>"

definition ServerPreferencesUpdateHandler :: "page_env \<Rightarrow> PagesHandler \<Rightarrow> page_request \<Rightarrow> page_reply" where
  "ServerPreferencesUpdateHandler e h r =
     (if rq_Method (pq_Req r) \<noteq> ''POST'' then method_not_allowed
      else
        (let theme = page_FormValue r ''theme''; lang = page_FormValue r ''lang''; widget = page_FormValue r widget_key;
             c1 = (if isValidTheme theme then setThemeCookie e r (ph_Trust h) (normalizeThemeValue theme) else []);
             c2 = (if lang \<noteq> [] \<and> canonicalPreferenceLanguage lang \<noteq> []
                   then setLangPreferenceCookie e r (ph_Trust h) (canonicalPreferenceLanguage lang) else []);
             c3 = (if widget \<noteq> [] then setLookupWidgetPreference e r (ph_Trust h) widget else []) in
         \<lparr>pg_Status = 303, pg_Location = Some (preferencesRedirectTarget e r (ph_Trust h)), pg_Cookies = c1 @ c2 @ c3\<rparr>))"

section \<open>Export and import\<close>

record preferencesExport =
  pf_Theme :: string
  pf_Lang :: string
  pf_Widget :: "string option"
  pf_URL :: string
  pf_Code :: string

text \<open>\<open>url.Values.Encode\<close> for one value per key: the keys in order.\<close>

definition Values_Encode :: "(string \<times> string) list \<Rightarrow> string" where
  "Values_Encode vs = Join (map (\<lambda>(k, v). QueryEscape k @ ''='' @ QueryEscape v) (sort_key fst vs)) ''&''"

definition buildPreferencesExportFor ::
  "page_env \<Rightarrow> PagesHandler \<Rightarrow> page_request \<Rightarrow> string \<Rightarrow> string \<Rightarrow> string option \<Rightarrow> preferencesExport" where
  "buildPreferencesExportFor e h r theme lang widget =
     (let values = [(''theme'', theme), (''lang'', lang)]
            @ (case widget of Some w \<Rightarrow> if validLookupWidget w then [(widget_key, w)] else [] | None \<Rightarrow> []);
          query = Values_Encode values in
      \<lparr>pf_Theme = theme, pf_Lang = lang, pf_Widget = widget,
       pf_URL = page_URL e r (ph_Trust h) (''/server/preferences/import?'' @ query), pf_Code = RawURLEncoding_Encode query\<rparr>)"

definition buildPreferencesExport :: "page_env \<Rightarrow> PagesHandler \<Rightarrow> page_request \<Rightarrow> preferencesExport" where
  "buildPreferencesExport e h r = buildPreferencesExportFor e h r (currentTheme h r) (page_locale r) (currentLookupPreferences r)"

definition decodePreferencesCode :: "string \<Rightarrow> (string \<times> string) list" where
  "decodePreferencesCode code =
     (case (case RawURLEncoding_Decode code of None \<Rightarrow> URLEncoding_Decode code | Some raw \<Rightarrow> Some raw) of
        None \<Rightarrow> []
      | Some raw \<Rightarrow> (case ParseQuery raw of (values, ok) \<Rightarrow> if ok then values else []))"

definition isPlainQuery :: "string \<Rightarrow> bool" where
  "isPlainQuery code \<longleftrightarrow>
     (let firstKey = hd (SplitByteN2 code (CHR ''='')) in
      CHR ''&'' \<in> set code \<or> firstKey = ''theme'' \<or> firstKey = ''lang'' \<or> HasPrefix firstKey ''ipgaze_pref_''
      \<or> CHR ''='' \<in> set code \<and> \<not> HasSuffix code ''='')"

text \<open>The values a code carries; a code that is too long gives none.\<close>

definition code_values :: "string \<Rightarrow> (string \<times> string) list" where
  "code_values code =
     (let code = (case IndexByte code (CHR ''?'') of Some i \<Rightarrow> drop (Suc i) code | None \<Rightarrow> code) in
      if isPlainQuery code then fst (ParseQuery code) else if code \<noteq> [] then decodePreferencesCode code else [])"

definition first_values :: "(string \<times> string) list \<Rightarrow> string list \<Rightarrow> (string \<times> string) list" where
  "first_values vs seen = map (\<lambda>k. (k, Values_Get vs k)) (filter (\<lambda>k. k \<notin> set seen) (remdups (map fst vs)))"

record import_result =
  im_Theme :: string
  im_Lang :: string
  im_Widget :: "string option"
  im_Applied :: "string list"
  im_Ignored :: "string list"

fun import_key :: "(string \<times> string) list \<Rightarrow> import_result \<Rightarrow> string \<Rightarrow> import_result" where
  "import_key q s key =
     (let value = Values_Get q key;
          ignore = s\<lparr>im_Ignored := im_Ignored s @ [key]\<rparr>; s = s\<lparr>im_Applied := im_Applied s @ [key]\<rparr> in
      if 64 < length value then ignore
      else if key = ''theme'' then (if isValidTheme value then s\<lparr>im_Theme := value\<rparr> else ignore)
      else if key = ''lang'' then
        (if canonicalPreferenceLanguage value \<noteq> [] then s\<lparr>im_Lang := canonicalPreferenceLanguage value\<rparr> else ignore)
      else if key = widget_key then (if validLookupWidget value then s\<lparr>im_Widget := Some value\<rparr> else ignore)
      else ignore)"

declare import_key.simps [simp del]

definition resolvePreferencesImport :: "PagesHandler \<Rightarrow> page_request \<Rightarrow> import_result" where
  "resolvePreferencesImport h r =
     (let q = page_Query r;
          code = TrimSpace (Values_Get q ''code'');
          decoded = (if code = [] \<or> 2048 < length code then [] else code_values code);
          ignored = (if code \<noteq> [] \<and> decoded = [] then [''code''] else []);
          q = q @ first_values decoded (map fst q);
          keys = sort (remdups (filter (\<lambda>k. k \<noteq> ''code'' \<and> k \<noteq> ''redirect'') (map fst q))) in
      foldl (import_key q)
        \<lparr>im_Theme = currentTheme h r, im_Lang = page_locale r, im_Widget = currentLookupPreferences r, im_Applied = [],
         im_Ignored = ignored @ drop 32 keys\<rparr>
        (take 32 keys))"

definition ServerPreferencesImportHandler :: "page_env \<Rightarrow> PagesHandler \<Rightarrow> page_request \<Rightarrow> page_reply" where
  "ServerPreferencesImportHandler e h r =
     (let i = resolvePreferencesImport h r;
          c1 = (if ''theme'' \<in> set (im_Applied i) then setThemeCookie e r (ph_Trust h) (im_Theme i) else []);
          c2 = (if ''lang'' \<in> set (im_Applied i) then setLangPreferenceCookie e r (ph_Trust h) (im_Lang i) else []);
          c3 = (if widget_key \<in> set (im_Applied i)
                then (case im_Widget i of None \<Rightarrow> [] | Some w \<Rightarrow> if w \<noteq> [] then setLookupWidgetPreference e r (ph_Trust h) w else [])
                else []) in
      \<lparr>pg_Status = 303, pg_Location = Some (preferencesRedirectTarget e r (ph_Trust h)), pg_Cookies = c1 @ c2 @ c3\<rparr>)"

section \<open>Consent and announcements\<close>

definition dismissedAnnouncements :: "page_request \<Rightarrow> string list" where
  "dismissedAnnouncements r =
     (case map_of (pq_Cookies r) ''dismissed_announcements'' of
        None \<Rightarrow> []
      | Some v \<Rightarrow> if v = [] then [] else filter (\<lambda>i. i \<noteq> []) (map TrimSpace (SplitByte v (CHR '',''))))"

definition hasConsentCookie :: "page_request \<Rightarrow> bool" where
  "hasConsentCookie r = (case map_of (pq_Cookies r) ''cookie_consent'' of None \<Rightarrow> False | Some v \<Rightarrow> v \<noteq> [])"

definition hasCCPAOptOutCookie :: "page_request \<Rightarrow> bool" where
  "hasCCPAOptOutCookie r = (map_of (pq_Cookies r) ''ccpa_opt_out'' = Some ''true'')"

definition isCheckboxChecked :: "string \<Rightarrow> bool" where
  "isCheckboxChecked value = (if value = [] then False else (case ParseBool value False of Some b \<Rightarrow> b | None \<Rightarrow> False))"

text \<open>What a form handler answers once its cookie is set: a redirect for a browser, else status 204.\<close>

definition form_reply :: "page_env \<Rightarrow> page_request \<Rightarrow> http_cookie \<Rightarrow> page_reply" where
  "form_reply e r c =
     (if Contains (page_Header r ''Accept'') ''text/html''
      then \<lparr>pg_Status = 303, pg_Location = Some (http_Redirect e r (safeRedirectTarget e r (page_Header r ''Referer''))), pg_Cookies = [c]\<rparr>
      else \<lparr>pg_Status = 204, pg_Location = None, pg_Cookies = [c]\<rparr>)"

definition show_bool :: "bool \<Rightarrow> string" where
  "show_bool b = (if b then ''true'' else ''false'')"

text \<open>The JSON text of the consent cookie, before it is escaped; the time is in milliseconds.\<close>

definition consent_json :: "bool \<Rightarrow> bool \<Rightarrow> int \<Rightarrow> string" where
  "consent_json preferences analytics now =
     (let q = CHR 0x22 in
      ''{'' @ [q] @ ''essential'' @ [q] @ '':true,'' @ [q] @ ''preferences'' @ [q] @ '':'' @ show_bool preferences @ '','' @ [q] @ ''analytics'' @ [q]
      @ '':'' @ show_bool analytics @ '','' @ [q] @ ''timestamp'' @ [q] @ '':'' @ Itoa_int now @ ''}'')"

definition consent_choice :: "page_request \<Rightarrow> bool \<times> bool" where
  "consent_choice r =
     (if page_FormValue r ''granular'' \<noteq> []
      then (isCheckboxChecked (page_FormValue r ''preferences''), isCheckboxChecked (page_FormValue r ''analytics''))
      else let accepted = (page_FormValue r ''choice'' = ''accept'') in (accepted, accepted))"

definition ConsentHandler :: "page_env \<Rightarrow> PagesHandler \<Rightarrow> int \<Rightarrow> page_request \<Rightarrow> page_reply" where
  "ConsentHandler e h now r =
     (if rq_Method (pq_Req r) \<noteq> ''POST'' then method_not_allowed
      else case consent_choice r of (preferences, analytics) \<Rightarrow>
        form_reply e r \<lparr>hc_Name = ''cookie_consent'', hc_Value = QueryEscape (consent_json preferences analytics now),
          hc_HttpOnly = False, hc_Secure = isSecurePreferenceRequest e r (ph_Trust h)\<rparr>)"

definition CCPAHandler :: "page_env \<Rightarrow> page_request \<Rightarrow> page_reply" where
  "CCPAHandler e r =
     (if rq_Method (pq_Req r) \<noteq> ''POST'' then method_not_allowed
      else form_reply e r \<lparr>hc_Name = ''ccpa_opt_out'', hc_Value = show_bool (page_FormValue r ''choice'' = ''opt-out''),
        hc_HttpOnly = True, hc_Secure = rq_TLS (pq_Req r)\<rparr>)"

definition DismissAnnouncementHandler :: "page_env \<Rightarrow> page_request \<Rightarrow> page_reply" where
  "DismissAnnouncementHandler e r =
     (if rq_Method (pq_Req r) \<noteq> ''POST'' then method_not_allowed
      else
        (let i = TrimSpace (page_FormValue r ''id'');
             existing = dismissedAnnouncements r;
             ids = (if list_ex (\<lambda>ex. ex = i) existing then existing else existing @ [i]) in
         if i = [] then \<lparr>pg_Status = 400, pg_Location = None, pg_Cookies = []\<rparr>
         else form_reply e r \<lparr>hc_Name = ''dismissed_announcements'', hc_Value = Join ids '','', hc_HttpOnly = True, hc_Secure = rq_TLS (pq_Req r)\<rparr>))"

text \<open>
  The categories a consent cookie grants: \<open>decode\<close> is \<open>json.Unmarshal\<close> into the two fields, and both are off
  unless the cookie is there and can be read.
\<close>

definition consentCategories :: "(string \<Rightarrow> (bool \<times> bool) option) \<Rightarrow> page_request \<Rightarrow> bool \<times> bool" where
  "consentCategories decode r =
     (case map_of (pq_Cookies r) ''cookie_consent'' of
        None \<Rightarrow> (False, False)
      | Some v \<Rightarrow>
          if v = [] then (False, False)
          else case QueryUnescape v of
            None \<Rightarrow> (False, False)
          | Some raw \<Rightarrow> (case decode raw of None \<Rightarrow> (False, False) | Some p \<Rightarrow> p))"

definition publicIndexableRoutes :: "string list" where
  "publicIndexableRoutes = [''/'', ''/server/about'', ''/server/help'', ''/server/privacy'', ''/server/terms'', ''/server/contact'']"

definition ResolveRobotsDirective :: "string \<Rightarrow> string" where
  "ResolveRobotsDirective path =
     (let t = TrimRightFunc (\<lambda>c. c = CHR ''/'') path;
          normalized = (if 1 < length path then (if t = [] then ''/'' else t) else path) in
      if normalized \<in> set publicIndexableRoutes then ''index,follow'' else ''noindex,nofollow'')"

section \<open>Where a redirect leads\<close>

text \<open>A target is local when a browser cannot read a host in it.\<close>

definition local_target :: "string \<Rightarrow> bool" where
  "local_target t \<longleftrightarrow> HasPrefix t ''/'' \<and> \<not> HasPrefix t ''//'' \<and> \<not> HasPrefix t [CHR ''/'', backslash]"

lemma local_target_iff: "local_target t \<longleftrightarrow> (\<exists>s. t = CHR ''/'' # s \<and> (s = [] \<or> hd s \<noteq> CHR ''/'' \<and> hd s \<noteq> backslash))"
  by (cases t; cases "tl t") (auto simp: local_target_def HasPrefix_def)

text \<open>The path of a reference as it is written: what stands before the fragment and the query.\<close>

definition written_path :: "string \<Rightarrow> string" where
  "written_path target = fst (cut_query (fst (Cut target (CHR ''#''))))"

lemma getScheme_slash: "HasPrefix s ''/'' \<Longrightarrow> getScheme s = Some ([], s)"
  by (cases s) (auto simp: HasPrefix_def getScheme_def is_letter_def is_digit_def Let_def)

lemma Cut_prefix: "\<exists>q. s = fst (Cut s c) @ q"
  by (auto simp: Cut_def split: option.splits) (metis append_take_drop_id)

lemma Cut_head: "x \<noteq> c \<Longrightarrow> fst (Cut (x # s) c) \<noteq> []"
  by (auto simp: Cut_def split: option.splits)

lemma cut_query_prefix: "\<exists>q. s = fst (cut_query s) @ q"
proof (cases "HasSuffix s ''?'' \<and> length (filter (\<lambda>c. c = CHR ''?'') s) = 1")
  case True
  then show ?thesis by (auto simp: cut_query_def intro: exI [of _ "drop (length s - 1) s"])
next
  case False
  then show ?thesis using Cut_prefix [of s "CHR ''?''"] by (auto simp: cut_query_def split: prod.splits)
qed

lemma cut_query_head: "x \<noteq> CHR ''?'' \<Longrightarrow> fst (cut_query (x # s)) \<noteq> []"
  using Cut_head [of x "CHR ''?''" s] by (cases s) (auto simp: cut_query_def HasSuffix_def split: prod.splits)

lemma local_prefix: "local_target t \<Longrightarrow> \<exists>q. t = p @ q \<Longrightarrow> p \<noteq> [] \<Longrightarrow> local_target p"
  by (cases p; cases "tl p") (auto simp: local_target_iff)

lemma local_slash: "local_target t \<Longrightarrow> \<exists>s. t = CHR ''/'' # s"
  by (auto simp: local_target_iff)

lemma accepted_local: "\<not> rejected_target target \<Longrightarrow> local_target target"
  by (simp add: rejected_target_def local_target_def)

lemma local_Cut: "local_target t \<Longrightarrow> c \<noteq> CHR ''/'' \<Longrightarrow> local_target (fst (Cut t c))"
  using local_slash Cut_head [of "CHR ''/''" c] by (blast intro: local_prefix Cut_prefix)

lemma local_cut_query: "local_target t \<Longrightarrow> local_target (fst (cut_query t))"
  using local_slash cut_query_head [of "CHR ''/''"] by (auto intro: local_prefix [OF _ cut_query_prefix])

lemma written_local:
  assumes "local_target target"
  shows "local_target (fst (Cut target (CHR ''#'')))" "local_target (written_path target)"
  unfolding written_path_def using assms by (simp_all add: local_Cut local_cut_query)

lemma parse_local:
  assumes "local_target target" "url_Parse ph target = Some u"
  shows "u_Scheme u = [] \<and> u_Host u = [] \<and> unescape encodePath (written_path target) = Some (u_Path u)
    \<and> u_RawPath u = (if written_path target = escape encodePath (u_Path u) then [] else written_path target)"
proof -
  let ?raw = "fst (Cut target (CHR ''#''))"
  have l: "HasPrefix ?raw ''/''" "?raw \<noteq> ''*''" and w: "HasPrefix (written_path target) ''/''" "\<not> HasPrefix (written_path target) ''//''"
    using written_local [OF assms(1)] by (auto simp: local_target_def HasPrefix_def)
  obtain fq q where cut: "cut_query ?raw = (written_path target, fq, q)"
    by (metis eq_fst_iff prod.exhaust_sel written_path_def)
  obtain u0 where u0: "parse_url ph ?raw = Some u0" and u: "u = u0 \<or> (\<exists>f. setFragment f u0 = Some u)"
    using assms(2) by (auto simp: url_Parse_def split: prod.splits option.splits if_splits)
  have "setPath (written_path target) (no_url\<lparr>u_Scheme := [], u_ForceQuery := fq, u_RawQuery := q\<rparr>) = Some u0"
    using u0 l w cut getScheme_slash [OF l(1)] by (auto simp: parse_url_def parse_rest_def Let_def ToLower_def split: if_splits)
  then show ?thesis using u by (auto simp: setPath_def setFragment_def no_url_def)
qed

lemma validEncoded_escape: "validEncoded m (escape m s)"
proof -
  have "\<not> shouldEscape (upperhex n) m" if "n < 16" for n m
  proof -
    have "is_alnum (upperhex n)" using that by (auto simp: is_alnum_def upperhex_def of_char_of Let_def)
    then show ?thesis by (simp add: shouldEscape_def)
  qed
  moreover have "(of_char c :: nat) div 16 < 16" for c :: char by (simp add: less_mult_imp_div_less)
  ultimately show ?thesis by (auto simp: validEncoded_def escape_def escape_char_def list_all_iff)
qed

lemma validEncoded_EscapedPath: "validEncoded encodePath (EscapedPath u)"
  by (auto simp: EscapedPath_def validEncoded_escape) (simp_all add: validEncoded_def)

lemma validEncoded_mem:
  "validEncoded m p \<Longrightarrow> c \<in> set p \<Longrightarrow> c \<in> set ''!$&()*+,;=:@[]%'' \<or> c = CHR 0x27 \<or> \<not> shouldEscape c m"
  unfolding validEncoded_def list_all_iff by blast

lemma validEncoded_plain:
  assumes "validEncoded encodePath p"
  shows "CHR ''?'' \<notin> set p" "CHR ''#'' \<notin> set p"
  using validEncoded_mem [OF assms, of "CHR ''?''"] validEncoded_mem [OF assms, of "CHR ''#''"]
  by (auto simp: shouldEscape_def is_alnum_def)

lemma Cut_none: "c \<notin> set p \<Longrightarrow> Cut p c = (p, [])"
  by (induction p) (auto simp: Cut_Nil Cut_Cons)

lemma Cut_append: "c \<notin> set p \<Longrightarrow> Cut (p @ q) c = (p @ fst (Cut q c), snd (Cut q c))"
  by (induction p) (auto simp: Cut_Nil Cut_Cons)

lemma no_question: "CHR ''?'' \<notin> set p \<Longrightarrow> filter (\<lambda>c. c = CHR ''?'') p = []"
  by (auto simp: filter_empty_conv)

lemma cut_query_at: "CHR ''?'' \<notin> set p \<Longrightarrow> fst (cut_query (p @ CHR ''?'' # q)) = p"
proof (cases "q = []")
  case False
  assume p: "CHR ''?'' \<notin> set p"
  have "HasSuffix (p @ CHR ''?'' # q) ''?'' \<Longrightarrow> filter (\<lambda>c. c = CHR ''?'') q \<noteq> []"
    using False by (cases q rule: rev_cases) (auto simp: HasSuffix_def)
  with p show ?thesis by (auto simp: cut_query_def Cut_append Cut_Cons no_question)
qed (simp add: cut_query_def Cut_append Cut_Cons no_question HasSuffix_def)

lemma cut_query_none: "CHR ''?'' \<notin> set p \<Longrightarrow> fst (cut_query p) = p"
  by (simp add: cut_query_def Cut_none no_question)

lemma written_path_of:
  assumes "validEncoded encodePath p"
  shows "written_path (p @ (if q \<noteq> [] then ''?'' @ q else [])) = p"
  using validEncoded_plain [OF assms] by (simp add: written_path_def Cut_append Cut_none Cut_Cons cut_query_at cut_query_none)

lemma local_query: "local_target p \<Longrightarrow> local_target (p @ (if q \<noteq> [] then ''?'' @ q else []))"
  by (cases p; cases "tl p") (auto simp: local_target_iff backslash_def)

lemma EscapedPath_written:
  assumes "local_target target" "url_Parse ph target = Some u" "validEncoded encodePath (written_path target)"
  shows "EscapedPath u = written_path target"
proof -
  note p = parse_local [OF assms(1,2)]
  obtain w where w: "written_path target = CHR ''/'' # w" using local_slash [OF written_local(2) [OF assms(1)]] by blast
  then have "u_Path u \<noteq> ''*''" using p by auto
  with w p assms(3) show ?thesis by (simp add: EscapedPath_def)
qed

lemma validPreferencesRedirect_local:
  assumes "validPreferencesRedirect e target = Some t" "validEncoded encodePath (written_path target)"
  shows "local_target t"
proof -
  obtain u where u: "url_Parse (pe_ParseHost e) target = Some u" "\<not> rejected_target target"
    and t: "t = path_query u"
    using assms(1) by (auto simp: validPreferencesRedirect_def split: if_splits option.splits)
  have l: "local_target target" using u(2) by (rule accepted_local)
  from EscapedPath_written [OF l u(1) assms(2)] written_local(2) [OF l] show ?thesis unfolding t path_query_def by (simp only: local_query)
qed

lemma referer_target_local:
  assumes "referer_target e r trust referer = Some t"
  shows "local_target t"
proof -
  obtain u where "validPreferencesRedirect e (path_query u) = Some t"
    using assms by (auto simp: referer_target_def split: option.splits if_splits)
  then show ?thesis
    by (rule validPreferencesRedirect_local) (simp only: path_query_def written_path_of validEncoded_EscapedPath)
qed


text \<open>
  Without that condition the promise fails: a character that has to be escaped makes the escaper write
  the decoded path out again, and an encoded slash after the first one becomes a host. The target
  that the other forms take is decoded in every case.
\<close>

lemma redirect_to_other_host:
  "validPreferencesRedirect e (''/%2fevil.example/'' @ [CHR 0x22]) = Some ''//evil.example/%22''"
  by (simp add: str_simps validPreferencesRedirect_def path_query_def safeRedirectTarget_def rejected_target_def url_Parse_def parse_url_def parse_rest_def Cut_def cut_query_def getScheme_def is_letter_def is_digit_def is_ctl_def setPath_def no_url_def escape_def escape_char_def shouldEscape_def is_alnum_def unhex_def upperhex_def HasPrefix_def HasSuffix_def backslash_def EscapedPath_def validEncoded_def Let_def)

lemma safe_redirect_to_other_host: "safeRedirectTarget e r ''/%2fevil.example'' = ''//evil.example''"
  by (simp add: str_simps validPreferencesRedirect_def path_query_def safeRedirectTarget_def rejected_target_def url_Parse_def parse_url_def parse_rest_def Cut_def cut_query_def getScheme_def is_letter_def is_digit_def is_ctl_def setPath_def no_url_def escape_def escape_char_def shouldEscape_def is_alnum_def unhex_def upperhex_def HasPrefix_def HasSuffix_def backslash_def EscapedPath_def validEncoded_def Let_def)

lemma safe_redirect_absolute: "\<not> HasPrefix referer ''/'' \<Longrightarrow> safeRedirectTarget e r referer = ''/''"
  by (simp add: safeRedirectTarget_def rejected_target_def)

section \<open>Exported preferences\<close>

text \<open>Words whose characters stand for themselves in a query.\<close>

definition plain_word :: "string \<Rightarrow> bool" where
  "plain_word s \<longleftrightarrow> list_all (\<lambda>c. is_alnum c \<or> c \<in> set ''-_.~'') s"

lemma plain_word_chars:
  assumes "plain_word s"
  shows "CHR ''&'' \<notin> set s" "CHR ''='' \<notin> set s" "CHR '';'' \<notin> set s" "CHR ''?'' \<notin> set s" "CHR ''%'' \<notin> set s" "CHR ''+'' \<notin> set s"
  using assms by (auto simp: plain_word_def list_all_iff is_alnum_def)

lemma plain_word_space: "plain_word s \<Longrightarrow> c \<in> set s \<Longrightarrow> \<not> is_space c"
  by (auto simp: plain_word_def list_all_iff is_alnum_def is_space_def Let_def)

lemma plain_word_TrimSpace: "plain_word s \<Longrightarrow> TrimSpace s = s"
proof -
  assume s: "plain_word s"
  have "dropWhile is_space t = t" if "set t = set s" for t using that plain_word_space [OF s] by (cases t) auto
  then show ?thesis by (simp add: TrimSpace_def TrimFunc_def TrimRightFunc_def TrimLeftFunc_def)
qed

lemma plain_word_escape: "plain_word s \<Longrightarrow> escape m s = s"
  by (induction s) (auto simp: plain_word_def escape_Cons escape_char_def shouldEscape_def)

lemma plain_word_unescape: "plain_word s \<Longrightarrow> unescape m s = Some s"
  by (metis plain_word_escape unescape_escape)

lemma query_pair_plain: "plain_word k \<Longrightarrow> plain_word v \<Longrightarrow> query_pair (k @ ''='' @ v) = Some (k, v)"
  by (simp add: query_pair_def plain_word_chars Cut_append Cut_Cons plain_word_unescape)

lemma ParseQuery_plain:
  assumes "kvs \<noteq> []" "\<forall>(k, v) \<in> set kvs. plain_word k \<and> plain_word v"
  shows "ParseQuery (Join (map (\<lambda>(k, v). k @ ''='' @ v) kvs) ''&'') = (kvs, True)"
proof -
  let ?f = "\<lambda>(k, v). k @ ''='' @ v"
  have "SplitByte (Join (map ?f kvs) ''&'') (CHR ''&'') = map ?f kvs"
    using assms plain_word_chars(1) by (intro SplitByte_Join) auto
  moreover have "filter (\<lambda>p. p \<noteq> []) (map ?f kvs) = map ?f kvs" by (auto simp: filter_id_conv)
  moreover have "List.map_filter query_pair (map ?f kvs) = kvs" "list_all (\<lambda>p. query_pair p \<noteq> None) (map ?f kvs)"
    using assms(2) by (induction kvs) (auto simp: List.map_filter_def query_pair_plain [simplified])
  ultimately show ?thesis by (simp only: ParseQuery_def Let_def)
qed

lemma b64url_plain: "plain_word (RawURLEncoding_Encode s)"
proof -
  have "plain_word base64url_letters" by (simp add: plain_word_def base64url_letters_def is_alnum_def)
  then show ?thesis using b64url.encode_letters [of s] by (auto simp: plain_word_def list_all_iff)
qed

lemma IndexByte_absent: "c \<notin> set s \<Longrightarrow> IndexByte s c = None"
  by simp

text \<open>A code that an export gives is not mistaken for a plain query.\<close>

lemma code_not_plain:
  assumes "hd q \<in> {CHR ''i'', CHR ''l''}" "10 < length q"
  shows "\<not> isPlainQuery (RawURLEncoding_Encode q)"
proof -
  let ?c = "RawURLEncoding_Encode q"
  obtain x s where q: "q = x # s" using assms(2) by (cases q) auto
  obtain rest where "?c = base64url_letters ! ((of_char x :: nat) div 4) # rest" using encode64_head q by blast
  then have c: "?c = CHR ''a'' # rest \<or> ?c = CHR ''b'' # rest" using assms(1) q by (auto simp: base64url_letters_def)
  have "10 < length ?c" using assms(2) by (simp add: length_encode_bits)
  then have "?c \<noteq> ''theme''" "?c \<noteq> ''lang''" by auto
  moreover have "\<not> HasPrefix ?c ''ipgaze_pref_''" using c by (elim disjE) (simp_all add: HasPrefix_def)
  ultimately show ?thesis using plain_word_chars [OF b64url_plain [of q]]
    by (simp add: isPlainQuery_def SplitByteN2_def IndexByte_absent Let_def)
qed

text \<open>The pairs an export carries, in the order they are written.\<close>

definition export_pairs :: "string \<Rightarrow> string \<Rightarrow> string option \<Rightarrow> (string \<times> string) list" where
  "export_pairs theme lang widget =
     (case widget of Some w \<Rightarrow> [(widget_key, w)] | None \<Rightarrow> []) @ [(''lang'', lang), (''theme'', theme)]"

definition export_ok :: "string \<Rightarrow> string \<Rightarrow> string option \<Rightarrow> bool" where
  "export_ok theme lang widget \<longleftrightarrow> isValidTheme theme \<and> IsSupported lang \<and> pred_option validLookupWidget widget"

lemma valid_words:
  "isValidTheme v \<or> IsSupported v \<or> validLookupWidget v \<Longrightarrow> plain_word v \<and> length v \<le> 11"
  by (auto simp: isValidTheme_def IsSupported_def SupportedLocales_def validLookupWidget_def plain_word_def is_alnum_def)

lemma export_plain: "export_ok theme lang widget \<Longrightarrow> \<forall>(k, v) \<in> set (export_pairs theme lang widget). plain_word k \<and> plain_word v"
  using valid_words
  by (auto simp: export_ok_def export_pairs_def pred_option_def widget_key_def split: option.splits)
    (auto simp: plain_word_def is_alnum_def)

lemma exported_code:
  assumes "export_ok theme lang widget"
  shows "pf_Code (buildPreferencesExportFor e h r theme lang widget)
    = RawURLEncoding_Encode (Join (map (\<lambda>(k, v). k @ ''='' @ v) (export_pairs theme lang widget)) ''&'')"
proof -
  have s: "sort_key fst ([(''theme'', theme), (''lang'', lang)]
      @ (case widget of Some w \<Rightarrow> if validLookupWidget w then [(widget_key, w)] else [] | None \<Rightarrow> [])) = export_pairs theme lang widget"
    using assms by (auto simp: export_ok_def export_pairs_def widget_key_def less_char_def split: option.splits)
  have "map (\<lambda>(k, v). QueryEscape k @ ''='' @ QueryEscape v) (export_pairs theme lang widget)
      = map (\<lambda>(k, v). k @ ''='' @ v) (export_pairs theme lang widget)"
    using export_plain [OF assms] by (auto simp: plain_word_escape)
  then show ?thesis unfolding buildPreferencesExportFor_def Values_Encode_def Let_def s by (simp only: preferencesExport.select_convs)
qed

lemma canonical_supported: "IsSupported lang \<Longrightarrow> canonicalPreferenceLanguage lang = lang \<and> lang \<noteq> []"
proof -
  assume "IsSupported lang"
  then have "lang \<in> {''en'', ''es'', ''fr'', ''de'', ''zh'', ''ar'', ''ja''}" by (auto simp: IsSupported_def SupportedLocales_def)
  then show ?thesis
    unfolding insert_iff empty_iff
    by (elim disjE) (simp_all add: SupportedLocales_def canonicalPreferenceLanguage_def EqualFold_def str_simps)
qed

lemma export_decodes:
  assumes "export_ok theme lang widget"
    and c_def: "c = pf_Code (buildPreferencesExportFor e h r theme lang widget)"
  shows "code_values c = export_pairs theme lang widget" "c \<noteq> []" "length c \<le> 2048" "plain_word c"
proof -
  let ?q = "Join (map (\<lambda>(k, v). k @ ''='' @ v) (export_pairs theme lang widget)) ''&''"
  have c: "c = RawURLEncoding_Encode ?q" unfolding c_def by (rule exported_code [OF assms(1)])
  have p: "ParseQuery ?q = (export_pairs theme lang widget, True)"
    using export_plain [OF assms(1)] by (intro ParseQuery_plain) (auto simp: export_pairs_def)
  have "length theme \<le> 11" "length lang \<le> 11" "\<And>w. widget = Some w \<Longrightarrow> length w \<le> 11"
    using valid_words assms(1) by (auto simp: export_ok_def)
  then have q: "length ?q \<le> 100" "10 < length ?q" "hd ?q \<in> {CHR ''i'', CHR ''l''}"
    using assms(1) by (auto simp: export_pairs_def widget_key_def export_ok_def isValidTheme_def split: option.splits)
  have "fill 6 (8 * length ?q) < 6" by (rule fill_less) simp
  then show "length c \<le> 2048" using q(1) unfolding c by (simp only: length_encode_bits)
  have "10 < length c" using q(2) unfolding c by (simp add: length_encode_bits)
  then show "c \<noteq> []" by auto
  show "plain_word c" unfolding c by (rule b64url_plain)
  then have "CHR ''?'' \<notin> set c" by (rule plain_word_chars)
  then show "code_values c = export_pairs theme lang widget"
    using code_not_plain [OF q(3,2)] \<open>c \<noteq> []\<close> RawURL_roundtrip [of ?q] p c
    by (simp add: code_values_def decodePreferencesCode_def IndexByte_absent)
qed

lemma import_pairs:
  assumes "export_ok theme lang widget"
  shows "foldl (import_key ((''code'', c) # export_pairs theme lang widget)) s (map fst (export_pairs theme lang widget))
    = s\<lparr>im_Theme := theme, im_Lang := lang, im_Widget := (case widget of None \<Rightarrow> im_Widget s | Some w \<Rightarrow> Some w),
        im_Applied := im_Applied s @ map fst (export_pairs theme lang widget)\<rparr>"
proof -
  have "length theme \<le> 64" "length lang \<le> 64" "\<And>w. widget = Some w \<Longrightarrow> length w \<le> 64"
    using valid_words assms by (fastforce simp: export_ok_def)+
  then show ?thesis using assms canonical_supported [of lang]
    by (cases widget) (simp_all add: export_ok_def export_pairs_def widget_key_def import_key.simps Values_Get_def Let_def)
qed

text \<open>
  C27. Exported preferences come back: whoever imports the code that an export gave for a valid theme, a
  supported language and possibly a lookup widget gets exactly these values, all of them applied and
  none ignored; a widget that was not exported stays the visitor's own.
\<close>

theorem preferences_roundtrip:
  assumes "export_ok theme lang widget"
    and "pq_RawQuery r' = ''code='' @ pf_Code (buildPreferencesExportFor e h r theme lang widget)"
  shows "resolvePreferencesImport h' r' =
    \<lparr>im_Theme = theme, im_Lang = lang,
     im_Widget = (case widget of None \<Rightarrow> currentLookupPreferences r' | Some w \<Rightarrow> Some w),
     im_Applied = (if widget = None then [] else [''ipgaze_pref_widget'']) @ [''lang'', ''theme''], im_Ignored = []\<rparr>"
proof -
  define c where "c = pf_Code (buildPreferencesExportFor e h r theme lang widget)"
  note d = export_decodes [OF assms(1) c_def]
  have "plain_word ''code''" by (simp add: plain_word_def is_alnum_def)
  then have q: "page_Query r' = [(''code'', c)]"
    using ParseQuery_plain [of "[(''code'', c)]"] d(4) assms(2) by (simp add: c_def)
  have k: "sort (remdups (filter (\<lambda>k. k \<noteq> ''code'' \<and> k \<noteq> ''redirect'') (map fst (export_pairs theme lang widget))))
      = map fst (export_pairs theme lang widget)"
    by (cases widget) (simp_all add: export_pairs_def widget_key_def less_char_def)
  have f: "first_values (export_pairs theme lang widget) [''code''] = export_pairs theme lang widget"
    by (cases widget) (simp_all add: first_values_def export_pairs_def widget_key_def Values_Get_def)
  have n: "length (map fst (export_pairs theme lang widget)) \<le> 32" by (cases widget) (simp_all add: export_pairs_def)
  have "TrimSpace c = c" using d(4) by (rule plain_word_TrimSpace)
  then have "resolvePreferencesImport h' r' = foldl (import_key ((''code'', c) # export_pairs theme lang widget))
      \<lparr>im_Theme = currentTheme h' r', im_Lang = page_locale r', im_Widget = currentLookupPreferences r', im_Applied = [], im_Ignored = []\<rparr>
      (map fst (export_pairs theme lang widget))"
    unfolding resolvePreferencesImport_def q Let_def using d k f n
    by (simp add: Values_Get_def) (simp add: export_pairs_def split: option.splits)
  then show ?thesis unfolding import_pairs [OF assms(1)] by (cases widget) (simp_all add: export_pairs_def widget_key_def)
qed

section \<open>Instances\<close>

definition about_request :: page_request where
  "about_request = \<lparr>pq_Req = \<lparr>rq_Method = ''GET'', rq_Path = ''/server/preferences/import'', rq_Host = ''ip.example'', rq_URLHost = [],
     rq_RemoteAddr = ''192.0.2.1:4000'', rq_TLS = True, rq_Header = [(''Referer'', ''https://other.example/'')]\<rparr>,
     pq_RawQuery = ''theme=light&redirect=/server/about'', pq_Form = [], pq_Cookies = []\<rparr>"

lemma about_redirect: "Values_Get (page_Query about_request) ''redirect'' = ''/server/about''"
  by (simp add: about_request_def ParseQuery_def query_pair_def Cut_Nil Cut_Cons Values_Get_def List.map_filter_def)

lemma about_valid: "validEncoded encodePath (written_path ''/server/about'')"
  by (simp add: validEncoded_def written_path_def Cut_def cut_query_def HasSuffix_def shouldEscape_def is_alnum_def)


theorem preferences_roundtrip_witness:
  "\<forall>e h r. im_Applied (resolvePreferencesImport h (about_request\<lparr>pq_RawQuery := ''code='' @ pf_Code (buildPreferencesExportFor e h r ''light'' ''fr'' (Some ''asn''))\<rparr>))
     = [''ipgaze_pref_widget'', ''lang'', ''theme'']"
proof (intro allI)
  fix e h r
  have "export_ok ''light'' ''fr'' (Some ''asn'')"
    by (simp add: export_ok_def isValidTheme_def IsSupported_def SupportedLocales_def validLookupWidget_def)
  from preferences_roundtrip [OF this, of "about_request\<lparr>pq_RawQuery := ''code='' @ pf_Code (buildPreferencesExportFor e h r ''light'' ''fr'' (Some ''asn''))\<rparr>" e h r h]
  show "im_Applied (resolvePreferencesImport h (about_request\<lparr>pq_RawQuery := ''code='' @ pf_Code (buildPreferencesExportFor e h r ''light'' ''fr'' (Some ''asn''))\<rparr>))
      = [''ipgaze_pref_widget'', ''lang'', ''theme'']" by simp
qed

end
