(* ===== verification/Secrets.thy ===== *)
theory Secrets
  imports Encodings LogLines
begin

text \<open>
  Files \<open>security/secret.go\<close> and \<open>security/password.go\<close>: the server's root secrets with their
  rotation, authenticated encryption under a derived key, and password hashes; from
  \<open>security/report.go\<close> the rotating identifier of the security contact. The table \<open>app_secrets\<close> is a
  map from names to rows; which database statements fail, the random bytes and the clock (Unix
  seconds) are arguments. HKDF, AES-GCM, HMAC and Argon2 are parameters.
\<close>

section \<open>The table of secrets\<close>

record secret_row =
  sr_value :: string
  sr_previous_value :: "string option"
  sr_previous_until :: "int option"
  sr_rotated_at :: "int option"

type_synonym secrets = "string \<rightharpoonup> secret_row"

datatype secret_error = QueryFailed | NoRow | RandomFailed | PersistFailed | ReloadFailed | DecodeFailed

definition SecretInstallationSecret :: string where
  "SecretInstallationSecret = ''installation_secret''"

definition secretGraceWindow :: int where
  "secretGraceWindow = 7 * 24 * 3600"

definition decode_value :: "string \<Rightarrow> secret_error + string" where
  "decode_value encoded = (case StdEncoding_Decode encoded of None \<Rightarrow> Inl DecodeFailed | Some raw \<Rightarrow> Inr raw)"

text \<open>An insertion that does nothing when the row exists.\<close>

definition insert_secret :: "int \<Rightarrow> string \<Rightarrow> string \<Rightarrow> secrets \<Rightarrow> secrets" where
  "insert_secret now name encoded db =
     (case db name of
        Some _ \<Rightarrow> db
      | None \<Rightarrow> db(name \<mapsto> \<lparr>sr_value = encoded, sr_previous_value = None, sr_previous_until = None, sr_rotated_at = Some now\<rparr>))"

definition reload_secret :: "string \<Rightarrow> secrets \<Rightarrow> secret_error + string" where
  "reload_secret name db = (case db name of None \<Rightarrow> Inl ReloadFailed | Some row \<Rightarrow> decode_value (sr_value row))"

text \<open>\<open>fails\<close> tells which of the three statements returns an error; \<open>rnd\<close> is the outcome of the random source.\<close>

definition GetOrCreateSecret ::
  "(nat \<Rightarrow> bool) \<Rightarrow> string option \<Rightarrow> int \<Rightarrow> string \<Rightarrow> secrets \<Rightarrow> (secret_error + string) \<times> secrets" where
  "GetOrCreateSecret fails rnd now name db =
     (if fails 0 then (Inl QueryFailed, db)
      else case db name of
        Some row \<Rightarrow> (decode_value (sr_value row), db)
      | None \<Rightarrow>
          (case rnd of
             None \<Rightarrow> (Inl RandomFailed, db)
           | Some raw \<Rightarrow>
               if fails 1 then (Inl PersistFailed, db)
               else let db' = insert_secret now name (StdEncoding_Encode raw) db in
                 (if fails 2 then Inl ReloadFailed else reload_secret name db', db')))"

definition RotateSecret ::
  "(nat \<Rightarrow> bool) \<Rightarrow> string option \<Rightarrow> string option \<Rightarrow> int \<Rightarrow> string \<Rightarrow> secrets \<Rightarrow> (secret_error + unit) \<times> secrets" where
  "RotateSecret fails rnd rnd' now name db =
     (case GetOrCreateSecret fails rnd now name db of
        (Inl e, db) \<Rightarrow> (Inl e, db)
      | (Inr cur, db) \<Rightarrow>
          (case rnd' of
             None \<Rightarrow> (Inl RandomFailed, db)
           | Some nxt \<Rightarrow>
               if fails 3 then (Inl PersistFailed, db)
               else (Inr (), case db name of
                 None \<Rightarrow> db
               | Some row \<Rightarrow> db(name \<mapsto> row\<lparr>sr_value := StdEncoding_Encode nxt,
                   sr_previous_value := Some (StdEncoding_Encode cur),
                   sr_previous_until := Some (now + secretGraceWindow), sr_rotated_at := Some now\<rparr>))))"

definition RotateSecretIfDue ::
  "(nat \<Rightarrow> bool) \<Rightarrow> string option \<Rightarrow> string option \<Rightarrow> int \<Rightarrow> string \<Rightarrow> int \<Rightarrow> secrets \<Rightarrow> (secret_error + bool) \<times> secrets" where
  "RotateSecretIfDue fails rnd rnd' now name lifetime db =
     (if fails 4 then (Inl QueryFailed, db)
      else case db name of
        None \<Rightarrow> (Inl NoRow, db)
      | Some row \<Rightarrow>
          (case sr_rotated_at row of
             None \<Rightarrow> if fails 5 then (Inl PersistFailed, db) else (Inr False, db(name \<mapsto> row\<lparr>sr_rotated_at := Some now\<rparr>))
           | Some t \<Rightarrow>
               if now - t < lifetime then (Inr False, db)
               else (case RotateSecret fails rnd rnd' now name db of
                 (Inl e, db) \<Rightarrow> (Inl e, db)
               | (Inr _, db) \<Rightarrow> (Inr True, db))))"

definition PreviousSecret :: "bool \<Rightarrow> int \<Rightarrow> string \<Rightarrow> secrets \<Rightarrow> secret_error + string option" where
  "PreviousSecret fails now name db =
     (if fails then Inl QueryFailed
      else case db name of
        None \<Rightarrow> Inr None
      | Some row \<Rightarrow>
          (case (sr_previous_value row, sr_previous_until row) of
             (Some p, Some u) \<Rightarrow> if u < now then Inr None
               else (case decode_value p of Inl e \<Rightarrow> Inl e | Inr raw \<Rightarrow> Inr (Some raw))
           | _ \<Rightarrow> Inr None))"

section \<open>Several callers\<close>

text \<open>
  Each caller is before its query, holds a generated value to insert, is about to read again, or
  has returned. The statements of different callers interleave.
\<close>

datatype caller = Querying | Inserting string | Reloading | Returned "secret_error + string"

inductive get_step :: "string \<Rightarrow> (nat \<Rightarrow> caller) \<times> secrets \<Rightarrow> (nat \<Rightarrow> caller) \<times> secrets \<Rightarrow> bool" for name where
  found: "cs i = Querying \<Longrightarrow> db name = Some row
     \<Longrightarrow> get_step name (cs, db) (cs(i := Returned (decode_value (sr_value row))), db)"
| missing: "cs i = Querying \<Longrightarrow> db name = None \<Longrightarrow> get_step name (cs, db) (cs(i := Inserting (StdEncoding_Encode raw)), db)"
| insert: "cs i = Inserting v \<Longrightarrow> get_step name (cs, db) (cs(i := Reloading), insert_secret now name v db)"
| reload: "cs i = Reloading \<Longrightarrow> get_step name (cs, db) (cs(i := Returned (reload_secret name db)), db)"
| failed: "get_step name (cs, db) (cs(i := Returned (Inl e)), db)"

inductive_cases get_step_cases: "get_step name s t"

definition get_init :: "(nat \<Rightarrow> caller) \<times> secrets \<Rightarrow> bool" where
  "get_init s \<longleftrightarrow> (\<forall>i. fst s i = Querying)"

definition get_inv :: "string \<Rightarrow> (nat \<Rightarrow> caller) \<times> secrets \<Rightarrow> bool" where
  "get_inv name s \<longleftrightarrow> (\<forall>i v. fst s i = Returned (Inr v) \<longrightarrow> (\<exists>row. snd s name = Some row \<and> decode_value (sr_value row) = Inr v))"

lemma insert_keeps: "db name = Some row \<Longrightarrow> insert_secret now n v db name = Some row"
  by (auto simp: insert_secret_def split: option.split)

interpretation getters: invariant_system get_init "get_step name" "get_inv name" for name
proof
  fix s t assume "get_step name s t" "get_inv name s"
  then show "get_inv name t"
  proof (cases rule: get_step.cases)
    case (insert cs i v db now)
    with \<open>get_inv name s\<close> show ?thesis by (simp add: get_inv_def) (metis insert_keeps)
  qed (auto simp: get_inv_def reload_secret_def split: option.splits if_splits)
qed (auto simp: get_init_def get_inv_def)

text \<open>
  C24. Every caller sees the same secret: however the statements of any number of concurrent callers
  interleave, on a table with or without the row, two callers that return a value return
  the same one.
\<close>

theorem one_secret_for_all:
  assumes "reachable get_init (get_step name) (cs, db)" "cs i = Returned (Inr v)" "cs j = Returned (Inr w)"
  shows "v = w"
  using getters.reachable_inv [OF assms(1)] assms(2,3)
  by (simp add: get_inv_def) (metis option.inject sum.inject(2))

text \<open>A caller that runs alone takes exactly the steps of the sequential function.\<close>

lemma alone_reaches:
  assumes "cs i = Querying" "GetOrCreateSecret (\<lambda>_. False) (Some raw) now name db = (r, db')"
  shows "(get_step name)\<^sup>*\<^sup>* (cs, db) (cs(i := Returned r), db')"
proof (cases "db name")
  case (Some row)
  with assms show ?thesis by (auto simp: GetOrCreateSecret_def intro: found)
next
  case None
  let ?v = "StdEncoding_Encode raw"
  have r: "r = reload_secret name (insert_secret now name ?v db)" "db' = insert_secret now name ?v db"
    using assms(2) None by (auto simp: GetOrCreateSecret_def Let_def)
  have "get_step name (cs, db) (cs(i := Inserting ?v), db)" using assms(1) None by (rule missing)
  moreover have "get_step name (cs(i := Inserting ?v), db) (cs(i := Reloading), db')"
    using insert [of "cs(i := Inserting ?v)" i ?v name db now] by (simp add: r)
  moreover have "get_step name (cs(i := Reloading), db') (cs(i := Returned r), db')"
    using reload [of "cs(i := Reloading)" i name db'] by (simp add: r)
  ultimately show ?thesis by (meson converse_rtranclp_into_rtranclp rtranclp.rtrancl_refl)
qed

section \<open>Rotation\<close>

definition no_fail :: "nat \<Rightarrow> bool" where
  "no_fail n = False"

lemma rotated:
  assumes "db name = Some row" "decode_value (sr_value row) = Inr old" "RotateSecret no_fail rnd (Some nxt) s name db = (r, db')"
  shows "r = Inr ()" "GetOrCreateSecret no_fail rnd' t name db' = (Inr nxt, db')"
    "PreviousSecret False t name db' = Inr (if t \<le> s + secretGraceWindow then Some old else None)"
  using assms
  by (auto simp: RotateSecret_def GetOrCreateSecret_def PreviousSecret_def no_fail_def decode_value_def Std_roundtrip split: option.splits)

text \<open>
  Rotation keeps the replaced secret for a week: afterwards the current value is the new one, and
  the value before is returned as the previous one until seven days have passed and not after.
\<close>

theorem rotation_grace:
  assumes "db name = Some row" "decode_value (sr_value row) = Inr old" "RotateSecret no_fail rnd (Some nxt) s name db = (r, db')"
  shows "r = Inr () \<and> fst (GetOrCreateSecret no_fail rnd' t name db') = Inr nxt
    \<and> PreviousSecret False t name db' = Inr (if t \<le> s + secretGraceWindow then Some old else None)"
  using rotated [OF assms] by simp

text \<open>A second rotation within the week forgets the value before the first, whose week is not over.\<close>

lemma second_rotation_drops:
  assumes "db name = Some row" "decode_value (sr_value row) = Inr old" "old \<noteq> x"
    and "RotateSecret no_fail rnd (Some x) 0 name db = (r, db')" "RotateSecret no_fail rnd (Some y) 1 name db' = (r', db'')"
  shows "PreviousSecret False 2 name db'' = Inr (Some x)"
  using assms
  by (auto simp: RotateSecret_def GetOrCreateSecret_def PreviousSecret_def no_fail_def decode_value_def Std_roundtrip
      secretGraceWindow_def split: option.splits)

section \<open>The rotating identifier\<close>

definition securityIDWindow :: int where
  "securityIDWindow = 48 * 3600"

text \<open>Integer division of Go truncates.\<close>

definition go_quot :: "int \<Rightarrow> int \<Rightarrow> int" where
  "go_quot a b = (if a < 0 then - ((- a) div b) else a div b)"

definition SecurityID :: "(string \<Rightarrow> string \<Rightarrow> string) \<Rightarrow> string \<Rightarrow> int \<Rightarrow> string" where
  "SecurityID hmac secret unixSeconds =
     take 16 (hex_EncodeToString (hmac secret (fmt_int (go_quot unixSeconds securityIDWindow))))"

definition ValidateSecurityID :: "(string \<Rightarrow> string \<Rightarrow> string) \<Rightarrow> string \<Rightarrow> string \<Rightarrow> string \<Rightarrow> int \<Rightarrow> bool" where
  "ValidateSecurityID hmac cur previous candidate now \<longleftrightarrow>
     length candidate = 16 \<and>
     list_ex (\<lambda>secret. secret \<noteq> [] \<and>
       list_ex (\<lambda>delta. SecurityID hmac secret (now - delta * securityIDWindow) = candidate) [0, 1]) [cur, previous]"

definition CurrentSecurityID ::
  "(string \<Rightarrow> string \<Rightarrow> string) \<Rightarrow> (nat \<Rightarrow> bool) \<Rightarrow> string option \<Rightarrow> int \<Rightarrow> secrets \<Rightarrow> (secret_error + string) \<times> secrets" where
  "CurrentSecurityID hmac fails rnd now db =
     (case GetOrCreateSecret fails rnd now SecretInstallationSecret db of
        (Inl e, db) \<Rightarrow> (Inl e, db)
      | (Inr secret, db) \<Rightarrow> (Inr (SecurityID hmac secret now), db))"

definition IsValidSecurityID ::
  "(string \<Rightarrow> string \<Rightarrow> string) \<Rightarrow> (nat \<Rightarrow> bool) \<Rightarrow> string option \<Rightarrow> string \<Rightarrow> int \<Rightarrow> secrets \<Rightarrow> (secret_error + bool) \<times> secrets" where
  "IsValidSecurityID hmac fails rnd candidate now db =
     (case GetOrCreateSecret fails rnd now SecretInstallationSecret db of
        (Inl e, db) \<Rightarrow> (Inl e, db)
      | (Inr cur, db) \<Rightarrow>
          (case PreviousSecret (fails 3) now SecretInstallationSecret db of
             Inl e \<Rightarrow> (Inl e, db)
           | Inr p \<Rightarrow> (Inr (ValidateSecurityID hmac cur (case p of None \<Rightarrow> [] | Some raw \<Rightarrow> raw) candidate now), db)))"

lemma window_near:
  assumes "0 \<le> t" "t \<le> t'" "t' \<le> t + securityIDWindow"
  shows "go_quot t securityIDWindow = go_quot t' securityIDWindow \<or> go_quot t securityIDWindow = go_quot (t' - securityIDWindow) securityIDWindow"
proof (cases "t' < securityIDWindow")
  case True
  then show ?thesis using assms by (simp add: go_quot_def)
next
  case False
  let ?w = securityIDWindow
  have w: "0 < ?w" by (simp add: securityIDWindow_def)
  have "t' div ?w \<le> t div ?w + 1" using assms zdiv_mono1 [of t' "t + ?w" ?w] w div_add_self2 [of ?w t] by simp
  moreover have "t div ?w \<le> t' div ?w" using assms w by (simp add: zdiv_mono1)
  moreover have "(t' - ?w) div ?w = t' div ?w - 1" using w div_add_self2 [of ?w "t' - ?w"] by simp
  ultimately show ?thesis using assms False by (auto simp: go_quot_def)
qed

lemma length_SecurityID: "length (hmac secret (fmt_int (go_quot t securityIDWindow))) = 32 \<Longrightarrow> length (SecurityID hmac secret t) = 16"
  by (simp add: SecurityID_def)

text \<open>
  A published identifier survives a rotation: what the server published as security identifier
  is accepted for the next two days although the installation secret was replaced in between.
\<close>

theorem published_id_survives_rotation:
  assumes "db SecretInstallationSecret = Some row" "decode_value (sr_value row) = Inr secret" "secret \<noteq> []"
    and "\<And>k x. length (hmac k x) = 32"
    and "0 \<le> t" "t \<le> s" "s \<le> t'" "t' \<le> t + securityIDWindow"
    and "fst (CurrentSecurityID hmac no_fail rnd t db) = Inr i"
    and "RotateSecret no_fail rnd (Some nxt) s SecretInstallationSecret db = (r, db')"
  shows "fst (IsValidSecurityID hmac no_fail rnd i t' db') = Inr True"
proof -
  have i: "i = SecurityID hmac secret t" "length i = 16"
    using assms(1,2,4,9) length_SecurityID by (auto simp: CurrentSecurityID_def GetOrCreateSecret_def no_fail_def)
  have "SecurityID hmac secret t' = i \<or> SecurityID hmac secret (t' - securityIDWindow) = i"
    using window_near [of t t'] assms(5-8) unfolding i(1) SecurityID_def by (metis order_trans)
  then have valid: "ValidateSecurityID hmac c p i t'" if "c = secret \<or> p = secret" for c p
    using that assms(3) i(2) by (auto simp: ValidateSecurityID_def)
  have "t' \<le> s + secretGraceWindow" using assms(6,8) by (simp add: secretGraceWindow_def securityIDWindow_def)
  then show ?thesis
    using rotated(2) [OF assms(1,2,10), of rnd t'] rotated(3) [OF assms(1,2,10), of t'] valid by (simp add: IsValidSecurityID_def) (simp add: no_fail_def)
qed


section \<open>Encryption under a derived key\<close>

text \<open>
  \<open>kdf\<close> is HKDF for a secret and a purpose; sealing takes key, nonce and text. A failing random
  source is \<open>None\<close>.
\<close>

record aead =
  ae_kdf :: "string \<Rightarrow> string \<Rightarrow> string"
  ae_seal :: "string \<Rightarrow> string \<Rightarrow> string \<Rightarrow> string"
  ae_open :: "string \<Rightarrow> string \<Rightarrow> string \<Rightarrow> string option"

definition nonce_size :: nat where
  "nonce_size = 12"

definition EncryptWithSecret :: "aead \<Rightarrow> string option \<Rightarrow> string \<Rightarrow> string \<Rightarrow> string \<Rightarrow> string option" where
  "EncryptWithSecret a rnd secret plaintext info =
     (case rnd of None \<Rightarrow> None | Some nonce \<Rightarrow> Some (nonce @ ae_seal a (ae_kdf a secret info) nonce plaintext))"

definition DecryptWithSecret :: "aead \<Rightarrow> string \<Rightarrow> string \<Rightarrow> string \<Rightarrow> string option" where
  "DecryptWithSecret a secret ciphertext info =
     (if length ciphertext < nonce_size then None
      else ae_open a (ae_kdf a secret info) (take nonce_size ciphertext) (drop nonce_size ciphertext))"

text \<open>What a sealed text opens to under its own key and nonce is the text.\<close>

definition opens_own :: "aead \<Rightarrow> bool" where
  "opens_own a \<longleftrightarrow> (\<forall>k n p. ae_open a k n (ae_seal a k n p) = Some p)"

definition nonce_ok :: "string option \<Rightarrow> bool" where
  "nonce_ok rnd \<longleftrightarrow> (\<forall>n. rnd = Some n \<longrightarrow> length n = nonce_size)"

lemma decrypt_encrypt:
  "opens_own a \<Longrightarrow> nonce_ok rnd \<Longrightarrow> EncryptWithSecret a rnd secret plain info = Some c \<Longrightarrow> DecryptWithSecret a secret c info = Some plain"
  by (auto simp: EncryptWithSecret_def DecryptWithSecret_def opens_own_def nonce_ok_def nonce_size_def split: option.splits)

section \<open>Passwords\<close>

record argon2Params =
  ap_memory :: nat
  ap_time :: nat
  ap_threads :: nat

definition argon2Version :: nat where "argon2Version = 19"
definition argon2Time :: nat where "argon2Time = 1"
definition argon2Memory :: nat where "argon2Memory = 64 * 1024"
definition argon2Threads :: nat where "argon2Threads = 4"
definition argon2KeyLen :: nat where "argon2KeyLen = 32"

text \<open>\<open>argon2\<close> takes password, salt, parameters and the length of the result.\<close>

type_synonym argon2 = "string \<Rightarrow> string \<Rightarrow> argon2Params \<Rightarrow> nat \<Rightarrow> string"

definition default_params :: argon2Params where
  "default_params = \<lparr>ap_memory = argon2Memory, ap_time = argon2Time, ap_threads = argon2Threads\<rparr>"

definition HashPassword :: "argon2 \<Rightarrow> string option \<Rightarrow> string \<Rightarrow> string option" where
  "HashPassword argon2 rnd password =
     (case rnd of
        None \<Rightarrow> None
      | Some salt \<Rightarrow>
          Some (''$argon2id$v='' @ Itoa argon2Version @ ''$m='' @ Itoa argon2Memory @ '',t='' @ Itoa argon2Time @ '',p='' @ Itoa argon2Threads
            @ ''$'' @ RawStdEncoding_Encode salt @ ''$'' @ RawStdEncoding_Encode (argon2 password salt default_params argon2KeyLen)))"

text \<open>
  The part of \<open>Sscanf\<close> the parser uses: a literal, or a decimal within a width after optional
  blanks; what follows the last item is ignored.
\<close>

definition scan_literal :: "string \<Rightarrow> string \<Rightarrow> string option" where
  "scan_literal lit s = (if HasPrefix s lit then Some (drop (length lit) s) else None)"

definition scan_uint :: "nat \<Rightarrow> string \<Rightarrow> (nat \<times> string) option" where
  "scan_uint w s =
     (let s = dropWhile (\<lambda>c. is_space c \<and> c \<noteq> CHR 0x0A) s;
          d = takeWhile is_digit s in
      if d = [] \<or> 2 ^ w \<le> digits_val 0 d then None else Some (digits_val 0 d, drop (length d) s))"

text \<open>The version is a signed \<open>int\<close>.\<close>

definition scan_int :: "string \<Rightarrow> string option" where
  "scan_int s =
     (let s = dropWhile (\<lambda>c. is_space c \<and> c \<noteq> CHR 0x0A) s;
          signed = (s \<noteq> [] \<and> (hd s = CHR ''-'' \<or> hd s = CHR ''+''));
          d = takeWhile is_digit (if signed then tl s else s) in
      if d = [] \<or> 2 ^ 63 \<le> digits_val 0 d then None else Some (drop (length d) (if signed then tl s else s)))"

definition scan_params :: "string \<Rightarrow> argon2Params option" where
  "scan_params s =
     Option.bind (scan_literal ''m='' s) (\<lambda>s.
     Option.bind (scan_uint 32 s) (\<lambda>(m, s).
     Option.bind (scan_literal '',t='' s) (\<lambda>s.
     Option.bind (scan_uint 32 s) (\<lambda>(t, s).
     Option.bind (scan_literal '',p='' s) (\<lambda>s.
     Option.bind (scan_uint 8 s) (\<lambda>(p, s). Some \<lparr>ap_memory = m, ap_time = t, ap_threads = p\<rparr>))))))"

definition decodeHash :: "string \<Rightarrow> (string \<times> string \<times> argon2Params) option" where
  "decodeHash encodedHash =
     (let parts = SplitByte encodedHash (CHR ''$'') in
      if length parts \<noteq> 6 then None
      else if parts ! 1 \<noteq> ''argon2id'' then None
      else Option.bind (scan_literal ''v='' (parts ! 2)) (\<lambda>v.
        Option.bind (scan_int v) (\<lambda>_.
        Option.bind (scan_params (parts ! 3)) (\<lambda>params.
        Option.bind (RawStdEncoding_Decode (parts ! 4)) (\<lambda>salt.
        Option.bind (RawStdEncoding_Decode (parts ! 5)) (\<lambda>hash. Some (salt, hash, params)))))))"

definition VerifyPassword :: "argon2 \<Rightarrow> string \<Rightarrow> string \<Rightarrow> bool" where
  "VerifyPassword argon2 password encodedHash =
     (case decodeHash encodedHash of
        None \<Rightarrow> False
      | Some (salt, hash, params) \<Rightarrow> hash = argon2 password salt params (length hash))"

lemma scan_literal_append [simp]: "scan_literal lit (lit @ s) = Some s"
  by (simp add: scan_literal_def HasPrefix_iff)

lemma digit_not_space: "is_digit c \<Longrightarrow> \<not> is_space c"
  by (auto simp: is_digit_def is_space_def Let_def)

lemma dropWhile_space_Itoa: "dropWhile (\<lambda>c. is_space c \<and> P c) (Itoa n @ s) = Itoa n @ s"
proof -
  obtain d ds where d: "Itoa n = d # ds" using Itoa_not_Nil by (cases "Itoa n") auto
  then have "is_digit d" using Itoa_digits [of d n] by simp
  then show ?thesis using d digit_not_space by simp
qed

lemma scan_uint_Itoa:
  assumes "n < 2 ^ w" "s = [] \<or> \<not> is_digit (hd s)"
  shows "scan_uint w (Itoa n @ s) = Some (n, s)"
proof -
  have "takeWhile is_digit (Itoa n @ s) = Itoa n" using assms(2) Itoa_digits [of _ n]
    by (cases s) (auto simp: takeWhile_append)
  then show ?thesis using assms(1) Itoa_not_Nil by (simp add: scan_uint_def dropWhile_space_Itoa digits_val_Itoa Let_def not_le)
qed

lemma raw_no_dollar: "CHR ''$'' \<notin> set (RawStdEncoding_Encode s)"
proof -
  have "CHR ''$'' \<notin> set base64_letters" by (simp add: base64_letters_def)
  then show ?thesis using b64.encode_letters by blast
qed

lemma scan_default_params:
  "scan_params (''m='' @ Itoa argon2Memory @ '',t='' @ Itoa argon2Time @ '',p='' @ Itoa argon2Threads) = Some default_params"
  using scan_uint_Itoa [of argon2Threads 8 "[]"]
  by (simp add: scan_params_def default_params_def scan_uint_Itoa is_digit_def argon2Memory_def argon2Time_def argon2Threads_def
      scan_literal_append [of "'',t=''", simplified] scan_literal_append [of "'',p=''", simplified] scan_literal_append [of "''m=''", simplified])

lemma scan_version: "scan_int (Itoa argon2Version) = Some []"
proof -
  have "Itoa argon2Version = ''19''" by (simp add: argon2Version_def Itoa.simps str_simps)
  then show ?thesis by (simp add: scan_int_def str_simps is_digit_def digit_val_def is_space_def Let_def)
qed

lemma decode_hashed:
  assumes "HashPassword argon2 (Some salt) password = Some e"
  shows "decodeHash e = Some (salt, argon2 password salt default_params argon2KeyLen, default_params)"
proof -
  let ?h = "argon2 password salt default_params argon2KeyLen"
  let ?v = "''v='' @ Itoa argon2Version" and ?m = "''m='' @ Itoa argon2Memory @ '',t='' @ Itoa argon2Time @ '',p='' @ Itoa argon2Threads"
  let ?parts = "[[], ''argon2id'', ?v, ?m, RawStdEncoding_Encode salt, RawStdEncoding_Encode ?h]"
  have d: "CHR ''$'' \<notin> set (Itoa n)" for n using Itoa_digits [of "CHR ''$''" n] by (auto simp: is_digit_def)
  have "e = Join ?parts ''$''" using assms by (simp add: HashPassword_def)
  moreover have "\<forall>p \<in> set ?parts. CHR ''$'' \<notin> set p" using d raw_no_dollar by simp
  ultimately have "SplitByte e (CHR ''$'') = ?parts" using SplitByte_Join [of ?parts "CHR ''$''"] by simp
  then show ?thesis
    using scan_default_params scan_literal_append [of "''v=''" "Itoa argon2Version"]
    by (simp add: decodeHash_def Let_def scan_version RawStd_roundtrip)
qed

text \<open>
  A password is accepted exactly by what it was hashed from: the stored text of a password is
  parsed back to its salt, parameters and hash, and another password passes only if Argon2
  maps both to one value under that salt.
\<close>

theorem password_verify:
  assumes "HashPassword argon2 (Some salt) p = Some e" "\<And>p s q n. length (argon2 p s q n) = n"
  shows "VerifyPassword argon2 q e \<longleftrightarrow> argon2 q salt default_params argon2KeyLen = argon2 p salt default_params argon2KeyLen"
  using decode_hashed [OF assms(1)] assms(2) by (auto simp: VerifyPassword_def)

section \<open>Witnesses\<close>

definition one_row :: secrets where
  "one_row = [SecretInstallationSecret \<mapsto> \<lparr>sr_value = StdEncoding_Encode ''old'', sr_previous_value = None,
     sr_previous_until = None, sr_rotated_at = Some 0\<rparr>]"

lemma one_row_at: "\<exists>row. one_row SecretInstallationSecret = Some row \<and> decode_value (sr_value row) = Inr ''old''"
  by (simp add: one_row_def decode_value_def Std_roundtrip)

theorem one_secret_for_all_witness:
  "\<exists>cs db. reachable get_init (get_step ''n'') (cs, db) \<and> cs 0 = Returned (Inr ''k'') \<and> cs 1 = Returned (Inr ''k'')
     \<and> (\<forall>w. cs 1 = Returned (Inr w) \<longrightarrow> ''k'' = w)"
proof -
  define row where "row = \<lparr>sr_value = StdEncoding_Encode ''k'', sr_previous_value = None, sr_previous_until = None, sr_rotated_at = Some (0::int)\<rparr>"
  define db where "db = [''n'' \<mapsto> row]"
  let ?c0 = "\<lambda>_::nat. Querying" and ?r = "Returned (Inr ''k'')"
  have v: "decode_value (sr_value row) = Inr ''k''" by (simp add: row_def decode_value_def Std_roundtrip)
  have "reachable get_init (get_step ''n'') (?c0, db)" by (intro reachable.intros) (simp add: get_init_def)
  moreover have "get_step ''n'' (?c0, db) (?c0(0 := ?r), db)" using found [of ?c0 0 db "''n''" row] v by (simp add: db_def)
  moreover have "get_step ''n'' (?c0(0 := ?r), db) (?c0(0 := ?r, 1 := ?r), db)"
    using found [of "?c0(0 := ?r)" 1 db "''n''" row] v by (simp add: db_def)
  ultimately have r: "reachable get_init (get_step ''n'') (?c0(0 := ?r, 1 := ?r), db)" by (blast intro: reachable.intros)
  then show ?thesis using one_secret_for_all [OF r, of 0 "''k''" 1] by (intro exI [of _ "?c0(0 := ?r, 1 := ?r)"] exI [of _ db]) auto
qed

theorem rotation_grace_witness:
  "\<exists>db'. snd (RotateSecret no_fail None (Some ''new'') 100 SecretInstallationSecret one_row) = db'
     \<and> PreviousSecret False 100 SecretInstallationSecret db' = Inr (Some ''old'')"
proof -
  obtain row where row: "one_row SecretInstallationSecret = Some row" "decode_value (sr_value row) = Inr ''old''" using one_row_at by blast
  obtain r db' where "RotateSecret no_fail None (Some ''new'') 100 SecretInstallationSecret one_row = (r, db')" by fastforce
  from rotation_grace [OF row this, of None 100] this show ?thesis by (simp add: secretGraceWindow_def)
qed

theorem published_id_survives_rotation_witness:
  "\<exists>i db'. fst (CurrentSecurityID (\<lambda>_ _. replicate 32 (CHR ''x'')) no_fail None 10 one_row) = Inr i
     \<and> fst (IsValidSecurityID (\<lambda>_ _. replicate 32 (CHR ''x'')) no_fail None i 30 db') = Inr True"
proof -
  let ?hmac = "\<lambda>_ _ :: string. replicate 32 (CHR ''x'')"
  obtain row where row: "one_row SecretInstallationSecret = Some row" "decode_value (sr_value row) = Inr ''old''" using one_row_at by blast
  obtain r db' where r: "RotateSecret no_fail None (Some ''new'') 20 SecretInstallationSecret one_row = (r, db')" by fastforce
  obtain i where i: "fst (CurrentSecurityID ?hmac no_fail None 10 one_row) = Inr i"
    using row by (simp add: CurrentSecurityID_def GetOrCreateSecret_def no_fail_def)
  have "fst (IsValidSecurityID ?hmac no_fail None i 30 db') = Inr True"
    by (rule published_id_survives_rotation [OF row _ _ _ _ _ _ i r]) (simp_all add: securityIDWindow_def)
  with i show ?thesis by blast
qed

theorem password_verify_witness:
  "\<exists>e. HashPassword (\<lambda>p s q n. take n (p @ replicate n (CHR ''0''))) (Some ''salt'') ''secret'' = Some e
     \<and> \<not> VerifyPassword (\<lambda>p s q n. take n (p @ replicate n (CHR ''0''))) ''guess'' e"
proof -
  let ?a = "\<lambda>(p :: string) (s :: string) (q :: argon2Params) n. take n (p @ replicate n (CHR ''0''))"
  obtain e where e: "HashPassword ?a (Some ''salt'') ''secret'' = Some e" by (simp add: HashPassword_def)
  have "\<not> VerifyPassword ?a ''guess'' e" by (subst password_verify [OF e]) (simp_all add: argon2KeyLen_def)
  with e show ?thesis by blast
qed

end
