(* ===== verification/SecurityReports.thy ===== *)
theory SecurityReports
  imports Secrets GoTime
begin

text \<open>
  File \<open>security/report.go\<close>: encrypted vulnerability reports. The table \<open>security_reports\<close> is a list of
  rows under their tracking identifier, its primary key. A statement of the database is atomic,
  and several requests interleave between statements. Times are Unix seconds.
\<close>

section \<open>Reports\<close>

record report_row =
  rr_encrypted_body :: string
  rr_encryption :: string
  rr_severity :: string
  rr_component :: string
  rr_credit_preference :: string
  rr_credit_name :: string
  rr_short_credit :: string
  rr_status :: string
  rr_comment :: "string option"
  rr_disclosure :: "int option"
  rr_disclosed_year :: "int option"
  rr_closed_at :: "int option"
  rr_token_hash :: string
  rr_last_access_day :: "int option"

type_synonym reports = "(string \<times> report_row) list"

record SecurityReportMetadata =
  sm_TrackingID :: string
  sm_Ciphertext :: string
  sm_Encryption :: string
  sm_Severity :: string
  sm_AffectedComponent :: string
  sm_CreditPreference :: string
  sm_CreditName :: string
  sm_ShortCredit :: string
  sm_AccessTokenHash :: string

datatype report_error = DatabaseUnavailable | InvalidMetadata | StatementFailed | InvalidTriage | CommentTooLong | NoRows
| InvalidToken | UsedToday | AccessExpired | InvalidRotation | DecryptFailed | EncryptFailed

definition NewSecurityTrackingID :: "string option \<Rightarrow> string option" where
  "NewSecurityTrackingID rnd = map_option (\<lambda>raw. ''sec_'' @ hex_EncodeToString raw) rnd"

definition NewSecurityAccessToken :: "(string \<Rightarrow> string) \<Rightarrow> string option \<Rightarrow> (string \<times> string) option" where
  "NewSecurityAccessToken sha256 rnd =
     map_option (\<lambda>raw. let token = hex_EncodeToString raw in (token, hex_EncodeToString (sha256 token))) rnd"

definition validSecuritySeverity :: "string \<Rightarrow> bool" where
  "validSecuritySeverity value \<longleftrightarrow> value \<in> set [''critical'', ''high'', ''medium'', ''low'', ''informational'']"

definition validSecurityReportStatus :: "string \<Rightarrow> bool" where
  "validSecurityReportStatus status \<longleftrightarrow>
     status \<in> set [''Received'', ''Triaged'', ''Confirmed'', ''Patching'', ''Disclosed'', ''Won'' @ [CHR 0x27] @ ''t Fix'']"

text \<open>\<open>strings.ToValidUTF8\<close>: a run of invalid bytes becomes one replacement character.\<close>

function valid_runes :: "bool \<Rightarrow> string \<Rightarrow> string list" where
  "valid_runes bad s =
     (case s of
        [] \<Rightarrow> []
      | a # r \<Rightarrow>
          (case rune_width s of
             None \<Rightarrow> if bad then valid_runes True r else replacement # valid_runes True r
           | Some w \<Rightarrow> take (max 1 w) s # valid_runes False (drop (max 1 w) s)))"
  by auto
termination by (relation "measure (length \<circ> snd)") auto

declare valid_runes.simps [simp del]

definition low_rune :: "string \<Rightarrow> bool" where
  "low_rune r \<longleftrightarrow> (\<exists>c \<in> set r. r = [c] \<and> ((of_char c :: nat) < 32 \<or> (of_char c :: nat) = 127))"

definition SanitizeReportComponent :: "string \<Rightarrow> string" where
  "SanitizeReportComponent value =
     (let value = concat (valid_runes False value);
          rs = filter (\<lambda>r. \<not> low_rune r) (runes (TrimSpace value)) in
      concat (if 120 < length rs then take 120 rs else rs))"

definition new_row :: "SecurityReportMetadata \<Rightarrow> report_row" where
  "new_row m =
     \<lparr>rr_encrypted_body = sm_Ciphertext m, rr_encryption = sm_Encryption m, rr_severity = sm_Severity m,
      rr_component = SanitizeReportComponent (sm_AffectedComponent m),
      rr_credit_preference = sm_CreditPreference m, rr_credit_name = sm_CreditName m, rr_short_credit = sm_ShortCredit m, rr_status = ''Received'', rr_comment = None,
      rr_disclosure = None, rr_disclosed_year = None, rr_closed_at = None, rr_token_hash = sm_AccessTokenHash m,
      rr_last_access_day = None\<rparr>"

text \<open>The insertion fails on an existing key and on an encryption the table does not allow.\<close>

definition StoreSecurityReport :: "bool \<Rightarrow> SecurityReportMetadata \<Rightarrow> reports option \<Rightarrow> (report_error + unit) \<times> reports option" where
  "StoreSecurityReport fails m db =
     (case db of
        None \<Rightarrow> (Inl DatabaseUnavailable, db)
      | Some rows \<Rightarrow>
          if \<not> validSecuritySeverity (sm_Severity m) \<or> sm_TrackingID m = [] \<or> sm_Ciphertext m = [] then (Inl InvalidMetadata, db)
          else if fails \<or> map_of rows (sm_TrackingID m) \<noteq> None \<or> sm_Encryption m \<notin> {''pgp'', ''aes-256-gcm''}
          then (Inl StatementFailed, db)
          else (Inr (), Some (rows @ [(sm_TrackingID m, new_row m)])))"

definition update_row :: "string \<Rightarrow> (report_row \<Rightarrow> report_row) \<Rightarrow> reports \<Rightarrow> reports" where
  "update_row i f rows = map (\<lambda>(k, r). (k, if k = i then f r else r)) rows"

section \<open>Triage\<close>

definition triage_rune_dropped :: "string \<Rightarrow> bool" where
  "triage_rune_dropped r \<longleftrightarrow>
     (\<exists>c \<in> set r. r = [c] \<and> (let n = (of_char c :: nat) in n < 32 \<and> n \<noteq> 10 \<and> n \<noteq> 9 \<or> n = 127))"

text \<open>A disclosure date is its Unix time; the year is that of UTC.\<close>

definition UpdateSecurityReportTriage ::
  "bool \<Rightarrow> string \<Rightarrow> string \<Rightarrow> string \<Rightarrow> gtime option \<Rightarrow> int \<Rightarrow> reports option \<Rightarrow> (report_error + unit) \<times> reports option" where
  "UpdateSecurityReportTriage fails trackingID status comment disclosureDate now db =
     (case db of
        None \<Rightarrow> (Inl InvalidTriage, db)
      | Some rows \<Rightarrow>
          if TrimSpace trackingID = [] \<or> \<not> validSecurityReportStatus status then (Inl InvalidTriage, db)
          else let rs = filter (\<lambda>r. \<not> triage_rune_dropped r) (runes (TrimSpace comment)) in
            if 2000 < length rs then (Inl CommentTooLong, db)
            else if fails then (Inl StatementFailed, db)
            else if map_of rows trackingID = None then (Inl NoRows, db)
            else (Inr (), Some (update_row trackingID (\<lambda>r. r\<lparr>rr_status := status, rr_comment := Some (concat rs),
                rr_disclosure := map_option Unix disclosureDate,
                rr_closed_at := (if status = ''Disclosed'' \<or> status = ''Won'' @ [CHR 0x27] @ ''t Fix'' then Some now else None),
                rr_disclosed_year := (if status = ''Disclosed'' then map_option (\<lambda>d. Year (d\<lparr>g_off := 0\<rparr>)) disclosureDate else None)\<rparr>)
              rows)))"

section \<open>Access by token\<close>

record SecurityReportStatus =
  ss_TrackingID :: string
  ss_Status :: string
  ss_Comment :: string
  ss_Disclosure :: "int option"
  ss_ClosedAt :: "int option"

definition access_days :: int where
  "access_days = 30 * 24 * 3600"

text \<open>The two statements of \<open>ConsumeSecurityAccessToken\<close>: the query with its checks, and the guarded update.\<close>

definition check_access :: "(string \<Rightarrow> string) \<Rightarrow> string \<Rightarrow> string \<Rightarrow> int \<Rightarrow> reports \<Rightarrow> report_error + SecurityReportStatus" where
  "check_access sha256 trackingID token now rows =
     (case map_of rows trackingID of
        None \<Rightarrow> Inl NoRows
      | Some row \<Rightarrow>
          if rr_token_hash row \<noteq> hex_EncodeToString (sha256 token) then Inl InvalidToken
          else if (case rr_last_access_day row of None \<Rightarrow> False | Some d \<Rightarrow> go_quot now 86400 \<le> d) then Inl UsedToday
          else if (case rr_closed_at row of None \<Rightarrow> False | Some c \<Rightarrow> c + access_days < now) then Inl AccessExpired
          else Inr \<lparr>ss_TrackingID = trackingID, ss_Status = rr_status row,
            ss_Comment = (case rr_comment row of None \<Rightarrow> [] | Some c \<Rightarrow> c), ss_Disclosure = rr_disclosure row,
            ss_ClosedAt = rr_closed_at row\<rparr>)"

definition mark_access :: "string \<Rightarrow> int \<Rightarrow> reports \<Rightarrow> bool \<times> reports" where
  "mark_access trackingID day rows =
     (case map_of rows trackingID of
        None \<Rightarrow> (False, rows)
      | Some row \<Rightarrow>
          if (case rr_last_access_day row of None \<Rightarrow> True | Some d \<Rightarrow> d < day)
          then (True, update_row trackingID (\<lambda>r. r\<lparr>rr_last_access_day := Some day\<rparr>) rows)
          else (False, rows))"

definition ConsumeSecurityAccessToken ::
  "(string \<Rightarrow> string) \<Rightarrow> (nat \<Rightarrow> bool) \<Rightarrow> string \<Rightarrow> string \<Rightarrow> int \<Rightarrow> reports \<Rightarrow> (report_error + SecurityReportStatus) \<times> reports" where
  "ConsumeSecurityAccessToken sha256 fails trackingID token now rows =
     (if fails 0 then (Inl StatementFailed, rows)
      else case check_access sha256 trackingID token now rows of
        Inl e \<Rightarrow> (Inl e, rows)
      | Inr status \<Rightarrow>
          if fails 1 then (Inl StatementFailed, rows)
          else (case mark_access trackingID (go_quot now 86400) rows of
            (ok, rows) \<Rightarrow> (if ok then Inr status else Inl UsedToday, rows)))"

section \<open>Key rotation\<close>

text \<open>The loop inside the transaction; \<open>rnd\<close> gives the nonce of each report, \<open>fails\<close> the failing updates.\<close>

fun reencrypt_loop ::
  "aead \<Rightarrow> (nat \<Rightarrow> string option) \<Rightarrow> (nat \<Rightarrow> bool) \<Rightarrow> string \<Rightarrow> string \<Rightarrow> nat \<Rightarrow> (string \<times> string) list \<Rightarrow> reports \<Rightarrow> report_error + reports" where
  "reencrypt_loop a rnd fails oldKey newKey n [] rows = Inr rows"
| "reencrypt_loop a rnd fails oldKey newKey n ((i, ciphertext) # reps) rows =
     (case DecryptWithSecret a oldKey ciphertext ''security-reports'' of
        None \<Rightarrow> Inl DecryptFailed
      | Some plain \<Rightarrow>
          (case EncryptWithSecret a (rnd n) newKey plain ''security-reports'' of
             None \<Rightarrow> Inl EncryptFailed
           | Some c \<Rightarrow>
               if fails n then Inl StatementFailed
               else reencrypt_loop a rnd fails oldKey newKey (Suc n) reps
                 (update_row i (\<lambda>r. r\<lparr>rr_encrypted_body := c\<rparr>) rows)))"

definition aes_reports :: "reports \<Rightarrow> (string \<times> string) list" where
  "aes_reports rows = map (\<lambda>(i, r). (i, rr_encrypted_body r)) (filter (\<lambda>(i, r). rr_encryption r = ''aes-256-gcm'') rows)"

definition ReencryptSecurityReportsTx ::
  "aead \<Rightarrow> (nat \<Rightarrow> string option) \<Rightarrow> (nat \<Rightarrow> bool) \<Rightarrow> bool \<Rightarrow> string \<Rightarrow> string \<Rightarrow> reports \<Rightarrow> report_error + reports" where
  "ReencryptSecurityReportsTx a rnd fails queryFails oldKey newKey rows =
     (if length oldKey \<noteq> 32 \<or> length newKey \<noteq> 32 then Inl InvalidRotation
      else if queryFails then Inl StatementFailed
      else reencrypt_loop a rnd fails oldKey newKey 0 (aes_reports rows) rows)"

text \<open>The transaction is rolled back unless it is committed.\<close>

definition ReencryptSecurityReports ::
  "aead \<Rightarrow> (nat \<Rightarrow> string option) \<Rightarrow> (nat \<Rightarrow> bool) \<Rightarrow> bool \<Rightarrow> bool \<Rightarrow> string \<Rightarrow> string \<Rightarrow> reports \<Rightarrow> (report_error + unit) \<times> reports" where
  "ReencryptSecurityReports a rnd fails queryFails commitFails oldKey newKey rows =
     (case ReencryptSecurityReportsTx a rnd fails queryFails oldKey newKey rows of
        Inl e \<Rightarrow> (Inl e, rows)
      | Inr rows' \<Rightarrow> if commitFails then (Inl StatementFailed, rows) else (Inr (), rows'))"

section \<open>Rows\<close>

lemma map_of_update_row: "map_of (update_row i f rows) k = (if k = i then map_option f (map_of rows k) else map_of rows k)"
  by (induction rows) (auto simp: update_row_def)

lemma keys_update_row [simp]: "map fst (update_row i f rows) = map fst rows"
  by (auto simp: update_row_def)

lemma stored_row:
  "StoreSecurityReport fails m (Some rows) = (Inr (), Some rows') \<Longrightarrow> map_of rows k = Some row \<Longrightarrow> map_of rows' k = Some row"
  by (auto simp: StoreSecurityReport_def split: if_splits)

lemma triaged_row:
  assumes "UpdateSecurityReportTriage fails i status c d now (Some rows) = (Inr (), Some rows')" "map_of rows k = Some row"
  shows "\<exists>row'. map_of rows' k = Some row' \<and> rr_token_hash row' = rr_token_hash row \<and> rr_last_access_day row' = rr_last_access_day row
    \<and> rr_encrypted_body row' = rr_encrypted_body row"
  using assms by (auto simp: UpdateSecurityReportTriage_def Let_def map_of_update_row split: if_splits)

section \<open>Concurrent access\<close>

text \<open>
  Clients between their two statements hold the identifier, the day and the token they
  presented; granted accesses are recorded with them.
\<close>

record access_system =
  sy_rows :: reports
  sy_pending :: "nat \<rightharpoonup> (string \<times> int \<times> string)"
  sy_granted :: "(string \<times> int \<times> string) list"

inductive access_step :: "(string \<Rightarrow> string) \<Rightarrow> access_system \<Rightarrow> access_system \<Rightarrow> bool" for sha256 where
  check: "check_access sha256 i token now (sy_rows s) = Inr st
     \<Longrightarrow> access_step sha256 s (s\<lparr>sy_pending := (sy_pending s)(c \<mapsto> (i, go_quot now 86400, token))\<rparr>)"
| grant: "sy_pending s c = Some (i, day, token) \<Longrightarrow> mark_access i day (sy_rows s) = (True, rows)
     \<Longrightarrow> access_step sha256 s (s\<lparr>sy_rows := rows, sy_pending := (sy_pending s)(c := None), sy_granted := (i, day, token) # sy_granted s\<rparr>)"
| refuse: "sy_pending s c = Some (i, day, token) \<Longrightarrow> mark_access i day (sy_rows s) = (False, rows)
     \<Longrightarrow> access_step sha256 s (s\<lparr>sy_pending := (sy_pending s)(c := None)\<rparr>)"
| store: "StoreSecurityReport False m (Some (sy_rows s)) = (Inr (), Some rows) \<Longrightarrow> access_step sha256 s (s\<lparr>sy_rows := rows\<rparr>)"
| triage: "UpdateSecurityReportTriage False i status comment d now (Some (sy_rows s)) = (Inr (), Some rows)
     \<Longrightarrow> access_step sha256 s (s\<lparr>sy_rows := rows\<rparr>)"

definition access_init :: "access_system \<Rightarrow> bool" where
  "access_init s \<longleftrightarrow> sy_pending s = Map.empty \<and> sy_granted s = []"

definition owns :: "(string \<Rightarrow> string) \<Rightarrow> reports \<Rightarrow> string \<Rightarrow> string \<Rightarrow> bool" where
  "owns sha256 rows i token \<longleftrightarrow> (\<exists>row. map_of rows i = Some row \<and> rr_token_hash row = hex_EncodeToString (sha256 token))"

definition used_on :: "reports \<Rightarrow> string \<Rightarrow> int \<Rightarrow> bool" where
  "used_on rows i day \<longleftrightarrow> (\<exists>row d. map_of rows i = Some row \<and> rr_last_access_day row = Some d \<and> day \<le> d)"

definition access_inv :: "(string \<Rightarrow> string) \<Rightarrow> access_system \<Rightarrow> bool" where
  "access_inv sha256 s \<longleftrightarrow>
     distinct (map (\<lambda>(i, day, _). (i, day)) (sy_granted s))
     \<and> (\<forall>(i, day, token) \<in> set (sy_granted s). owns sha256 (sy_rows s) i token \<and> used_on (sy_rows s) i day)
     \<and> (\<forall>c i day token. sy_pending s c = Some (i, day, token) \<longrightarrow> owns sha256 (sy_rows s) i token)"

definition keeps :: "reports \<Rightarrow> reports \<Rightarrow> bool" where
  "keeps rows rows' \<longleftrightarrow> (\<forall>k row. map_of rows k = Some row \<longrightarrow> (\<exists>row'. map_of rows' k = Some row' \<and> rr_token_hash row' = rr_token_hash row
     \<and> (\<forall>d. rr_last_access_day row = Some d \<longrightarrow> (\<exists>d'. rr_last_access_day row' = Some d' \<and> d \<le> d'))))"

lemma keeps_owns: "keeps rows rows' \<Longrightarrow> owns sha256 rows i token \<Longrightarrow> owns sha256 rows' i token"
  by (force simp: keeps_def owns_def)

lemma keeps_used: "keeps rows rows' \<Longrightarrow> used_on rows i day \<Longrightarrow> used_on rows' i day"
  by (force simp: keeps_def used_on_def)

lemma mark_keeps: "mark_access i day rows = (True, rows') \<Longrightarrow> keeps rows rows' \<and> used_on rows' i day \<and> \<not> used_on rows i day"
  by (auto simp: mark_access_def keeps_def used_on_def map_of_update_row split: option.splits if_splits)

lemma store_keeps: "StoreSecurityReport f m (Some rows) = (Inr (), Some rows') \<Longrightarrow> keeps rows rows'"
  using stored_row by (fastforce simp: keeps_def)

lemma triage_keeps: "UpdateSecurityReportTriage f i st c d now (Some rows) = (Inr (), Some rows') \<Longrightarrow> keeps rows rows'"
  using triaged_row by (fastforce simp: keeps_def)

lemma check_owns: "check_access sha256 i token now rows = Inr st \<Longrightarrow> owns sha256 rows i token"
  by (auto simp: check_access_def owns_def split: option.splits if_splits)

lemma inv_rows:
  assumes "access_inv sha256 s" "keeps (sy_rows s) rows"
  shows "access_inv sha256 (s\<lparr>sy_rows := rows\<rparr>)"
  using assms keeps_owns keeps_used by (fastforce simp: access_inv_def)

lemma access_inv_step: "access_step sha256 s t \<Longrightarrow> access_inv sha256 s \<Longrightarrow> access_inv sha256 t"
proof (induction rule: access_step.induct)
  case (check i token now s st c)
  then show ?case using check_owns by (fastforce simp: access_inv_def)
next
  case (grant s c i day token rows)
  note m = mark_keeps [OF grant(2)]
  from inv_rows [OF grant(3)] m have "access_inv sha256 (s\<lparr>sy_rows := rows\<rparr>)" by blast
  moreover have "(i, day) \<notin> set (map (\<lambda>(i, day, _). (i, day)) (sy_granted s))" using grant(3) m by (fastforce simp: access_inv_def)
  ultimately show ?case using grant(1) m by (auto simp: access_inv_def)
next
  case (refuse s c i day token rows)
  then show ?case by (auto simp: access_inv_def split: if_splits)
next
  case (store m s rows)
  then show ?case using inv_rows store_keeps by blast
next
  case (triage i status comment d now s rows)
  then show ?case using inv_rows triage_keeps by blast
qed

interpretation reporters: invariant_system access_init "access_step sha256" "access_inv sha256" for sha256
  by unfold_locales (simp add: access_init_def access_inv_def, rule access_inv_step)

text \<open>
  C19. A report can be read once a day by its owner: however the statements of concurrent requests,
  new submissions and triage updates interleave, no two accesses to one report are granted on
  the same day, and each was granted to a token whose hash is the one stored with the report.
\<close>

theorem token_once_a_day:
  assumes "reachable access_init (access_step sha256) s"
  shows "distinct (map (\<lambda>(i, day, _). (i, day)) (sy_granted s))
    \<and> (\<forall>(i, day, token) \<in> set (sy_granted s). owns sha256 (sy_rows s) i token)"
  using reporters.reachable_inv [OF assms] by (auto simp: access_inv_def)

theorem token_once_a_day_witness:
  "\<exists>s. reachable access_init (access_step (\<lambda>x. x)) s \<and> sy_granted s = [(''sec_1'', 1, ''t'')]
     \<and> (\<forall>(i, day, token) \<in> set (sy_granted s). owns (\<lambda>x. x) (sy_rows s) i token)"
proof -
  define m where "m = \<lparr>sm_TrackingID = ''sec_1'', sm_Ciphertext = ''c'', sm_Encryption = ''pgp'', sm_Severity = ''low'',
    sm_AffectedComponent = [], sm_CreditPreference = ''no'', sm_CreditName = [], sm_ShortCredit = [], sm_AccessTokenHash = hex_EncodeToString ''t''\<rparr>"
  define s0 where "s0 = \<lparr>sy_rows = [(''sec_1'', new_row m)], sy_pending = Map.empty, sy_granted = []\<rparr>"
  have day: "go_quot 86400 86400 = 1" by (simp add: go_quot_def)
  have 0: "reachable access_init (access_step (\<lambda>x. x)) s0" by (rule reachable.intros) (simp add: access_init_def s0_def)
  obtain st where st: "check_access (\<lambda>x. x) ''sec_1'' ''t'' 86400 (sy_rows s0) = Inr st"
    by (simp add: check_access_def s0_def new_row_def m_def)
  have "access_step (\<lambda>x. x) s0 (s0\<lparr>sy_pending := (sy_pending s0)(0 \<mapsto> (''sec_1'', go_quot 86400 86400, ''t''))\<rparr>)"
    by (rule access_step.check [OF st])
  from reach_step [OF 0, OF this]
  have 1: "reachable access_init (access_step (\<lambda>x. x)) (s0\<lparr>sy_pending := [0 \<mapsto> (''sec_1'', 1, ''t'')]\<rparr>)" (is "reachable _ _ ?s1")
    by (simp add: day s0_def)
  obtain rows where rows: "mark_access ''sec_1'' 1 (sy_rows ?s1) = (True, rows)"
    by (simp add: mark_access_def s0_def new_row_def)
  have "sy_pending ?s1 0 = Some (''sec_1'', 1, ''t'')" by simp
  note s = reach_step [OF 1, OF access_step.grant [OF this rows]]
  show ?thesis
  proof (intro exI conjI)
    show "sy_granted (?s1\<lparr>sy_rows := rows, sy_pending := (sy_pending ?s1)(0 := None),
        sy_granted := (''sec_1'', 1, ''t'') # sy_granted ?s1\<rparr>) = [(''sec_1'', 1, ''t'')]" by (simp add: s0_def)
  qed (use s token_once_a_day [OF s] in auto)
qed

section \<open>Reports after a rotation\<close>

text \<open>A report is carried over when it still opens, under the new key, to what it opened to before.\<close>

definition carried_over :: "aead \<Rightarrow> string \<Rightarrow> string \<Rightarrow> report_row \<Rightarrow> report_row \<Rightarrow> bool" where
  "carried_over a oldKey newKey row row' \<longleftrightarrow>
     (\<exists>c plain. row' = row\<lparr>rr_encrypted_body := c\<rparr> \<and> DecryptWithSecret a oldKey (rr_encrypted_body row) ''security-reports'' = Some plain
       \<and> DecryptWithSecret a newKey c ''security-reports'' = Some plain)"

lemma reencrypt_loop_keys: "reencrypt_loop a rnd fails oldKey newKey n reps rows = Inr rows' \<Longrightarrow> map fst rows' = map fst rows"
  by (induction reps arbitrary: n rows) (auto split: option.splits if_splits)

lemma reencrypt_loop_other:
  "reencrypt_loop a rnd fails oldKey newKey n reps rows = Inr rows' \<Longrightarrow> k \<notin> fst ` set reps \<Longrightarrow> map_of rows' k = map_of rows k"
  by (induction reps arbitrary: n rows) (auto simp: map_of_update_row split: option.splits if_splits)

lemma reencrypt_loop_each:
  assumes "opens_own a" "\<And>n. nonce_ok (rnd n)"
  shows "reencrypt_loop a rnd fails oldKey newKey n reps rows = Inr rows' \<Longrightarrow> distinct (map fst reps)
    \<Longrightarrow> (k, rr_encrypted_body row) \<in> set reps \<Longrightarrow> map_of rows k = Some row
    \<Longrightarrow> \<exists>row'. map_of rows' k = Some row' \<and> carried_over a oldKey newKey row row'"
proof (induction reps arbitrary: n rows)
  case (Cons p reps)
  obtain i c plain c' where p: "p = (i, c)" and plain: "DecryptWithSecret a oldKey c ''security-reports'' = Some plain"
    and c': "EncryptWithSecret a (rnd n) newKey plain ''security-reports'' = Some c'"
    and rest: "reencrypt_loop a rnd fails oldKey newKey (Suc n) reps (update_row i (\<lambda>r. r\<lparr>rr_encrypted_body := c'\<rparr>) rows) = Inr rows'"
    using Cons.prems(1) by (cases p) (auto split: option.splits if_splits)
  note opened = decrypt_encrypt [OF assms(1) assms(2) c']
  show ?case
  proof (cases "k = i")
    case True
    then have "map_of rows' k = Some (row\<lparr>rr_encrypted_body := c'\<rparr>)" "c = rr_encrypted_body row"
      using reencrypt_loop_other [OF rest, of k] Cons.prems p by (auto simp: map_of_update_row rev_image_eqI)
    with opened plain show ?thesis by (auto simp: carried_over_def)
  next
    case False
    then show ?thesis using Cons.IH [OF rest] Cons.prems p by (auto simp: map_of_update_row)
  qed
qed simp

lemma aes_reports_keys: "distinct (map fst rows) \<Longrightarrow> distinct (map fst (aes_reports rows))"
  by (induction rows) (auto simp: aes_reports_def image_iff)

lemma aes_reports_mem:
  "distinct (map fst rows) \<Longrightarrow> map_of rows k = Some row \<Longrightarrow>
    (if rr_encryption row = ''aes-256-gcm'' then (k, rr_encrypted_body row) \<in> set (aes_reports rows) else k \<notin> fst ` set (aes_reports rows))"
  by (auto simp: aes_reports_def image_iff dest: map_of_SomeD) (metis map_of_is_SomeI option.inject)

text \<open>
  C25. Rotating the report key loses nothing: when the re-encryption of the security reports succeeds,
  the same reports are there, each one encrypted with the key opens under the new key to exactly
  the text it had under the old one with all its other columns unchanged, and a report under PGP is
  untouched; when any step fails, the table is as it was.
\<close>

theorem reencrypt_readable:
  assumes "opens_own a" "\<And>n. nonce_ok (rnd n)" "distinct (map fst rows)"
    and "ReencryptSecurityReports a rnd fails queryFails commitFails oldKey newKey rows = (r, rows')"
  shows "(case r of
      Inl e \<Rightarrow> rows' = rows
    | Inr _ \<Rightarrow> map fst rows' = map fst rows \<and> (\<forall>k row. map_of rows k = Some row \<longrightarrow>
        (if rr_encryption row = ''aes-256-gcm'' then \<exists>row'. map_of rows' k = Some row' \<and> carried_over a oldKey newKey row row'
         else map_of rows' k = Some row)))"
proof (cases r)
  case (Inl e)
  then show ?thesis using assms(4) by (auto simp: ReencryptSecurityReports_def split: sum.splits if_splits)
next
  case (Inr u)
  then have loop: "reencrypt_loop a rnd fails oldKey newKey 0 (aes_reports rows) rows = Inr rows'"
    using assms(4) by (auto simp: ReencryptSecurityReports_def ReencryptSecurityReportsTx_def split: sum.splits if_splits)
  have "if rr_encryption row = ''aes-256-gcm'' then \<exists>row'. map_of rows' k = Some row' \<and> carried_over a oldKey newKey row row'
      else map_of rows' k = Some row" if "map_of rows k = Some row" for k row
    using aes_reports_mem [OF assms(3) that] reencrypt_loop_other [OF loop, of k]
      reencrypt_loop_each [OF assms(1,2) loop aes_reports_keys [OF assms(3)] _ that] that by (auto split: if_splits)
  with Inr reencrypt_loop_keys [OF loop] show ?thesis by simp
qed

text \<open>An instance of the sealed box: the text under its key, opened by comparing keys.\<close>

definition tagged_box :: aead where
  "tagged_box = \<lparr>ae_kdf = (\<lambda>s i. s), ae_seal = (\<lambda>k n p. k @ p), ae_open = (\<lambda>k n c. if take (length k) c = k then Some (drop (length k) c) else None)\<rparr>"

lemma tagged_box_opens: "opens_own tagged_box"
  by (simp add: opens_own_def tagged_box_def)

definition rotation_rows :: reports where
  "rotation_rows = [(''sec_1'', new_row \<lparr>sm_TrackingID = ''sec_1'', sm_Ciphertext = replicate 12 (CHR ''n'') @ replicate 32 (CHR ''o'') @ ''body'',
     sm_Encryption = ''aes-256-gcm'', sm_Severity = ''low'', sm_AffectedComponent = [], sm_CreditPreference = ''no'', sm_CreditName = [], sm_ShortCredit = [], sm_AccessTokenHash = []\<rparr>)]"

theorem reencrypt_readable_witness:
  "\<exists>rows' row'. ReencryptSecurityReports tagged_box (\<lambda>_. Some (replicate 12 (CHR ''m''))) (\<lambda>_. False) False False
      (replicate 32 (CHR ''o'')) (replicate 32 (CHR ''w'')) rotation_rows = (Inr (), rows')
    \<and> map_of rows' ''sec_1'' = Some row'
    \<and> carried_over tagged_box (replicate 32 (CHR ''o'')) (replicate 32 (CHR ''w'')) (snd (hd rotation_rows)) row'"
proof -
  let ?rnd = "\<lambda>_ :: nat. Some (replicate 12 (CHR ''m''))" and ?o = "replicate 32 (CHR ''o'')" and ?w = "replicate 32 (CHR ''w'')"
  have d: "DecryptWithSecret tagged_box ?o (rr_encrypted_body (snd (hd rotation_rows))) ''security-reports'' = Some ''body''"
    by (simp add: DecryptWithSecret_def tagged_box_def rotation_rows_def new_row_def nonce_size_def)
  have l: "aes_reports rotation_rows = [(''sec_1'', rr_encrypted_body (snd (hd rotation_rows)))]"
    by (simp add: aes_reports_def rotation_rows_def new_row_def)
  obtain rows' where rows: "ReencryptSecurityReports tagged_box ?rnd (\<lambda>_. False) False False ?o ?w rotation_rows = (Inr (), rows')"
    by (simp add: ReencryptSecurityReports_def ReencryptSecurityReportsTx_def l d EncryptWithSecret_def)
  have "opens_own tagged_box" by (rule tagged_box_opens)
  moreover have "nonce_ok (?rnd n)" for n by (simp add: nonce_ok_def nonce_size_def)
  moreover have "distinct (map fst rotation_rows)" "map_of rotation_rows ''sec_1'' = Some (snd (hd rotation_rows))"
    "rr_encryption (snd (hd rotation_rows)) = ''aes-256-gcm''" by (simp_all add: rotation_rows_def new_row_def)
  ultimately obtain row' where "map_of rows' ''sec_1'' = Some row'" "carried_over tagged_box ?o ?w (snd (hd rotation_rows)) row'"
    using reencrypt_readable [OF _ _ _ rows] by fastforce
  with rows show ?thesis by blast
qed

end
