(* ===== verification/Contact.thy ===== *)
theory Contact
  imports Preferences SecurityReports "HOL-Library.AList"
begin

text \<open>
  Contact roles and messages: the fall-back chains and webhook secrets of \<open>config/config.go\<close>, their delivery in
  \<open>notify/dispatch.go\<close> and \<open>notify/notify.go\<close>, and the contact form of \<open>server/handler/pages.go\<close> with its
  throttle and its arithmetic question. The seven webhook services have the same two settings each, so
  a set of webhooks is a function from the service to its address and secret. The random source, the
  keyed hash and the result of each delivery are arguments. Times are seconds.
\<close>

section \<open>Roles\<close>

datatype transport = Telegram | Discord | Slack | Mattermost | Pushover | Gotify | Generic

definition transports :: "transport list" where
  "transports = [Telegram, Discord, Slack, Mattermost, Pushover, Gotify, Generic]"

record WebhookTarget =
  wt_URL :: string
  wt_Secret :: string

type_synonym WebhooksConfig = "transport \<Rightarrow> WebhookTarget"

record ContactEntry =
  ce_Email :: string
  ce_Webhooks :: WebhooksConfig

record ContactConfig =
  co_Admin :: ContactEntry
  co_Security :: ContactEntry
  co_Abuse :: ContactEntry
  co_General :: ContactEntry

definition no_target :: WebhookTarget where
  "no_target = \<lparr>wt_URL = [], wt_Secret = []\<rparr>"

definition no_contact :: ContactEntry where
  "no_contact = \<lparr>ce_Email = [], ce_Webhooks = (\<lambda>_. no_target)\<rparr>"

text \<open>One round of the loop of \<open>resolveContactChain\<close>.\<close>

definition resolve_entry :: "ContactEntry \<Rightarrow> ContactEntry \<Rightarrow> ContactEntry" where
  "resolve_entry r e =
     \<lparr>ce_Email = (if ce_Email r = [] then ce_Email e else ce_Email r),
      ce_Webhooks = (\<lambda>t. if wt_URL (ce_Webhooks r t) = [] \<and> wt_URL (ce_Webhooks e t) \<noteq> [] then ce_Webhooks e t else ce_Webhooks r t)\<rparr>"

definition resolveContactChain :: "ContactEntry list \<Rightarrow> ContactEntry" where
  "resolveContactChain entries = foldl resolve_entry no_contact entries"

definition role_chain :: "ContactConfig \<Rightarrow> string \<Rightarrow> ContactEntry list" where
  "role_chain c role =
     (if role = ''admin'' then [co_Admin c]
      else if role = ''security'' then [co_Security c, co_Admin c]
      else if role = ''abuse'' then [co_Abuse c, co_General c, co_Admin c]
      else if role = ''general'' then [co_General c, co_Admin c]
      else [])"

definition ResolveContactRole :: "ContactConfig \<Rightarrow> string \<Rightarrow> ContactEntry" where
  "ResolveContactRole c role = resolveContactChain (role_chain c role)"

section \<open>Webhook secrets\<close>

text \<open>Thirty-two random bytes in hexadecimal; a failing random source ends the process.\<close>

definition generateWebhookSecret :: "string option \<Rightarrow> string option" where
  "generateWebhookSecret rnd = map_option hex_EncodeToString rnd"

text \<open>The loop over the pairs; \<open>n\<close> counts the secrets drawn so far. \<open>None\<close> is the panic.\<close>

fun ensure_loop :: "(nat \<Rightarrow> string option) \<Rightarrow> nat \<Rightarrow> transport list \<Rightarrow> WebhooksConfig \<Rightarrow> (WebhooksConfig \<times> nat) option" where
  "ensure_loop rnd n [] w = Some (w, n)"
| "ensure_loop rnd n (t # ts) w =
     (if wt_URL (w t) \<noteq> [] \<and> wt_Secret (w t) = []
      then (case generateWebhookSecret (rnd n) of
              None \<Rightarrow> None
            | Some s \<Rightarrow> ensure_loop rnd (Suc n) ts (w(t := (w t)\<lparr>wt_Secret := s\<rparr>)))
      else ensure_loop rnd n ts w)"

definition EnsureSecrets :: "(nat \<Rightarrow> string option) \<Rightarrow> nat \<Rightarrow> WebhooksConfig \<Rightarrow> (WebhooksConfig \<times> nat) option" where
  "EnsureSecrets rnd n w = ensure_loop rnd n transports w"

definition ensure_entry :: "(nat \<Rightarrow> string option) \<Rightarrow> nat \<Rightarrow> ContactEntry \<Rightarrow> (ContactEntry \<times> nat) option" where
  "ensure_entry rnd n e = map_option (\<lambda>(w, n). (e\<lparr>ce_Webhooks := w\<rparr>, n)) (EnsureSecrets rnd n (ce_Webhooks e))"

text \<open>The four roles in order; the flag says whether a secret was made.\<close>

definition EnsureContactWebhookSecrets :: "(nat \<Rightarrow> string option) \<Rightarrow> ContactConfig \<Rightarrow> (ContactConfig \<times> bool) option" where
  "EnsureContactWebhookSecrets rnd c =
     Option.bind (ensure_entry rnd 0 (co_Admin c)) (\<lambda>(a, n1).
     Option.bind (ensure_entry rnd n1 (co_Security c)) (\<lambda>(s, n2).
     Option.bind (ensure_entry rnd n2 (co_Abuse c)) (\<lambda>(ab, n3).
     Option.bind (ensure_entry rnd n3 (co_General c)) (\<lambda>(g, n4).
       Some (\<lparr>co_Admin = a, co_Security = s, co_Abuse = ab, co_General = g\<rparr>, 0 < n4)))))"

section \<open>Delivery\<close>

record Signing =
  sg_Secret :: string
  sg_WebhookID :: string
  sg_Event :: string
  sg_UserAgent :: string

record Notifier =
  nt_Transport :: transport
  nt_URL :: string
  nt_Signing :: Signing

definition applySigningHeaders :: "(string \<Rightarrow> string \<Rightarrow> string) \<Rightarrow> int \<Rightarrow> Signing \<Rightarrow> string \<Rightarrow> header \<Rightarrow> header" where
  "applySigningHeaders hmac now sp body h =
     (let h = Header_Set h ''X-Webhook-Signature'' (''sha256='' @ hex_EncodeToString (hmac (sg_Secret sp) body));
          h = Header_Set h ''X-Webhook-Timestamp'' (Itoa_int now);
          h = (if sg_WebhookID sp \<noteq> [] then Header_Set h ''X-Webhook-ID'' (sg_WebhookID sp) else h);
          h = (if sg_Event sp \<noteq> [] then Header_Set h ''X-Webhook-Event'' (sg_Event sp) else h) in
      if sg_UserAgent sp \<noteq> [] then Header_Set h ''User-Agent'' (sg_UserAgent sp) else h)"

definition unsigned :: Signing where
  "unsigned = \<lparr>sg_Secret = [], sg_WebhookID = [], sg_Event = [], sg_UserAgent = []\<rparr>"

text \<open>The headers of the request \<open>postBytes\<close> makes; a notifier without signing data sends it unsigned.\<close>

definition post_headers :: "(string \<Rightarrow> string \<Rightarrow> string) \<Rightarrow> int \<Rightarrow> string \<Rightarrow> Signing \<Rightarrow> string \<Rightarrow> header" where
  "post_headers hmac now contentType sp body =
     (let h = (if contentType \<noteq> [] then Header_Set [] ''Content-Type'' contentType else []) in
      if sp = unsigned then h else applySigningHeaders hmac now sp body h)"

definition backoffSchedule :: "int list" where
  "backoffSchedule = [60, 5 * 60, 15 * 60, 3600, 6 * 3600, 24 * 3600]"

text \<open>
  The retries of \<open>dispatchWithRetry\<close>: the times of the attempts, and whether the last one was
  accepted. \<open>accepts\<close> tells which attempts the receiver takes by their time; a send takes no time.
\<close>

fun retry_loop :: "(int \<Rightarrow> bool) \<Rightarrow> int \<Rightarrow> int list \<Rightarrow> int list \<times> bool" where
  "retry_loop accepts t [] = ([], False)"
| "retry_loop accepts t (d # ds) =
     (if accepts (t + d) then ([t + d], True)
      else (case retry_loop accepts (t + d) ds of (ts, ok) \<Rightarrow> ((t + d) # ts, ok)))"

definition logWebhookFailure :: "string \<Rightarrow> int \<Rightarrow> (string \<rightharpoonup> int) \<Rightarrow> bool \<times> (string \<rightharpoonup> int)" where
  "logWebhookFailure name now seen =
     (if (case seen name of None \<Rightarrow> False | Some t \<Rightarrow> now - t < 5 * 60) then (False, seen) else (True, seen(name \<mapsto> now)))"

definition dispatchWithRetry :: "(int \<Rightarrow> bool) \<Rightarrow> int \<Rightarrow> int list \<times> bool" where
  "dispatchWithRetry accepts t =
     (if accepts t then ([t], True) else (case retry_loop accepts t backoffSchedule of (ts, ok) \<Rightarrow> (t # ts, ok)))"

text \<open>The notifiers \<open>Dispatch\<close> starts, each with an identifier of its own from the package \<open>uuid\<close>.\<close>

definition Dispatch :: "(transport \<Rightarrow> string) \<Rightarrow> string \<Rightarrow> string \<Rightarrow> WebhooksConfig \<Rightarrow> Notifier list" where
  "Dispatch uuid event userAgent targets =
     map (\<lambda>t. \<lparr>nt_Transport = t, nt_URL = wt_URL (targets t),
        nt_Signing = \<lparr>sg_Secret = wt_Secret (targets t), sg_WebhookID = uuid t, sg_Event = event, sg_UserAgent = userAgent\<rparr>\<rparr>)
       (filter (\<lambda>t. wt_URL (targets t) \<noteq> []) transports)"

section \<open>Which entry answers for a role\<close>

lemma foldl_email:
  "ce_Email (foldl resolve_entry r es) = (if ce_Email r \<noteq> [] then ce_Email r
     else (case find (\<lambda>e. ce_Email e \<noteq> []) es of Some e \<Rightarrow> ce_Email e | None \<Rightarrow> []))"
  by (induction es arbitrary: r) (auto simp: resolve_entry_def)

lemma foldl_webhooks:
  "ce_Webhooks (foldl resolve_entry r es) t = (if wt_URL (ce_Webhooks r t) \<noteq> [] then ce_Webhooks r t
     else (case find (\<lambda>e. wt_URL (ce_Webhooks e t) \<noteq> []) es of Some e \<Rightarrow> ce_Webhooks e t | None \<Rightarrow> ce_Webhooks r t))"
  by (induction es arbitrary: r) (auto simp: resolve_entry_def split: option.splits)

text \<open>
  Each field of a contact role comes from the first entry of its chain that has it: the address, and for
  every service the webhook with its secret, always both from the same entry. A field nobody set
  is empty, and an unknown role has none.
\<close>

theorem contact_first_set:
  "ce_Email (ResolveContactRole c role) = (case find (\<lambda>e. ce_Email e \<noteq> []) (role_chain c role) of Some e \<Rightarrow> ce_Email e | None \<Rightarrow> [])
   \<and> ce_Webhooks (ResolveContactRole c role) t
       = (case find (\<lambda>e. wt_URL (ce_Webhooks e t) \<noteq> []) (role_chain c role) of Some e \<Rightarrow> ce_Webhooks e t | None \<Rightarrow> no_target)"
  by (simp add: ResolveContactRole_def resolveContactChain_def foldl_email foldl_webhooks no_contact_def no_target_def split: option.splits)

section \<open>Signed deliveries\<close>

definition draws :: "(nat \<Rightarrow> string option) \<Rightarrow> bool" where
  "draws rnd \<longleftrightarrow> (\<forall>n s. rnd n = Some s \<longrightarrow> s \<noteq> [])"

text \<open>What ensuring the secrets does to one service.\<close>

definition secured :: "WebhookTarget \<Rightarrow> WebhookTarget \<Rightarrow> bool" where
  "secured x y \<longleftrightarrow> wt_URL y = wt_URL x \<and> (wt_Secret x \<noteq> [] \<or> wt_URL x = [] \<longrightarrow> y = x) \<and> (wt_URL x \<noteq> [] \<longrightarrow> wt_Secret y \<noteq> [])"

lemma hex_not_Nil: "s \<noteq> [] \<Longrightarrow> hex_EncodeToString s \<noteq> []"
  by (metis length_hex length_0_conv mult_eq_0_iff zero_neq_numeral)

lemma ensure_loop_secured:
  assumes "draws rnd"
  shows "ensure_loop rnd n ts w = Some (w', n') \<Longrightarrow> distinct ts \<Longrightarrow> (t \<in> set ts \<longrightarrow> secured (w t) (w' t)) \<and> (t \<notin> set ts \<longrightarrow> w' t = w t)"
proof (induction ts arbitrary: n w)
  case (Cons x ts)
  show ?case
  proof (cases "wt_URL (w x) \<noteq> [] \<and> wt_Secret (w x) = []")
    case True
    then obtain s where s: "rnd n = Some s" "ensure_loop rnd (Suc n) ts (w(x := (w x)\<lparr>wt_Secret := hex_EncodeToString s\<rparr>)) = Some (w', n')"
      using Cons.prems(1) by (auto simp: generateWebhookSecret_def split: option.splits)
    moreover have "hex_EncodeToString s \<noteq> []" using assms s(1) hex_not_Nil by (auto simp: draws_def)
    ultimately show ?thesis using Cons.IH [OF s(2)] Cons.prems(2) True by (auto simp: secured_def split: if_splits)
  next
    case False
    with Cons.prems(1) have "ensure_loop rnd n ts w = Some (w', n')" by simp
    from Cons.IH [OF this] show ?thesis using Cons.prems(2) False by (auto simp: secured_def)
  qed
qed simp

lemma transports_all: "t \<in> set transports" "distinct transports"
  by (cases t) (simp_all add: transports_def)

lemma ensure_entry_secured:
  "draws rnd \<Longrightarrow> ensure_entry rnd n e = Some (e', n') \<Longrightarrow> ce_Email e' = ce_Email e \<and> secured (ce_Webhooks e t) (ce_Webhooks e' t)"
  using ensure_loop_secured [of rnd n transports "ce_Webhooks e" _ n' t] transports_all
  by (auto simp: ensure_entry_def EnsureSecrets_def)

lemma ensured_chain:
  assumes "draws rnd" "EnsureContactWebhookSecrets rnd c = Some (c', made)" "e \<in> set (role_chain c' role)" "wt_URL (ce_Webhooks e t) \<noteq> []"
  shows "wt_Secret (ce_Webhooks e t) \<noteq> []"
  using assms ensure_entry_secured [OF assms(1), of _ _ _ _ t]
  by (fastforce simp: EnsureContactWebhookSecrets_def role_chain_def secured_def bind_eq_Some_conv split: if_splits)

lemma signature_header:
  "sp \<noteq> unsigned \<Longrightarrow> Header_Get (post_headers hmac now ct sp body) ''X-Webhook-Signature'' = ''sha256='' @ hex_EncodeToString (hmac (sg_Secret sp) body)"
  by (auto simp: post_headers_def applySigningHeaders_def Let_def Header_Get_Set_other EqualFold_def str_simps)



section \<open>Retries\<close>

text \<open>The times of all attempts of a delivery that starts at \<open>t\<close>.\<close>

fun retry_times :: "int \<Rightarrow> int list \<Rightarrow> int list" where
  "retry_times t [] = []"
| "retry_times t (d # ds) = (t + d) # retry_times (t + d) ds"

definition attempt_times :: "int \<Rightarrow> int list" where
  "attempt_times t = t # retry_times t backoffSchedule"

text \<open>What a list of possible times comes to: the attempts up to the first one that is accepted.\<close>

fun until_accepted :: "(int \<Rightarrow> bool) \<Rightarrow> int list \<Rightarrow> int list \<times> bool" where
  "until_accepted accepts [] = ([], False)"
| "until_accepted accepts (t # ts) =
     (if accepts t then ([t], True) else (case until_accepted accepts ts of (us, ok) \<Rightarrow> (t # us, ok)))"

lemma retry_loop_until: "retry_loop accepts t ds = until_accepted accepts (retry_times t ds)"
  by (induction ds arbitrary: t) (auto split: prod.splits)

lemma until_accepted_split:
  "until_accepted accepts ts = (us, ok) \<Longrightarrow>
     if \<exists>t \<in> set ts. accepts t then ok \<and> (\<exists>pre t post. ts = pre @ t # post \<and> us = pre @ [t] \<and> accepts t \<and> (\<forall>x \<in> set pre. \<not> accepts x))
     else \<not> ok \<and> us = ts"
proof (induction ts arbitrary: us)
  case (Cons t ts)
  show ?case
  proof (cases "accepts t")
    case True
    then show ?thesis using Cons.prems by (auto intro!: exI [of _ "[]"])
  next
    case False
    then obtain vs where "until_accepted accepts ts = (vs, ok)" "us = t # vs" using Cons.prems by (auto split: prod.splits)
    then show ?thesis using Cons.IH [of vs] False by (auto split: if_splits)
  qed
qed simp

text \<open>
  C29. A message reaches a receiver that comes back: it is sent at once and after one minute, five, fifteen, an hour,
  six hours and a day of further waiting, until it is accepted. If the receiver accepts at any of these seven
  times the message is delivered at the first of them, once and never again; if it accepts at none, exactly
  these seven attempts are made.
\<close>

theorem delivery_retried:
  assumes "dispatchWithRetry accepts t = (attempts, delivered)"
  shows "attempt_times t = [t, t + 60, t + 360, t + 1260, t + 4860, t + 26460, t + 112860]
    \<and> (if \<exists>x \<in> set (attempt_times t). accepts x
       then delivered \<and> (\<exists>pre x post. attempt_times t = pre @ x # post \<and> attempts = pre @ [x] \<and> accepts x \<and> (\<forall>y \<in> set pre. \<not> accepts y))
       else \<not> delivered \<and> attempts = attempt_times t)"
proof
  have "dispatchWithRetry accepts t = until_accepted accepts (attempt_times t)"
    by (simp add: dispatchWithRetry_def attempt_times_def retry_loop_until)
  then show "if \<exists>x \<in> set (attempt_times t). accepts x
       then delivered \<and> (\<exists>pre x post. attempt_times t = pre @ x # post \<and> attempts = pre @ [x] \<and> accepts x \<and> (\<forall>y \<in> set pre. \<not> accepts y))
       else \<not> delivered \<and> attempts = attempt_times t"
    using assms until_accepted_split by metis
qed (simp add: attempt_times_def backoffSchedule_def)

theorem delivery_retried_witness:
  "dispatchWithRetry (\<lambda>x. 100 < x) 0 = ([0, 60, 360], True) \<and> attempt_times 0 = [0, 60, 360, 1260, 4860, 26460, 112860]"
proof -
  have "dispatchWithRetry (\<lambda>x. 100 < x) 0 = ([0, 60, 360], True)" by (simp add: dispatchWithRetry_def backoffSchedule_def)
  moreover from delivery_retried [OF this, THEN conjunct1] have "attempt_times 0 = [0, 60, 360, 1260, 4860, 26460, 112860]" by simp
  ultimately show ?thesis ..
qed

section \<open>The contact throttle\<close>

definition contactThrottleWindow :: int where
  "contactThrottleWindow = 60"

definition contactThrottleMaxEntries :: nat where
  "contactThrottleMaxEntries = 4096"

definition allowContactSubmission :: "int \<Rightarrow> string \<Rightarrow> (string \<times> int) list \<Rightarrow> bool \<times> (string \<times> int) list" where
  "allowContactSubmission now ip seen =
     (if (case map_of seen ip of None \<Rightarrow> False | Some t \<Rightarrow> now - t < contactThrottleWindow) then (False, seen)
      else let seen = (if contactThrottleMaxEntries \<le> length seen then filter (\<lambda>(k, t). now - t < contactThrottleWindow) seen else seen) in
        (True, AList.update ip now seen))"

fun submissions :: "(string \<times> int) list \<Rightarrow> (int \<times> string) list \<Rightarrow> (int \<times> string) list" where
  "submissions seen [] = []"
| "submissions seen ((now, ip) # reqs) =
     (case allowContactSubmission now ip seen of (ok, seen) \<Rightarrow> (if ok then [(now, ip)] else []) @ submissions seen reqs)"

lemma map_of_filter_keep: "map_of xs k = Some v \<Longrightarrow> P (k, v) \<Longrightarrow> map_of (filter P xs) k = Some v"
  by (induction xs) (auto split: if_splits)

lemma allow_cases:
  assumes "allowContactSubmission now ip seen = (ok, seen')"
  shows "ok \<Longrightarrow> map_of seen' ip = Some now" "\<not> ok \<Longrightarrow> seen' = seen"
    "ok \<Longrightarrow> map_of seen ip = Some t \<Longrightarrow> contactThrottleWindow \<le> now - t"
    "i \<noteq> ip \<Longrightarrow> map_of seen i = Some t \<Longrightarrow> map_of seen' i = Some t \<or> contactThrottleWindow \<le> now - t"
  using assms map_of_filter_keep [of seen i t "\<lambda>(k, t). now - t < contactThrottleWindow"]
  by (auto simp: allowContactSubmission_def Let_def update_conv not_less split: if_splits option.splits)

lemma submission_times: "sorted (map fst reqs) \<Longrightarrow> (t, i) \<in> set (submissions seen reqs) \<Longrightarrow> t \<in> set (map fst reqs)"
  by (induction reqs arbitrary: seen) (force split: prod.splits if_splits)+

lemma submissions_spaced:
  "sorted (map fst reqs) \<Longrightarrow>
     sorted_wrt (\<lambda>(t, i) (t', i'). i = i' \<longrightarrow> contactThrottleWindow \<le> t' - t) (submissions seen reqs)
     \<and> (\<forall>(t', i) \<in> set (submissions seen reqs). \<forall>t. map_of seen i = Some t \<longrightarrow> contactThrottleWindow \<le> t' - t)"
proof (induction reqs arbitrary: seen)
  case (Cons r reqs)
  obtain now ip where r: "r = (now, ip)" by fastforce
  obtain ok seen' where a: "allowContactSubmission now ip seen = (ok, seen')" by fastforce
  note ih = Cons.IH [of seen'] and c = allow_cases [OF a]
  have later: "now \<le> t" if "(t, i) \<in> set (submissions seen' reqs)" for t i
    using submission_times [of reqs t i seen'] that Cons.prems r by auto
  have old: "contactThrottleWindow \<le> t' - t" if "(t', i) \<in> set (submissions seen' reqs)" "map_of seen i = Some t" for t t' i
  proof (cases "ok \<and> i = ip")
    case True
    then show ?thesis using c(3) [of t] later [OF that(1)] that(2) by fastforce
  next
    case False
    then have "map_of seen' i = Some t \<or> contactThrottleWindow \<le> now - t" using c(2,4) that(2) by (cases ok) auto
    then show ?thesis using ih Cons.prems that(1) later [OF that(1)] by fastforce
  qed
  have hd: "contactThrottleWindow \<le> t' - now" if "ok" "(t', ip) \<in> set (submissions seen' reqs)" for t'
    using ih Cons.prems c(1) that by fastforce
  show ?case using ih Cons.prems r a c(3) old hd by (auto split: if_splits)
qed simp

text \<open>
  Whatever the order of requests, accepted submissions of one address are at least a minute apart.
\<close>

theorem contact_spacing:
  assumes "sorted (map fst reqs)" "submissions [] reqs = xs @ (t, ip) # ys @ (t', ip) # zs"
  shows "60 \<le> t' - t"
  using submissions_spaced [OF assms(1), of "[]"] assms(2) by (auto simp: sorted_wrt_append contactThrottleWindow_def)

text \<open>
  The size of the table is not bounded by the limit of the source: as long as no entry has expired the sweep removes
  nothing, so requests from different addresses within a minute are all remembered.
\<close>

lemma throttle_grows:
  assumes "distinct (map fst seen)" "\<forall>(k, t) \<in> set seen. t = now" "ip \<notin> fst ` set seen"
  shows "snd (allowContactSubmission now ip seen) = seen @ [(ip, now)]"
proof -
  have "map_of seen ip = None" using assms(3) by (simp add: map_of_eq_None_iff)
  moreover have "filter (\<lambda>(k, t). now - t < contactThrottleWindow) seen = seen"
    using assms(2) by (auto simp: filter_id_conv contactThrottleWindow_def)
  moreover have "AList.update ip now seen = seen @ [(ip, now)]"
    using assms(3) by (induction seen) auto
  ultimately show ?thesis by (simp add: allowContactSubmission_def)
qed

section \<open>The arithmetic question\<close>

definition SecretCSRFTokenSecret :: string where
  "SecretCSRFTokenSecret = ''csrf_token_secret''"

record simpleCaptchaPayload =
  cp_Answer :: string
  cp_Expires :: int
  cp_Nonce :: string

text \<open>\<open>json.Marshal\<close> of the payload, whose two texts are digits and base 64 letters. \<open>json.Unmarshal\<close> is an argument.\<close>

definition captcha_json :: "simpleCaptchaPayload \<Rightarrow> string" where
  "captcha_json p =
     ''{'' @ quoted ''answer'' @ '':'' @ quoted (cp_Answer p) @ '','' @ quoted ''expires'' @ '':'' @ Itoa_int (cp_Expires p) @ '',''
     @ quoted ''nonce'' @ '':'' @ quoted (cp_Nonce p) @ ''}''"

text \<open>What both functions use: the sealed box, the decoder, the outcome of database statements and of random draws.\<close>

record captcha_env =
  cv_Box :: aead
  cv_Unmarshal :: "string \<Rightarrow> simpleCaptchaPayload option"
  cv_Fails :: "nat \<Rightarrow> bool"
  cv_Secret :: "string option"

definition captcha_payload :: "nat \<Rightarrow> nat \<Rightarrow> string \<Rightarrow> int \<Rightarrow> simpleCaptchaPayload" where
  "captcha_payload first second nonce now =
     \<lparr>cp_Answer = Itoa (first + second), cp_Expires = now + 20 * 60, cp_Nonce = RawURLEncoding_Encode nonce\<rparr>"

text \<open>The question with its token, or nothing; the draws are the two numbers, the nonce and the nonce of the box.\<close>

definition newSimpleCaptcha ::
  "captcha_env \<Rightarrow> nat option \<Rightarrow> nat option \<Rightarrow> string option \<Rightarrow> string option \<Rightarrow> int \<Rightarrow> secrets option \<Rightarrow> (string \<times> string) option \<times> secrets option" where
  "newSimpleCaptcha e first second nonce boxNonce now db =
     (case (db, first, second, nonce) of
        (Some secs, Some a, Some b, Some n) \<Rightarrow>
          (case GetOrCreateSecret (cv_Fails e) (cv_Secret e) now SecretCSRFTokenSecret secs of
             (Inl _, secs) \<Rightarrow> (None, Some secs)
           | (Inr secret, secs) \<Rightarrow>
               (map_option (\<lambda>sealed. (''What is '' @ Itoa a @ '' + '' @ Itoa b @ ''?'', RawURLEncoding_Encode sealed))
                  (EncryptWithSecret (cv_Box e) boxNonce secret (captcha_json (captcha_payload a b n now)) ''contact-captcha''), Some secs))
      | _ \<Rightarrow> (None, db))"

definition verifySimpleCaptcha :: "captcha_env \<Rightarrow> string \<Rightarrow> string \<Rightarrow> int \<Rightarrow> secrets option \<Rightarrow> bool \<times> secrets option" where
  "verifySimpleCaptcha e token answer now db =
     (case db of
        None \<Rightarrow> (False, db)
      | Some secs \<Rightarrow>
          if token = [] \<or> TrimSpace answer = [] then (False, db)
          else case RawURLEncoding_Decode token of
            None \<Rightarrow> (False, db)
          | Some sealed \<Rightarrow>
              (case GetOrCreateSecret (cv_Fails e) (cv_Secret e) now SecretCSRFTokenSecret secs of
                 (Inl _, secs) \<Rightarrow> (False, Some secs)
               | (Inr secret, secs) \<Rightarrow>
                   (case Option.bind (DecryptWithSecret (cv_Box e) secret sealed ''contact-captcha'') (cv_Unmarshal e) of
                      None \<Rightarrow> False
                    | Some p \<Rightarrow> \<not> (cp_Expires p < now \<or> cp_Nonce p = []) \<and> TrimSpace answer = cp_Answer p, Some secs)))"

lemma secret_stays:
  assumes "GetOrCreateSecret fails rnd now name db = (Inr secret, db')"
  shows "GetOrCreateSecret fails' rnd' now' name db' = (if fails' 0 then Inl QueryFailed else Inr secret, db')"
  using assms by (auto simp: GetOrCreateSecret_def insert_secret_def reload_secret_def Let_def split: if_splits option.splits)

text \<open>
  The question of the contact form can be answered for twenty minutes: a token that was handed out is
  accepted with the sum of its two numbers until then and not after, and with no other answer, provided the decoder
  reads back what was written and the box opens what it sealed.
\<close>

theorem captcha_answered:
  assumes "newSimpleCaptcha e (Some a) (Some b) (Some n) boxNonce t (Some secs) = (Some (question, token), Some secs')"
    and "opens_own (cv_Box e)" "nonce_ok boxNonce" "n \<noteq> []" "\<not> cv_Fails e 0"
    and "cv_Unmarshal e (captcha_json (captcha_payload a b n t)) = Some (captcha_payload a b n t)"
  shows "fst (verifySimpleCaptcha e token answer t' (Some secs')) \<longleftrightarrow> TrimSpace answer = Itoa (a + b) \<and> t' \<le> t + 20 * 60"
proof -
  obtain secret sealed where s: "GetOrCreateSecret (cv_Fails e) (cv_Secret e) t SecretCSRFTokenSecret secs = (Inr secret, secs')"
    and c: "EncryptWithSecret (cv_Box e) boxNonce secret (captcha_json (captcha_payload a b n t)) ''contact-captcha'' = Some sealed"
    and t: "token = RawURLEncoding_Encode sealed"
    using assms(1) by (auto simp: newSimpleCaptcha_def split: sum.splits prod.splits)
  have d: "DecryptWithSecret (cv_Box e) secret sealed ''contact-captcha'' = Some (captcha_json (captcha_payload a b n t))"
    by (rule decrypt_encrypt [OF assms(2,3) c])
  have g: "GetOrCreateSecret (cv_Fails e) (cv_Secret e) t' SecretCSRFTokenSecret secs' = (Inr secret, secs')"
    using secret_stays [OF s] assms(5) by simp
  have x: "length sealed \<ge> 12" using c assms(3) by (auto simp: EncryptWithSecret_def nonce_ok_def nonce_size_def split: option.splits)
  then have "token \<noteq> []" unfolding t by (auto simp: length_encode_bits dest!: arg_cong [of _ _ length])
  moreover have "cp_Nonce (captcha_payload a b n t) \<noteq> []"
    using assms(4) length_encode_bits [of 6 base64url_letters n] by (cases n) (auto simp: captcha_payload_def)
  ultimately show ?thesis using d g assms(6) Itoa_not_Nil [of "a + b"] Itoa_not_Nil [of "a + b", THEN not_sym]
    by (auto simp: verifySimpleCaptcha_def t RawURL_roundtrip captcha_payload_def)
qed

definition sample_captcha :: captcha_env where
  "sample_captcha = \<lparr>cv_Box = tagged_box, cv_Unmarshal = (\<lambda>_. Some (captcha_payload 3 4 ''n'' 100)), cv_Fails = (\<lambda>_. False),
     cv_Secret = Some (replicate 32 (CHR ''k''))\<rparr>"

theorem captcha_answered_witness:
  "\<exists>question token db. newSimpleCaptcha sample_captcha (Some 3) (Some 4) (Some ''n'') (Some (replicate 12 (CHR ''m''))) 100 (Some Map.empty)
       = (Some (question, token), Some db)
     \<and> fst (verifySimpleCaptcha sample_captcha token ''7'' 200 (Some db)) \<and> \<not> fst (verifySimpleCaptcha sample_captcha token ''8'' 200 (Some db))"
proof -
  let ?n = "Some (replicate 12 (CHR ''m''))"
  obtain question token db where q: "newSimpleCaptcha sample_captcha (Some 3) (Some 4) (Some ''n'') ?n 100 (Some Map.empty) = (Some (question, token), Some db)"
    by (simp add: newSimpleCaptcha_def sample_captcha_def GetOrCreateSecret_def insert_secret_def reload_secret_def EncryptWithSecret_def decode_value_def Std_roundtrip)
  have "fst (verifySimpleCaptcha sample_captcha token answer 200 (Some db)) \<longleftrightarrow> TrimSpace answer = Itoa (3 + 4) \<and> (200 :: int) \<le> 100 + 20 * 60" for answer
    by (rule captcha_answered [OF q]) (simp_all add: sample_captcha_def tagged_box_opens nonce_ok_def nonce_size_def)
  moreover have "Itoa 7 = ''7''" by code_simp
  ultimately show ?thesis using q by (simp add: str_simps)
qed

text \<open>Nothing marks a question as answered: the same token and answer are accepted again until it expires.\<close>

lemma captcha_reusable: "fst (verifySimpleCaptcha e token answer t (Some secs)) \<Longrightarrow> t' \<le> t \<Longrightarrow> \<not> cv_Fails e 0 \<Longrightarrow>
   fst (verifySimpleCaptcha e token answer t' (snd (verifySimpleCaptcha e token answer t (Some secs))))"
  by (auto simp: verifySimpleCaptcha_def secret_stays split: option.splits sum.splits prod.splits if_splits)

end
