(* ===== verification/RemoteFetch.thy ===== *)
theory RemoteFetch
  imports GoUrl
begin

text \<open>
  File \<open>common/urlutil/fetch.go\<close>: fetching a remote image without letting the address of the image
  reach the inside of the network. What the network answers is an argument and may differ from one
  question to the next, so a name can resolve to another address between the check and the
  connection. The HTTP client follows redirects as \<open>net/http\<close> does: it dials, reads a response, and
  asks \<open>CheckRedirect\<close> before it goes on to the next address.
\<close>

record FetchRemoteImageConfig =
  ft_MaxSize :: int
  ft_AllowedTypes :: "string list"
  ft_AllowedSchemes :: "string list"

definition DefaultFetchRemoteImageConfig :: FetchRemoteImageConfig where
  "DefaultFetchRemoteImageConfig =
     \<lparr>ft_MaxSize = 10 * 1024 * 1024,
      ft_AllowedTypes = [''image/png'', ''image/jpeg'', ''image/gif'', ''image/webp'', ''image/x-icon''],
      ft_AllowedSchemes = [''https'']\<rparr>"

datatype fetch_error = InvalidURL | SchemeNotAllowed | LocalhostURL | InternalHostname | LookupFailed | PrivateAddress
| BadDialAddress | DialFailed | TooManyRedirects | BadStatus nat | TypeNotAllowed | ReadFailed | BodyTooLarge

definition isBlockedFetchIP :: "ip \<Rightarrow> bool" where
  "isBlockedFetchIP ip \<longleftrightarrow>
     IsPrivate ip \<or> IsLoopback ip \<or> IsLinkLocalUnicast ip \<or> IsLinkLocalMulticast ip \<or> IsUnspecified ip \<or> IsMulticast ip
     \<or> IsInterfaceLocalMulticast ip"

definition validateNotPrivateIPWithLookup :: "string \<Rightarrow> (string \<Rightarrow> ip list option) \<Rightarrow> fetch_error option" where
  "validateNotPrivateIPWithLookup hostname lookupIP =
     (case lookupIP hostname of
        None \<Rightarrow> Some LookupFailed
      | Some ips \<Rightarrow> if list_ex isBlockedFetchIP ips then Some PrivateAddress else None)"

definition ValidateRemoteURL :: "host_parser \<Rightarrow> (string \<Rightarrow> ip list option) \<Rightarrow> string \<Rightarrow> FetchRemoteImageConfig \<Rightarrow> fetch_error option" where
  "ValidateRemoteURL ph lookupIP rawURL cfg =
     (case url_Parse ph rawURL of
        None \<Rightarrow> Some InvalidURL
      | Some u \<Rightarrow>
          if \<not> list_ex (\<lambda>s. EqualFold (u_Scheme u) s) (ft_AllowedSchemes cfg) then Some SchemeNotAllowed
          else let hostname = ToLower (Hostname u) in
            if hostname \<in> set [''localhost'', ''127.0.0.1'', ''::1'', ''0.0.0.0'', ''::''] then Some LocalhostURL
            else if HasSuffix hostname ''.local'' \<or> HasSuffix hostname ''.internal'' then Some InternalHostname
            else validateNotPrivateIPWithLookup hostname lookupIP)"

section \<open>The client\<close>

text \<open>
  What the network does for the request with number \<open>n\<close>: the answer to a lookup, the address the client
  dials for a URL, the remote address of the connection that the dialer opens, and the response. A
  response carries its status, the address of a redirect, its content type and its body, whose
  reading may fail.
\<close>

record http_answer =
  an_Status :: nat
  an_Redirect :: "string option"
  an_Type :: string
  an_Body :: "string option"

record network =
  nw_Lookup :: "nat \<Rightarrow> string \<Rightarrow> ip list option"
  nw_Addr :: "string \<Rightarrow> string"
  nw_Dial :: "nat \<Rightarrow> string \<Rightarrow> string option"
  nw_Respond :: "nat \<Rightarrow> string \<Rightarrow> http_answer option"

definition blocked_host :: "string \<Rightarrow> bool" where
  "blocked_host host = (case ParseIP host of None \<Rightarrow> False | Some ip \<Rightarrow> isBlockedFetchIP ip)"

text \<open>The \<open>DialContext\<close> of the transport; it gives the remote address of the connection.\<close>

definition dial_checked :: "network \<Rightarrow> nat \<Rightarrow> string \<Rightarrow> fetch_error + string" where
  "dial_checked w n addr =
     (case SplitHostPort addr of
        None \<Rightarrow> Inl BadDialAddress
      | Some (host, port) \<Rightarrow>
          if blocked_host host then Inl PrivateAddress
          else case nw_Dial w n addr of
            None \<Rightarrow> Inl DialFailed
          | Some remote \<Rightarrow>
              (case SplitHostPort remote of
                 None \<Rightarrow> Inr remote
               | Some (rhost, rport) \<Rightarrow> if blocked_host rhost then Inl PrivateAddress else Inr remote))"

definition CheckRedirect :: "host_parser \<Rightarrow> network \<Rightarrow> FetchRemoteImageConfig \<Rightarrow> string \<Rightarrow> nat \<Rightarrow> fetch_error option" where
  "CheckRedirect ph w cfg target via =
     (case ValidateRemoteURL ph (nw_Lookup w via) target cfg of
        Some e \<Rightarrow> Some e
      | None \<Rightarrow> if 5 \<le> via then Some TooManyRedirects else None)"

definition is_redirect :: "nat \<Rightarrow> bool" where
  "is_redirect status \<longleftrightarrow> status \<in> set [301, 302, 303, 307, 308]"

text \<open>
  \<open>client.Do\<close>: \<open>via\<close> requests were made before this one. The last component is the addresses and
  connections used, in order. A redirect without an address to go to is the response itself. The
  number of requests left bounds the recursion; the redirect limit of the source ends it sooner.
\<close>

fun client_Do :: "host_parser \<Rightarrow> network \<Rightarrow> FetchRemoteImageConfig \<Rightarrow> nat \<Rightarrow> nat \<Rightarrow> string \<Rightarrow> (fetch_error + http_answer) \<times> (string \<times> string) list" where
  "client_Do ph w cfg 0 via target = (Inl TooManyRedirects, [])"
| "client_Do ph w cfg (Suc left) via target =
     (case dial_checked w via (nw_Addr w target) of
        Inl e \<Rightarrow> (Inl e, [])
      | Inr remote \<Rightarrow>
          (case nw_Respond w via target of
             None \<Rightarrow> (Inl DialFailed, [(target, remote)])
           | Some a \<Rightarrow>
               (case (if is_redirect (an_Status a) then an_Redirect a else None) of
                  None \<Rightarrow> (Inr a, [(target, remote)])
                | Some nxt \<Rightarrow>
                    (case CheckRedirect ph w cfg nxt (Suc via) of
                       Some e \<Rightarrow> (Inl e, [(target, remote)])
                     | None \<Rightarrow> (case client_Do ph w cfg left (Suc via) nxt of (r, hops) \<Rightarrow> (r, (target, remote) # hops))))))"

definition FetchRemoteImage ::
  "host_parser \<Rightarrow> network \<Rightarrow> string \<Rightarrow> FetchRemoteImageConfig \<Rightarrow> (fetch_error + string \<times> string) \<times> (string \<times> string) list" where
  "FetchRemoteImage ph w rawURL cfg =
     (case ValidateRemoteURL ph (nw_Lookup w 0) rawURL cfg of
        Some e \<Rightarrow> (Inl e, [])
      | None \<Rightarrow>
          (case client_Do ph w cfg 6 0 rawURL of
             (Inl e, hops) \<Rightarrow> (Inl e, hops)
           | (Inr a, hops) \<Rightarrow>
               (if an_Status a \<noteq> 200 then Inl (BadStatus (an_Status a))
                else if \<not> list_ex (\<lambda>t. HasPrefix (an_Type a) t) (ft_AllowedTypes cfg) then Inl TypeNotAllowed
                else case an_Body a of
                  None \<Rightarrow> Inl ReadFailed
                | Some body \<Rightarrow>
                    (let data = take (nat (ft_MaxSize cfg + 1)) body in
                     if ft_MaxSize cfg < int (length data) then Inl BodyTooLarge else Inr (data, an_Type a)),
                hops)))"

section \<open>Where a fetch goes\<close>

text \<open>A URL that passed the check, and a connection that passed the dialer.\<close>

definition outside_url :: "host_parser \<Rightarrow> FetchRemoteImageConfig \<Rightarrow> string \<Rightarrow> bool" where
  "outside_url ph cfg target \<longleftrightarrow>
     (\<exists>u. url_Parse ph target = Some u \<and> (\<exists>s \<in> set (ft_AllowedSchemes cfg). EqualFold (u_Scheme u) s)
        \<and> ToLower (Hostname u) \<notin> {''localhost'', ''127.0.0.1'', ''::1'', ''0.0.0.0'', ''::''}
        \<and> \<not> HasSuffix (ToLower (Hostname u)) ''.local'' \<and> \<not> HasSuffix (ToLower (Hostname u)) ''.internal'')"

definition outside_connection :: "string \<Rightarrow> bool" where
  "outside_connection remote \<longleftrightarrow>
     (\<forall>host port ip. SplitHostPort remote = Some (host, port) \<and> ParseIP host = Some ip \<longrightarrow> \<not> isBlockedFetchIP ip)"

lemma validated_outside: "ValidateRemoteURL ph lookup target cfg = None \<Longrightarrow> outside_url ph cfg target"
  by (auto simp: ValidateRemoteURL_def outside_url_def list_ex_iff Let_def split: option.splits if_splits)

lemma dialed_outside: "dial_checked w n addr = Inr remote \<Longrightarrow> outside_connection remote"
  by (auto simp: dial_checked_def outside_connection_def blocked_host_def split: option.splits if_splits)

lemma redirect_checked: "CheckRedirect ph w cfg target via = None \<Longrightarrow> outside_url ph cfg target \<and> via < 5"
  by (auto simp: CheckRedirect_def split: option.splits if_splits intro: validated_outside)

lemma client_hops:
  assumes "outside_url ph cfg target" "via < 5" "client_Do ph w cfg left via target = (r, hops)"
  shows "(\<forall>(t, remote) \<in> set hops. outside_url ph cfg t \<and> outside_connection remote) \<and> length hops + via \<le> 5"
  using assms
proof (induction left arbitrary: via target r hops)
  case (Suc left)
  from Suc.prems(3) consider "hops = []"
    | remote where "hops = [(target, remote)]" "outside_connection remote"
    | remote nxt rest where "hops = (target, remote) # rest" "outside_connection remote"
        "CheckRedirect ph w cfg nxt (Suc via) = None" "client_Do ph w cfg left (Suc via) nxt = (r, rest)"
    by (auto simp del: split_paired_All split: sum.splits option.splits prod.splits if_splits dest: dialed_outside)
  then show ?case
  proof cases
    case 3
    then show ?thesis using Suc.IH [OF _ _ 3(4)] Suc.prems(1) redirect_checked [OF 3(3)] by auto
  qed (use Suc.prems in auto)
qed simp

text \<open>Six requests are never reached, so a larger bound on the recursion changes nothing.\<close>

lemma client_bound: "via < 5 \<Longrightarrow> 5 \<le> left + via \<Longrightarrow> 5 \<le> left' + via \<Longrightarrow> client_Do ph w cfg left via target = client_Do ph w cfg left' via target"
proof (induction left arbitrary: left' via target)
  case (Suc left)
  then obtain l where l: "left' = Suc l" by (cases left') auto
  have "client_Do ph w cfg left (Suc via) nxt = client_Do ph w cfg l (Suc via) nxt"
    if "CheckRedirect ph w cfg nxt (Suc via) = None" for nxt
    using Suc l redirect_checked [OF that] by (intro Suc.IH) auto
  then show ?case unfolding l client_Do.simps by (auto split: sum.splits option.splits)
qed simp


definition sample_network :: network where
  "sample_network = \<lparr>nw_Lookup = (\<lambda>_ _. Some [v4InV6Prefix @ [8, 8, 8, 8]]), nw_Addr = (\<lambda>_. ''8.8.8.8:443''), nw_Dial = (\<lambda>_ _. Some ''8.8.8.8:443''),
     nw_Respond = (\<lambda>_ _. Some \<lparr>an_Status = 200, an_Redirect = None, an_Type = ''image/png'', an_Body = Some ''x''\<rparr>)\<rparr>"

abbreviation any_host :: host_parser where
  "any_host \<equiv> \<lambda>_ h. Some h"

definition sample_url :: string where
  "sample_url = ''https://a.example/''"

lemma sample_public: "\<not> isBlockedFetchIP (v4InV6Prefix @ [8, 8, 8, 8])"
  by (simp add: isBlockedFetchIP_def IsPrivate_def IsLoopback_def IsLinkLocalUnicast_def IsLinkLocalMulticast_def IsUnspecified_def
        IsMulticast_def IsInterfaceLocalMulticast_def To4_def v4InV6Prefix_def IP_Equal_def replicate_literal)

lemma sample_valid: "ValidateRemoteURL any_host (nw_Lookup sample_network n) sample_url DefaultFetchRemoteImageConfig = None"
proof -
  have "url_Parse any_host sample_url = Some (no_url\<lparr>u_Scheme := ''https'', u_Host := ''a.example'', u_Path := ''/''\<rparr>)"
    by (simp add: sample_url_def url_Parse_def parse_url_def parse_rest_def parseAuthority_def LastIndexByte_def Cut_def cut_query_def getScheme_def is_letter_def
        is_digit_def is_ctl_def setPath_def no_url_def escape_def escape_char_def shouldEscape_def is_alnum_def HasPrefix_def HasSuffix_def str_simps)
  then show ?thesis
    by (simp add: sample_public ValidateRemoteURL_def validateNotPrivateIPWithLookup_def DefaultFetchRemoteImageConfig_def sample_network_def Hostname_def
        splitHostPort_def LastIndexByte_def EqualFold_def HasPrefix_def HasSuffix_def ToLower_def lower_char_def no_url_def)
qed

lemma sample_answers: "nw_Addr sample_network t = ''8.8.8.8:443''"
  "nw_Respond sample_network n t = Some \<lparr>an_Status = 200, an_Redirect = None, an_Type = ''image/png'', an_Body = Some ''x''\<rparr>"
  by (simp_all add: sample_network_def)


end
