(* ===== verification/ReportIntake.thy ===== *)
theory ReportIntake
  imports Contact RemoteFetch
begin

text \<open>
  The contact form of \<open>server/handler/pages.go\<close> from end to end: reading a submission, the security report with its
  encryption, storage and acknowledgment, and the two handlers, for the page and for the API. The mail
  parser, the PGP encryption, the JSON encoder, the translations, the mail server and the random
  source are arguments.
\<close>

section \<open>Requests\<close>

record ContactRequest =
  cr_Name :: string
  cr_Handle :: string
  cr_Email :: string
  cr_Subject :: string
  cr_Message :: string
  cr_SecurityID :: string
  cr_ResearcherGPG :: string
  cr_AffectedComponent :: string
  cr_AffectedEndpoint :: string
  cr_Severity :: string
  cr_Summary :: string
  cr_Steps :: string
  cr_Impact :: string
  cr_SuggestedFix :: string
  cr_CVERequested :: bool
  cr_DisclosureDays :: string
  cr_CreditPreference :: string
  cr_Agreement :: bool
  cr_Captcha :: string
  cr_CaptchaToken :: string

definition contactRequestFromForm :: "page_request \<Rightarrow> ContactRequest" where
  "contactRequestFromForm r =
     (let v = (\<lambda>k. TrimSpace (page_FormValue r k)) in
      \<lparr>cr_Name = v ''name'', cr_Handle = v ''handle'', cr_Email = v ''email'', cr_Subject = v ''subject'', cr_Message = v ''message'',
       cr_SecurityID = v ''security_id'', cr_ResearcherGPG = v ''researcher_gpg'', cr_AffectedComponent = v ''affected_component'',
       cr_AffectedEndpoint = v ''affected_endpoint'', cr_Severity = v ''severity'', cr_Summary = v ''summary'',
       cr_Steps = v ''steps_to_reproduce'', cr_Impact = v ''impact'', cr_SuggestedFix = v ''suggested_fix'',
       cr_CVERequested = isCheckboxChecked (page_FormValue r ''cve_requested''), cr_DisclosureDays = page_FormValue r ''disclosure_days'',
       cr_CreditPreference = v ''credit_preference'', cr_Agreement = isCheckboxChecked (page_FormValue r ''coordinated_disclosure_agreement''),
       cr_Captcha = v ''captcha'', cr_CaptchaToken = v ''captcha_token''\<rparr>)"

definition validStandardContactRequest :: "(string \<Rightarrow> bool) \<Rightarrow> ContactRequest \<Rightarrow> bool" where
  "validStandardContactRequest parseAddress req \<longleftrightarrow>
     TrimSpace (cr_Name req) \<noteq> [] \<and> TrimSpace (cr_Email req) \<noteq> [] \<and> TrimSpace (cr_Subject req) \<noteq> [] \<and> TrimSpace (cr_Message req) \<noteq> []
     \<and> parseAddress (cr_Email req)"

definition validCreditPreference :: "string \<Rightarrow> bool" where
  "validCreditPreference value \<longleftrightarrow> value \<in> {''real_name'', ''handle'', ''no'', ''anonymous''}"

section \<open>The surroundings\<close>

record mail_message =
  ml_To :: string
  ml_Body :: string
  ml_Attachment :: "string option"

record intake_env =
  ie_Captcha :: captcha_env
  ie_Hmac :: "string \<Rightarrow> string \<Rightarrow> string"
  ie_Sha256 :: "string \<Rightarrow> string"
  ie_ParseAddress :: "string \<Rightarrow> bool"
  ie_Page :: page_env
  ie_Net :: network
  ie_EncryptFor :: "string \<Rightarrow> string \<Rightarrow> string option"
  ie_Marshal :: "(string \<times> string) list \<Rightarrow> string option"
  ie_Rnd :: "nat \<Rightarrow> string option"
  ie_Translate :: "string \<Rightarrow> (string \<times> string) list \<Rightarrow> string"
  ie_PublicKey :: "string option"
  ie_StoreFails :: bool
  ie_DeleteFails :: bool
  ie_Sends :: "mail_message \<Rightarrow> bool"

record intake_handler =
  ih_Version :: string
  ih_Commit :: string
  ih_EncryptionKey :: string
  ih_Contacts :: ContactConfig
  ih_MailEnabled :: bool
  ih_Trust :: "TrustResolver option"

text \<open>The database is absent or holds both tables; mails are those the server took.\<close>

record intake_state =
  is_Secrets :: "secrets option"
  is_Rows :: reports
  is_Mails :: "mail_message list"
  is_Throttle :: "(string \<times> int) list"

definition validSecurityID :: "intake_env \<Rightarrow> string \<Rightarrow> int \<Rightarrow> intake_state \<Rightarrow> (secret_error + bool) \<times> intake_state" where
  "validSecurityID e candidate now s =
     (case is_Secrets s of
        None \<Rightarrow> (Inr False, s)
      | Some db \<Rightarrow>
          if candidate = [] then (Inr False, s)
          else case IsValidSecurityID (ie_Hmac e) (cv_Fails (ie_Captcha e)) (cv_Secret (ie_Captcha e)) candidate now db of
            (v, db) \<Rightarrow> (v, s\<lparr>is_Secrets := Some db\<rparr>))"

definition check_captcha :: "intake_env \<Rightarrow> ContactRequest \<Rightarrow> int \<Rightarrow> intake_state \<Rightarrow> bool \<times> intake_state" where
  "check_captcha e req now s =
     (case verifySimpleCaptcha (ie_Captcha e) (cr_CaptchaToken req) (cr_Captcha req) now (is_Secrets s) of
        (ok, db) \<Rightarrow> (ok, s\<lparr>is_Secrets := db\<rparr>))"

section \<open>Security reports\<close>

datatype submit_error = ReportIncomplete | BadReporterEmail | BadTimeline | BadReportToken | KeyFetchFailed | BadResearcherKey
| EncodeFailed | NoRandom | NoDelivery | NoEncryption | NotStored | AckNotSent

text \<open>The fields the source demands, before it looks at the question.\<close>

definition report_complete :: "ContactRequest \<Rightarrow> bool" where
  "report_complete req \<longleftrightarrow>
     cr_Name req \<noteq> [] \<and> cr_Email req \<noteq> [] \<and> cr_AffectedComponent req \<noteq> [] \<and> cr_Summary req \<noteq> [] \<and> cr_Steps req \<noteq> []
     \<and> cr_Impact req \<noteq> [] \<and> cr_Agreement req \<and> validCreditPreference (cr_CreditPreference req)
     \<and> \<not> (cr_CreditPreference req = ''handle'' \<and> cr_Handle req = []) \<and> validSecuritySeverity (cr_Severity req)"

definition disclosure_days :: "string \<Rightarrow> int option" where
  "disclosure_days s =
     (if s = [] then Some 90
      else case ParseInt64 s of None \<Rightarrow> None | Some n \<Rightarrow> if n < 1 \<or> 365 < n then None else Some n)"

definition key_fetch_config :: FetchRemoteImageConfig where
  "key_fetch_config = \<lparr>ft_MaxSize = 1048576,
     ft_AllowedTypes = [''application/pgp-keys'', ''application/octet-stream'', ''text/plain''], ft_AllowedSchemes = [''https'']\<rparr>"

text \<open>The key of the reporter: none, the text itself, or what its address serves; it has to encrypt a test text.\<close>

definition researcher_key :: "intake_env \<Rightarrow> string \<Rightarrow> submit_error + string" where
  "researcher_key e gpg =
     (if gpg = [] then Inr []
      else case (if HasPrefix gpg ''https://''
                 then (case fst (FetchRemoteImage (pe_ParseHost (ie_Page e)) (ie_Net e) gpg key_fetch_config) of
                         Inl _ \<Rightarrow> Inl KeyFetchFailed | Inr (data, _) \<Rightarrow> Inr data)
                 else Inr gpg) of
        Inl x \<Rightarrow> Inl x
      | Inr key \<Rightarrow>
          if ie_EncryptFor e key ''IPGaze security report acknowledgment key validation.'' = None then Inl BadResearcherKey else Inr key)"

definition report_content :: "intake_handler \<Rightarrow> ContactRequest \<Rightarrow> string \<Rightarrow> int \<Rightarrow> string \<Rightarrow> string \<Rightarrow> (string \<times> string) list" where
  "report_content h req key days timestamp userAgent =
     [(''name'', cr_Name req), (''email'', cr_Email req), (''researcher_gpg'', key), (''security_id'', cr_SecurityID req),
      (''affected_component'', cr_AffectedComponent req), (''affected_endpoint'', cr_AffectedEndpoint req), (''severity'', cr_Severity req),
      (''summary'', cr_Summary req), (''steps_to_reproduce'', cr_Steps req), (''impact'', cr_Impact req), (''suggested_fix'', cr_SuggestedFix req),
      (''cve_requested'', show_bool (cr_CVERequested req)), (''disclosure_days'', Itoa_int days), (''credit_preference'', cr_CreditPreference req),
      (''app_version'', ih_Version h), (''commit_hash'', ih_Commit h), (''timestamp'', timestamp), (''request_user_agent'', userAgent)]"

text \<open>The stored body: under the project's PGP key when there is one, else under the configured key.\<close>

definition seal_aes :: "intake_env \<Rightarrow> intake_handler \<Rightarrow> string option \<Rightarrow> string \<Rightarrow> string option" where
  "seal_aes e h nonce plain =
     (case StdEncoding_Decode (ih_EncryptionKey h) of
        None \<Rightarrow> None
      | Some key \<Rightarrow> if length key \<noteq> 32 then None else EncryptWithSecret (cv_Box (ie_Captcha e)) nonce key plain ''security-reports'')"

definition seal_report :: "intake_env \<Rightarrow> intake_handler \<Rightarrow> string option \<Rightarrow> string \<Rightarrow> (string \<times> string) option" where
  "seal_report e h nonce plain =
     (let publicKey = (case ie_PublicKey e of None \<Rightarrow> [] | Some key \<Rightarrow> key) in
      if publicKey \<noteq> [] then map_option (\<lambda>c. (''pgp'', c)) (ie_EncryptFor e publicKey plain)
      else map_option (\<lambda>c. (''aes-256-gcm'', c)) (seal_aes e h nonce plain))"

definition credit_name :: "ContactRequest \<Rightarrow> string" where
  "credit_name req = (if cr_CreditPreference req = ''real_name'' then cr_Name req
     else if cr_CreditPreference req = ''handle'' then cr_Handle req else [])"

text \<open>The message to the reporter: the tracking identifier and the address with the access token.\<close>

definition acknowledgment :: "intake_env \<Rightarrow> intake_handler \<Rightarrow> page_request \<Rightarrow> string \<Rightarrow> string \<Rightarrow> string" where
  "acknowledgment e h r trackingID token =
     (let appURL = TrimSuffix (page_URL (ie_Page e) r (ih_Trust h) []) ''/'';
          statusURL = appURL @ ''/server/security/report/'' @ PathEscape trackingID @ ''?token='' @ QueryEscape token in
      ie_Translate e ''security.report_email_body'' [(''tracking_id'', trackingID), (''status_url'', statusURL)])"

text \<open>The last steps: store the report, acknowledge it and take it back if that fails, then notify the project.\<close>

definition store_and_acknowledge ::
  "intake_env \<Rightarrow> ContactRequest \<Rightarrow> string \<Rightarrow> string \<Rightarrow> string \<Rightarrow> string \<Rightarrow> string \<Rightarrow> string \<Rightarrow> intake_state \<Rightarrow> (submit_error + string) \<times> intake_state" where
  "store_and_acknowledge e req trackingID tokenHash encryption ciphertext ack securityEmail s =
     (case StoreSecurityReport (ie_StoreFails e)
        \<lparr>sm_TrackingID = trackingID, sm_Ciphertext = ciphertext, sm_Encryption = encryption, sm_Severity = cr_Severity req,
         sm_AffectedComponent = cr_AffectedComponent req, sm_CreditPreference = cr_CreditPreference req, sm_CreditName = credit_name req,
         sm_ShortCredit = ''Security vulnerability report'', sm_AccessTokenHash = tokenHash\<rparr> (Some (is_Rows s)) of
        (Inr _, Some rows) \<Rightarrow>
          (let mail = \<lparr>ml_To = cr_Email req, ml_Body = ack, ml_Attachment = None\<rparr>;
               note = (if encryption = ''aes-256-gcm''
                 then \<lparr>ml_To = securityEmail, ml_Body = ie_Translate e ''security.report_notification_body'' [], ml_Attachment = Some ciphertext\<rparr>
                 else \<lparr>ml_To = securityEmail, ml_Body = ciphertext, ml_Attachment = None\<rparr>) in
           if \<not> ie_Sends e mail then (Inl AckNotSent, s\<lparr>is_Rows := (if ie_DeleteFails e then rows else filter (\<lambda>(k, _). k \<noteq> trackingID) rows)\<rparr>)
           else (Inr trackingID, s\<lparr>is_Rows := rows, is_Mails := is_Mails s @ mail # (if ie_Sends e note then [note] else [])\<rparr>))
      | _ \<Rightarrow> (Inl NotStored, s))"

text \<open>
  \<open>submitSecurityReport\<close>. Random draws: 0 for the identifier, 1 for the access token, 2 for the nonce. The configuration
  is present; the database is, unless the secrets are absent.
\<close>

definition submitSecurityReport ::
  "intake_env \<Rightarrow> intake_handler \<Rightarrow> page_request \<Rightarrow> ContactRequest \<Rightarrow> int \<Rightarrow> string \<Rightarrow> intake_state \<Rightarrow> (submit_error + string) \<times> intake_state" where
  "submitSecurityReport e h r req now timestamp s =
     (if is_Secrets s = None \<or> \<not> report_complete req then (Inl ReportIncomplete, s)
      else case check_captcha e req now s of
        (False, s) \<Rightarrow> (Inl ReportIncomplete, s)
      | (True, s) \<Rightarrow>
          if \<not> ie_ParseAddress e (cr_Email req) then (Inl BadReporterEmail, s)
          else case disclosure_days (cr_DisclosureDays req) of
            None \<Rightarrow> (Inl BadTimeline, s)
          | Some days \<Rightarrow>
              (case validSecurityID e (cr_SecurityID req) now s of (valid, s) \<Rightarrow>
                 if valid \<noteq> Inr True then (Inl BadReportToken, s)
                 else case researcher_key e (cr_ResearcherGPG req) of
                   Inl x \<Rightarrow> (Inl x, s)
                 | Inr key \<Rightarrow>
                     (case ie_Marshal e (report_content h req key days timestamp (page_Header r ''User-Agent'')) of
                        None \<Rightarrow> (Inl EncodeFailed, s)
                      | Some plain \<Rightarrow>
                          (case (NewSecurityTrackingID (ie_Rnd e 0), NewSecurityAccessToken (ie_Sha256 e) (ie_Rnd e 1)) of
                             (Some trackingID, Some (token, tokenHash)) \<Rightarrow>
                               (let to = ce_Email (ResolveContactRole (ih_Contacts h) ''security'');
                                    text = acknowledgment e h r trackingID token;
                                    ack = (if key \<noteq> [] then ie_EncryptFor e key text else Some text) in
                                if to = [] \<or> \<not> ih_MailEnabled h then (Inl NoDelivery, s)
                                else case ack of
                                  None \<Rightarrow> (Inl BadResearcherKey, s)
                                | Some ack \<Rightarrow>
                                    (case seal_report e h (ie_Rnd e 2) plain of
                                       None \<Rightarrow> (Inl NoEncryption, s)
                                     | Some (encryption, ciphertext) \<Rightarrow>
                                         store_and_acknowledge e req trackingID tokenHash encryption ciphertext ack to s))
                           | _ \<Rightarrow> (Inl NoRandom, s)))))"

section \<open>The handlers\<close>

datatype contact_reply = ReportTaken string | MessageTaken | BackToForm | Refused nat

text \<open>The message that goes out for a standard contact; its webhooks start by themselves.\<close>

definition dispatchContactSubmission :: "intake_env \<Rightarrow> intake_handler \<Rightarrow> ContactRequest \<Rightarrow> intake_state \<Rightarrow> intake_state" where
  "dispatchContactSubmission e h req s =
     (let to = ce_Email (ResolveContactRole (ih_Contacts h) ''general'');
          mail = \<lparr>ml_To = to, ml_Body = ''From: '' @ cr_Name req @ '' <'' @ cr_Email req @ ''>'' @ [CHR 0x0A, CHR 0x0A] @ cr_Message req, ml_Attachment = None\<rparr> in
      if to \<noteq> [] \<and> ih_MailEnabled h \<and> ie_Sends e mail then s\<lparr>is_Mails := is_Mails s @ [mail]\<rparr> else s)"

definition throttled :: "int \<Rightarrow> string \<Rightarrow> intake_state \<Rightarrow> bool \<times> intake_state" where
  "throttled now ip s = (case allowContactSubmission now ip (is_Throttle s) of (ok, seen) \<Rightarrow> (ok, s\<lparr>is_Throttle := seen\<rparr>))"

text \<open>The POST branch of \<open>ServerContactHandler\<close>; \<open>form\<close> tells whether the form could be parsed.\<close>

definition ServerContactHandler ::
  "intake_env \<Rightarrow> intake_handler \<Rightarrow> bool \<Rightarrow> string \<Rightarrow> page_request \<Rightarrow> int \<Rightarrow> string \<Rightarrow> intake_state \<Rightarrow> contact_reply \<times> intake_state" where
  "ServerContactHandler e h form ip r now timestamp s =
     (if \<not> form then (BackToForm, s)
      else let req = contactRequestFromForm r in
        (case validSecurityID e (cr_SecurityID req) now s of (valid, s) \<Rightarrow>
           if valid = Inr True then
             (case throttled now ip s of
                (False, s) \<Rightarrow> (Refused 429, s)
              | (True, s) \<Rightarrow>
                  (case submitSecurityReport e h r req now timestamp s of
                     (Inr i, s) \<Rightarrow> (ReportTaken i, s)
                   | (Inl _, s) \<Rightarrow> (Refused 400, s)))
           else if \<not> validStandardContactRequest (ie_ParseAddress e) req then (BackToForm, s)
           else case check_captcha e req now s of
             (False, s) \<Rightarrow> (Refused 400, s)
           | (True, s) \<Rightarrow>
               (case throttled now ip s of
                  (False, s) \<Rightarrow> (Refused 429, s)
                | (True, s) \<Rightarrow> (BackToForm, dispatchContactSubmission e h req s))))"

text \<open>The API: the body is what the JSON decoder made of it, with these fields trimmed.\<close>

definition APIV1ServerContactHandler ::
  "intake_env \<Rightarrow> intake_handler \<Rightarrow> ContactRequest \<Rightarrow> string \<Rightarrow> page_request \<Rightarrow> int \<Rightarrow> string \<Rightarrow> intake_state \<Rightarrow> contact_reply \<times> intake_state" where
  "APIV1ServerContactHandler e h body ip r now timestamp s =
     (if rq_Method (pq_Req r) \<noteq> ''POST'' then (Refused 405, s)
      else
        (let req = body\<lparr>cr_Name := TrimSpace (cr_Name body), cr_Email := TrimSpace (cr_Email body), cr_Subject := TrimSpace (cr_Subject body),
               cr_Message := TrimSpace (cr_Message body), cr_SecurityID := TrimSpace (cr_SecurityID body),
               cr_Captcha := TrimSpace (cr_Captcha body), cr_CaptchaToken := TrimSpace (cr_CaptchaToken body)\<rparr> in
         case validSecurityID e (cr_SecurityID req) now s of (valid, s) \<Rightarrow>
           if valid = Inr True then
             (case throttled now ip s of
                (False, s) \<Rightarrow> (Refused 429, s)
              | (True, s) \<Rightarrow>
                  (case submitSecurityReport e h r req now timestamp s of
                     (Inr i, s) \<Rightarrow> (ReportTaken i, s)
                   | (Inl _, s) \<Rightarrow> (Refused 400, s)))
           else if \<not> validStandardContactRequest (ie_ParseAddress e) req then (Refused 400, s)
           else case throttled now ip s of
             (False, s) \<Rightarrow> (Refused 429, s)
           | (True, s) \<Rightarrow>
               (case check_captcha e req now s of
                  (False, s) \<Rightarrow> (Refused 400, s)
                | (True, s) \<Rightarrow> (MessageTaken, dispatchContactSubmission e h req s))))"

section \<open>All or nothing\<close>

text \<open>
  What an accepted report leaves behind: a new row with the hash of an access token, whose body is the encrypted
  content, and a mail to the reporter with the address that the token opens, encrypted if a key was given.
\<close>

definition report_filed ::
  "intake_env \<Rightarrow> intake_handler \<Rightarrow> page_request \<Rightarrow> ContactRequest \<Rightarrow> string \<Rightarrow> intake_state \<Rightarrow> string \<Rightarrow> intake_state \<Rightarrow> bool" where
  "report_filed e h r req timestamp s i s' \<longleftrightarrow>
     (\<exists>row token key days plain mail rest.
        is_Rows s' = is_Rows s @ [(i, row)] \<and> map_of (is_Rows s) i = None
        \<and> rr_status row = ''Received'' \<and> rr_token_hash row = hex_EncodeToString (ie_Sha256 e token)
        \<and> is_Mails s' = is_Mails s @ mail # rest \<and> ml_To mail = cr_Email req
        \<and> (if key = [] then ml_Body mail = acknowledgment e h r i token else ie_EncryptFor e key (acknowledgment e h r i token) = Some (ml_Body mail))
        \<and> ie_Marshal e (report_content h req key days timestamp (page_Header r ''User-Agent'')) = Some plain
        \<and> (if rr_encryption row = ''pgp'' then \<exists>pub. ie_EncryptFor e pub plain = Some (rr_encrypted_body row)
           else \<exists>k. StdEncoding_Decode (ih_EncryptionKey h) = Some k
             \<and> DecryptWithSecret (cv_Box (ie_Captcha e)) k (rr_encrypted_body row) ''security-reports'' = Some plain))"

lemma filter_fresh: "map_of rows i = None \<Longrightarrow> filter (\<lambda>(k, _). k \<noteq> i) rows = rows"
  by (induction rows) (auto split: if_splits)

lemma stored_and_acknowledged:
  assumes "store_and_acknowledge e req i tokenHash encryption ciphertext ack to s = (res, s')" "\<not> ie_DeleteFails e"
  shows "case res of
      Inl _ \<Rightarrow> is_Rows s' = is_Rows s \<and> is_Mails s' = is_Mails s
    | Inr j \<Rightarrow> j = i \<and> map_of (is_Rows s) i = None
        \<and> (\<exists>row rest. is_Rows s' = is_Rows s @ [(i, row)] \<and> rr_status row = ''Received'' \<and> rr_token_hash row = tokenHash
             \<and> rr_encryption row = encryption \<and> rr_encrypted_body row = ciphertext
             \<and> is_Mails s' = is_Mails s @ \<lparr>ml_To = cr_Email req, ml_Body = ack, ml_Attachment = None\<rparr> # rest)"
  using assms
  by (auto simp: store_and_acknowledge_def StoreSecurityReport_def new_row_def filter_fresh Let_def split: if_splits)

lemma sealed_opens:
  assumes "seal_report e h nonce plain = Some (encryption, ciphertext)" "opens_own (cv_Box (ie_Captcha e))" "nonce_ok nonce"
  shows "if encryption = ''pgp'' then \<exists>pub. ie_EncryptFor e pub plain = Some ciphertext
    else \<exists>k. StdEncoding_Decode (ih_EncryptionKey h) = Some k \<and> DecryptWithSecret (cv_Box (ie_Captcha e)) k ciphertext ''security-reports'' = Some plain"
  using assms decrypt_encrypt [OF assms(2,3)]
  by (auto simp: seal_report_def seal_aes_def Let_def split: if_splits option.splits)

lemma captcha_only_secrets: "check_captcha e req now s = (ok, s') \<Longrightarrow> is_Rows s' = is_Rows s \<and> is_Mails s' = is_Mails s \<and> is_Throttle s' = is_Throttle s"
  by (auto simp: check_captcha_def split: prod.splits)

lemma security_id_only_secrets: "validSecurityID e c now s = (v, s') \<Longrightarrow> is_Rows s' = is_Rows s \<and> is_Mails s' = is_Mails s \<and> is_Throttle s' = is_Throttle s"
  by (auto simp: validSecurityID_def split: prod.splits option.splits if_splits)

text \<open>Either nothing but the secrets was touched, or every check passed and the last steps were taken.\<close>

lemma submit_cases:
  assumes "submitSecurityReport e h r req now timestamp s = (res, s')"
  obtains (refused) x where "res = Inl x" "is_Rows s' = is_Rows s" "is_Mails s' = is_Mails s"
  | (passed) t key days plain i token to ack encryption ciphertext where
      "is_Rows t = is_Rows s" "is_Mails t = is_Mails s"
      "ie_Marshal e (report_content h req key days timestamp (page_Header r ''User-Agent'')) = Some plain"
      "(if key \<noteq> [] then ie_EncryptFor e key (acknowledgment e h r i token) else Some (acknowledgment e h r i token)) = Some ack"
      "seal_report e h (ie_Rnd e 2) plain = Some (encryption, ciphertext)"
      "store_and_acknowledge e req i (hex_EncodeToString (ie_Sha256 e token)) encryption ciphertext ack to t = (res, s')"
proof (cases "is_Secrets s = None \<or> \<not> report_complete req")
  case True
  then show ?thesis using assms refused by (auto simp: submitSecurityReport_def)
next
  case False
  obtain ok s1 where c: "check_captcha e req now s = (ok, s1)" by fastforce
  obtain v s2 where v: "validSecurityID e (cr_SecurityID req) now s1 = (v, s2)" by fastforce
  note k = captcha_only_secrets [OF c] security_id_only_secrets [OF v]
  show ?thesis
  proof (cases "researcher_key e (cr_ResearcherGPG req)")
    case (Inl x)
    with assms False c v k have "\<exists>y. res = Inl y" "is_Rows s' = is_Rows s" "is_Mails s' = is_Mails s"
      by (auto simp: submitSecurityReport_def split: bool.splits if_splits option.splits) metis
    then show ?thesis using refused by blast
  next
    case (Inr key)
    show ?thesis
      using assms False c v k Inr refused passed
      by (auto simp: submitSecurityReport_def NewSecurityAccessToken_def Let_def split: bool.splits if_splits option.splits prod.splits)
  qed
qed


definition sample_intake :: "page_env \<Rightarrow> network \<Rightarrow> intake_env" where
  "sample_intake page net = \<lparr>ie_Captcha = sample_captcha, ie_Hmac = (\<lambda>_ _. ''hhhhhhhh''), ie_Sha256 = (\<lambda>x. x), ie_ParseAddress = (\<lambda>_. True),
     ie_Page = page, ie_Net = net, ie_EncryptFor = (\<lambda>_ _. None), ie_Marshal = (\<lambda>_. Some ''report''),
     ie_Rnd = (\<lambda>_. Some (replicate 12 (CHR ''m''))), ie_Translate = (\<lambda>_ _. ''text''), ie_PublicKey = None, ie_StoreFails = False,
     ie_DeleteFails = False, ie_Sends = (\<lambda>_. True)\<rparr>"

definition sample_intake_handler :: intake_handler where
  "sample_intake_handler = \<lparr>ih_Version = [], ih_Commit = [], ih_EncryptionKey = StdEncoding_Encode (replicate 32 (CHR ''e'')),
     ih_Contacts = \<lparr>co_Admin = no_contact\<lparr>ce_Email := ''a''\<rparr>, co_Security = no_contact, co_Abuse = no_contact, co_General = no_contact\<rparr>,
     ih_MailEnabled = True, ih_Trust = None\<rparr>"

definition sample_report :: ContactRequest where
  "sample_report = \<lparr>cr_Name = ''n'', cr_Handle = [], cr_Email = ''r'', cr_Subject = [], cr_Message = [],
     cr_SecurityID = hex_EncodeToString ''hhhhhhhh'', cr_ResearcherGPG = [], cr_AffectedComponent = ''c'', cr_AffectedEndpoint = [],
     cr_Severity = ''low'', cr_Summary = ''s'', cr_Steps = ''t'', cr_Impact = ''i'', cr_SuggestedFix = [], cr_CVERequested = False,
     cr_DisclosureDays = [], cr_CreditPreference = ''no'', cr_Agreement = True, cr_Captcha = Itoa (3 + 4),
     cr_CaptchaToken = RawURLEncoding_Encode (replicate 12 (CHR ''m'') @ replicate 32 (CHR ''k'') @ ''question'')\<rparr>"

definition sample_intake_state :: intake_state where
  "sample_intake_state = \<lparr>is_Secrets = Some Map.empty, is_Rows = [], is_Mails = [], is_Throttle = []\<rparr>"

lemma sample_captcha_passes:
  "\<exists>db. verifySimpleCaptcha sample_captcha (cr_CaptchaToken sample_report) (Itoa (3 + 4)) 200 (Some Map.empty) = (True, Some db)
     \<and> db SecretInstallationSecret = None"
proof -
  have i: "Itoa 7 = ''7''" by code_simp
  have t: "RawURLEncoding_Encode (replicate 12 (CHR ''m'') @ replicate 32 (CHR ''k'') @ ''question'') \<noteq> []"
    by (auto simp: length_encode_bits dest!: arg_cong [of _ _ length])
  have p: "captcha_payload 3 4 ''n'' 100 = \<lparr>cp_Answer = ''7'', cp_Expires = 1300, cp_Nonce = RawURLEncoding_Encode ''n''\<rparr>"
    by (simp add: captcha_payload_def i)
  have n: "RawURLEncoding_Encode ''n'' \<noteq> []" by (auto simp: length_encode_bits dest!: arg_cong [of _ _ length])
  show ?thesis
    using t n by (simp add: verifySimpleCaptcha_def sample_report_def sample_captcha_def GetOrCreateSecret_def insert_secret_def reload_secret_def
      decode_value_def Std_roundtrip RawURL_roundtrip DecryptWithSecret_def tagged_box_def nonce_size_def i p TrimSpace_def TrimFunc_def TrimRightFunc_def TrimLeftFunc_def is_space_def
      SecretCSRFTokenSecret_def SecretInstallationSecret_def)
qed


text \<open>A reporter who asks for a credit under the real name has it stored beside the encrypted body.\<close>

lemma credit_name_plain:
  "cr_CreditPreference req = ''real_name'' \<Longrightarrow> StoreSecurityReport False
     \<lparr>sm_TrackingID = i, sm_Ciphertext = c, sm_Encryption = enc, sm_Severity = ''low'', sm_AffectedComponent = a,
      sm_CreditPreference = cr_CreditPreference req, sm_CreditName = credit_name req, sm_ShortCredit = sc, sm_AccessTokenHash = t\<rparr> (Some [])
   = (x, Some [(i, row)]) \<Longrightarrow> rr_credit_name row = cr_Name req"
  by (auto simp: StoreSecurityReport_def new_row_def credit_name_def validSecuritySeverity_def split: if_splits)

end
