(* ===== verification/ConfigCheck.thy ===== *)
theory ConfigCheck
  imports Complex_Main Updater GoUrl
begin

text \<open>
  The checks of \<open>config/config.go\<close> on a configuration that was read from \<open>server.yml\<close>: \<open>validateConfig\<close> replaces
  every invalid setting by its default and logs the key it replaced, \<open>ValidateTracking\<close> and the checks of
  verification codes and of the allowlist drop what must not be used. The configuration is the
  record of the settings these functions read; the identifier of a visitor service is checked by the
  package \<open>github.com/google/uuid\<close>, which is an argument. A YAML number can be no number at all.
\<close>

section \<open>Settings\<close>

datatype yaml_float = NotANumber | Infinite bool | Finite rat

definition float_below :: "yaml_float \<Rightarrow> rat \<Rightarrow> bool" where
  "float_below x b = (case x of NotANumber \<Rightarrow> False | Infinite pos \<Rightarrow> \<not> pos | Finite q \<Rightarrow> q < b)"

definition float_above :: "yaml_float \<Rightarrow> rat \<Rightarrow> bool" where
  "float_above x b = (case x of NotANumber \<Rightarrow> False | Infinite pos \<Rightarrow> pos | Finite q \<Rightarrow> b < q)"

record TrackingConfig =
  tk_Type :: string
  tk_ID :: string
  tk_URL :: string

record AllowlistEntry =
  ae_CIDR :: string
  ae_Description :: string
  ae_Confirmed :: bool

record AppConfig =
  sv_Update_Branch :: string
  sv_UpdateBranch :: string
  sv_Tracking :: TrackingConfig
  sv_Title :: string
  sv_MaxURLs :: int
  sv_Cache_Type :: string
  sv_Cache_PoolSize :: int
  sv_DiskThreshold :: int
  sv_LogRetentionDays :: int
  sv_Driver :: string
  sv_DatabaseURL :: string
  sv_MaxOpen :: int
  sv_MaxIdle :: int
  sv_LogLevel :: string
  sv_Mode :: string
  sv_Keyservers :: "string list"
  sv_CVE_Source :: string
  sv_CSP_Mode :: string
  sv_HSTS_MaxAge :: int
  sv_NEL_MaxAge :: int
  sv_NEL_SampleRate :: yaml_float
  sv_CSP_SampleRate :: yaml_float
  sv_ReportsPerMinute :: int
  sv_ReportsBurst :: int
  sv_Permissions :: "(string \<times> string) list"
  sv_Allowlist :: "AllowlistEntry list"

text \<open>A Go map has no order; its entries are listed as the source does.\<close>

definition DefaultPermissionsPolicy :: "(string \<times> string) list" where
  "DefaultPermissionsPolicy =
    [(''accelerometer'', ''()''), (''ambient-light-sensor'', ''()''), (''attribution-reporting'', ''()''),
     (''autoplay'', ''(self)''), (''battery'', ''()''), (''browsing-topics'', ''()''),
     (''camera'', ''()''), (''cross-origin-isolated'', ''()''), (''display-capture'', ''()''),
     (''document-domain'', ''()''), (''encrypted-media'', ''(self)''), (''execution-while-not-rendered'', ''()''),
     (''execution-while-out-of-viewport'', ''()''), (''fullscreen'', ''(self)''), (''hid'', ''()''),
     (''geolocation'', ''()''), (''gyroscope'', ''()''), (''interest-cohort'', ''()''),
     (''idle-detection'', ''()''), (''keyboard-map'', ''()''), (''magnetometer'', ''()''),
     (''microphone'', ''()''), (''midi'', ''()''), (''navigation-override'', ''()''),
     (''payment'', ''(self)''), (''picture-in-picture'', ''(self)''), (''publickey-credentials-get'', ''(self)''),
     (''screen-wake-lock'', ''()''), (''serial'', ''()''), (''storage-access'', ''(self)''),
     (''sync-xhr'', ''()''), (''usb'', ''()''), (''web-share'', ''(self)''),
     (''xr-spatial-tracking'', ''()'')]"

definition DefaultConfig :: AppConfig where
  "DefaultConfig =
     \<lparr>sv_Update_Branch = ''stable'', sv_UpdateBranch = ''stable'', sv_Tracking = \<lparr>tk_Type = [], tk_ID = [], tk_URL = []\<rparr>,
      sv_Title = ''ipgaze'', sv_MaxURLs = 50000, sv_Cache_Type = ''memory'', sv_Cache_PoolSize = 10, sv_DiskThreshold = 90,
      sv_LogRetentionDays = 7, sv_Driver = ''sqlite'', sv_DatabaseURL = [], sv_MaxOpen = 5, sv_MaxIdle = 2, sv_LogLevel = ''warn'',
      sv_Mode = ''production'', sv_Keyservers = [''keys.openpgp.org'', ''keyserver.ubuntu.com''],
      sv_CVE_Source = ''https://services.nvd.nist.gov/rest/json/cves/2.0'', sv_CSP_Mode = [], sv_HSTS_MaxAge = 63072000,
      sv_NEL_MaxAge = 2592000, sv_NEL_SampleRate = Finite 1, sv_CSP_SampleRate = Finite 1, sv_ReportsPerMinute = 60,
      sv_ReportsBurst = 10, sv_Permissions = DefaultPermissionsPolicy, sv_Allowlist = []\<rparr>"

section \<open>Tracking\<close>

datatype tracking_error = BadGoogleID | BadMatomoID | MissingID | BadDomain | BadUUID | MissingURL | BadURL | URLNotUsed | UnknownType

text \<open>The pattern \<open>UA-n-n\<close> with decimal numbers, or \<open>G-\<close> and upper-case letters and digits.\<close>

definition is_upper :: "char \<Rightarrow> bool" where
  "is_upper c \<longleftrightarrow> (let n = (of_char c :: nat) in 65 \<le> n \<and> n \<le> 90)"

definition google_id :: "string \<Rightarrow> bool" where
  "google_id s \<longleftrightarrow>
     (case SplitByte s (CHR ''-'') of
        [a, b, c] \<Rightarrow> a = ''UA'' \<and> b \<noteq> [] \<and> list_all is_digit b \<and> c \<noteq> [] \<and> list_all is_digit c
      | [a, b] \<Rightarrow> a = ''G'' \<and> b \<noteq> [] \<and> list_all (\<lambda>c. is_upper c \<or> is_digit c) b
      | _ \<Rightarrow> False)"

definition validTrackingDomain :: "string \<Rightarrow> bool" where
  "validTrackingDomain value \<longleftrightarrow>
     value \<noteq> [] \<and> length value \<le> 253 \<and> TrimSpace value = value \<and> ParseIP value = None
     \<and> (let labels = SplitByte value (CHR ''.'') in
        2 \<le> length labels
        \<and> list_all (\<lambda>l. l \<noteq> [] \<and> length l \<le> 63 \<and> hd l \<noteq> CHR ''-'' \<and> last l \<noteq> CHR ''-'' \<and> list_all (\<lambda>c. is_alnum c \<or> c = CHR ''-'') l) labels)"

definition tracking_url :: "host_parser \<Rightarrow> string \<Rightarrow> bool \<Rightarrow> tracking_error option" where
  "tracking_url ph s required =
     (if s = [] then (if required then Some MissingURL else None)
      else case url_Parse ph s of
        None \<Rightarrow> Some BadURL
      | Some u \<Rightarrow>
          if \<not> IsAbs u \<or> Hostname u = [] \<or> u_User u \<noteq> None \<or> u_Fragment u \<noteq> [] \<or> u_Scheme u \<notin> {''https'', ''http''} then Some BadURL
          else None)"

definition first_error :: "'e option \<Rightarrow> 'e option \<Rightarrow> 'e option" where
  "first_error a b = (case a of None \<Rightarrow> b | Some e \<Rightarrow> Some e)"

definition require :: "bool \<Rightarrow> 'e \<Rightarrow> 'e option" where
  "require ok e = (if ok then None else Some e)"

definition check_provider :: "host_parser \<Rightarrow> (string \<Rightarrow> bool) \<Rightarrow> TrackingConfig \<Rightarrow> tracking_error option" where
  "check_provider ph uuid t =
     (let typ = tk_Type t; i = tk_ID t; u = tk_URL t in
      if typ = ''google'' then require (google_id i) BadGoogleID
      else if typ = ''matomo'' \<or> typ = ''piwik'' then first_error (require (ParseInt64 i \<noteq> None \<and> i \<noteq> []) BadMatomoID) (tracking_url ph u True)
      else if typ = ''owa'' then first_error (require (i \<noteq> []) MissingID) (tracking_url ph u True)
      else if typ = ''fathom'' then first_error (require (i \<noteq> []) MissingID) (tracking_url ph u False)
      else if typ = ''plausible'' then first_error (require (validTrackingDomain i) BadDomain) (tracking_url ph u False)
      else if typ = ''umami'' then first_error (require (uuid i) BadUUID) (tracking_url ph u True)
      else if typ = ''simple'' then require (u = []) URLNotUsed
      else if typ = ''cloudflare'' then first_error (require (i \<noteq> []) MissingID) (require (u = []) URLNotUsed)
      else Some UnknownType)"

text \<open>The error and the normalised configuration, which the source writes back either way.\<close>

definition ValidateTracking :: "host_parser \<Rightarrow> (string \<Rightarrow> bool) \<Rightarrow> TrackingConfig \<Rightarrow> tracking_error option \<times> TrackingConfig" where
  "ValidateTracking ph uuid cfg =
     (let t = \<lparr>tk_Type = ToLower (TrimSpace (tk_Type cfg)), tk_ID = TrimSpace (tk_ID cfg), tk_URL = TrimSpace (tk_URL cfg)\<rparr> in
      (if tk_Type t = [] \<or> tk_Type t = ''none'' then None else check_provider ph uuid t, t))"

section \<open>Allowlist\<close>

text \<open>\<open>ParseCIDR\<close> also returns the address; it is four bytes long, or in the IPv4 part, when \<open>To4\<close> gives one.\<close>

definition cidr_ip :: "string \<Rightarrow> ip option" where
  "cidr_ip s = (case IndexByte s (CHR ''/'') of None \<Rightarrow> None | Some i \<Rightarrow> map_option As16 (ParseAddr (take i s)))"

text \<open>\<open>Mask.Size\<close>: the number of leading ones.\<close>

definition mask_bits :: "u8 \<Rightarrow> bool list" where
  "mask_bits b = map (\<lambda>i. bit b (7 - i)) [0..<8]"

definition mask_ones :: "u8 list \<Rightarrow> nat" where
  "mask_ones m = length (takeWhile (\<lambda>b. b) (concat (map mask_bits m)))"

definition isOverlyBroadAllowlistRange :: "string \<Rightarrow> bool" where
  "isOverlyBroadAllowlistRange rawCIDR =
     (let cidr = TrimSpace rawCIDR in
      if cidr = [] \<or> \<not> Contains cidr ''/'' then False
      else case (cidr_ip cidr, ParseCIDR cidr) of
        (Some ip, Some n) \<Rightarrow> if To4 ip \<noteq> None then mask_ones (net_Mask n) \<le> 7 else mask_ones (net_Mask n) \<le> 15
      | _ \<Rightarrow> False)"

definition validateAllowlist :: "AllowlistEntry list \<Rightarrow> AllowlistEntry list" where
  "validateAllowlist entries = filter (\<lambda>e. \<not> (isOverlyBroadAllowlistRange (ae_CIDR e) \<and> \<not> ae_Confirmed e)) entries"

section \<open>Validation\<close>

text \<open>
  One check of the source: the key it warns about, when the setting is invalid, and what replaces it. A check
  without a key replaces silently.
\<close>

type_synonym config_check = "string option \<times> (AppConfig \<Rightarrow> bool) \<times> (AppConfig \<Rightarrow> AppConfig)"

definition run_check :: "config_check \<Rightarrow> AppConfig \<times> string list \<Rightarrow> AppConfig \<times> string list" where
  "run_check k s = (case k of (key, bad, fix) \<Rightarrow> case s of (cfg, warned) \<Rightarrow>
     if bad cfg then (fix cfg, warned @ (case key of None \<Rightarrow> [] | Some w \<Rightarrow> [w])) else s)"

definition config_checks :: "config_check list" where
  "config_checks =
    [(None, (\<lambda>c. TrimSpace (sv_Title c) = []), (\<lambda>c. c\<lparr>sv_Title := ''ipgaze''\<rparr>)),
     (Some ''server.seo.sitemap.max_urls'', (\<lambda>c. sv_MaxURLs c \<le> 0 \<or> 50000 < sv_MaxURLs c), (\<lambda>c. c\<lparr>sv_MaxURLs := sv_MaxURLs DefaultConfig\<rparr>)),
     (Some ''server.cache.type'', (\<lambda>c. sv_Cache_Type c \<notin> {''none'', ''memory'', ''valkey'', ''redis''}), (\<lambda>c. c\<lparr>sv_Cache_Type := sv_Cache_Type DefaultConfig\<rparr>)),
     (Some ''server.cache.pool_size'', (\<lambda>c. sv_Cache_PoolSize c < 1), (\<lambda>c. c\<lparr>sv_Cache_PoolSize := sv_Cache_PoolSize DefaultConfig\<rparr>)),
     (Some ''server.maintenance.cleanup.disk_threshold'', (\<lambda>c. sv_DiskThreshold c < 1 \<or> 100 < sv_DiskThreshold c),
        (\<lambda>c. c\<lparr>sv_DiskThreshold := sv_DiskThreshold DefaultConfig\<rparr>)),
     (Some ''server.maintenance.cleanup.log_retention_days'', (\<lambda>c. sv_LogRetentionDays c < 1), (\<lambda>c. c\<lparr>sv_LogRetentionDays := sv_LogRetentionDays DefaultConfig\<rparr>)),
     (Some ''server.database.driver'', (\<lambda>c. sv_Driver c \<notin> {''sqlite'', ''sqlite2'', ''sqlite3'', ''libsql'', ''turso''}), (\<lambda>c. c\<lparr>sv_Driver := sv_Driver DefaultConfig\<rparr>)),
     (Some ''server.database.pool.max_open'', (\<lambda>c. sv_MaxOpen c < 1), (\<lambda>c. c\<lparr>sv_MaxOpen := sv_MaxOpen DefaultConfig\<rparr>)),
     (Some ''server.database.pool.max_idle'', (\<lambda>c. sv_MaxIdle c < 1 \<or> sv_MaxOpen c < sv_MaxIdle c), (\<lambda>c. c\<lparr>sv_MaxIdle := sv_MaxIdle DefaultConfig\<rparr>)),
     (Some ''server.logging.level'', (\<lambda>c. sv_LogLevel c \<notin> {''error'', ''warn'', ''info'', ''debug''}), (\<lambda>c. c\<lparr>sv_LogLevel := sv_LogLevel DefaultConfig\<rparr>)),
     (Some ''server.mode'', (\<lambda>c. sv_Mode c = []), (\<lambda>c. c\<lparr>sv_Mode := sv_Mode DefaultConfig\<rparr>)),
     (Some ''web.security.keyservers'', (\<lambda>c. sv_Keyservers c = []), (\<lambda>c. c\<lparr>sv_Keyservers := sv_Keyservers DefaultConfig\<rparr>)),
     (Some ''data.cve.source'', (\<lambda>c. sv_CVE_Source c = []), (\<lambda>c. c\<lparr>sv_CVE_Source := sv_CVE_Source DefaultConfig\<rparr>)),
     (Some ''web.csp.mode'', (\<lambda>c. ToLower (TrimSpace (sv_CSP_Mode c)) \<notin> {[], ''enforce'', ''report-only'', ''report_only'', ''reportonly''}),
        (\<lambda>c. c\<lparr>sv_CSP_Mode := sv_CSP_Mode DefaultConfig\<rparr>)),
     (Some ''web.hsts.max_age_seconds'', (\<lambda>c. sv_HSTS_MaxAge c < 1), (\<lambda>c. c\<lparr>sv_HSTS_MaxAge := sv_HSTS_MaxAge DefaultConfig\<rparr>)),
     (Some ''web.headers.nel.max_age_seconds'', (\<lambda>c. sv_NEL_MaxAge c < 1), (\<lambda>c. c\<lparr>sv_NEL_MaxAge := sv_NEL_MaxAge DefaultConfig\<rparr>)),
     (Some ''web.headers.nel.sample_rate'', (\<lambda>c. float_below (sv_NEL_SampleRate c) 0 \<or> float_above (sv_NEL_SampleRate c) 1),
        (\<lambda>c. c\<lparr>sv_NEL_SampleRate := sv_NEL_SampleRate DefaultConfig\<rparr>)),
     (Some ''web.csp.reports_sample_rate'', (\<lambda>c. float_below (sv_CSP_SampleRate c) 0 \<or> float_above (sv_CSP_SampleRate c) 1),
        (\<lambda>c. c\<lparr>sv_CSP_SampleRate := sv_CSP_SampleRate DefaultConfig\<rparr>)),
     (Some ''web.reports.rate_limit_per_minute'', (\<lambda>c. sv_ReportsPerMinute c < 1), (\<lambda>c. c\<lparr>sv_ReportsPerMinute := sv_ReportsPerMinute DefaultConfig\<rparr>)),
     (Some ''web.reports.rate_limit_per_ip_burst'', (\<lambda>c. sv_ReportsBurst c < 1), (\<lambda>c. c\<lparr>sv_ReportsBurst := sv_ReportsBurst DefaultConfig\<rparr>)),
     (None, (\<lambda>c. sv_Permissions c = []), (\<lambda>c. c\<lparr>sv_Permissions := sv_Permissions DefaultConfig\<rparr>))]"

definition check_branch :: "AppConfig \<Rightarrow> AppConfig \<times> string list" where
  "check_branch cfg =
     (let branch = sv_Update_Branch cfg;
          branch = (if TrimSpace branch = [] then sv_UpdateBranch cfg else branch);
          branch = (if TrimSpace branch = [] then ''stable'' else branch);
          warned = (if Normalize branch = None then [''server.update.branch''] else []);
          c = (case Normalize branch of Some c \<Rightarrow> c | None \<Rightarrow> ''stable'') in
      (cfg\<lparr>sv_Update_Branch := c, sv_UpdateBranch := c\<rparr>, warned))"

definition check_tracking :: "host_parser \<Rightarrow> (string \<Rightarrow> bool) \<Rightarrow> AppConfig \<times> string list \<Rightarrow> AppConfig \<times> string list" where
  "check_tracking ph uuid s = (case s of (cfg, warned) \<Rightarrow>
     (case ValidateTracking ph uuid (sv_Tracking cfg) of
        (None, t) \<Rightarrow> (cfg\<lparr>sv_Tracking := t\<rparr>, warned)
      | (Some e, t) \<Rightarrow> (cfg\<lparr>sv_Tracking := sv_Tracking DefaultConfig\<rparr>, warned @ [''server.tracking''])))"

text \<open>
  The whole of \<open>validateConfig\<close>, with the keys warned about. The codes of search engines are looked at here only for
  their warnings, which are those of \<open>ValidVerificationCodes\<close>; a dropped allowlist entry is warned about by itself.
\<close>

definition validateConfig :: "host_parser \<Rightarrow> (string \<Rightarrow> bool) \<Rightarrow> AppConfig \<Rightarrow> AppConfig \<times> string list" where
  "validateConfig ph uuid cfg =
     (case fold run_check config_checks (check_tracking ph uuid (check_branch cfg)) of (cfg, warned) \<Rightarrow>
        (cfg\<lparr>sv_Allowlist := validateAllowlist (sv_Allowlist cfg)\<rparr>, warned))"

definition applyRuntimeDatabaseEnv :: "(string \<Rightarrow> string) \<Rightarrow> AppConfig \<Rightarrow> AppConfig" where
  "applyRuntimeDatabaseEnv getenv cfg =
     (let cfg = (if getenv ''DATABASE_DRIVER'' \<noteq> [] then cfg\<lparr>sv_Driver := getenv ''DATABASE_DRIVER''\<rparr> else cfg) in
      if getenv ''DATABASE_URL'' \<noteq> [] then cfg\<lparr>sv_DatabaseURL := getenv ''DATABASE_URL''\<rparr> else cfg)"

definition NormalizedDriver :: "AppConfig \<Rightarrow> string" where
  "NormalizedDriver cfg =
     (if ToLower (sv_Driver cfg) \<in> {''sqlite'', ''sqlite2'', ''sqlite3'', []} then ''sqlite''
      else if ToLower (sv_Driver cfg) \<in> {''libsql'', ''turso''} then ''libsql'' else sv_Driver cfg)"

definition ValidateLibSQL :: "AppConfig \<Rightarrow> bool" where
  "ValidateLibSQL cfg \<longleftrightarrow> NormalizedDriver cfg \<noteq> ''libsql'' \<or> sv_DatabaseURL cfg \<noteq> []"

section \<open>Checks in sequence\<close>

abbreviation chk_key :: "config_check \<Rightarrow> string option" where "chk_key k \<equiv> fst k"
abbreviation chk_bad :: "config_check \<Rightarrow> AppConfig \<Rightarrow> bool" where "chk_bad k \<equiv> fst (snd k)"
abbreviation chk_fix :: "config_check \<Rightarrow> AppConfig \<Rightarrow> AppConfig" where "chk_fix k \<equiv> snd (snd k)"

lemma run_check_fst: "fst (run_check k s) = (if chk_bad k (fst s) then chk_fix k (fst s) else fst s)"
  by (auto simp: run_check_def split: prod.splits)

lemma fold_keeps:
  "\<forall>k \<in> set ks. \<forall>c. P c \<longrightarrow> P (chk_fix k c) \<Longrightarrow> P (fst s) \<Longrightarrow> P (fst (fold run_check ks s))"
  by (induction ks arbitrary: s) (auto simp: run_check_fst)

text \<open>
  Checks with what each establishes: it holds when the setting is not invalid and when it was replaced, and no later
  replacement undoes it.
\<close>

definition establishes :: "config_check \<Rightarrow> (AppConfig \<Rightarrow> bool) \<Rightarrow> bool" where
  "establishes k Q \<longleftrightarrow> (\<forall>c. (\<not> chk_bad k c \<longrightarrow> Q c) \<and> Q (chk_fix k c))"

lemma fold_establishes:
  assumes "list_all (\<lambda>(k, Q). establishes k Q) kqs"
    and "sorted_wrt (\<lambda>(k, Q) (k', Q'). \<forall>c. Q c \<longrightarrow> Q (chk_fix k' c)) kqs"
  shows "\<forall>(k, Q) \<in> set kqs. Q (fst (fold run_check (map fst kqs) s))"
  using assms
proof (induction kqs arbitrary: s)
  case (Cons p kqs)
  obtain k Q where p: "p = (k, Q)" by fastforce
  have "Q (fst (run_check k s))" using Cons.prems(1) p by (auto simp: establishes_def run_check_fst)
  then have "Q (fst (fold run_check (map fst kqs) (run_check k s)))"
    by (rule fold_keeps [rotated]) (use Cons.prems(2) p in auto)
  then show ?case using Cons.IH Cons.prems p by auto
qed simp

lemma fold_idle: "\<forall>k \<in> set ks. \<not> chk_bad k (fst s) \<Longrightarrow> fold run_check ks s = s"
proof (induction ks)
  case (Cons k ks)
  then have "run_check k s = s" by (cases k; cases s) (simp add: run_check_def)
  with Cons show ?case by simp
qed simp

lemma run_check_warned: "\<exists>ws. snd (run_check k s) = snd s @ ws \<and> (chk_key k \<noteq> None \<longrightarrow> ws = [] \<longrightarrow> \<not> chk_bad k (fst s))"
  by (auto simp: run_check_def split: prod.splits option.splits)

text \<open>Without a warning only the silent checks have replaced anything.\<close>

lemma fold_silent:
  "snd (fold run_check ks s) = [] \<Longrightarrow> fold run_check ks s = fold run_check (filter (\<lambda>k. chk_key k = None) ks) s \<and> snd s = []"
proof (induction ks arbitrary: s)
  case (Cons k ks)
  then have ih: "fold run_check ks (run_check k s) = fold run_check (filter (\<lambda>k. chk_key k = None) ks) (run_check k s)" "snd (run_check k s) = []"
    by auto
  then have "snd s = []" "chk_key k \<noteq> None \<Longrightarrow> \<not> chk_bad k (fst s)" using run_check_warned [of k s] by auto
  moreover from this have "chk_key k \<noteq> None \<Longrightarrow> run_check k s = s" by (cases k; cases s) (simp add: run_check_def)
  ultimately show ?case using ih by (cases "chk_key k") auto
qed simp

section \<open>Validated configurations\<close>

text \<open>What each of the checks establishes, in the same order.\<close>

definition check_posts :: "(AppConfig \<Rightarrow> bool) list" where
  "check_posts =
    [(\<lambda>c. TrimSpace (sv_Title c) \<noteq> []), (\<lambda>c. 1 \<le> sv_MaxURLs c \<and> sv_MaxURLs c \<le> 50000),
     (\<lambda>c. sv_Cache_Type c \<in> {''none'', ''memory'', ''valkey'', ''redis''}), (\<lambda>c. 1 \<le> sv_Cache_PoolSize c),
     (\<lambda>c. 1 \<le> sv_DiskThreshold c \<and> sv_DiskThreshold c \<le> 100), (\<lambda>c. 1 \<le> sv_LogRetentionDays c),
     (\<lambda>c. sv_Driver c \<in> {''sqlite'', ''sqlite2'', ''sqlite3'', ''libsql'', ''turso''}), (\<lambda>c. 1 \<le> sv_MaxOpen c),
     (\<lambda>c. 1 \<le> sv_MaxIdle c \<and> (sv_MaxOpen c = 1 \<longrightarrow> sv_MaxIdle c \<le> 2) \<and> (2 \<le> sv_MaxOpen c \<longrightarrow> sv_MaxIdle c \<le> sv_MaxOpen c)),
     (\<lambda>c. sv_LogLevel c \<in> {''error'', ''warn'', ''info'', ''debug''}), (\<lambda>c. sv_Mode c \<noteq> []), (\<lambda>c. sv_Keyservers c \<noteq> []),
     (\<lambda>c. sv_CVE_Source c \<noteq> []),
     (\<lambda>c. ToLower (TrimSpace (sv_CSP_Mode c)) \<in> {[], ''enforce'', ''report-only'', ''report_only'', ''reportonly''}),
     (\<lambda>c. 1 \<le> sv_HSTS_MaxAge c), (\<lambda>c. 1 \<le> sv_NEL_MaxAge c),
     (\<lambda>c. sv_NEL_SampleRate c = NotANumber \<or> (\<exists>q. sv_NEL_SampleRate c = Finite q \<and> 0 \<le> q \<and> q \<le> 1)),
     (\<lambda>c. sv_CSP_SampleRate c = NotANumber \<or> (\<exists>q. sv_CSP_SampleRate c = Finite q \<and> 0 \<le> q \<and> q \<le> 1)),
     (\<lambda>c. 1 \<le> sv_ReportsPerMinute c), (\<lambda>c. 1 \<le> sv_ReportsBurst c), (\<lambda>c. sv_Permissions c \<noteq> [])]"

lemma checks_establish: "list_all (\<lambda>(k, Q). establishes k Q) (zip config_checks check_posts)"
  by (auto simp: config_checks_def check_posts_def establishes_def DefaultConfig_def DefaultPermissionsPolicy_def str_simps
      float_below_def float_above_def split: yaml_float.splits)

lemma checks_independent: "sorted_wrt (\<lambda>(k, Q) (k', Q'). \<forall>c. Q c \<longrightarrow> Q (chk_fix k' c)) (zip config_checks check_posts)"
  by (simp add: config_checks_def check_posts_def)

definition checked_settings :: "AppConfig \<Rightarrow> bool" where
  "checked_settings c \<longleftrightarrow> list_all (\<lambda>Q. Q c) check_posts"

lemma fold_checked: "checked_settings (fst (fold run_check config_checks s))"
proof -
  have l: "length config_checks = length check_posts" by (simp add: config_checks_def check_posts_def)
  have "\<forall>(k, Q) \<in> set (zip config_checks check_posts). Q (fst (fold run_check config_checks s))"
    using fold_establishes [OF checks_establish checks_independent, of s] l by simp
  then show ?thesis using l by (auto simp: checked_settings_def list_all_iff) (metis in_set_impl_in_set_zip2 case_prodD)
qed

lemma fold_other:
  assumes "fold run_check config_checks (c, ws) = (c', ws')"
  shows "sv_Allowlist c' = sv_Allowlist c" "sv_Tracking c' = sv_Tracking c" "sv_Update_Branch c' = sv_Update_Branch c"
    "sv_UpdateBranch c' = sv_UpdateBranch c" "sv_DatabaseURL c' = sv_DatabaseURL c"
proof -
  have k: "P c \<Longrightarrow> (\<And>k c. k \<in> set config_checks \<Longrightarrow> P c \<Longrightarrow> P (chk_fix k c)) \<Longrightarrow> P c'" for P
    using fold_keeps [of config_checks P "(c, ws)"] assms by auto
  show "sv_Allowlist c' = sv_Allowlist c" by (rule k) (auto simp: config_checks_def)
  show "sv_Tracking c' = sv_Tracking c" by (rule k) (auto simp: config_checks_def)
  show "sv_Update_Branch c' = sv_Update_Branch c" by (rule k) (auto simp: config_checks_def)
  show "sv_UpdateBranch c' = sv_UpdateBranch c" by (rule k) (auto simp: config_checks_def)
  show "sv_DatabaseURL c' = sv_DatabaseURL c" by (rule k) (auto simp: config_checks_def)
qed

lemma is_space_lower: "is_space (lower_char c) = is_space c"
  by (auto simp: is_space_def lower_char_def Let_def of_char_of)

lemma TrimSpace_ToLower: "TrimSpace (ToLower s) = ToLower (TrimSpace s)"
  by (simp add: TrimSpace_def TrimFunc_def TrimRightFunc_def TrimLeftFunc_def ToLower_def dropWhile_map rev_map comp_def is_space_lower)

lemma tracking_idem: "ValidateTracking ph uuid t = (None, t') \<Longrightarrow> ValidateTracking ph uuid t' = (None, t')"
  by (auto simp: ValidateTracking_def Let_def TrimSpace_ToLower)


text \<open>
  Without a warning the settings are the ones that were written, apart from the spelling of the channel and
  of tracking, a blank title, an empty permissions policy and dropped allowlist ranges.
\<close>

theorem unwarned_settings_kept:
  assumes "validateConfig ph uuid cfg = (c, [])"
  shows "c = cfg\<lparr>sv_Update_Branch := sv_Update_Branch c, sv_UpdateBranch := sv_UpdateBranch c,
    sv_Tracking := snd (ValidateTracking ph uuid (sv_Tracking cfg)),
    sv_Title := (if TrimSpace (sv_Title cfg) = [] then ''ipgaze'' else sv_Title cfg),
    sv_Permissions := (if sv_Permissions cfg = [] then DefaultPermissionsPolicy else sv_Permissions cfg),
    sv_Allowlist := validateAllowlist (sv_Allowlist cfg)\<rparr>"
proof -
  obtain b wb where b: "check_branch cfg = (b, wb)" by fastforce
  obtain t wt where t: "check_tracking ph uuid (b, wb) = (t, wt)" by fastforce
  obtain d where d: "fold run_check config_checks (t, wt) = (d, [])" and c: "c = d\<lparr>sv_Allowlist := validateAllowlist (sv_Allowlist d)\<rparr>"
    using assms b t by (auto simp: validateConfig_def split: prod.splits)
  from fold_silent [of config_checks "(t, wt)"] d have s: "fold run_check (filter (\<lambda>k. chk_key k = None) config_checks) (t, wt) = (d, [])" "wt = []"
    by auto
  have "b = cfg\<lparr>sv_Update_Branch := sv_Update_Branch b, sv_UpdateBranch := sv_UpdateBranch b\<rparr>"
    using b by (auto simp: check_branch_def Let_def)
  moreover have "t = b\<lparr>sv_Tracking := snd (ValidateTracking ph uuid (sv_Tracking b))\<rparr>"
    using t s(2) by (auto simp: check_tracking_def split: prod.splits option.splits)
  moreover have "d = t\<lparr>sv_Title := (if TrimSpace (sv_Title t) = [] then ''ipgaze'' else sv_Title t),
      sv_Permissions := (if sv_Permissions t = [] then DefaultPermissionsPolicy else sv_Permissions t)\<rparr>"
    using s by (auto simp: config_checks_def run_check_def DefaultConfig_def split: if_splits)
  ultimately show ?thesis unfolding c by (cases cfg; cases b; cases t; cases d) auto
qed

text \<open>
  With a single open connection the replaced idle pool is larger than the open one, and a rate that is not a
  number passes the check of its range.
\<close>

lemma idle_pool_above_open:
  "fst (run_check (config_checks ! 8) (DefaultConfig\<lparr>sv_MaxOpen := 1, sv_MaxIdle := 3\<rparr>, [])) = DefaultConfig\<lparr>sv_MaxOpen := 1, sv_MaxIdle := 2\<rparr>"
  by (simp add: config_checks_def run_check_def DefaultConfig_def)

lemma not_a_number_accepted: "run_check (config_checks ! 16) (c\<lparr>sv_NEL_SampleRate := NotANumber\<rparr>, ws) = (c\<lparr>sv_NEL_SampleRate := NotANumber\<rparr>, ws)"
  by (simp add: config_checks_def run_check_def float_below_def float_above_def)

section \<open>How broad a range may be\<close>

lemma length_mask_bits [simp]: "length (mask_bits b) = 8"
  by (simp add: mask_bits_def)

lemma nth_mask_bits: "i < 8 \<Longrightarrow> mask_bits b ! i = bit b (7 - i)"
  unfolding mask_bits_def by (subst nth_map_upt) auto

lemma mask_bits_eqI: "length xs = 8 \<Longrightarrow> (\<And>i. i < 8 \<Longrightarrow> bit b (7 - i) = xs ! i) \<Longrightarrow> mask_bits b = xs"
  by (rule nth_equalityI) (auto simp: nth_mask_bits)

lemma full_byte: "(0xff :: u8) = - 1"
  by simp

lemma mask_bits_partial: "n < 8 \<Longrightarrow> mask_bits (NOT (drop_bit n 0xff)) = replicate n True @ replicate (8 - n) False"
  unfolding full_byte by (rule mask_bits_eqI) (auto simp: bit_simps nth_append)

lemma mask_bits_full: "mask_bits 0xff = replicate 8 True"
  unfolding full_byte by (rule mask_bits_eqI) (simp_all add: bit_simps)

lemma mask_ones_Cons:
  "mask_ones (b # m) = (if mask_bits b = replicate 8 True then 8 + mask_ones m else length (takeWhile (\<lambda>b. b) (mask_bits b)))"
proof -
  have "(\<forall>x \<in> set (mask_bits b). x) \<longleftrightarrow> mask_bits b = replicate 8 True"
    using replicate_eqI [of "mask_bits b" 8 True] by (metis in_set_replicate length_mask_bits)
  then show ?thesis by (simp add: mask_ones_def takeWhile_append)
qed

lemma mask_ones_CIDRMask: "n \<le> 8 * l \<Longrightarrow> mask_ones (CIDRMask_bytes l n) = n"
proof (induction l arbitrary: n)
  case (Suc l)
  show ?case
  proof (cases "8 \<le> n")
    case True
    with Suc show ?thesis by (simp add: mask_ones_Cons mask_bits_full)
  next
    case False
    then have "replicate n True @ replicate (8 - n) False \<noteq> replicate 8 True"
      by (metis in_set_conv_decomp in_set_replicate not_le replicate_empty Un_iff set_append zero_less_diff neq0_conv)
    with False show ?thesis by (simp add: mask_ones_Cons mask_bits_partial takeWhile_append)
  qed
qed (simp add: mask_ones_def)

text \<open>
  The IPv4 addresses written inside IPv6 escape the check: this range is not too broad, and yet it contains every
  IPv4 address.
\<close>

lemma mapped_range:
  "cidr_ip ''::ffff:0:0/96'' = Some (v4InV6Prefix @ [0, 0, 0, 0])"
  "ParseCIDR ''::ffff:0:0/96'' = Some \<lparr>net_IP = v4InV6Prefix @ [0, 0, 0, 0], net_Mask = CIDRMask_bytes 16 96\<rparr>"
  by (simp_all add: cidr_ip_def net_eval)

lemma mapped_range_not_broad: "\<not> isOverlyBroadAllowlistRange ''::ffff:0:0/96''"
  by (simp add: isOverlyBroadAllowlistRange_def mapped_range mask_ones_CIDRMask str_simps To4_def v4InV6Prefix_def)

lemma no_mask: "(- 256 :: u8) = 0"
  by simp

lemma mapped_mask: "CIDRMask_bytes 16 96 = [255, 255, 255, 255, 255, 255, 255, 255, 255, 255, 255, 255, 0, 0, 0, 0]"
  by (simp add: CIDRMask_bytes_numeral no_mask)

lemma mapped_range_contains:
  assumes "length b = 4" "ParseCIDR ''::ffff:0:0/96'' = Some n"
  shows "IPNet_Contains n (v4InV6Prefix @ b)"
proof -
  obtain b0 b1 b2 b3 where b: "b = [b0, b1, b2, b3]" using assms(1) by (auto simp: length_Suc_conv eval_nat_numeral)
  have n: "n = \<lparr>net_IP = v4InV6Prefix @ [0, 0, 0, 0], net_Mask = CIDRMask_bytes 16 96\<rparr>" using assms(2) by (simp add: mapped_range)
  show ?thesis
    unfolding n b mapped_mask
    by (simp add: IPNet_Contains_def networkNumberAndMask_def To4_def v4InV6Prefix_def Let_def)
qed

text \<open>A configuration with several invalid settings and two broad ranges, one of them confirmed.\<close>

definition sample_config :: AppConfig where
  "sample_config = DefaultConfig\<lparr>sv_Cache_Type := ''disk'', sv_MaxOpen := 0, sv_Update_Branch := '' Beta '',
     sv_Tracking := \<lparr>tk_Type = ''google'', tk_ID = ''x'', tk_URL = []\<rparr>,
     sv_Allowlist := [\<lparr>ae_CIDR = ''0.0.0.0/0'', ae_Description = [], ae_Confirmed = False\<rparr>, \<lparr>ae_CIDR = ''10.0.0.0/4'', ae_Description = [], ae_Confirmed = True\<rparr>]\<rparr>"


theorem unwarned_settings_kept_witness:
  "validateConfig (\<lambda>_ h. Some h) (\<lambda>_. True) DefaultConfig = (DefaultConfig, [])
     \<and> sv_MaxURLs (fst (validateConfig (\<lambda>_ h. Some h) (\<lambda>_. True) DefaultConfig)) = sv_MaxURLs DefaultConfig"
proof -
  have b: "check_branch DefaultConfig = (DefaultConfig, [])"
    by (simp add: check_branch_def DefaultConfig_def Normalize_def Let_def str_simps)
  have t: "check_tracking (\<lambda>_ h. Some h) (\<lambda>_. True) (DefaultConfig, []) = (DefaultConfig, [])"
    by (simp add: check_tracking_def DefaultConfig_def ValidateTracking_def str_simps)
  have "fold run_check config_checks (DefaultConfig, []) = (DefaultConfig, [])"
    by (rule fold_idle) (simp add: config_checks_def DefaultConfig_def DefaultPermissionsPolicy_def float_below_def float_above_def str_simps)
  then have v: "validateConfig (\<lambda>_ h. Some h) (\<lambda>_. True) DefaultConfig = (DefaultConfig, [])"
    by (simp add: validateConfig_def b t) (simp add: DefaultConfig_def validateAllowlist_def)
  then show ?thesis using unwarned_settings_kept [OF v] by simp
qed

end
