(* ===== verification/BackupArchive.thy ===== *)
theory BackupArchive
  imports SafePaths Secrets "HOL-Library.List_Lexorder" "HOL-Library.Sublist"
begin

text \<open>
  Backup archives: \<open>backup_crypto.go\<close> and the verification of a new backup in \<open>main.go\<close>. A disk is a list of
  paths with what stands there, a path the list of its elements below the root; directories are named by
  absolute path strings as in the source. The tar and gzip formats, SHA-256, Argon2id, AES-GCM and the JSON
  of the manifest are arguments, as are the sizes of the configured limits (\<open>parseByteSize\<close> computes in
  floating point) and the comparison of the compression ratio, for the same reason.
\<close>

section \<open>Encryption\<close>

datatype archive_error =
  EmptyPassword | NoRandomBytes | ArchiveTooShort | WrongPassword | NoTerminal | PasswordMissing | ComplianceBlocked
| NotADirectory string | CannotRead string | CannotMarshal
| ArchiveTooLarge | NotGzip | BadTar | EntryTooLarge | TooManyFiles | ExpandedTooLarge | RatioTooLarge | EscapesDestination
| CannotCreate | ShortEntry | CannotClose
| FileMissing | FileEmpty | NoManifest | BadManifest | SecretsUndeclared | SecretsNotRestored | NothingExtracted | ChecksumMismatch
| NoDatabase | DatabaseDamaged

definition backupSaltLen :: nat where
  "backupSaltLen = 16"

definition backupNonceLen :: nat where
  "backupNonceLen = 12"

text \<open>The two random draws; \<open>ae_kdf\<close> is \<open>deriveBackupKey\<close> of a password and a salt.\<close>

definition encryptBackupArchive :: "aead \<Rightarrow> string option \<Rightarrow> string option \<Rightarrow> string \<Rightarrow> string \<Rightarrow> archive_error + string" where
  "encryptBackupArchive a salt nonce plaintext password =
     (if password = [] then Inl EmptyPassword
      else case (salt, nonce) of
        (Some s, Some n) \<Rightarrow> Inr (s @ n @ ae_seal a (ae_kdf a password s) n plaintext)
      | _ \<Rightarrow> Inl NoRandomBytes)"

definition decryptBackupArchive :: "aead \<Rightarrow> string \<Rightarrow> string \<Rightarrow> archive_error + string" where
  "decryptBackupArchive a data password =
     (if length data < backupSaltLen + backupNonceLen then Inl ArchiveTooShort
      else if password = [] then Inl EmptyPassword
      else
        (let salt = take backupSaltLen data;
             nonce = take backupNonceLen (drop backupSaltLen data);
             ciphertext = drop (backupSaltLen + backupNonceLen) data in
         case ae_open a (ae_kdf a password salt) nonce ciphertext of
           None \<Rightarrow> Inl WrongPassword
         | Some plaintext \<Rightarrow> Inr plaintext))"

text \<open>The settings the password depends on; \<open>prompt\<close> is what the terminal gives, \<open>None\<close> when there is none or it fails.\<close>

record backup_settings =
  bs_Compliance :: bool
  bs_Enabled :: bool
  bs_Password :: string

definition resolveBackupEncryptionPassword :: "backup_settings option \<Rightarrow> bool \<Rightarrow> string option \<Rightarrow> archive_error + string" where
  "resolveBackupEncryptionPassword cfg interactive prompt =
     (case cfg of
        None \<Rightarrow> Inr []
      | Some c \<Rightarrow>
          (let configured = bs_Password c; encConfigured = bs_Enabled c \<or> configured \<noteq> [] in
           if encConfigured \<and> interactive then (case prompt of None \<Rightarrow> Inl NoTerminal | Some pw \<Rightarrow> Inr pw)
           else if encConfigured then (if configured = [] then Inl PasswordMissing else Inr configured)
           else if bs_Compliance c then Inl ComplianceBlocked
           else Inr []))"

section \<open>What is archived\<close>

record backupArchiveLayout =
  bl_configDir :: string
  bl_dataDir :: string
  bl_dbDir :: string
  bl_includeSSL :: bool
  bl_includeData :: bool

definition sslDir :: "backupArchiveLayout \<Rightarrow> string" where
  "sslDir l = path_Join (bl_configDir l) ''ssl''"

definition isUnderDir :: "string \<Rightarrow> string \<Rightarrow> bool" where
  "isUnderDir path dir \<longleftrightarrow>
     path \<noteq> [] \<and> dir \<noteq> [] \<and> (Clean path = Clean dir \<or> HasPrefix (Clean path) (Clean dir @ [slash]))"

definition dbNestedInData :: "backupArchiveLayout \<Rightarrow> bool" where
  "dbNestedInData l = isUnderDir (bl_dbDir l) (bl_dataDir l)"

definition configExcludes :: "backupArchiveLayout \<Rightarrow> string list" where
  "configExcludes l = (if bl_includeSSL l then [] else [sslDir l])"

definition dataExcludes :: "backupArchiveLayout \<Rightarrow> string list" where
  "dataExcludes l = (if dbNestedInData l then [bl_dbDir l] else [])"

definition isExcludedPath :: "string \<Rightarrow> string list \<Rightarrow> bool" where
  "isExcludedPath p excludes = list_ex (isUnderDir p) excludes"

section \<open>The disk\<close>

type_synonym fpath = "string list"

datatype fentry = FileE string | DirE | LinkE "fentry option"

type_synonym disk = "(fpath \<times> fentry) list"

abbreviation os_path :: "fpath \<Rightarrow> string" where
  "os_path q \<equiv> render True q"

text \<open>\<open>os.Stat\<close> follows a link, \<open>Lstat\<close> does not; a link knows what it leads to.\<close>

definition lstat :: "disk \<Rightarrow> string \<Rightarrow> fentry option" where
  "lstat d p = map_of d (elems p)"

definition stat :: "disk \<Rightarrow> string \<Rightarrow> fentry option" where
  "stat d p = (case lstat d p of Some (LinkE x) \<Rightarrow> x | x \<Rightarrow> x)"

definition fileExists :: "disk \<Rightarrow> string \<Rightarrow> bool" where
  "fileExists d p \<longleftrightarrow> stat d p \<noteq> None \<and> stat d p \<noteq> Some DirE"

definition dirExists :: "disk \<Rightarrow> string \<Rightarrow> bool" where
  "dirExists d p \<longleftrightarrow> stat d p = Some DirE"

text \<open>
  \<open>filepath.Walk\<close> visits a directory before what is in it and the entries of a directory in the order of their
  names, which is the lexicographic order of the element lists. An excluded directory is skipped with all
  that is below it.
\<close>

definition walk :: "disk \<Rightarrow> string \<Rightarrow> string list \<Rightarrow> (fpath \<times> fentry) list" where
  "walk d dir excludes =
     filter (\<lambda>(q, _). \<not> isExcludedPath (os_path q) excludes) (sort_key fst (filter (\<lambda>(q, _). prefix (elems dir) q) d))"

fun file_contents :: "(fpath \<Rightarrow> bool) \<Rightarrow> (fpath \<times> fentry) list \<Rightarrow> archive_error + string" where
  "file_contents readable [] = Inr []"
| "file_contents readable ((q, FileE c) # es) =
     (if \<not> readable q then Inl (CannotRead (os_path q))
      else case file_contents readable es of Inl e \<Rightarrow> Inl e | Inr s \<Rightarrow> Inr (c @ s))"
| "file_contents readable (_ # es) = file_contents readable es"

text \<open>The bytes that a directory feeds into the digest.\<close>

definition hashBackupDirInto :: "(fpath \<Rightarrow> bool) \<Rightarrow> disk \<Rightarrow> string \<Rightarrow> string list \<Rightarrow> archive_error + string" where
  "hashBackupDirInto readable d dir excludes =
     (case stat d dir of
        None \<Rightarrow> Inr []
      | Some DirE \<Rightarrow> file_contents readable (walk d dir excludes)
      | Some _ \<Rightarrow> Inl (NotADirectory dir))"

definition and_then :: "archive_error + 'a \<Rightarrow> ('a \<Rightarrow> archive_error + 'b) \<Rightarrow> archive_error + 'b" where
  "and_then x f = (case x of Inl e \<Rightarrow> Inl e | Inr a \<Rightarrow> f a)"

definition content_bytes :: "(fpath \<Rightarrow> bool) \<Rightarrow> disk \<Rightarrow> backupArchiveLayout \<Rightarrow> archive_error + string" where
  "content_bytes readable d l =
     and_then (hashBackupDirInto readable d (bl_configDir l) (configExcludes l)) (\<lambda>c.
     and_then (hashBackupDirInto readable d (bl_dbDir l) []) (\<lambda>b.
     if bl_includeData l then and_then (hashBackupDirInto readable d (bl_dataDir l) (dataExcludes l)) (\<lambda>a. Inr (c @ b @ a))
     else Inr (c @ b)))"

definition computeBackupContentChecksum :: "(string \<Rightarrow> string) \<Rightarrow> (fpath \<Rightarrow> bool) \<Rightarrow> disk \<Rightarrow> backupArchiveLayout \<Rightarrow> archive_error + string" where
  "computeBackupContentChecksum sha256 readable d l =
     and_then (content_bytes readable d l) (\<lambda>s. Inr (''sha256:'' @ hex_EncodeToString (sha256 s)))"

definition backupArchiveContents :: "disk \<Rightarrow> backupArchiveLayout \<Rightarrow> string list" where
  "backupArchiveContents d l =
     (if fileExists d (path_Join (bl_configDir l) ''server.yml'') then [''server.yml''] else [])
     @ (if dirExists d (bl_dbDir l) then [''server.db''] else [])
     @ (if dirExists d (path_Join (bl_configDir l) ''template'') then [''template/''] else [])
     @ (if dirExists d (path_Join (bl_configDir l) ''theme'') then [''theme/''] else [])
     @ (if dirExists d (path_Join (bl_configDir l) ''security'') then [''security/''] else [])
     @ (if bl_includeSSL l \<and> dirExists d (sslDir l) then [''ssl/''] else [])
     @ (if bl_includeData l \<and> dirExists d (bl_dataDir l) then [''data/''] else [])"

section \<open>Building\<close>

datatype tar_type = TypeReg | TypeDir | TypeOther

text \<open>An entry with the size its header states and the bytes that follow.\<close>

record tar_entry =
  te_Name :: string
  te_Type :: tar_type
  te_Size :: int
  te_Data :: string

record backup_manifest =
  mf_Fields :: "(string \<times> string) list"
  mf_Required :: "string list option"
  mf_Checksum :: string
  mf_Contents :: "string list"

definition addBackupFileToTar :: "string \<Rightarrow> string \<Rightarrow> tar_entry" where
  "addBackupFileToTar name data = \<lparr>te_Name = name, te_Type = TypeReg, te_Size = int (length data), te_Data = data\<rparr>"

definition dir_header :: "string \<Rightarrow> tar_entry" where
  "dir_header name = \<lparr>te_Name = name @ [slash], te_Type = TypeDir, te_Size = 0, te_Data = []\<rparr>"

text \<open>The name of a visited path: the prefix, with the path relative to the source directory below it.\<close>

definition entry_name :: "string \<Rightarrow> string \<Rightarrow> fpath \<Rightarrow> string" where
  "entry_name srcDir archivePrefix q =
     (let rel = drop (length (elems srcDir)) q in if rel = [] then archivePrefix else path_Join archivePrefix (Join rel [slash]))"

fun dir_entries :: "(fpath \<Rightarrow> bool) \<Rightarrow> (fpath \<Rightarrow> string) \<Rightarrow> (fpath \<times> fentry) list \<Rightarrow> archive_error + tar_entry list" where
  "dir_entries readable name [] = Inr []"
| "dir_entries readable name ((q, DirE) # es) =
     (case dir_entries readable name es of Inl e \<Rightarrow> Inl e | Inr ts \<Rightarrow> Inr (dir_header (name q) # ts))"
| "dir_entries readable name ((q, LinkE _) # es) = dir_entries readable name es"
| "dir_entries readable name ((q, FileE c) # es) =
     (if \<not> readable q then Inl (CannotRead (os_path q))
      else case dir_entries readable name es of Inl e \<Rightarrow> Inl e | Inr ts \<Rightarrow> Inr (addBackupFileToTar (name q) c # ts))"

definition addBackupDirToTar :: "(fpath \<Rightarrow> bool) \<Rightarrow> disk \<Rightarrow> string \<Rightarrow> string \<Rightarrow> string list \<Rightarrow> archive_error + tar_entry list" where
  "addBackupDirToTar readable d srcDir archivePrefix excludes =
     (case stat d srcDir of
        None \<Rightarrow> Inr []
      | Some DirE \<Rightarrow> dir_entries readable (entry_name srcDir archivePrefix) (walk d srcDir excludes)
      | Some _ \<Rightarrow> Inl (NotADirectory srcDir))"

text \<open>\<open>filepath.Base\<close>.\<close>

definition path_Base :: "string \<Rightarrow> string" where
  "path_Base p =
     (if p = [] then ''.''
      else let q = TrimRightFunc (\<lambda>c. c = slash) p in if q = [] then ''/'' else last (SplitByte q slash))"

definition archive_entries :: "(fpath \<Rightarrow> bool) \<Rightarrow> disk \<Rightarrow> backupArchiveLayout \<Rightarrow> archive_error + tar_entry list" where
  "archive_entries readable d l =
     and_then (addBackupDirToTar readable d (bl_configDir l) (path_Base (bl_configDir l)) (configExcludes l)) (\<lambda>c.
     and_then (addBackupDirToTar readable d (bl_dbDir l) ''db'' []) (\<lambda>b.
     if bl_includeData l
     then and_then (addBackupDirToTar readable d (bl_dataDir l) (path_Base (bl_dataDir l)) (dataExcludes l)) (\<lambda>a. Inr (c @ b @ a))
     else Inr (c @ b)))"

text \<open>What the formats do: the manifest's JSON and the packing of entries with their inverses, and the digest.\<close>

record archive_format =
  af_Marshal :: "backup_manifest \<Rightarrow> string option"
  af_Unmarshal :: "string \<Rightarrow> backup_manifest option"
  af_Pack :: "tar_entry list \<Rightarrow> string"
  af_Unpack :: "string \<Rightarrow> (tar_entry list \<times> bool) option"
  af_Sha256 :: "string \<Rightarrow> string"

definition buildBackupArchive ::
  "archive_format \<Rightarrow> (fpath \<Rightarrow> bool) \<Rightarrow> disk \<Rightarrow> backup_manifest \<Rightarrow> backupArchiveLayout \<Rightarrow> archive_error + string" where
  "buildBackupArchive f readable d manifest l =
     and_then (computeBackupContentChecksum (af_Sha256 f) readable d l) (\<lambda>checksum.
     case af_Marshal f (manifest\<lparr>mf_Checksum := checksum, mf_Contents := backupArchiveContents d l\<rparr>) of
       None \<Rightarrow> Inl CannotMarshal
     | Some bytes \<Rightarrow>
         and_then (archive_entries readable d l) (\<lambda>es. Inr (af_Pack f (addBackupFileToTar ''manifest.json'' bytes # es))))"

section \<open>Extraction\<close>

record BackupRestoreLimits =
  rl_MaxArchiveSize :: int
  rl_MaxExpandedSize :: int
  rl_MaxFiles :: int
  rl_MaxFileSize :: int
  rl_MaxRatio :: int

definition defaultBackupRestoreLimits :: BackupRestoreLimits where
  "defaultBackupRestoreLimits = \<lparr>rl_MaxArchiveSize = 2 ^ 30, rl_MaxExpandedSize = 4 * 2 ^ 30, rl_MaxFiles = 10000,
     rl_MaxFileSize = 512 * 2 ^ 20, rl_MaxRatio = 100\<rparr>"

record RestoreConfig =
  rs_MaxArchiveSize :: string
  rs_MaxExpandedSize :: string
  rs_MaxFiles :: int
  rs_MaxFileSize :: string
  rs_MaxRatio :: int

definition positive_size :: "int option \<Rightarrow> int \<Rightarrow> int" where
  "positive_size found dflt = (case found of None \<Rightarrow> dflt | Some n \<Rightarrow> if 0 < n then n else dflt)"

definition backupRestoreLimits :: "(string \<Rightarrow> int option) \<Rightarrow> RestoreConfig option \<Rightarrow> BackupRestoreLimits" where
  "backupRestoreLimits byteSize cfg =
     (let limits = defaultBackupRestoreLimits in
      case cfg of
        None \<Rightarrow> limits
      | Some s \<Rightarrow>
          \<lparr>rl_MaxArchiveSize = positive_size (byteSize (rs_MaxArchiveSize s)) (rl_MaxArchiveSize limits),
           rl_MaxExpandedSize = positive_size (byteSize (rs_MaxExpandedSize s)) (rl_MaxExpandedSize limits),
           rl_MaxFiles = (if 0 < rs_MaxFiles s then rs_MaxFiles s else rl_MaxFiles limits),
           rl_MaxFileSize = positive_size (byteSize (rs_MaxFileSize s)) (rl_MaxFileSize limits),
           rl_MaxRatio = (if 0 < rs_MaxRatio s then rs_MaxRatio s else rl_MaxRatio limits)\<rparr>)"

text \<open>
  \<open>MkdirAll\<close> makes the missing directories down to a path; \<open>put\<close> opens a file for writing, with what it holds
  then. Which of the two calls and of the closing succeed is an argument.
\<close>

definition set_entry :: "fpath \<Rightarrow> fentry \<Rightarrow> disk \<Rightarrow> disk" where
  "set_entry q x d = filter (\<lambda>(p, _). p \<noteq> q) d @ [(q, x)]"

definition mkdir_all :: "fpath \<Rightarrow> disk \<Rightarrow> disk" where
  "mkdir_all q d = d @ map (\<lambda>p. (p, DirE)) (filter (\<lambda>p. map_of d p = None) (prefixes q))"

record disk_calls =
  dc_Mkdir :: "fpath \<Rightarrow> bool"
  dc_Open :: "fpath \<Rightarrow> bool"
  dc_Close :: "fpath \<Rightarrow> bool"

definition extract_entry :: "disk_calls \<Rightarrow> string \<Rightarrow> tar_entry \<Rightarrow> disk \<Rightarrow> archive_error option \<times> disk" where
  "extract_entry os target e d =
     (let q = elems target in
      case te_Type e of
        TypeDir \<Rightarrow> if \<not> dc_Mkdir os q then (Some CannotCreate, d) else (None, mkdir_all q d)
      | TypeReg \<Rightarrow>
          if \<not> dc_Mkdir os (butlast q) then (Some CannotCreate, d)
          else let d = mkdir_all (butlast q) d in
            if \<not> dc_Open os q then (Some CannotCreate, d)
            else if int (length (te_Data e)) < te_Size e then (Some ShortEntry, set_entry q (FileE (te_Data e)) d)
            else let d = set_entry q (FileE (take (nat (te_Size e)) (te_Data e))) d in
              if \<not> dc_Close os q then (Some CannotClose, d) else (None, d)
      | TypeOther \<Rightarrow> (None, d))"

text \<open>The loop over the entries, with the number of files and the size so far. \<open>ok\<close> tells whether the archive ends well.\<close>

fun extract_loop ::
  "disk_calls \<Rightarrow> (int \<Rightarrow> bool) \<Rightarrow> BackupRestoreLimits \<Rightarrow> string \<Rightarrow> bool \<Rightarrow> int \<Rightarrow> int \<Rightarrow> tar_entry list \<Rightarrow> disk \<Rightarrow> archive_error option \<times> disk" where
  "extract_loop os exceeds limits cleanDest ok fileCount expandedSize [] d = (if ok then None else Some BadTar, d)"
| "extract_loop os exceeds limits cleanDest ok fileCount expandedSize (e # es) d =
     (if te_Size e < 0 \<or> rl_MaxFileSize limits < te_Size e then (Some EntryTooLarge, d)
      else let fileCount = (if te_Type e = TypeReg then fileCount + 1 else fileCount) in
      if te_Type e = TypeReg \<and> rl_MaxFiles limits < fileCount then (Some TooManyFiles, d)
      else if 0 < te_Size e \<and> rl_MaxExpandedSize limits - te_Size e < expandedSize then (Some ExpandedTooLarge, d)
      else let expandedSize = expandedSize + te_Size e in
      if 0 < te_Size e \<and> exceeds expandedSize then (Some RatioTooLarge, d)
      else let cleanName = Clean (te_Name e); target = path_Join cleanDest cleanName in
      if cleanName = ''..'' \<or> HasPrefix cleanName (''..'' @ [slash]) \<or> rooted cleanName then (Some EscapesDestination, d)
      else if target \<noteq> cleanDest \<and> \<not> HasPrefix target (cleanDest @ [slash]) then (Some EscapesDestination, d)
      else case extract_entry os target e d of
        (Some x, d) \<Rightarrow> (Some x, d)
      | (None, d) \<Rightarrow> extract_loop os exceeds limits cleanDest ok fileCount expandedSize es d)"

text \<open>\<open>exceeds size len ratio\<close> is the comparison \<open>float64(size)/float64(len) > float64(ratio)\<close>.\<close>

definition extractBackupArchiveWithLimits ::
  "archive_format \<Rightarrow> disk_calls \<Rightarrow> (int \<Rightarrow> int \<Rightarrow> int \<Rightarrow> bool) \<Rightarrow> string \<Rightarrow> string \<Rightarrow> BackupRestoreLimits \<Rightarrow> disk \<Rightarrow> archive_error option \<times> disk" where
  "extractBackupArchiveWithLimits f os exceeds archive destDir limits d =
     (let len = int (length archive) in
      if archive = [] \<or> rl_MaxArchiveSize limits < len then (Some ArchiveTooLarge, d)
      else case af_Unpack f archive of
        None \<Rightarrow> (Some NotGzip, d)
      | Some (es, ok) \<Rightarrow> extract_loop os (\<lambda>size. exceeds size len (rl_MaxRatio limits)) limits (Clean destDir) ok 0 0 es d)"

section \<open>Encrypted archives open again\<close>

lemma encrypted_archive_opens:
  assumes "opens_own a" "length s = backupSaltLen" "length n = backupNonceLen"
    and "encryptBackupArchive a (Some s) (Some n) plaintext password = Inr data"
  shows "decryptBackupArchive a data password = Inr plaintext"
  using assms by (auto simp: encryptBackupArchive_def decryptBackupArchive_def opens_own_def Let_def split: if_splits)

text \<open>Compliance mode never leaves a backup unencrypted unless the operator gives an empty password at the prompt.\<close>

lemma compliance_encrypts:
  "resolveBackupEncryptionPassword (Some c) interactive prompt = Inr [] \<Longrightarrow> bs_Compliance c \<Longrightarrow> interactive \<and> prompt = Some []"
  by (auto simp: resolveBackupEncryptionPassword_def Let_def split: if_splits option.splits)

lemma empty_prompt_unencrypted: "bs_Enabled c \<Longrightarrow> resolveBackupEncryptionPassword (Some c) True (Some []) = Inr []"
  by (simp add: resolveBackupEncryptionPassword_def Let_def)

section \<open>Where an archive can write\<close>

lemma plain_relative:
  assumes "\<not> rooted p" "Clean p \<noteq> ''..''" "\<not> HasPrefix (Clean p) (''..'' @ [slash])"
  shows "list_all plain_elem (elems p)"
proof -
  obtain n ds where e: "elems p = replicate n dotdot @ ds" "list_all plain_elem ds"
    using elems_shape [of p] by (auto simp: clean_shape_def)
  have "n = 0"
  proof (rule ccontr)
    assume "n \<noteq> 0"
    then obtain m where "elems p = dotdot # replicate m dotdot @ ds" using e by (cases n) auto
    then have "Clean p = ''..'' \<or> HasPrefix (Clean p) (''..'' @ [slash])"
      using assms(1) by (cases "replicate m dotdot @ ds") (auto simp: Clean_def render_def dotdot_def HasPrefix_def Join_Cons)
    with assms show False by blast
  qed
  with e show ?thesis by simp
qed

lemma SplitByte_Clean:
  assumes "\<not> rooted p"
  shows "SplitByte (Clean p) slash = (if elems p = [] then [''.''] else elems p)"
proof (cases "elems p = []")
  case True
  then show ?thesis using assms by (simp add: Clean_def render_def slash_def)
next
  case False
  then show ?thesis using assms SplitByte_Join [of "elems p" slash] shape_no_slash [OF elems_shape, of _ p] by (auto simp: Clean_def render_def)
qed

lemma elems_Join_Clean:
  assumes "a \<noteq> []" "\<not> rooted p" "list_all plain_elem (elems p)"
  shows "elems (path_Join a (Clean p)) = elems a @ elems p" "rooted (path_Join a (Clean p)) = rooted a"
proof -
  have r: "rooted (a @ slash # Clean p) = rooted a" using assms(1) by (simp add: rooted_def)
  have "foldl (clean_step r) st (SplitByte (Clean p) slash) = rev (elems p) @ st" for r st
    using assms(3) by (auto simp: SplitByte_Clean [OF assms(2)] foldl_plain clean_step.simps)
  then have "elems (a @ slash # Clean p) = elems a @ elems p"
    unfolding elems_def [of "a @ slash # Clean p"] r SplitByte_append clean_elems_def foldl_append by (simp add: elems_def clean_elems_def)
  then show "elems (path_Join a (Clean p)) = elems a @ elems p" using assms(1) by (simp add: path_Join_def)
  show "rooted (path_Join a (Clean p)) = rooted a" using assms(1) r by (simp add: path_Join_def)
qed

lemma map_of_set_entry: "map_of (set_entry q x d) p = (if p = q then Some x else map_of d p)"
  by (induction d) (auto simp: set_entry_def)

lemma map_of_mkdir_all: "map_of (mkdir_all q d) p = (if map_of d p = None \<and> prefix p q then Some DirE else map_of d p)"
proof -
  have "map_of (map (\<lambda>p. (p, DirE)) xs) p = (if p \<in> set xs then Some DirE else None)" for xs :: "fpath list"
    by (induction xs) auto
  then show ?thesis by (auto simp: mkdir_all_def map_add_def split: option.splits)
qed

text \<open>
  What an extraction may do to a disk that has the destination: only paths below the destination change, and the
  new files number at most \<open>n\<close> and hold at most \<open>m\<close> bytes, none of them more than \<open>k\<close>.
\<close>

definition new_files :: "disk \<Rightarrow> disk \<Rightarrow> fpath set" where
  "new_files d d' = {q. \<exists>c. map_of d' q = Some (FileE c) \<and> map_of d q \<noteq> Some (FileE c)}"

definition file_length :: "disk \<Rightarrow> fpath \<Rightarrow> int" where
  "file_length d q = (case map_of d q of Some (FileE c) \<Rightarrow> int (length c) | _ \<Rightarrow> 0)"

definition stays_within :: "fpath \<Rightarrow> disk \<Rightarrow> disk \<Rightarrow> bool" where
  "stays_within dest d d' \<longleftrightarrow> (\<forall>q. map_of d' q \<noteq> map_of d q \<longrightarrow> (\<exists>xs. q = dest @ xs \<and> list_all plain_elem xs))"

definition within_limits :: "int \<Rightarrow> int \<Rightarrow> int \<Rightarrow> disk \<Rightarrow> disk \<Rightarrow> bool" where
  "within_limits k n m d d' \<longleftrightarrow>
     finite (new_files d d') \<and> int (card (new_files d d')) \<le> n \<and> (\<Sum>q \<in> new_files d d'. file_length d' q) \<le> m
     \<and> (\<forall>q \<in> new_files d d'. file_length d' q \<le> k)"

definition has_dir :: "fpath \<Rightarrow> disk \<Rightarrow> bool" where
  "has_dir dest d \<longleftrightarrow> (\<forall>p. prefix p dest \<longrightarrow> map_of d p \<noteq> None)"

lemma stays_refl [simp]: "stays_within dest d d"
  by (simp add: stays_within_def)

lemma stays_trans: "stays_within dest d d1 \<Longrightarrow> stays_within dest d1 d2 \<Longrightarrow> stays_within dest d d2"
  unfolding stays_within_def by metis

lemma stays_set: "list_all plain_elem xs \<Longrightarrow> stays_within dest d (set_entry (dest @ xs) x d)"
  by (auto simp: stays_within_def map_of_set_entry)

lemma stays_mkdir:
  assumes "has_dir dest d" "list_all plain_elem xs" "q = dest @ xs \<or> q = butlast (dest @ xs)"
  shows "stays_within dest d (mkdir_all q d)"
  unfolding stays_within_def
proof (intro allI impI)
  fix p assume "map_of (mkdir_all q d) p \<noteq> map_of d p"
  then have p: "prefix p q" "map_of d p = None" by (auto simp: map_of_mkdir_all split: if_splits)
  then have "prefix p (dest @ xs)" using assms(3) prefixeq_butlast [of "dest @ xs"] by (metis prefix_order.trans)
  moreover have "\<not> prefix p dest" using p(2) assms(1) by (auto simp: has_dir_def)
  ultimately show "\<exists>ys. p = dest @ ys \<and> list_all plain_elem ys"
    using assms(2) by (auto simp: prefix_append) (auto simp: prefix_def)
qed

lemma has_dir_set: "has_dir dest d \<Longrightarrow> has_dir dest (set_entry q x d)" "has_dir dest d \<Longrightarrow> has_dir dest (mkdir_all q d)"
  by (auto simp: has_dir_def map_of_set_entry map_of_mkdir_all)

text \<open>Making directories leaves the files alone; a written file is one more.\<close>

definition same_files :: "disk \<Rightarrow> disk \<Rightarrow> bool" where
  "same_files d d' \<longleftrightarrow> (\<forall>q c. map_of d' q = Some (FileE c) \<longleftrightarrow> map_of d q = Some (FileE c))"

lemma same_files_mkdir: "same_files d (mkdir_all q d)"
  by (auto simp: same_files_def map_of_mkdir_all)

lemma same_files_new:
  assumes "same_files d d'"
  shows "new_files d0 d' = new_files d0 d" "file_length d' q = file_length d q"
proof -
  show "new_files d0 d' = new_files d0 d" using assms by (auto simp: same_files_def new_files_def)
  show "file_length d' q = file_length d q"
    using assms [unfolded same_files_def, THEN spec, of q]
    by (cases "\<exists>c. map_of d q = Some (FileE c)") (auto simp: file_length_def split: option.splits fentry.splits)
qed

lemma new_files_set: "new_files d0 (set_entry q (FileE c) d) \<subseteq> insert q (new_files d0 d)"
  by (auto simp: new_files_def map_of_set_entry split: if_splits)

lemma file_length_set: "file_length (set_entry q (FileE c) d) p = (if p = q then int (length c) else file_length d p)"
  by (simp add: file_length_def map_of_set_entry)

lemma file_length_nonneg: "0 \<le> file_length d q"
  by (auto simp: file_length_def split: option.splits fentry.splits)

lemma within_same: "same_files d d' \<Longrightarrow> within_limits k n m d0 d \<Longrightarrow> within_limits k n m d0 d'"
  by (simp add: within_limits_def same_files_new)

lemma within_mono: "within_limits k n m d0 d \<Longrightarrow> n \<le> n' \<Longrightarrow> m \<le> m' \<Longrightarrow> within_limits k n' m' d0 d"
  by (auto simp: within_limits_def)

lemma within_set:
  assumes "within_limits k n m d0 d" "int (length c) \<le> s" "s \<le> k"
  shows "within_limits k (n + 1) (m + s) d0 (set_entry q (FileE c) d)"
proof -
  let ?F = "new_files d0 d" and ?F' = "new_files d0 (set_entry q (FileE c) d)" and ?l = "file_length (set_entry q (FileE c) d)"
  have F: "finite ?F" "int (card ?F) \<le> n" "(\<Sum>p \<in> ?F. file_length d p) \<le> m" "\<forall>p \<in> ?F. file_length d p \<le> k"
    using assms(1) by (auto simp: within_limits_def)
  have sub: "?F' \<subseteq> insert q ?F" by (rule new_files_set)
  then have "finite ?F'" "card ?F' \<le> Suc (card ?F)"
    using F(1) finite_subset card_mono [of "insert q ?F" ?F'] card_insert_le_m1 [of "Suc (card ?F)" ?F q] by (auto intro: le_trans)
  moreover have "(\<Sum>p \<in> ?F'. ?l p) \<le> (\<Sum>p \<in> insert q ?F. ?l p)"
    using F(1) sub file_length_nonneg by (intro sum_mono2) auto
  moreover have "(\<Sum>p \<in> insert q ?F. ?l p) = ?l q + (\<Sum>p \<in> ?F - {q}. file_length d p)"
    using F(1) by (simp add: sum.insert_remove file_length_set)
  moreover have "(\<Sum>p \<in> ?F - {q}. file_length d p) \<le> (\<Sum>p \<in> ?F. file_length d p)"
    using F(1) file_length_nonneg by (intro sum_mono2) auto
  moreover have "\<forall>p \<in> ?F'. ?l p \<le> k" using sub F(4) assms(2,3) by (auto simp: file_length_set)
  ultimately show ?thesis using F assms(2) by (auto simp: within_limits_def file_length_set)
qed

lemma extract_entry_kept:
  assumes "extract_entry os target e d = (r, d')" "elems target = dest @ xs" "list_all plain_elem xs" "has_dir dest d" "0 \<le> te_Size e"
  shows "stays_within dest d d' \<and> has_dir dest d'
    \<and> (same_files d d' \<or> te_Type e = TypeReg \<and> (\<exists>c d1. same_files d d1 \<and> d' = set_entry (dest @ xs) (FileE c) d1 \<and> int (length c) \<le> te_Size e))"
proof -
  define d1 where "d1 = mkdir_all (butlast (dest @ xs)) d"
  have m: "stays_within dest d (mkdir_all q d)" if "q = dest @ xs \<or> q = butlast (dest @ xs)" for q
    by (rule stays_mkdir [OF assms(4,3) that])
  have d1: "stays_within dest d d1" "has_dir dest d1" "same_files d d1"
    using m assms(4) by (simp_all add: d1_def has_dir_set same_files_mkdir)
  have w: "stays_within dest d (set_entry (dest @ xs) (FileE c) d1)" for c by (rule stays_trans [OF d1(1) stays_set [OF assms(3)]])
  have refl: "same_files d d" by (simp add: same_files_def)
  show ?thesis
  proof (cases "te_Type e")
    case TypeReg
    then consider "d' = d" | "d' = d1" | c where "d' = set_entry (dest @ xs) (FileE c) d1" "int (length c) \<le> te_Size e"
      using assms(1,2,5) by (auto simp: extract_entry_def Let_def d1_def split: if_splits)
    then show ?thesis using TypeReg assms(4) d1 w refl by cases (auto simp: has_dir_set)
  next
    case TypeDir
    then show ?thesis
      using assms m [of "dest @ xs"] refl same_files_mkdir by (auto simp: extract_entry_def Let_def has_dir_set split: if_splits)
  next
    case TypeOther
    then show ?thesis using assms refl by (auto simp: extract_entry_def Let_def)
  qed
qed

lemma extract_entry_within:
  assumes "extract_entry os target e d = (r, d')" "elems target = dest @ xs" "list_all plain_elem xs" "has_dir dest d" "0 \<le> te_Size e"
    and "within_limits k n m d0 d" "te_Size e \<le> k"
  shows "within_limits k (if te_Type e = TypeReg then n + 1 else n) (m + te_Size e) d0 d'"
  using extract_entry_kept [OF assms(1-5)]
proof (elim conjE disjE exE)
  assume "same_files d d'"
  from within_mono [OF within_same [OF this assms(6)]] show ?thesis using assms(5) by auto
next
  fix c d1
  assume c: "te_Type e = TypeReg" "same_files d d1" "d' = set_entry (dest @ xs) (FileE c) d1" "int (length c) \<le> te_Size e"
  show ?thesis using within_set [OF within_same [OF c(2) assms(6)] c(4) assms(7)] c(1,3) by simp
qed

lemma extract_loop_safe:
  assumes "extract_loop os exceeds limits cleanDest ok n m es d = (r, d')"
    and "cleanDest \<noteq> []" "has_dir (elems cleanDest) d" "within_limits (rl_MaxFileSize limits) n m d0 d"
    and "n \<le> rl_MaxFiles limits" "m \<le> rl_MaxExpandedSize limits"
  shows "stays_within (elems cleanDest) d d' \<and> within_limits (rl_MaxFileSize limits) (rl_MaxFiles limits) (rl_MaxExpandedSize limits) d0 d'"
  using assms
proof (induction es arbitrary: n m d)
  case Nil
  then show ?case using within_mono by (auto split: if_splits)
next
  case (Cons e es)
  let ?n = "if te_Type e = TypeReg then n + 1 else n" and ?m = "m + te_Size e" and ?target = "path_Join cleanDest (Clean (te_Name e))"
  have w: "within_limits (rl_MaxFileSize limits) (rl_MaxFiles limits) (rl_MaxExpandedSize limits) d0 d"
    by (rule within_mono [OF Cons.prems(4-6)])
  show ?case
  proof (cases "d' = d")
    case True
    then show ?thesis using w by simp
  next
    case False
    then have s: "0 \<le> te_Size e" "te_Size e \<le> rl_MaxFileSize limits" "?n \<le> rl_MaxFiles limits" "?m \<le> rl_MaxExpandedSize limits"
      and p: "list_all plain_elem (elems (te_Name e))" "\<not> rooted (te_Name e)"
      and x: "(case extract_entry os ?target e d of (Some x, d) \<Rightarrow> (Some x, d) | (None, d) \<Rightarrow> extract_loop os exceeds limits cleanDest ok ?n ?m es d) = (r, d')"
      using Cons.prems(1,5,6) plain_relative [of "te_Name e"] by (auto simp: Let_def split: if_splits)
    obtain r1 d1 where d1: "extract_entry os ?target e d = (r1, d1)" by fastforce
    note t = elems_Join_Clean(1) [OF Cons.prems(2) p(2,1)]
    note k = extract_entry_kept [OF d1 t p(1) Cons.prems(3) s(1)] and l = extract_entry_within [OF d1 t p(1) Cons.prems(3) s(1) Cons.prems(4) s(2)]
    show ?thesis
    proof (cases r1)
      case None
      with x d1 have "extract_loop os exceeds limits cleanDest ok ?n ?m es d1 = (r, d')" by simp
      from Cons.IH [OF this Cons.prems(2) _ l s(3,4)] k show ?thesis using stays_trans by blast
    next
      case (Some y)
      with x d1 have "d' = d1" by simp
      with k within_mono [OF l s(3,4)] show ?thesis by blast
    qed
  qed
qed

lemma extraction_safe:
  assumes "extractBackupArchiveWithLimits f os exceeds archive dest limits d = (r, d')"
    and "has_dir (elems dest) d" "0 \<le> rl_MaxFiles limits" "0 \<le> rl_MaxExpandedSize limits"
  shows "stays_within (elems dest) d d'
    \<and> within_limits (rl_MaxFileSize limits) (rl_MaxFiles limits) (rl_MaxExpandedSize limits) d d'"
proof -
  have 0: "within_limits (rl_MaxFileSize limits) 0 0 d d" by (simp add: within_limits_def new_files_def)
  show ?thesis
  proof (cases "d' = d")
    case True
    then show ?thesis using within_mono [OF 0 assms(3,4)] by simp
  next
    case False
    then obtain es ok exc where "extract_loop os exc limits (Clean dest) ok 0 0 es d = (r, d')"
      using assms(1) by (auto simp: extractBackupArchiveWithLimits_def Let_def split: if_splits option.splits)
    from extract_loop_safe [OF this _ _ 0 assms(3,4)] assms(2) show ?thesis by simp
  qed
qed

text \<open>
  C13. Restoring an archive, whoever made it, cannot write outside the directory it is extracted to: whether the extraction
  succeeds or stops with an error, every path that changed is the destination followed by plain
  names, and the new files are at most the allowed number, hold at most the allowed bytes together, and none
  of them is larger than allowed.
\<close>

theorem extraction_contained:
  assumes "extractBackupArchiveWithLimits f os exceeds archive dest limits d = (r, d')"
    and "has_dir (elems dest) d" "0 \<le> rl_MaxFiles limits" "0 \<le> rl_MaxExpandedSize limits"
  shows "stays_within (elems dest) d d'
    \<and> within_limits (rl_MaxFileSize limits) (rl_MaxFiles limits) (rl_MaxExpandedSize limits) d d'"
  by (rule extraction_safe [OF assms])

theorem extraction_contained_witness:
  "let a = \<lparr>te_Name = ''a/b'', te_Type = TypeReg, te_Size = 2, te_Data = ''hi''\<rparr>; b = a\<lparr>te_Name := ''../b''\<rparr>; d = [([], DirE), ([''t''], DirE)];
       f = \<lparr>af_Marshal = \<lambda>_. None, af_Unmarshal = \<lambda>_. None, af_Pack = \<lambda>_. ''x'', af_Unpack = \<lambda>_. Some ([a, b], True), af_Sha256 = id\<rparr>;
       d' = [([], DirE), ([''t''], DirE), ([''t'', ''a''], DirE), ([''t'', ''a'', ''b''], FileE ''hi'')]
   in extractBackupArchiveWithLimits f \<lparr>dc_Mkdir = \<lambda>_. True, dc_Open = \<lambda>_. True, dc_Close = \<lambda>_. True\<rparr> (\<lambda>_ _ _. False) ''x'' ''/t'' defaultBackupRestoreLimits d
        = (Some EscapesDestination, d')
      \<and> stays_within (elems ''/t'') d d' \<and> within_limits (512 * 2 ^ 20) 10000 (4 * 2 ^ 30) d d'"
proof -
  let ?a = "\<lparr>te_Name = ''a/b'', te_Type = TypeReg, te_Size = 2, te_Data = ''hi''\<rparr>"
  let ?f = "\<lparr>af_Marshal = \<lambda>_. None, af_Unmarshal = \<lambda>_. None, af_Pack = \<lambda>_. ''x'', af_Unpack = \<lambda>_. Some ([?a, ?a\<lparr>te_Name := ''../b''\<rparr>], True), af_Sha256 = id\<rparr>"
  let ?d = "[([], DirE), ([''t''], DirE)]"
  let ?d' = "[([], DirE), ([''t''], DirE), ([''t'', ''a''], DirE), ([''t'', ''a'', ''b''], FileE ''hi'')]"
  have e: "extractBackupArchiveWithLimits ?f \<lparr>dc_Mkdir = \<lambda>_. True, dc_Open = \<lambda>_. True, dc_Close = \<lambda>_. True\<rparr> (\<lambda>_ _ _. False) ''x'' ''/t''
      defaultBackupRestoreLimits ?d = (Some EscapesDestination, ?d')"
    by code_simp
  have t: "elems ''/t'' = [''t'']" by code_simp
  have "has_dir (elems ''/t'') ?d" unfolding t by (auto simp: has_dir_def prefix_Cons)
  from extraction_contained [OF e this] e show ?thesis by (simp add: defaultBackupRestoreLimits_def)
qed

section \<open>Verification of a new backup\<close>

definition requiredBackupSecrets :: "string list" where
  "requiredBackupSecrets = [''installation_secret'', ''cookie_signing_key'', ''csrf_token_secret'', ''server.security.encryption_key'']"

definition validateRequiredSecretManifest :: "string list option \<Rightarrow> bool" where
  "validateRequiredSecretManifest value =
     (case value of None \<Rightarrow> False | Some present \<Rightarrow> list_all (\<lambda>required. required \<in> set present) requiredBackupSecrets)"

text \<open>The restored key and the restored secrets; what the configuration file and the database hold are arguments.\<close>

definition valid_secret :: "string option \<Rightarrow> bool" where
  "valid_secret encoded = (case Option.bind encoded StdEncoding_Decode of None \<Rightarrow> False | Some key \<Rightarrow> length key = 32)"

definition validateRestoredBackupSecrets :: "string option \<Rightarrow> (string \<Rightarrow> string option) option \<Rightarrow> bool" where
  "validateRestoredBackupSecrets encryptionKey database \<longleftrightarrow>
     valid_secret encryptionKey
     \<and> (case database of None \<Rightarrow> False
        | Some query \<Rightarrow> list_all (\<lambda>name. valid_secret (query name)) [''installation_secret'', ''cookie_signing_key'', ''csrf_token_secret''])"

text \<open>The last entry whose name ends in \<open>.json\<close> is taken for the manifest.\<close>

definition verify_manifest :: "archive_format \<Rightarrow> string \<Rightarrow> archive_error + backup_manifest" where
  "verify_manifest f archive =
     (case af_Unpack f archive of
        None \<Rightarrow> Inl NotGzip
      | Some (es, ok) \<Rightarrow>
          if \<not> ok then Inl BadTar
          else let js = filter (\<lambda>e. HasSuffix (te_Name e) ''.json'') es in
            if js = [] then Inl NoManifest
            else case af_Unmarshal f (te_Data (last js)) of
              None \<Rightarrow> Inl BadManifest
            | Some m \<Rightarrow> if validateRequiredSecretManifest (mf_Required m) then Inr m else Inl SecretsUndeclared)"

text \<open>A restore reads the first entry with the exact name, and of it at most one mebibyte.\<close>

definition LimitReader :: "string \<Rightarrow> int \<Rightarrow> string" where
  "LimitReader s n = (if int (length s) \<le> n then s else take (nat n) s)"

definition readBackupManifest :: "archive_format \<Rightarrow> string \<Rightarrow> archive_error + backup_manifest" where
  "readBackupManifest f archive =
     (case af_Unpack f archive of
        None \<Rightarrow> Inl NotGzip
      | Some (es, ok) \<Rightarrow>
          (case find (\<lambda>e. te_Name e = ''manifest.json'') es of
             None \<Rightarrow> if ok then Inl NoManifest else Inl BadTar
           | Some e \<Rightarrow> (case af_Unmarshal f (LimitReader (te_Data e) (2 ^ 20)) of None \<Rightarrow> Inl BadManifest | Some m \<Rightarrow> Inr m)))"

record verify_env =
  ve_Format :: archive_format
  ve_Box :: aead
  ve_Calls :: disk_calls
  ve_Exceeds :: "int \<Rightarrow> int \<Rightarrow> int \<Rightarrow> bool"
  ve_Readable :: "fpath \<Rightarrow> bool"
  ve_EncryptionKey :: "disk \<Rightarrow> string \<Rightarrow> string option"
  ve_Database :: "disk \<Rightarrow> string \<Rightarrow> (string \<Rightarrow> string option) option"
  ve_Integrity :: "disk \<Rightarrow> fpath \<Rightarrow> bool"

definition extracted_layout :: "string \<Rightarrow> backupArchiveLayout \<Rightarrow> backupArchiveLayout" where
  "extracted_layout tmp l =
     \<lparr>bl_configDir = path_Join tmp (path_Base (bl_configDir l)), bl_dataDir = path_Join tmp (path_Base (bl_dataDir l)),
      bl_dbDir = path_Join tmp ''db'', bl_includeSSL = bl_includeSSL l, bl_includeData = bl_includeData l\<rparr>"

text \<open>The checks after the extraction into a fresh temporary directory.\<close>

definition verify_extracted :: "verify_env \<Rightarrow> string \<Rightarrow> backup_manifest \<Rightarrow> backupArchiveLayout \<Rightarrow> disk \<Rightarrow> archive_error option" where
  "verify_extracted e tmp m l d =
     (let x = extracted_layout tmp l;
          below = filter (\<lambda>q. prefix (elems tmp) q \<and> q \<noteq> elems tmp) (map fst d);
          dbs = filter (\<lambda>q. HasSuffix (os_path q) ''.db'') (map fst (walk d tmp [])) in
      if \<not> validateRestoredBackupSecrets (ve_EncryptionKey e d (bl_configDir x)) (ve_Database e d (bl_dbDir x)) then Some SecretsNotRestored
      else if below = [] then Some NothingExtracted
      else case (if mf_Checksum m = [] then Inr [] else computeBackupContentChecksum (af_Sha256 (ve_Format e)) (ve_Readable e) d x) of
        Inl err \<Rightarrow> Some err
      | Inr actual \<Rightarrow>
          if actual \<noteq> mf_Checksum m then Some ChecksumMismatch
          else if dbs = [] then Some NoDatabase
          else if \<not> list_all (ve_Integrity e d) dbs then Some DatabaseDamaged
          else None)"

text \<open>\<open>verifyBackup\<close>: \<open>content\<close> is what stands in the file, \<open>tmp\<close> the temporary directory on the disk \<open>d\<close>.\<close>

definition verifyBackup :: "verify_env \<Rightarrow> string \<Rightarrow> string \<Rightarrow> string option \<Rightarrow> string \<Rightarrow> backupArchiveLayout \<Rightarrow> disk \<Rightarrow> archive_error option" where
  "verifyBackup e tmp backupFile content password l d =
     (case content of
        None \<Rightarrow> Some FileMissing
      | Some raw \<Rightarrow>
          if raw = [] then Some FileEmpty
          else case (if HasSuffix backupFile ''.enc''
                     then (if password = [] then Inl PasswordMissing else decryptBackupArchive (ve_Box e) raw password) else Inr raw) of
            Inl err \<Rightarrow> Some err
          | Inr archive \<Rightarrow>
              (case verify_manifest (ve_Format e) archive of
                 Inl err \<Rightarrow> Some err
               | Inr m \<Rightarrow>
                   (case extractBackupArchiveWithLimits (ve_Format e) (ve_Calls e) (ve_Exceeds e) archive tmp defaultBackupRestoreLimits d of
                      (Some err, _) \<Rightarrow> Some err
                    | (None, d) \<Rightarrow> verify_extracted e tmp m l d)))"

text \<open>
  Any other file with the extension takes the place of the manifest, so a backup of a directory with a JSON file of
  the operator's is rejected by its own verification, while a restore reads the right one.
\<close>

lemma json_file_hides_manifest:
  assumes "af_Unpack f archive = Some (es @ [e], True)" "HasSuffix (te_Name e) ''.json''" "af_Unmarshal f (te_Data e) = Some m" "mf_Required m = None"
  shows "verify_manifest f archive = Inl SecretsUndeclared"
  using assms by (simp add: verify_manifest_def validateRequiredSecretManifest_def)

end
