(* ===== verification/BackupRestore.thy ===== *)
theory BackupRestore
  imports BackupArchive
begin

text \<open>
  The restore of a backup, from \<open>main.go\<close>: replacing a directory by an extracted one with a way back, and the order
  in which configuration, database and data are put in place. Which system calls succeed is an argument: a
  rename between two paths, the entries that a removal gets rid of, and how far a recursive copy comes.
\<close>

section \<open>Directories moved and copied\<close>

record restore_calls =
  rc_Rename :: "fpath \<Rightarrow> fpath \<Rightarrow> bool"
  rc_Remove :: "fpath \<Rightarrow> fpath \<Rightarrow> bool"
  rc_Mkdir :: "fpath \<Rightarrow> bool"
  rc_Copied :: "fpath \<Rightarrow> fpath \<Rightarrow> nat option"

definition os_RemoveAll :: "restore_calls \<Rightarrow> fpath \<Rightarrow> disk \<Rightarrow> disk" where
  "os_RemoveAll c p d = filter (\<lambda>(q, _). \<not> (prefix p q \<and> rc_Remove c p q)) d"

definition moved :: "fpath \<Rightarrow> fpath \<Rightarrow> fpath \<Rightarrow> fpath" where
  "moved src dst q = (if prefix src q then dst @ drop (length src) q else q)"

text \<open>A directory is only renamed to a free name in a directory that is there; the source removes what stands there before.\<close>

definition os_Rename :: "restore_calls \<Rightarrow> fpath \<Rightarrow> fpath \<Rightarrow> disk \<Rightarrow> disk option" where
  "os_Rename c src dst d =
     (if map_of d src = None \<or> map_of d dst \<noteq> None \<or> map_of d (butlast dst) = None \<or> \<not> rc_Rename c src dst then None
      else Some (map (\<lambda>(q, x). (moved src dst q, x)) d))"

text \<open>
  \<open>restoreCopyDir\<close>: the visited entries are written one after the other, all of them or the first few; a link to a file
  is followed, at any other link the copy stops. The source stays in place.
\<close>

definition copied_as :: "fentry \<Rightarrow> fentry option" where
  "copied_as x = (case x of LinkE (Some (FileE c)) \<Rightarrow> Some (FileE c) | LinkE _ \<Rightarrow> None | _ \<Rightarrow> Some x)"

definition restoreCopyDir :: "restore_calls \<Rightarrow> fpath \<Rightarrow> fpath \<Rightarrow> disk \<Rightarrow> bool \<times> disk" where
  "restoreCopyDir c src dst d =
     (let es = map (\<lambda>(q, x). (moved src dst q, copied_as x)) (walk d (os_path src) []);
          start = takeWhile (\<lambda>(_, x). x \<noteq> None) (case rc_Copied c src dst of None \<Rightarrow> es | Some n \<Rightarrow> take n es) in
      (rc_Copied c src dst = None \<and> list_all (\<lambda>(_, x). x \<noteq> None) es, fold (\<lambda>(q, x). set_entry q (the x)) start d))"

definition restoreMoveDir :: "restore_calls \<Rightarrow> fpath \<Rightarrow> fpath \<Rightarrow> disk \<Rightarrow> bool \<times> disk" where
  "restoreMoveDir c src dst d =
     (if \<not> rc_Mkdir c (butlast dst) then (False, d)
      else let d = mkdir_all (butlast dst) d in
        case os_Rename c src dst d of
          Some d \<Rightarrow> (True, d)
        | None \<Rightarrow> restoreCopyDir c src dst d)"

datatype restore_error = CannotMoveAside | CannotPlace | RollbackFailed

definition restore_old :: "fpath \<Rightarrow> fpath" where
  "restore_old dst = butlast dst @ [last dst @ ''.restore-old'']"

definition restoreReplaceDir :: "restore_calls \<Rightarrow> fpath \<Rightarrow> fpath \<Rightarrow> disk \<Rightarrow> restore_error option \<times> disk" where
  "restoreReplaceDir c src dst d =
     (let old = restore_old dst; d = os_RemoveAll c old d; haveOld = map_of d dst \<noteq> None in
      case (if haveOld then os_Rename c dst old d else Some d) of
        None \<Rightarrow> (Some CannotMoveAside, d)
      | Some d \<Rightarrow>
          (case restoreMoveDir c src dst d of
             (False, d) \<Rightarrow>
               if haveOld then
                 (case os_Rename c old dst (os_RemoveAll c dst d) of
                    None \<Rightarrow> (Some RollbackFailed, os_RemoveAll c dst d)
                  | Some d \<Rightarrow> (Some CannotPlace, d))
               else (Some CannotPlace, d)
           | (True, d) \<Rightarrow> (None, if haveOld then os_RemoveAll c old d else d)))"

section \<open>The order of a restore\<close>

text \<open>
  The part of \<open>maintenanceRestore\<close> after the checks of the extracted archive: \<open>tmp\<close> is the temporary directory. The
  certificates of a partial archive are copied forward first. The result names the steps that were
  taken, or the one that failed.
\<close>

datatype restore_step = SslStep | ConfigStep | DbStep | DataStep

definition place :: "restore_calls \<Rightarrow> restore_step \<Rightarrow> fpath \<Rightarrow> fpath \<Rightarrow> disk \<Rightarrow> (restore_step + bool) \<times> disk" where
  "place c step src dst d =
     (if stat d (os_path src) = None then (Inr False, d)
      else case restoreReplaceDir c src dst d of (None, d) \<Rightarrow> (Inr True, d) | (Some _, d) \<Rightarrow> (Inl step, d))"

definition keep_ssl :: "restore_calls \<Rightarrow> fpath \<Rightarrow> fpath \<Rightarrow> disk \<Rightarrow> bool \<times> disk" where
  "keep_ssl c extracted config d =
     (if stat d (os_path extracted) = None \<or> stat d (os_path (extracted @ [''ssl''])) \<noteq> None
         \<or> stat d (os_path (config @ [''ssl''])) = None then (True, d)
      else restoreCopyDir c (config @ [''ssl'']) (extracted @ [''ssl'']) d)"

definition restore_dirs :: "restore_calls \<Rightarrow> fpath \<Rightarrow> string \<Rightarrow> string \<Rightarrow> string \<Rightarrow> disk \<Rightarrow> (restore_step + bool list) \<times> disk" where
  "restore_dirs c tmp configDir dbDir dataDir d =
     (let config = tmp @ [path_Base configDir] in
      case keep_ssl c config (elems configDir) d of
        (False, d) \<Rightarrow> (Inl SslStep, d)
      | (True, d) \<Rightarrow>
          (case place c ConfigStep config (elems configDir) d of
             (Inl s, d) \<Rightarrow> (Inl s, d)
           | (Inr a, d) \<Rightarrow>
               (case place c DbStep (tmp @ [''db'']) (elems dbDir) d of
                  (Inl s, d) \<Rightarrow> (Inl s, d)
                | (Inr b, d) \<Rightarrow>
                    (case place c DataStep (tmp @ [path_Base dataDir]) (elems dataDir) d of
                       (Inl s, d) \<Rightarrow> (Inl s, d)
                     | (Inr x, d) \<Rightarrow> (Inr [a, b, x], d)))))"

section \<open>Disks and renamed directories\<close>

definition disk_ok :: "disk \<Rightarrow> bool" where
  "disk_ok d \<longleftrightarrow> distinct (map fst d) \<and> (\<forall>q \<in> fst ` set d. \<forall>p. prefix p q \<longrightarrow> p \<in> fst ` set d)"

definition remove_sane :: "restore_calls \<Rightarrow> bool" where
  "remove_sane c \<longleftrightarrow> (\<forall>p q q'. rc_Remove c p q \<longrightarrow> prefix q q' \<longrightarrow> rc_Remove c p q')"

definition apart :: "fpath \<Rightarrow> fpath \<Rightarrow> bool" where
  "apart p q \<longleftrightarrow> \<not> prefix p q \<and> \<not> prefix q p"

lemma apart_sym: "apart p q \<longleftrightarrow> apart q p"
  by (auto simp: apart_def)

lemma apart_below: "apart p q \<Longrightarrow> \<not> prefix p (q @ r)"
  by (auto simp: apart_def prefix_append)

lemma apart_append: "apart p q \<Longrightarrow> p @ r \<noteq> q @ s"
  by (metis apart_below prefixI)

lemma apart_ext: "apart p q \<Longrightarrow> apart (p @ r) q"
  using apart_below [of q p r] apart_sym [of p q] by (auto simp: apart_def dest: append_prefixD)

lemma restore_old_apart: "dst \<noteq> [] \<Longrightarrow> apart dst (restore_old dst)"
  by (cases dst rule: rev_cases) (auto simp: apart_def restore_old_def)

lemma map_of_RemoveAll: "map_of (os_RemoveAll c p d) q = (if prefix p q \<and> rc_Remove c p q then None else map_of d q)"
  by (induction d) (auto simp: os_RemoveAll_def)

lemma ok_RemoveAll: "remove_sane c \<Longrightarrow> disk_ok d \<Longrightarrow> disk_ok (os_RemoveAll c p d)"
proof -
  assume s: "remove_sane c" and d: "disk_ok d"
  have k: "fst ` set (os_RemoveAll c p d) = {q \<in> fst ` set d. \<not> (prefix p q \<and> rc_Remove c p q)}" by (force simp: os_RemoveAll_def)
  have "distinct (map fst (os_RemoveAll c p d))" using d by (auto simp: disk_ok_def os_RemoveAll_def distinct_map_filter)
  moreover have "rc_Remove c p q \<and> prefix p q" if "rc_Remove c p q'" "prefix p q'" "prefix q' q" for q q'
    using that s by (auto simp: remove_sane_def dest: prefix_order.trans)
  ultimately show ?thesis using d unfolding disk_ok_def k by blast
qed

lemma ok_mkdir: "disk_ok d \<Longrightarrow> disk_ok (mkdir_all q d)"
proof -
  assume d: "disk_ok d"
  have k: "fst ` set (mkdir_all q d) = fst ` set d \<union> {p. prefix p q}"
    by (auto simp: mkdir_all_def map_of_eq_None_iff image_Un image_image)
  have "distinct (map fst (mkdir_all q d))"
    using d distinct_prefixes [of q] by (auto simp: disk_ok_def mkdir_all_def comp_def map_of_eq_None_iff)
  then show ?thesis using d unfolding disk_ok_def k by (auto dest: prefix_order.trans)
qed

lemma free_below: "disk_ok d \<Longrightarrow> map_of d p = None \<Longrightarrow> q \<in> fst ` set d \<Longrightarrow> \<not> prefix p q"
  by (auto simp: disk_ok_def map_of_eq_None_iff)

lemma moved_simps [simp]: "moved src dst (src @ r) = dst @ r" "\<not> prefix src q \<Longrightarrow> moved src dst q = q"
  by (simp_all add: moved_def)

lemma moved_eq:
  assumes "\<not> prefix dst q"
  shows "moved src dst q = dst @ r \<longleftrightarrow> q = src @ r" "dst @ r = moved src dst q \<longleftrightarrow> q = src @ r"
  using assms by (auto simp: moved_def prefix_def)

lemma rename_onto:
  assumes "os_Rename c src dst d = Some d'" "\<forall>q \<in> fst ` set d. \<not> prefix dst q" "apart src dst"
  shows "map_of d' (dst @ r) = map_of d (src @ r)"
proof -
  have d': "d' = map (\<lambda>(q, x). (moved src dst q, x)) d" using assms(1) by (auto simp: os_Rename_def split: if_splits)
  show ?thesis using assms(2) unfolding d' by (induction d) (auto simp: moved_eq)
qed

lemma rename_at:
  assumes "os_Rename c src dst d = Some d'" "disk_ok d" "apart src dst"
  shows "map_of d' (dst @ r) = map_of d (src @ r)" "map_of d' (src @ r) = None"
    "\<not> prefix src p \<Longrightarrow> \<not> prefix dst p \<Longrightarrow> map_of d' p = map_of d p" "disk_ok d'"
proof -
  have d': "d' = map (\<lambda>(q, x). (moved src dst q, x)) d" and n: "map_of d dst = None" "map_of d src \<noteq> None" "map_of d (butlast dst) \<noteq> None"
    using assms(1) by (auto simp: os_Rename_def split: if_splits)
  have free: "\<forall>q \<in> fst ` set d. \<not> prefix dst q" using free_below [OF assms(2) n(1)] by blast
  then show "map_of d' (dst @ r) = map_of d (src @ r)" by (rule rename_onto [OF assms(1) _ assms(3)])
  show "map_of d' (src @ r) = None"
    using apart_append [OF assms(3)] by (auto simp: d' map_of_eq_None_iff moved_def split: if_splits)
  show "map_of d' p = map_of d p" if "\<not> prefix src p" "\<not> prefix dst p"
    using that free unfolding d' by (induction d) (auto simp: moved_def prefix_def)
  have inj: "inj_on (moved src dst) (fst ` set d)"
    using free by (intro inj_onI) (fastforce simp: moved_def prefix_def split: if_splits)
  have k: "fst ` set d' = moved src dst ` fst ` set d" by (force simp: d')
  have "distinct (map fst d')"
    using assms(2) inj by (simp add: d' disk_ok_def comp_def case_prod_beta distinct_map inj_on_def)
  moreover have "p \<in> fst ` set d'" if q: "q \<in> fst ` set d" and p: "prefix p (moved src dst q)" for p q
  proof (cases "prefix src q")
    case True
    then obtain r where r: "q = src @ r" by (auto simp: prefix_def)
    show ?thesis
    proof (cases "prefix dst p")
      case True
      then obtain s where s: "p = dst @ s" "prefix s r" using p r by (auto simp: prefix_def)
      then have "src @ s \<in> fst ` set d" using q r assms(2) by (auto simp: disk_ok_def)
      then show ?thesis unfolding k s(1) by (metis image_eqI moved_simps(1))
    next
      case False
      then have "strict_prefix p dst" using p r by (auto simp: prefix_append strict_prefix_def)
      then have "prefix p (butlast dst)" by (cases dst rule: rev_cases) (auto simp: strict_prefix_def)
      then have "p \<in> fst ` set d" using n(3) assms(2) by (auto simp: disk_ok_def map_of_eq_None_iff)
      moreover have "\<not> prefix src p" using \<open>strict_prefix p dst\<close> assms(3) by (auto simp: apart_def strict_prefix_def dest: prefix_order.trans)
      ultimately show ?thesis unfolding k by (metis image_eqI moved_simps(2))
    qed
  next
    case False
    then have "p \<in> fst ` set d" "\<not> prefix src p" using p q assms(2) by (auto simp: disk_ok_def dest: prefix_order.trans)
    then show ?thesis unfolding k by (metis image_eqI moved_simps(2))
  qed
  ultimately show "disk_ok d'" unfolding disk_ok_def by (auto simp: k)
qed

section \<open>Copied directories\<close>

lemma map_of_fold_set:
  "map_of (fold (\<lambda>(q, x). set_entry q (f x)) es d) p = (case map_of (rev es) p of Some x \<Rightarrow> Some (f x) | None \<Rightarrow> map_of d p)"
  by (induction es arbitrary: d) (auto simp: map_of_set_entry map_add_def split: option.splits)

lemma set_walk: "set (walk d (os_path src) []) = {(q, x) \<in> set d. prefix (elems (os_path src)) q}"
  by (auto simp: walk_def isExcludedPath_def)

lemma distinct_walk: "distinct (map fst d) \<Longrightarrow> distinct (map fst (walk d (os_path src) ex))"
proof -
  assume "distinct (map fst d)"
  then have "distinct (map fst (filter (\<lambda>(q, _). prefix (elems (os_path src)) q) d))" by (simp add: distinct_map_filter)
  then have "distinct (map fst (sort_key fst (filter (\<lambda>(q, _). prefix (elems (os_path src)) q) d)))"
    by (simp add: distinct_map)
  then show ?thesis unfolding walk_def by (simp add: distinct_map_filter)
qed

definition plain_path :: "fpath \<Rightarrow> bool" where
  "plain_path q \<longleftrightarrow> list_all plain_elem q"

lemma elems_os_path: "plain_path q \<Longrightarrow> elems (os_path q) = q"
  using elems_render [of True q] by (auto simp: plain_path_def clean_shape_def intro: exI [of _ 0])

text \<open>A copy changes nothing outside its target; a complete copy of a directory without links is the directory.\<close>

lemma copy_at:
  assumes "restoreCopyDir c src dst d = (ok, d')" "plain_path src" "disk_ok d" "apart src dst"
  shows "\<not> prefix dst p \<Longrightarrow> map_of d' p = map_of d p"
    "ok \<Longrightarrow> map_of d dst = None \<Longrightarrow> \<forall>r x. map_of d (src @ r) \<noteq> Some (LinkE x) \<Longrightarrow> map_of d' (dst @ r) = map_of d (src @ r)"
proof -
  define es where "es = map (\<lambda>(q, x). (moved src dst q, copied_as x)) (walk d (os_path src) [])"
  define start where "start = takeWhile (\<lambda>(_, x). x \<noteq> None) (case rc_Copied c src dst of None \<Rightarrow> es | Some n \<Rightarrow> take n es)"
  have d': "d' = fold (\<lambda>(q, x). set_entry q (the x)) start d" and ok: "ok \<longleftrightarrow> rc_Copied c src dst = None \<and> list_all (\<lambda>(_, x). x \<noteq> None) es"
    using assms(1) unfolding restoreCopyDir_def Let_def es_def [symmetric] start_def [symmetric] by auto
  have "set start \<subseteq> set es"
    by (auto simp: start_def dest!: set_takeWhileD split: option.splits dest: in_set_takeD)
  moreover have es: "(p, y) \<in> set es \<longleftrightarrow> (\<exists>r x. p = dst @ r \<and> y = copied_as x \<and> (src @ r, x) \<in> set d)" for p y
  proof
    assume "(p, y) \<in> set es"
    then obtain q x where "(q, x) \<in> set d" "prefix src q" "p = moved src dst q" "y = copied_as x"
      by (auto simp: es_def set_walk elems_os_path [OF assms(2)])
    then show "\<exists>r x. p = dst @ r \<and> y = copied_as x \<and> (src @ r, x) \<in> set d" by (auto simp: prefix_def)
  next
    assume "\<exists>r x. p = dst @ r \<and> y = copied_as x \<and> (src @ r, x) \<in> set d"
    then obtain r x where "p = dst @ r" "y = copied_as x" "(src @ r, x) \<in> set (walk d (os_path src) [])"
      by (auto simp: set_walk elems_os_path [OF assms(2)])
    then show "(p, y) \<in> set es" unfolding es_def set_map by (intro image_eqI [of _ _ "(src @ r, x)"]) auto
  qed
  ultimately have keys: "prefix dst q" if "(q, x) \<in> set start" for q x using subsetD [of "set start" "set es", OF _ that] by auto
  show "map_of d' p = map_of d p" if "\<not> prefix dst p"
  proof -
    have "map_of (rev start) p = None" using keys that by (auto simp: map_of_eq_None_iff)
    then show ?thesis by (simp add: d' map_of_fold_set)
  qed
  show "map_of d' (dst @ r) = map_of d (src @ r)" if ok': ok and free: "map_of d dst = None" and nl: "\<forall>r x. map_of d (src @ r) \<noteq> Some (LinkE x)"
  proof -
    have "start = es" using ok ok' by (auto simp: start_def list_all_iff takeWhile_eq_all_conv)
    have "distinct (map fst es)"
    proof -
      have "inj_on (moved src dst) (fst ` set (walk d (os_path src) []))"
        unfolding set_walk elems_os_path [OF assms(2)] by (auto simp: inj_on_def moved_def prefix_def)
      then show ?thesis
        using distinct_walk [of d src "[]"] assms(3) by (simp add: es_def disk_ok_def comp_def case_prod_beta distinct_map inj_on_def)
    qed
    then have m: "map_of (rev es) q = Some y \<longleftrightarrow> (q, y) \<in> set es" for q y
      by (subst map_of_eq_Some_iff) (auto simp: rev_map [symmetric])
    show ?thesis
    proof (cases "map_of d (src @ r)")
      case None
      then have "map_of (rev es) (dst @ r) = None" by (force simp: map_of_eq_None_iff es)
      moreover have "map_of d (dst @ r) = None" using free_below [OF assms(3) free, of "dst @ r"] by (auto simp: map_of_eq_None_iff)
      ultimately show ?thesis using None by (simp add: d' map_of_fold_set \<open>start = es\<close>)
    next
      case (Some x)
      then have "(dst @ r, copied_as x) \<in> set es" using es map_of_SomeD by fastforce
      moreover have "copied_as x = Some x" using nl Some by (cases x) (auto simp: copied_as_def)
      ultimately have "map_of (rev es) (dst @ r) = Some (Some x)" using m by simp
      then show ?thesis using Some by (simp add: d' map_of_fold_set \<open>start = es\<close>)
    qed
  qed
qed

text \<open>A copy starts with the directory itself, so as long as that is missing nothing has been written.\<close>

lemma prefix_le: "prefix xs ys \<Longrightarrow> xs \<le> (ys :: 'a :: linorder list)"
proof -
  have "xs \<le> xs @ zs" for zs by (induction xs) auto
  then show "prefix xs ys \<Longrightarrow> xs \<le> ys" by (auto simp: prefix_def)
qed

lemma walk_head:
  assumes "(q, x) # es = walk d (os_path src) []" "plain_path src" "disk_ok d"
  shows "q = src"
proof -
  have m: "prefix src p" if "(p, y) \<in> set ((q, x) # es)" for p y using that unfolding assms(1) by (auto simp: set_walk elems_os_path [OF assms(2)])
  have "(q, x) \<in> set d" using assms(1) set_walk [of d src] by (metis (no_types, lifting) case_prodD list.set_intros(1) mem_Collect_eq)
  moreover have "prefix src q" using m [of q x] by simp
  ultimately have "src \<in> fst ` set d" using assms(3) by (force simp: disk_ok_def)
  then obtain y where "(src, y) \<in> set ((q, x) # es)" unfolding assms(1) set_walk elems_os_path [OF assms(2)] by force
  moreover have "sorted (map fst ((q, x) # es))" unfolding assms(1) by (simp add: walk_def isExcludedPath_def)
  ultimately have "q \<le> src" by auto
  then show ?thesis using prefix_le [OF \<open>prefix src q\<close>] by simp
qed

lemma copy_root:
  assumes "restoreCopyDir c src dst d = (ok, d')" "plain_path src" "disk_ok d" "map_of d' dst = None"
  shows "d' = d"
proof -
  define es where "es = map (\<lambda>(q, x). (moved src dst q, copied_as x)) (walk d (os_path src) [])"
  define start where "start = takeWhile (\<lambda>(_, x). x \<noteq> None) (case rc_Copied c src dst of None \<Rightarrow> es | Some n \<Rightarrow> take n es)"
  have d': "d' = fold (\<lambda>(q, x). set_entry q (the x)) start d"
    using assms(1) unfolding restoreCopyDir_def Let_def es_def [symmetric] start_def [symmetric] by auto
  show ?thesis
  proof (cases start)
    case (Cons a start')
    have "\<exists>es'. es = a # es'"
      using Cons unfolding start_def by (cases es; cases "rc_Copied c src dst") (auto split: if_splits simp: take_Cons' )
    then obtain q x ws where w: "(q, x) # ws = walk d (os_path src) []" "a = (moved src dst q, copied_as x)"
      unfolding es_def by (cases "walk d (os_path src) []") auto
    from walk_head [OF this(1) assms(2,3)] have "fst a = dst" using w(2) moved_simps(1) [of src dst "[]"] by simp
    then have "map_of (rev start) dst \<noteq> None" using Cons by (metis map_of_eq_None_iff set_rev image_eqI list.set_intros(1))
    then show ?thesis using assms(4) by (auto simp: d' map_of_fold_set)
  qed (simp add: d')
qed

section \<open>Nothing is lost\<close>

lemma move_at:
  assumes "restoreMoveDir c src dst d = (ok, d')" "plain_path src" "disk_ok d" "apart src dst"
  shows "\<not> prefix src p \<Longrightarrow> apart p dst \<Longrightarrow> map_of d' p = map_of d p"
    "\<not> ok \<Longrightarrow> map_of d dst = None \<Longrightarrow> map_of d' dst = None \<Longrightarrow> q \<in> fst ` set d' \<Longrightarrow> \<not> prefix dst q"
    "ok \<Longrightarrow> map_of d dst = None \<Longrightarrow> \<forall>r x. map_of d (src @ r) \<noteq> Some (LinkE x) \<Longrightarrow> map_of d' (dst @ r) = map_of d (src @ r)"
proof -
  define e where "e = mkdir_all (butlast dst) d"
  have below: "\<not> prefix (src @ r) (butlast dst)" for r
    using assms(4) prefixeq_butlast [of dst] by (auto simp: apart_def dest: append_prefixD prefix_order.trans)
  have e: "disk_ok e" "map_of e (src @ r) = map_of d (src @ r)" "\<not> prefix p dst \<Longrightarrow> map_of e p = map_of d p" for r p
    using ok_mkdir [OF assms(3)] below prefixeq_butlast [of dst] by (auto simp: e_def map_of_mkdir_all dest: prefix_order.trans)
  have free: "map_of d dst = None \<Longrightarrow> map_of e dst = None \<or> dst = []"
    by (cases dst rule: rev_cases) (auto simp: e_def map_of_mkdir_all)
  have ne: "dst \<noteq> []" using assms(4) by (auto simp: apart_def)
  have r: "restoreMoveDir c src dst d = (if \<not> rc_Mkdir c (butlast dst) then (False, d)
      else case os_Rename c src dst e of Some d \<Rightarrow> (True, d) | None \<Rightarrow> restoreCopyDir c src dst e)"
    by (simp only: restoreMoveDir_def Let_def e_def)
  have "d' = d \<and> \<not> ok \<or> os_Rename c src dst e = Some d' \<and> ok \<or> restoreCopyDir c src dst e = (ok, d')"
    using assms(1) unfolding r by (cases "rc_Mkdir c (butlast dst)"; cases "os_Rename c src dst e"; simp)
  then consider "d' = d" "\<not> ok" | "os_Rename c src dst e = Some d'" "ok" | "restoreCopyDir c src dst e = (ok, d')" by blast
  note cases = this
  show "map_of d' p = map_of d p" if "\<not> prefix src p" "apart p dst"
    using cases
  proof cases
    case 2
    then show ?thesis using rename_at(3) [OF 2(1) e(1) assms(4)] e(3) that by (auto simp: apart_def)
  next
    case 3
    then show ?thesis using copy_at(1) [OF 3 assms(2) e(1) assms(4)] e(3) that by (auto simp: apart_def)
  qed simp
  show "\<not> prefix dst q" if "\<not> ok" "map_of d dst = None" "map_of d' dst = None" "q \<in> fst ` set d'"
    using cases
  proof cases
    case 3
    from copy_root [OF 3 assms(2) e(1) that(3)] free_below [OF e(1)] that(3,4) show ?thesis by simp
  qed (use that free_below [OF assms(3) that(2)] in auto)
  assume *: ok "map_of d dst = None" "\<forall>r x. map_of d (src @ r) \<noteq> Some (LinkE x)"
  then consider (ren) "os_Rename c src dst e = Some d'" | (cp) "restoreCopyDir c src dst e = (ok, d')"
    using cases by metis
  then show "map_of d' (dst @ r) = map_of d (src @ r)"
  proof cases
    case ren
    from rename_at(1) [OF this e(1) assms(4)] e(2) show ?thesis by simp
  next
    case cp
    from copy_at(2) [OF this assms(2) e(1) assms(4) *(1)] free [OF *(2)] ne *(3) e(2) show ?thesis by simp
  qed
qed

lemma replace_cases:
  assumes "restoreReplaceDir c src dst d = (r, d')"
  defines "old \<equiv> restore_old dst" and "e \<equiv> os_RemoveAll c (restore_old dst) d"
  obtains (new) ok where "map_of e dst = None" "restoreMoveDir c src dst e = (ok, d')" "r = (if ok then None else Some CannotPlace)"
  | (stuck) "r = Some CannotMoveAside" "d' = e"
  | (placed) f g where "os_Rename c dst old e = Some f" "restoreMoveDir c src dst f = (True, g)" "r = None" "d' = os_RemoveAll c old g"
  | (lost) f g where "os_Rename c dst old e = Some f" "restoreMoveDir c src dst f = (False, g)" "r = Some RollbackFailed" "d' = os_RemoveAll c dst g"
  | (undone) f g where "os_Rename c dst old e = Some f" "restoreMoveDir c src dst f = (False, g)" "r = Some CannotPlace"
      "os_Rename c old dst (os_RemoveAll c dst g) = Some d'"
proof -
  have r: "restoreReplaceDir c src dst d =
     (case (if map_of e dst \<noteq> None then os_Rename c dst old e else Some e) of
        None \<Rightarrow> (Some CannotMoveAside, e)
      | Some d \<Rightarrow>
          (case restoreMoveDir c src dst d of
             (False, d) \<Rightarrow>
               if map_of e dst \<noteq> None then
                 (case os_Rename c old dst (os_RemoveAll c dst d) of
                    None \<Rightarrow> (Some RollbackFailed, os_RemoveAll c dst d)
                  | Some d \<Rightarrow> (Some CannotPlace, d))
               else (Some CannotPlace, d)
           | (True, d) \<Rightarrow> (None, if map_of e dst \<noteq> None then os_RemoveAll c old d else d)))"
    by (simp only: restoreReplaceDir_def Let_def old_def e_def)
  show ?thesis
  proof (cases "map_of e dst")
    case None
    obtain ok f where f: "restoreMoveDir c src dst e = (ok, f)" by fastforce
    show ?thesis using new [OF None] assms(1) None f
      by (cases ok) (auto simp: r)
  next
    case h: (Some x)
    show ?thesis
    proof (cases "os_Rename c dst old e")
      case None
      then show ?thesis using stuck assms(1) h by (auto simp: r)
    next
      case (Some f)
      obtain ok g where g: "restoreMoveDir c src dst f = (ok, g)" by fastforce
      show ?thesis using placed [OF Some] lost [OF Some] undone [OF Some] assms(1) h Some g
        by (cases ok; cases "os_Rename c old dst (os_RemoveAll c dst g)") (auto simp: r)
    qed
  qed
qed

lemma rolled_back:
  assumes "restoreMoveDir c src dst f = (False, g)" "plain_path src" "disk_ok f" "apart src dst" "map_of f dst = None" "remove_sane c"
    and "apart dst old" "os_Rename c old dst (os_RemoveAll c dst g) = Some k"
  shows "map_of k (dst @ s) = map_of g (old @ s)"
proof -
  have "map_of (os_RemoveAll c dst g) dst = None" using assms(8) by (auto simp: os_Rename_def split: if_splits)
  then have "map_of g dst = None \<or> rc_Remove c dst dst" by (simp add: map_of_RemoveAll split: if_splits)
  then have "\<forall>q \<in> fst ` set (os_RemoveAll c dst g). \<not> prefix dst q"
    using move_at(2) [OF assms(1-4) _ assms(5)] assms(6) by (force simp: os_RemoveAll_def remove_sane_def)
  from rename_onto [OF assms(8) this] assms(7) have "map_of k (dst @ s) = map_of (os_RemoveAll c dst g) (old @ s)" by (simp add: apart_sym)
  then show ?thesis using apart_below [OF assms(7)] by (simp add: map_of_RemoveAll)
qed

text \<open>
  C17. A restore never loses the directory it replaces: when the new content is in place it is there completely; when a
  step fails and a directory stood there, it is back as it was, and if even putting it back fails, it is
  complete under the name it was moved to. This holds whatever calls fail and however far a copy came.
\<close>

theorem restore_keeps_data:
  assumes "restoreReplaceDir c src dst d = (r, d')" "disk_ok d" "remove_sane c" "plain_path src" "dst \<noteq> []"
    and "apart src dst" "apart src (restore_old dst)" "\<forall>s x. map_of d (src @ s) \<noteq> Some (LinkE x)"
  shows "case r of
      None \<Rightarrow> \<forall>s. map_of d' (dst @ s) = map_of d (src @ s)
    | Some e \<Rightarrow> map_of d dst \<noteq> None \<longrightarrow>
        (\<forall>s. map_of d' ((if e = RollbackFailed then restore_old dst else dst) @ s) = map_of d (dst @ s))"
proof -
  define old where "old = restore_old dst"
  define e where "e = os_RemoveAll c old d"
  note ap = restore_old_apart [OF assms(5), folded old_def] assms(6) assms(7) [folded old_def]
  have np: "\<not> prefix old (dst @ s)" "\<not> prefix old (src @ s)" "\<not> prefix dst (old @ s)" "\<not> prefix src (old @ s)" "\<not> prefix dst (src @ s)" for s
    using ap apart_below apart_sym by metis+
  have e: "disk_ok e" "map_of e (dst @ s) = map_of d (dst @ s)" "map_of e (src @ s) = map_of d (src @ s)" for s
    using ok_RemoveAll [OF assms(3,2)] np by (simp_all add: e_def map_of_RemoveAll)
  have f: "disk_ok f" "map_of f dst = None" "map_of f (src @ s) = map_of d (src @ s)" "map_of f (old @ s) = map_of d (dst @ s)"
    if "os_Rename c dst old e = Some f" for f s
    using rename_at [OF that e(1) ap(1)] rename_at(2) [OF that e(1) ap(1), of "[]"] np e by simp_all
  have g: "map_of g (old @ s) = map_of d (dst @ s)" if "os_Rename c dst old e = Some f" "restoreMoveDir c src dst f = (ok, g)" for f g ok s
    using move_at(1) [OF that(2) assms(4) f(1) [OF that(1)] ap(2) np(4) apart_ext] ap(1) f(4) [OF that(1)] apart_sym by simp
  show ?thesis
    using assms(1)
  proof (cases rule: replace_cases)
    case (new ok)
    note new = new [folded old_def, folded e_def]
    then show ?thesis using move_at(3) [OF new(2) assms(4) e(1) ap(2) _ new(1)] assms(8) e(2) [of "[]"] e(3) by simp
  next
    case stuck
    then show ?thesis using e(2) by (simp add: e_def old_def)
  next
    case (placed h k)
    note placed = placed [folded old_def, folded e_def]
    note h = f [OF placed(1)]
    have "map_of k (dst @ s) = map_of d (src @ s)" for s using move_at(3) [OF placed(2) assms(4) h(1) ap(2) _ h(2)] h(3) assms(8) by simp
    then show ?thesis using placed(3,4) np by (simp add: map_of_RemoveAll)
  next
    case (lost h k)
    note lost = lost [folded old_def, folded e_def]
    from lost show ?thesis using g [OF lost(1,2)] np by (simp add: map_of_RemoveAll old_def)
  next
    case (undone h k)
    note undone = undone [folded old_def, folded e_def]
    from undone show ?thesis using rolled_back [OF undone(2) assms(4) f(1) [OF undone(1)] ap(2) f(2) [OF undone(1)] assms(3) ap(1) undone(4)] g [OF undone(1,2)] by simp
  qed
qed

section \<open>A restore from another file system\<close>

text \<open>
  The layout of a Linux server: configuration and data directory have the same last element, and the database is below
  the data directory. The temporary directory is on another file system, so that a rename out of it
  fails and the extracted directories are copied.
\<close>

definition linux_disk :: disk where
  "linux_disk =
     [([], DirE), ([''tmp''], DirE), ([''tmp'', ''x''], DirE), ([''tmp'', ''x'', ''app''], DirE),
      ([''tmp'', ''x'', ''app'', ''server.yml''], FileE ''new''), ([''tmp'', ''x'', ''db''], DirE),
      ([''tmp'', ''x'', ''db'', ''server.db''], FileE ''backup''),
      ([''etc''], DirE), ([''etc'', ''app''], DirE), ([''etc'', ''app'', ''server.yml''], FileE ''old''),
      ([''var''], DirE), ([''var'', ''app''], DirE), ([''var'', ''app'', ''db''], DirE),
      ([''var'', ''app'', ''db'', ''server.db''], FileE ''live'')]"

definition other_device :: restore_calls where
  "other_device = \<lparr>rc_Rename = (\<lambda>src dst. hd src \<noteq> ''tmp''), rc_Remove = (\<lambda>_ _. True), rc_Mkdir = (\<lambda>_. True), rc_Copied = (\<lambda>_ _. None)\<rparr>"

text \<open>
  A backup without the data directory is restored, every step is reported as taken, and the database is gone: the copied
  configuration is still in the temporary directory under the name that is looked up for the data
  directory, so it replaces the data directory with the database in it.
\<close>

lemma restore_loses_database:
  "fst (restore_dirs other_device [''tmp'', ''x''] ''/etc/app'' ''/var/app/db'' ''/var/app'' linux_disk) = Inr [True, True, True]"
  "map_of (snd (restore_dirs other_device [''tmp'', ''x''] ''/etc/app'' ''/var/app/db'' ''/var/app'' linux_disk)) [''var'', ''app'', ''db'', ''server.db''] = None"
  "map_of (snd (restore_dirs other_device [''tmp'', ''x''] ''/etc/app'' ''/var/app/db'' ''/var/app'' linux_disk)) [''var'', ''app'', ''server.yml''] = Some (FileE ''new'')"
  by code_simp+

lemma linux_disk_ok: "disk_ok linux_disk"
proof -
  have "list_all (\<lambda>q. list_all (\<lambda>p. p \<in> set (map fst linux_disk)) (prefixes q)) (map fst linux_disk)" by code_simp
  moreover have "distinct (map fst linux_disk)" by code_simp
  ultimately show ?thesis by (simp add: disk_ok_def list_all_iff)
qed

theorem restore_keeps_data_witness:
  "\<exists>d'. restoreReplaceDir other_device [''tmp'', ''x'', ''app''] [''etc'', ''app''] linux_disk = (None, d')
     \<and> map_of d' [''etc'', ''app'', ''server.yml''] = Some (FileE ''new'')"
proof -
  let ?src = "[''tmp'', ''x'', ''app'']" and ?dst = "[''etc'', ''app'']"
  obtain d' where d': "restoreReplaceDir other_device ?src ?dst linux_disk = (None, d')"
  proof -
    have "fst (restoreReplaceDir other_device ?src ?dst linux_disk) = None" by code_simp
    then show ?thesis using that by (metis prod.collapse)
  qed
  have l: "\<forall>s x. map_of linux_disk (?src @ s) \<noteq> Some (LinkE x)" by (auto simp: linux_disk_def)
  have a: "apart ?src ?dst" "apart ?src (restore_old ?dst)" "remove_sane other_device" "plain_path ?src"
    by (simp_all add: apart_def restore_old_def remove_sane_def other_device_def plain_path_def plain_elem_def dotdot_def slash_def)
  have "\<forall>s. map_of d' (?dst @ s) = map_of linux_disk (?src @ s)"
    using restore_keeps_data [OF d' linux_disk_ok a(3,4) _ a(1,2) l] by simp
  from this [THEN spec, of "[''server.yml'']"] d' show ?thesis by (simp add: linux_disk_def)
qed

end
