(* ===== verification/BackupRoundtrip.thy ===== *)
theory BackupRoundtrip
  imports BackupRestore "HOL-Library.Countable"
begin

text \<open>
  A backup holds what was backed up: the files that are extracted from an archive are those that were put into it, so
  the checksum in its manifest is the one that the verification computes from the extracted tree.
\<close>

section \<open>The files of a tree\<close>

definition file_at :: "disk \<Rightarrow> fpath \<Rightarrow> string option" where
  "file_at d q = (case map_of d q of Some (FileE c) \<Rightarrow> Some c | _ \<Rightarrow> None)"

fun files_of :: "(fpath \<times> fentry) list \<Rightarrow> (fpath \<times> string) list" where
  "files_of [] = []"
| "files_of ((q, FileE c) # es) = (q, c) # files_of es"
| "files_of (_ # es) = files_of es"

definition regs :: "tar_entry list \<Rightarrow> (string \<times> string) list" where
  "regs ts = map (\<lambda>e. (te_Name e, te_Data e)) (filter (\<lambda>e. te_Type e = TypeReg) ts)"

lemma set_files_of: "(q, c) \<in> set (files_of es) \<longleftrightarrow> (q, FileE c) \<in> set es"
  by (induction es rule: files_of.induct) auto

lemma files_of_keys: "sorted_wrt (<) (map fst es) \<Longrightarrow> sorted_wrt (<) (map fst (files_of es))"
proof (induction es rule: files_of.induct)
  case (2 q c es)
  then show ?case using set_files_of [of _ _ es] by force
qed auto

lemma map_of_files_of: "map_of (files_of es) q = (case map_of es q of Some (FileE c) \<Rightarrow> Some c | _ \<Rightarrow> None)"
  if "distinct (map fst es)"
  using that
proof (induction es)
  case (Cons e es)
  obtain p x where e: "e = (p, x)" by fastforce
  then have "map_of es p = None" using Cons.prems by (simp add: map_of_eq_None_iff)
  then show ?case using Cons e by (cases x) auto
qed simp

lemma contents_of_files: "file_contents readable es = Inr s \<Longrightarrow> s = concat (map snd (files_of es))"
  by (induction readable es arbitrary: s rule: file_contents.induct) (auto split: if_splits sum.splits)

lemma contents_readable: "file_contents (\<lambda>_. True) es = Inr (concat (map snd (files_of es)))"
  by (induction "\<lambda>_ :: fpath. True" es rule: file_contents.induct) auto

lemma entries_of_files:
  "dir_entries readable name es = Inr ts \<Longrightarrow> regs ts = map (\<lambda>(q, c). (name q, c)) (files_of es) \<and> (\<forall>e \<in> set ts. te_Size e = int (length (te_Data e)))"
proof (induction readable name es arbitrary: ts rule: dir_entries.induct)
  case (2 readable name q es)
  then show ?case by (auto simp: regs_def dir_header_def split: sum.splits)
next
  case (4 readable name q c es)
  then show ?case by (auto simp: regs_def addBackupFileToTar_def split: if_splits sum.splits)
qed (auto simp: regs_def)

section \<open>Walks\<close>

lemma append_less [simp]: "p @ x < p @ y \<longleftrightarrow> x < (y :: 'a :: linorder list)"
  by (induction p) auto

lemma walk_keys:
  assumes "distinct (map fst d)"
  shows "sorted_wrt (<) (map fst (walk d dir ex))"
proof -
  let ?es = "filter (\<lambda>(q, _). prefix (elems dir) q) d"
  have "distinct (map fst (sort_key fst ?es))" using assms by (simp add: distinct_map inj_on_def)
  moreover have "sorted (map fst (sort_key fst ?es))" by simp
  ultimately have "sorted_wrt (<) (map fst (sort_key fst ?es))" by (simp add: strict_sorted_iff)
  then show ?thesis unfolding walk_def sorted_wrt_map by (rule sorted_wrt_filter)
qed

lemma map_of_walk:
  assumes "distinct (map fst d)"
  shows "map_of (walk d dir ex) q = (if prefix (elems dir) q \<and> \<not> isExcludedPath (os_path q) ex then map_of d q else None)"
proof -
  have "map_of (sort_key fst es) = map_of es" if "distinct (map fst es)" for es :: "(fpath \<times> fentry) list"
  proof -
    have "distinct (map fst (sort_key fst es))" using that by (simp add: distinct_map)
    then show ?thesis using that map_of_inject_set [of "sort_key fst es" es] by simp
  qed
  then show ?thesis using assms unfolding walk_def by (simp add: map_of_filter_pairs distinct_map_filter)
qed

section \<open>Paths\<close>

lemma plain_shape: "plain_path q \<Longrightarrow> clean_shape r q"
  by (auto simp: plain_path_def clean_shape_def intro: exI [of _ 0])

lemma rooted_os_path [simp]: "rooted (os_path q)"
  by (simp add: render_def rooted_def)

lemma Clean_os_path: "plain_path q \<Longrightarrow> Clean (os_path q) = os_path q"
  by (simp add: Clean_def elems_os_path)

lemma plain_no_slash: "plain_path q \<Longrightarrow> x \<in> set q \<Longrightarrow> slash \<notin> set x"
  by (auto simp: plain_path_def list_all_iff plain_elem_def)

lemma split_joined: "plain_path q \<Longrightarrow> q \<noteq> [] \<Longrightarrow> SplitByte (Join q [slash]) slash = q"
  using SplitByte_Join [of q slash] plain_no_slash by blast

lemma Join_append: "p \<noteq> [] \<Longrightarrow> q \<noteq> [] \<Longrightarrow> Join (p @ q) sep = Join p sep @ sep @ Join q sep"
proof (induction p)
  case (Cons a p)
  then show ?case by (cases p; cases q) auto
qed simp

lemma isUnderDir_prefix:
  assumes "plain_path q" "plain_path e" "e \<noteq> []"
  shows "isUnderDir (os_path q) (os_path e) \<longleftrightarrow> prefix e q"
proof -
  have ne: "os_path x \<noteq> []" for x by (simp add: render_def)
  have eq: "os_path q = os_path e \<longleftrightarrow> q = e" using elems_os_path assms by metis
  have "HasPrefix (os_path q) (os_path e @ [slash]) \<longleftrightarrow> strict_prefix e q"
  proof
    assume "HasPrefix (os_path q) (os_path e @ [slash])"
    then obtain z where z: "Join q [slash] = Join e [slash] @ slash # z" by (auto simp: HasPrefix_iff render_def)
    then have "q \<noteq> []" by auto
    then have "q = e @ SplitByte z slash"
      using z split_joined [OF assms(1)] split_joined [OF assms(2,3)] SplitByte_append [of "Join e [slash]" slash z] by simp
    moreover have "SplitByte z slash \<noteq> []" by simp
    ultimately show "strict_prefix e q" by (auto simp: strict_prefix_def)
  next
    assume "strict_prefix e q"
    then obtain r where "q = e @ r" "r \<noteq> []" by (auto simp: strict_prefix_def prefix_def)
    then show "HasPrefix (os_path q) (os_path e @ [slash])" using assms(3) by (simp add: HasPrefix_iff render_def Join_append)
  qed
  then show ?thesis using assms ne eq by (auto simp: isUnderDir_def Clean_os_path strict_prefix_def)
qed

lemma path_Base_os_path:
  assumes "plain_path (q @ [b])"
  shows "path_Base (os_path (q @ [b])) = b"
proof -
  have b: "b \<noteq> []" "slash \<notin> set b" using assms by (auto simp: plain_path_def plain_elem_def)
  have s: "os_path (q @ [b]) = os_path q @ (if q = [] then [] else [slash]) @ b" by (auto simp: render_def Join_append)
  have "last (os_path (q @ [b])) = last b" using b s by simp
  then have "last (os_path (q @ [b])) \<noteq> slash" using b by (metis last_in_set)
  then have t: "TrimRightFunc (\<lambda>c. c = slash) (os_path (q @ [b])) = os_path (q @ [b])"
    by (cases "os_path (q @ [b])" rule: rev_cases) (auto simp: TrimRightFunc_def)
  have "last (SplitByte (os_path (q @ [b])) slash) = b"
  proof (cases "q = []")
    case True
    then show ?thesis using b SplitByte_append [of "[]" slash b] SplitByte_notin [of slash b] by (simp add: render_def)
  next
    case False
    then show ?thesis
      using s b SplitByte_append [of "os_path q" slash b] SplitByte_notin [of slash b] by simp
  qed
  then show ?thesis using t by (simp add: path_Base_def render_def)
qed

lemma elems_name:
  assumes "plain_elem b" "plain_path r"
  shows "elems b = [b]" "\<not> rooted b" "r \<noteq> [] \<Longrightarrow> elems (path_Join b (Join r [slash])) = b # r"
proof -
  have e: "render False [b] = b" by (simp add: render_def)
  then show b: "elems b = [b]" "\<not> rooted b" using elems_render [of False "[b]"] assms(1) plain_shape [of "[b]"] by (auto simp: plain_path_def)
  assume r: "r \<noteq> []"
  then have j: "render False r = Join r [slash]" by (simp add: render_def)
  then have c: "elems (Join r [slash]) = r" "\<not> rooted (Join r [slash])" using elems_render [of False r] plain_shape [OF assms(2)] by auto
  then have "Clean (Join r [slash]) = Join r [slash]" using j by (simp add: Clean_def)
  then show "elems (path_Join b (Join r [slash])) = b # r"
    using elems_Join_Clean [of b "Join r [slash]"] b c assms by (auto simp: plain_elem_def plain_path_def)
qed

lemma elems_entry_name:
  assumes "plain_elem b" "plain_path (cs @ r)"
  shows "elems (entry_name (os_path cs) b (cs @ r)) = b # r"
  using assms elems_name [of b r] elems_os_path [of cs] by (auto simp: entry_name_def Let_def plain_path_def)

lemma path_Join_os_path:
  assumes "plain_path ts" "plain_elem b"
  shows "path_Join (os_path ts) b = os_path (ts @ [b])"
proof -
  have "Clean b = b" using elems_name [OF assms(2), of "[]"] by (auto simp: Clean_def render_def plain_path_def)
  then have "elems (path_Join (os_path ts) b) = ts @ [b]" "rooted (path_Join (os_path ts) b)"
    using elems_Join_Clean [of "os_path ts" b] elems_name [OF assms(2), of "[]"] assms elems_os_path
    by (auto simp: render_def [of True] rooted_def plain_path_def)
  moreover have "path_Join (os_path ts) b = Clean (path_Join (os_path ts) b)"
    using assms(2) by (auto simp: path_Join_def plain_elem_def)
  ultimately show ?thesis by (simp add: Clean_def)
qed

section \<open>Extracted files\<close>

lemma file_at_same: "same_files d d' \<Longrightarrow> file_at d' q = file_at d q"
proof -
  assume "same_files d d'"
  from this [unfolded same_files_def, THEN spec, of q] show ?thesis
    by (cases "\<exists>c. map_of d q = Some (FileE c)") (auto simp: file_at_def split: option.splits fentry.splits)
qed

lemma file_at_set: "file_at (set_entry p (FileE c) d) q = (if q = p then Some c else file_at d q)"
  by (simp add: file_at_def map_of_set_entry)

lemma ok_set: "disk_ok d \<Longrightarrow> map_of d (butlast q) \<noteq> None \<Longrightarrow> disk_ok (set_entry q x d)"
proof -
  assume d: "disk_ok d" and b: "map_of d (butlast q) \<noteq> None"
  have k: "fst ` set (set_entry q x d) = insert q (fst ` set d)" by (force simp: set_entry_def)
  have "distinct (map fst (set_entry q x d))" using d by (auto simp: disk_ok_def set_entry_def distinct_map_filter)
  moreover have "p \<in> insert q (fst ` set d)" if "prefix p q" for p
  proof (cases "p = q")
    case False
    then have "prefix p (butlast q)" using that by (cases q rule: rev_cases) auto
    then show ?thesis using d b by (auto simp: disk_ok_def map_of_eq_None_iff)
  qed simp
  ultimately show ?thesis using d unfolding disk_ok_def k by auto
qed

definition no_new_links :: "disk \<Rightarrow> disk \<Rightarrow> bool" where
  "no_new_links d d' \<longleftrightarrow> (\<forall>q x. map_of d' q = Some (LinkE x) \<longrightarrow> map_of d q = Some (LinkE x))"

text \<open>What one entry does when it is extracted without an error.\<close>

lemma extract_entry_done:
  assumes "extract_entry os target e d = (None, d')" "disk_ok d" "te_Size e = int (length (te_Data e))"
  shows "disk_ok d' \<and> no_new_links d d'
    \<and> file_at d' q = (if te_Type e = TypeReg \<and> q = elems target then Some (te_Data e) else file_at d q)"
proof -
  define d1 where "d1 = mkdir_all (butlast (elems target)) d"
  have d1: "disk_ok d1" "map_of d1 (butlast (elems target)) \<noteq> None" "no_new_links d d1" "file_at d1 p = file_at d p" for p
    using ok_mkdir [OF assms(2)] file_at_same [OF same_files_mkdir] by (auto simp: d1_def map_of_mkdir_all no_new_links_def split: if_splits)
  show ?thesis
  proof (cases "te_Type e")
    case TypeReg
    then have "d' = set_entry (elems target) (FileE (te_Data e)) d1"
      using assms(1,3) by (auto simp: extract_entry_def Let_def d1_def split: if_splits)
    then show ?thesis using TypeReg d1 ok_set [OF d1(1,2)] by (auto simp: file_at_set no_new_links_def map_of_set_entry)
  next
    case TypeDir
    then have "d' = mkdir_all (elems target) d" using assms(1) by (auto simp: extract_entry_def Let_def split: if_splits)
    then show ?thesis
      using TypeDir ok_mkdir [OF assms(2)] file_at_same [OF same_files_mkdir] by (auto simp: no_new_links_def map_of_mkdir_all split: if_splits)
  next
    case TypeOther
    then show ?thesis using assms by (auto simp: extract_entry_def Let_def no_new_links_def)
  qed
qed

abbreviation placed :: "fpath \<Rightarrow> (string \<times> string) list \<Rightarrow> (fpath \<times> string) list" where
  "placed dest rs \<equiv> map (\<lambda>(n, c). (dest @ elems n, c)) rs"

lemma extract_loop_done:
  assumes "extract_loop os exceeds limits cleanDest ok n m es d = (None, d')" "cleanDest \<noteq> []" "disk_ok d"
    and "\<forall>e \<in> set es. te_Size e = int (length (te_Data e))"
  shows "disk_ok d' \<and> no_new_links d d'
    \<and> file_at d' q = (case map_of (rev (placed (elems cleanDest) (regs es))) q of Some c \<Rightarrow> Some c | None \<Rightarrow> file_at d q)"
  using assms
proof (induction es arbitrary: n m d)
  case Nil
  then show ?case by (auto simp: regs_def no_new_links_def split: if_splits)
next
  case (Cons e es)
  let ?t = "path_Join cleanDest (Clean (te_Name e))"
  obtain n' m' r d1 where d1: "extract_entry os ?t e d = (r, d1)" and rec: "r = None" "extract_loop os exceeds limits cleanDest ok n' m' es d1 = (None, d')"
    and p: "list_all plain_elem (elems (te_Name e))" "\<not> rooted (te_Name e)"
    using Cons.prems(1) plain_relative [of "te_Name e"] by (auto simp: Let_def split: if_splits option.splits prod.splits)
  have t: "elems ?t = elems cleanDest @ elems (te_Name e)" by (rule elems_Join_Clean(1) [OF Cons.prems(2) p(2,1)])
  have s: "te_Size e = int (length (te_Data e))" using Cons.prems(4) by simp
  note one = extract_entry_done [OF d1 [unfolded rec(1)] Cons.prems(3) s, unfolded t]
  from Cons.IH [OF rec(2) Cons.prems(2) one [THEN conjunct1]] Cons.prems(4) one
  show ?case by (auto simp: regs_def no_new_links_def map_add_def split: option.splits)
qed

section \<open>One directory, there and back\<close>

definition tree_ok :: "disk \<Rightarrow> bool" where
  "tree_ok d \<longleftrightarrow> disk_ok d \<and> (\<forall>q \<in> fst ` set d. plain_path q \<and> (\<forall>p. strict_prefix p q \<longrightarrow> map_of d p = Some DirE))"

abbreviation files_in :: "disk \<Rightarrow> fpath \<Rightarrow> string list \<Rightarrow> (fpath \<times> string) list" where
  "files_in d cs ex \<equiv> files_of (walk d (os_path cs) ex)"

definition shifted :: "fpath \<Rightarrow> fpath \<Rightarrow> (fpath \<times> string) list \<Rightarrow> (fpath \<times> string) list" where
  "shifted cs X F = map (\<lambda>(q, c). (X @ drop (length cs) q, c)) F"

lemma map_of_files_in:
  assumes "tree_ok d" "plain_path cs"
  shows "map_of (files_in d cs ex) q = (if prefix cs q \<and> \<not> isExcludedPath (os_path q) ex then file_at d q else None)"
    "sorted_wrt (<) (map fst (files_in d cs ex))" "(q, c) \<in> set (files_in d cs ex) \<Longrightarrow> prefix cs q \<and> map_of d q = Some (FileE c) \<and> plain_path q"
proof -
  have d: "distinct (map fst d)" using assms(1) by (simp add: tree_ok_def disk_ok_def)
  have w: "sorted_wrt (<) (map fst (walk d (os_path cs) ex))" by (rule walk_keys [OF d])
  then show "sorted_wrt (<) (map fst (files_in d cs ex))" by (rule files_of_keys)
  have "distinct (map fst (walk d (os_path cs) ex))" using w by (simp add: strict_sorted_iff)
  then show "map_of (files_in d cs ex) q = (if prefix cs q \<and> \<not> isExcludedPath (os_path q) ex then file_at d q else None)"
    by (simp add: map_of_files_of map_of_walk [OF d] elems_os_path [OF assms(2)] file_at_def)
  assume "(q, c) \<in> set (files_in d cs ex)"
  then have q: "(q, FileE c) \<in> set d" "prefix cs q" by (auto simp: set_files_of walk_def elems_os_path [OF assms(2)])
  moreover have "plain_path q" using assms(1) q(1) by (force simp: tree_ok_def)
  ultimately show "prefix cs q \<and> map_of d q = Some (FileE c) \<and> plain_path q" using d by simp
qed

lemma stat_os_path: "plain_path q \<Longrightarrow> stat d (os_path q) = (case map_of d q of Some (LinkE x) \<Rightarrow> x | x \<Rightarrow> x)"
  by (simp add: stat_def lstat_def elems_os_path)

lemma files_in_dir:
  assumes "tree_ok d" "plain_path cs" "(q, c) \<in> set (files_in d cs ex)"
  shows "stat d (os_path cs) = Some DirE \<or> q = cs \<and> (\<exists>c. stat d (os_path cs) = Some (FileE c))"
proof -
  have q: "prefix cs q" "map_of d q = Some (FileE c)" using map_of_files_in(3) [OF assms] by auto
  then have "q \<in> fst ` set d" by (metis map_of_eq_None_iff option.distinct(1))
  then show ?thesis using q assms(1) by (cases "q = cs") (auto simp: stat_os_path [OF assms(2)] tree_ok_def strict_prefix_def)
qed

lemma archived_dir:
  assumes "tree_ok d" "plain_path cs" "hashBackupDirInto readable d (os_path cs) ex = Inr s" "addBackupDirToTar readable d (os_path cs) b ex = Inr ts"
  shows "s = concat (map snd (files_in d cs ex)) \<and> regs ts = map (\<lambda>(q, c). (entry_name (os_path cs) b q, c)) (files_in d cs ex)
    \<and> (\<forall>e \<in> set ts. te_Size e = int (length (te_Data e))) \<and> map_of (files_in d cs ex) cs = None"
proof (cases "stat d (os_path cs)")
  case None
  then have "files_in d cs ex = []" using files_in_dir [OF assms(1,2), of _ _ ex] by (cases "files_in d cs ex") force+
  then show ?thesis using assms(3,4) None by (simp add: hashBackupDirInto_def addBackupDirToTar_def regs_def)
next
  case (Some x)
  then have x: "x = DirE" using assms(3) by (cases x) (auto simp: hashBackupDirInto_def)
  then have "map_of (files_in d cs ex) cs = None"
    using Some stat_os_path [OF assms(2), of d] by (auto simp: map_of_files_in(1) [OF assms(1,2)] file_at_def split: option.splits fentry.splits)
  then show ?thesis
    using Some x assms(3,4) contents_of_files entries_of_files by (fastforce simp: hashBackupDirInto_def addBackupDirToTar_def)
qed

lemma placed_entries:
  assumes "tree_ok d" "plain_path cs" "plain_elem b"
  shows "placed ts (map (\<lambda>(q, c). (entry_name (os_path cs) b q, c)) (files_in d cs ex)) = shifted cs (ts @ [b]) (files_in d cs ex)"
  unfolding shifted_def map_map
proof (rule map_cong [OF refl])
  fix z assume z: "z \<in> set (files_in d cs ex)"
  obtain q c where qc: "z = (q, c)" by fastforce
  from map_of_files_in(3) [OF assms(1,2), of q c ex] z qc obtain r where r: "q = cs @ r" "plain_path (cs @ r)" by (auto simp: prefix_def)
  show "((\<lambda>(n, c). (ts @ elems n, c)) \<circ> (\<lambda>(q, c). (entry_name (os_path cs) b q, c))) z = (\<lambda>(q, c). ((ts @ [b]) @ drop (length cs) q, c)) z"
    using elems_entry_name [OF assms(3) r(2)] by (simp add: qc r(1))
qed

lemma shifted_keys:
  assumes "tree_ok d" "plain_path cs"
  shows "sorted_wrt (<) (map fst (shifted cs X (files_in d cs ex)))"
    "map_of (shifted cs X (files_in d cs ex)) (X @ r) = map_of (files_in d cs ex) (cs @ r)"
    "\<not> prefix X q \<Longrightarrow> map_of (shifted cs X (files_in d cs ex)) q = None"
proof -
  let ?F = "files_in d cs ex"
  have p: "\<forall>(q, c) \<in> set ?F. prefix cs q" using map_of_files_in(3) [OF assms] by auto
  have "sorted_wrt (<) (map fst F) \<Longrightarrow> \<forall>(q, c) \<in> set F. prefix cs q \<Longrightarrow> sorted_wrt (<) (map fst (shifted cs X F))" for F
    by (induction F) (fastforce simp: shifted_def prefix_def)+
  then show "sorted_wrt (<) (map fst (shifted cs X ?F))" using p map_of_files_in(2) [OF assms] by blast
  have "\<forall>(q, c) \<in> set F. prefix cs q \<Longrightarrow> map_of (shifted cs X F) (X @ r) = map_of F (cs @ r)" for F
    by (induction F) (auto simp: shifted_def prefix_def)
  then show "map_of (shifted cs X ?F) (X @ r) = map_of ?F (cs @ r)" using p by blast
  show "\<not> prefix X q \<Longrightarrow> map_of (shifted cs X ?F) q = None" by (auto simp: map_of_eq_None_iff shifted_def)
qed

text \<open>The digest of an extracted directory takes in the files of the directory that was archived.\<close>

lemma restored_dir:
  assumes "tree_ok d" "plain_path cs" "map_of (files_in d cs ex) cs = None" "plain_path X" "disk_ok d'"
    and at: "\<forall>r. file_at d' (X @ r) = map_of (files_in d cs ex) (cs @ r)"
    and links: "\<forall>x. map_of d' X \<noteq> Some (LinkE x)"
    and hidden: "\<forall>r. isExcludedPath (os_path (X @ r)) ex' \<longrightarrow> map_of (files_in d cs ex) (cs @ r) = None"
  shows "hashBackupDirInto (\<lambda>_. True) d' (os_path X) ex' = Inr (concat (map snd (files_in d cs ex)))"
proof -
  let ?F = "files_in d cs ex" and ?F' = "files_in d' X ex'"
  have d': "distinct (map fst d')" using assms(5) by (simp add: disk_ok_def)
  have w: "distinct (map fst (walk d' (os_path X) ex'))" using walk_keys [OF d', of "os_path X" ex'] by (simp add: strict_sorted_iff)
  have m: "map_of ?F' q = (if prefix X q \<and> \<not> isExcludedPath (os_path q) ex' then file_at d' q else None)" for q
    by (simp add: map_of_files_of [OF w] map_of_walk [OF d'] elems_os_path [OF assms(4)] file_at_def)
  have "map_of ?F' q = map_of (shifted cs X ?F) q" for q
  proof (cases "prefix X q")
    case True
    then obtain r where "q = X @ r" by (auto simp: prefix_def)
    then show ?thesis using m [of q] at hidden shifted_keys(2) [OF assms(1,2)] by auto
  next
    case False
    then show ?thesis using m [of q] shifted_keys(3) [OF assms(1,2)] by simp
  qed
  then have e: "?F' = shifted cs X ?F"
    using files_of_keys [OF walk_keys [OF d']] shifted_keys(1) [OF assms(1,2)] by (intro sorted_alist_eq) auto
  then have c: "concat (map snd ?F') = concat (map snd ?F)" by (simp add: shifted_def comp_def case_prod_beta)
  have "file_at d' X = None" using at [THEN spec, of "[]"] assms(3) by simp
  then have s: "map_of d' X = None \<or> map_of d' X = Some DirE"
    using links by (cases "map_of d' X") (auto simp: file_at_def split: fentry.splits)
  show ?thesis
  proof (cases "map_of d' X = None")
    case True
    then have "\<forall>q \<in> fst ` set d'. \<not> prefix X q" using free_below [OF assms(5)] by blast
    then have "?F' = []" using set_files_of [of _ _ "walk d' (os_path X) ex'"]
      by (cases ?F') (force simp: walk_def elems_os_path [OF assms(4)])+
    then show ?thesis using True c by (simp add: hashBackupDirInto_def stat_os_path [OF assms(4)])
  next
    case False
    from s have "map_of d' X = Some DirE" by (rule disjE) (use False in contradiction, assumption)
    then show ?thesis using c by (simp add: hashBackupDirInto_def stat_os_path [OF assms(4)] contents_readable)
  qed
qed

section \<open>The whole archive\<close>

text \<open>Absolute clean directories whose last elements do not collide in the archive.\<close>

definition layout_ok :: "backupArchiveLayout \<Rightarrow> fpath \<Rightarrow> fpath \<Rightarrow> fpath \<Rightarrow> bool" where
  "layout_ok l cs bs ds \<longleftrightarrow>
     bl_configDir l = os_path cs \<and> bl_dbDir l = os_path bs \<and> bl_dataDir l = os_path ds \<and> cs \<noteq> [] \<and> ds \<noteq> []
     \<and> plain_path cs \<and> plain_path bs \<and> plain_path ds
     \<and> last cs \<notin> {''db'', ''manifest.json''} \<and> (bl_includeData l \<longrightarrow> last ds \<notin> {''db'', ''manifest.json'', last cs})"

definition unpacks :: "archive_format \<Rightarrow> bool" where
  "unpacks f \<longleftrightarrow> (\<forall>es. af_Unpack f (af_Pack f es) = Some (es, True))"

lemma path_Base_last: "plain_path q \<Longrightarrow> q \<noteq> [] \<Longrightarrow> path_Base (os_path q) = last q"
  using path_Base_os_path [of "butlast q" "last q"] by simp

lemma plain_last: "plain_path q \<Longrightarrow> q \<noteq> [] \<Longrightarrow> plain_elem (last q)"
  by (simp add: plain_path_def list_all_iff)

lemma plain_words: "plain_elem ''db''" "plain_elem ''ssl''" "plain_elem ''manifest.json''"
  by (simp_all add: plain_elem_def dotdot_def slash_def)

lemma plain_path_single [simp]: "plain_path [b] \<longleftrightarrow> plain_elem b"
  by (simp add: plain_path_def)

lemma plain_path_append [simp]: "plain_path (p @ q) \<longleftrightarrow> plain_path p \<and> plain_path q"
  by (simp add: plain_path_def)

lemma map_of_rev_sorted: "sorted_wrt (<) (map fst xs) \<Longrightarrow> map_of (rev xs) = map_of (xs :: ('k :: linorder \<times> 'v) list)"
  using map_of_inject_set [of "rev xs" xs] by (simp add: strict_sorted_iff rev_map [symmetric])

lemma and_then_Inr: "and_then x f = Inr y \<longleftrightarrow> (\<exists>a. x = Inr a \<and> f a = Inr y)"
  by (cases x) (auto simp: and_then_def)

lemma ssl_hidden:
  assumes "tree_ok d" "plain_path cs" "plain_path X" "X \<noteq> []" "cs \<noteq> []"
    and "isExcludedPath (os_path (X @ r)) [os_path (X @ [''ssl''])]"
  shows "map_of (files_in d cs [os_path (cs @ [''ssl''])]) (cs @ r) = None"
proof (cases "plain_path r")
  case True
  then have "prefix (X @ [''ssl'']) (X @ r)"
    using assms(3,4,6) isUnderDir_prefix [of "X @ r" "X @ [''ssl'']"] plain_words by (simp add: isExcludedPath_def)
  then have "isExcludedPath (os_path (cs @ r)) [os_path (cs @ [''ssl''])]"
    using True assms(2,5) isUnderDir_prefix [of "cs @ r" "cs @ [''ssl'']"] plain_words by (simp add: isExcludedPath_def)
  then show ?thesis by (simp add: map_of_files_in(1) [OF assms(1,2)])
next
  case False
  then show ?thesis using map_of_files_in(3) [OF assms(1,2), of "cs @ r"] by (cases "map_of (files_in d cs [os_path (cs @ [''ssl''])]) (cs @ r)") (auto dest!: map_of_SomeD)
qed

text \<open>What stands in an archive and in its checksum.\<close>

definition archive_files :: "disk \<Rightarrow> backupArchiveLayout \<Rightarrow> fpath \<Rightarrow> fpath \<Rightarrow> fpath \<Rightarrow> fpath \<Rightarrow> (fpath \<times> string) list" where
  "archive_files d l cs bs ds ts =
     shifted cs (ts @ [last cs]) (files_in d cs (configExcludes l)) @ shifted bs (ts @ [''db'']) (files_in d bs [])
     @ (if bl_includeData l then shifted ds (ts @ [last ds]) (files_in d ds (dataExcludes l)) else [])"

lemma archive_regs:
  assumes "layout_ok l cs bs ds" "tree_ok d" "content_bytes readable d l = Inr s" "archive_entries readable d l = Inr es"
  shows "placed ts (regs es) = archive_files d l cs bs ds ts \<and> (\<forall>e \<in> set es. te_Size e = int (length (te_Data e)))
    \<and> s = concat (map snd (files_in d cs (configExcludes l))) @ concat (map snd (files_in d bs []))
          @ (if bl_includeData l then concat (map snd (files_in d ds (dataExcludes l))) else [])
    \<and> map_of (files_in d cs (configExcludes l)) cs = None \<and> map_of (files_in d bs []) bs = None
    \<and> (bl_includeData l \<longrightarrow> map_of (files_in d ds (dataExcludes l)) ds = None)"
proof -
  have l: "bl_configDir l = os_path cs" "bl_dbDir l = os_path bs" "bl_dataDir l = os_path ds" "plain_path cs" "plain_path bs" "plain_path ds"
    "plain_elem (last cs)" "plain_elem (last ds)" "path_Base (os_path cs) = last cs" "path_Base (os_path ds) = last ds"
    using assms(1) plain_last path_Base_last by (auto simp: layout_ok_def)
  obtain s1 s2 t1 t2 where h: "hashBackupDirInto readable d (os_path cs) (configExcludes l) = Inr s1" "hashBackupDirInto readable d (os_path bs) [] = Inr s2"
    and t: "addBackupDirToTar readable d (os_path cs) (last cs) (configExcludes l) = Inr t1" "addBackupDirToTar readable d (os_path bs) ''db'' [] = Inr t2"
    using assms(3,4) l by (auto simp: content_bytes_def archive_entries_def and_then_Inr split: if_splits)
  note a1 = archived_dir [OF assms(2) l(4) h(1) t(1)] and a2 = archived_dir [OF assms(2) l(5) h(2) t(2)]
  have rs: "regs (x @ y) = regs x @ regs y" for x y by (simp add: regs_def)
  note pl = placed_entries [OF assms(2)] 
  show ?thesis
  proof (cases "bl_includeData l")
    case True
    then obtain s3 t3 where 3: "hashBackupDirInto readable d (os_path ds) (dataExcludes l) = Inr s3" "addBackupDirToTar readable d (os_path ds) (last ds) (dataExcludes l) = Inr t3"
      "s = s1 @ s2 @ s3" "es = t1 @ t2 @ t3"
      using assms(3,4) l h t by (auto simp: content_bytes_def archive_entries_def and_then_Inr)
    from archived_dir [OF assms(2) l(6) 3(1,2)] a1 a2 pl [OF l(4,7)] pl [OF l(5) plain_words(1)] pl [OF l(6,8)] True 3
    show ?thesis by (auto simp: rs archive_files_def)
  next
    case False
    then have "s = s1 @ s2" "es = t1 @ t2"
      using assms(3,4) l h t by (auto simp: content_bytes_def archive_entries_def and_then_Inr)
    with a1 a2 pl [OF l(4,7)] pl [OF l(5) plain_words(1)] False show ?thesis by (auto simp: rs archive_files_def)
  qed
qed

lemma extracted_at:
  assumes "layout_ok l cs bs ds" "tree_ok d" "disk_ok d0" "\<forall>q. strict_prefix ts q \<longrightarrow> map_of d0 q = None"
    and at: "\<forall>q. file_at d' q = (case map_of (rev ((ts @ [''manifest.json''], m) # archive_files d l cs bs ds ts)) q of Some c \<Rightarrow> Some c | None \<Rightarrow> file_at d0 q)"
  shows "file_at d' ((ts @ [last cs]) @ r) = map_of (files_in d cs (configExcludes l)) (cs @ r)"
    "file_at d' ((ts @ [''db'']) @ r) = map_of (files_in d bs []) (bs @ r)"
    "bl_includeData l \<Longrightarrow> file_at d' ((ts @ [last ds]) @ r) = map_of (files_in d ds (dataExcludes l)) (ds @ r)"
proof -
  have l: "plain_path cs" "plain_path bs" "plain_path ds" "last cs \<noteq> ''db''" "last cs \<noteq> ''manifest.json''"
    "bl_includeData l \<Longrightarrow> last ds \<noteq> ''db'' \<and> last ds \<noteq> ''manifest.json'' \<and> last ds \<noteq> last cs"
    using assms(1) by (auto simp: layout_ok_def)
  have none: "file_at d0 (ts @ b # r) = None" for b using assms(4) by (simp add: file_at_def strict_prefix_def)
  note keys = shifted_keys [OF assms(2)]
  have other: "map_of (shifted ps (ts @ [a]) (files_in d ps ex)) (ts @ b # r) = None" if "a \<noteq> b" "plain_path ps" for a b ps ex
    using keys(3) [OF that(2), of "ts @ [a]" "ts @ b # r"] that(1) by simp
  have own: "map_of (shifted ps (ts @ [b]) (files_in d ps ex)) (ts @ b # r) = map_of (files_in d ps ex) (ps @ r)" if "plain_path ps" for b ps ex
    using keys(2) [OF that, of "ts @ [b]" ex r] by simp
  note rev' = map_of_rev_sorted [OF keys(1)]
  show "file_at d' ((ts @ [last cs]) @ r) = map_of (files_in d cs (configExcludes l)) (cs @ r)"
    "file_at d' ((ts @ [''db'']) @ r) = map_of (files_in d bs []) (bs @ r)"
    "bl_includeData l \<Longrightarrow> file_at d' ((ts @ [last ds]) @ r) = map_of (files_in d ds (dataExcludes l)) (ds @ r)"
    using l none by (auto simp: at archive_files_def rev' other own map_add_def split: option.splits)
qed

text \<open>The directories that are skipped in the extracted copy were skipped in the archive.\<close>

lemma extracted_excludes:
  assumes "layout_ok l cs bs ds" "tree_ok d" "plain_path ts"
  shows "isExcludedPath (os_path ((ts @ [last cs]) @ r)) (configExcludes (extracted_layout (os_path ts) l))
      \<Longrightarrow> map_of (files_in d cs (configExcludes l)) (cs @ r) = None"
    "bl_includeData l \<Longrightarrow> dataExcludes (extracted_layout (os_path ts) l) = []"
    "bl_configDir (extracted_layout (os_path ts) l) = os_path (ts @ [last cs])"
    "bl_dbDir (extracted_layout (os_path ts) l) = os_path (ts @ [''db''])"
    "bl_dataDir (extracted_layout (os_path ts) l) = os_path (ts @ [last ds])"
    "bl_includeData (extracted_layout (os_path ts) l) = bl_includeData l"
proof -
  have l: "plain_path cs" "plain_path ds" "cs \<noteq> []" "ds \<noteq> []" "bl_configDir l = os_path cs" "bl_dataDir l = os_path ds"
    "bl_includeData l \<Longrightarrow> last ds \<noteq> ''db''" "plain_elem (last cs)" "plain_elem (last ds)"
    using assms(1) plain_last by (auto simp: layout_ok_def)
  have join: "path_Join (os_path q) b = os_path (q @ [b])" if "plain_path q" "plain_elem b" for q b using path_Join_os_path that by blast
  show dirs: "bl_configDir (extracted_layout (os_path ts) l) = os_path (ts @ [last cs])"
    "bl_dbDir (extracted_layout (os_path ts) l) = os_path (ts @ [''db''])"
    "bl_dataDir (extracted_layout (os_path ts) l) = os_path (ts @ [last ds])"
    "bl_includeData (extracted_layout (os_path ts) l) = bl_includeData l"
    using l path_Base_last by (simp_all add: extracted_layout_def join assms(3) plain_words)
  show "dataExcludes (extracted_layout (os_path ts) l) = []" if "bl_includeData l"
    using that l isUnderDir_prefix [of "ts @ [''db'']" "ts @ [last ds]"] assms(3) plain_words
    by (simp add: dataExcludes_def dbNestedInData_def dirs)
  show "map_of (files_in d cs (configExcludes l)) (cs @ r) = None"
    if "isExcludedPath (os_path ((ts @ [last cs]) @ r)) (configExcludes (extracted_layout (os_path ts) l))"
  proof (cases "bl_includeSSL l")
    case True
    then show ?thesis using that by (simp add: configExcludes_def extracted_layout_def isExcludedPath_def)
  next
    case False
    then have e: "configExcludes l = [os_path (cs @ [''ssl''])]"
      "configExcludes (extracted_layout (os_path ts) l) = [os_path ((ts @ [last cs]) @ [''ssl''])]"
      using l assms(3) join [of cs] join [of "ts @ [last cs]"] plain_words dirs(1)
      by (simp_all add: configExcludes_def sslDir_def) (simp add: extracted_layout_def)
    show ?thesis using ssl_hidden [OF assms(2) l(1), of "ts @ [last cs]" r] that l assms(3) unfolding e by simp
  qed
qed

text \<open>
  C14. A backup can be verified and restored: whatever an archive was built from, once it has been extracted completely into
  an empty directory, the checksum over the extracted files is the one that was stored when it was built, and
  below the directory names of the archive stand exactly the files that were archived, with their content. The
  last elements of the directories must differ, which they do not on every system.
\<close>

theorem backup_verifies:
  assumes "layout_ok l cs bs ds" "tree_ok d" "unpacks f"
    and built: "buildBackupArchive f readable d manifest l = Inr archive"
    and unpack: "extractBackupArchiveWithLimits f os exceeds archive (os_path ts) limits d0 = (None, d')"
    and "plain_path ts" "disk_ok d0" "\<forall>q. strict_prefix ts q \<longrightarrow> map_of d0 q = None"
  shows "computeBackupContentChecksum sha256 (\<lambda>_. True) d' (extracted_layout (os_path ts) l) = computeBackupContentChecksum sha256 readable d l
    \<and> (\<forall>r. file_at d' (ts @ last cs # r) = map_of (files_in d cs (configExcludes l)) (cs @ r)
         \<and> file_at d' (ts @ ''db'' # r) = map_of (files_in d bs []) (bs @ r)
         \<and> (bl_includeData l \<longrightarrow> file_at d' (ts @ last ds # r) = map_of (files_in d ds (dataExcludes l)) (ds @ r)))"
proof -
  obtain s es m where s: "content_bytes readable d l = Inr s" "archive_entries readable d l = Inr es"
    and a: "archive = af_Pack f (addBackupFileToTar ''manifest.json'' m # es)"
    using built by (auto simp: buildBackupArchive_def computeBackupContentChecksum_def and_then_Inr split: option.splits)
  note ar = archive_regs [OF assms(1,2) s]
  have "extract_loop os (\<lambda>size. exceeds size (int (length archive)) (rl_MaxRatio limits)) limits (Clean (os_path ts)) True 0 0 (addBackupFileToTar ''manifest.json'' m # es) d0 = (None, d')"
    using unpack assms(3) a by (auto simp: extractBackupArchiveWithLimits_def unpacks_def Let_def split: if_splits)
  note x = extract_loop_done [OF this Clean_not_Nil assms(7)]
  have man: "elems ''manifest.json'' = [''manifest.json'']" using elems_name(1) [OF plain_words(3), of "[]"] by (simp add: plain_path_def)
  have x: "disk_ok d'" "no_new_links d0 d'"
    "\<forall>q. file_at d' q = (case map_of (rev ((ts @ [''manifest.json''], m) # archive_files d l cs bs ds ts)) q of Some c \<Rightarrow> Some c | None \<Rightarrow> file_at d0 q)"
    using x ar [of ts] by (auto simp: addBackupFileToTar_def regs_def elems_os_path [OF assms(6)] man)
  note at = extracted_at [OF assms(1,2,7,8) x(3)]
  have links: "map_of d' (ts @ [b]) \<noteq> Some (LinkE y)" for b y
    using x(2) assms(8) [THEN spec, of "ts @ [b]"] by (auto simp: no_new_links_def strict_prefix_def)
  have l: "plain_path cs" "plain_path bs" "plain_path ds" "plain_path (ts @ [last cs])" "plain_path (ts @ [last ds])" "plain_path (ts @ [''db''])"
    "cs \<noteq> []" "ds \<noteq> []"
    using assms(1,6) plain_words plain_last by (auto simp: layout_ok_def)
  have hashes: "hashBackupDirInto (\<lambda>_. True) d' (os_path (ts @ [last cs])) (configExcludes (extracted_layout (os_path ts) l)) = Inr (concat (map snd (files_in d cs (configExcludes l))))"
    "hashBackupDirInto (\<lambda>_. True) d' (os_path (ts @ [''db''])) [] = Inr (concat (map snd (files_in d bs [])))"
    "bl_includeData l \<Longrightarrow> hashBackupDirInto (\<lambda>_. True) d' (os_path (ts @ [last ds])) [] = Inr (concat (map snd (files_in d ds (dataExcludes l))))"
    using ar at links extracted_excludes(1) [OF assms(1,2,6)] l
    by (auto intro!: restored_dir [OF assms(2) _ _ _ x(1)] simp: isExcludedPath_def)
  show ?thesis using at hashes ar s extracted_excludes(2-) [OF assms(1,2,6)]
    by (simp add: computeBackupContentChecksum_def content_bytes_def and_then_def)
qed

text \<open>
  A packing that can be undone, a disk with a configuration file, a certificate and a database, and the
  extraction of their backup into \<open>/t\<close>.
\<close>

instance tar_type :: countable
  by countable_datatype

definition entry_fields :: "tar_entry \<Rightarrow> string \<times> tar_type \<times> int \<times> string" where
  "entry_fields e = (te_Name e, te_Type e, te_Size e, te_Data e)"

definition entry_of :: "string \<times> tar_type \<times> int \<times> string \<Rightarrow> tar_entry" where
  "entry_of = (\<lambda>(n, t, s, c). \<lparr>te_Name = n, te_Type = t, te_Size = s, te_Data = c\<rparr>)"

lemma entry_of_fields [simp]: "entry_of \<circ> entry_fields = id"
  by (simp add: fun_eq_iff entry_of_def entry_fields_def)

definition counting_format :: archive_format where
  "counting_format = \<lparr>af_Marshal = \<lambda>_. Some ''{}'', af_Unmarshal = \<lambda>_. None, af_Pack = \<lambda>es. replicate (Suc (to_nat (map entry_fields es))) (CHR ''x''),
     af_Unpack = \<lambda>s. if s = [] then None else Some (map entry_of (from_nat (length s - 1)), True), af_Sha256 = id\<rparr>"

definition sample_disk :: disk where
  "sample_disk = [([], DirE), ([''e''], DirE), ([''e'', ''c''], DirE), ([''e'', ''c'', ''s''], FileE ''k''), ([''e'', ''c'', ''ssl''], FileE ''p''),
     ([''v''], DirE), ([''v'', ''q''], FileE ''z'')]"

definition sample_layout :: backupArchiveLayout where
  "sample_layout = \<lparr>bl_configDir = ''/e/c'', bl_dataDir = ''/w'', bl_dbDir = ''/v'', bl_includeSSL = False, bl_includeData = False\<rparr>"

definition sample_entries :: "tar_entry list" where
  "sample_entries = addBackupFileToTar ''manifest.json'' ''{}''
     # [dir_header ''c'', addBackupFileToTar ''c/s'' ''k'', dir_header ''db'', addBackupFileToTar ''db/q'' ''z'']"

lemma sample_checks:
  "archive_entries (\<lambda>_. True) sample_disk sample_layout = Inr (tl sample_entries)"
  "computeBackupContentChecksum id (\<lambda>_. True) sample_disk sample_layout = Inr ''sha256:6b7a''"
  by code_simp+

lemma sample_files: "files_of (walk sample_disk ''/e/c'' (configExcludes sample_layout)) = [([''e'', ''c'', ''s''], ''k'')]"
  by code_simp

lemma clean_t: "Clean ''/t'' = ''/t''"
  by code_simp

theorem backup_verifies_witness:
  "let a = af_Pack counting_format sample_entries; l = sample_layout;
       x = extractBackupArchiveWithLimits counting_format \<lparr>dc_Mkdir = \<lambda>_. True, dc_Open = \<lambda>_. True, dc_Close = \<lambda>_. True\<rparr> (\<lambda>_ _ _. False) a ''/t''
             (defaultBackupRestoreLimits\<lparr>rl_MaxArchiveSize := int (length a)\<rparr>) [([], DirE), ([''t''], DirE)]
   in buildBackupArchive counting_format (\<lambda>_. True) sample_disk \<lparr>mf_Fields = [], mf_Required = None, mf_Checksum = [], mf_Contents = []\<rparr> l = Inr a
      \<and> fst x = None
      \<and> computeBackupContentChecksum id (\<lambda>_. True) (snd x) (extracted_layout ''/t'' l) = computeBackupContentChecksum id (\<lambda>_. True) sample_disk l
      \<and> file_at (snd x) [''t'', ''c'', ''s''] = Some ''k'' \<and> file_at (snd x) [''t'', ''c'', ''ssl''] = None"
proof -
  let ?a = "af_Pack counting_format sample_entries" and ?m = "\<lparr>mf_Fields = [], mf_Required = None, mf_Checksum = [], mf_Contents = []\<rparr>"
  let ?os = "\<lparr>dc_Mkdir = \<lambda>_. True, dc_Open = \<lambda>_. True, dc_Close = \<lambda>_. True\<rparr>"
  let ?lim = "defaultBackupRestoreLimits\<lparr>rl_MaxArchiveSize := int (length ?a)\<rparr>"
  define d0 where "d0 = [([], DirE), ([''t''], DirE)]"
  obtain r d' where x: "extractBackupArchiveWithLimits counting_format ?os (\<lambda>_ _ _. False) ?a ''/t'' ?lim d0 = (r, d')" by fastforce
  have u: "unpacks counting_format" by (simp add: unpacks_def counting_format_def)
  have "fst (extract_loop ?os (\<lambda>_. False) (defaultBackupRestoreLimits\<lparr>rl_MaxArchiveSize := n\<rparr>) ''/t'' True 0 0 sample_entries d0) = None" for n
    unfolding d0_def sample_entries_def addBackupFileToTar_def by code_simp
  then have "fst (extractBackupArchiveWithLimits counting_format ?os (\<lambda>_ _ _. False) ?a ''/t'' ?lim d0) = None"
    using clean_t by (simp add: extractBackupArchiveWithLimits_def Let_def counting_format_def)
  then have r: "r = None" using x by simp
  have p: "os_path [''e'', ''c''] = ''/e/c''" "os_path [''v''] = ''/v''" "os_path [''w''] = ''/w''" "os_path [''t''] = ''/t''" by code_simp+
  have l: "layout_ok sample_layout [''e'', ''c''] [''v''] [''w'']"
    by (simp add: layout_ok_def sample_layout_def p plain_path_def plain_elem_def dotdot_def slash_def)
  have t: "tree_ok sample_disk" "disk_ok d0" "\<forall>q. strict_prefix [''t''] q \<longrightarrow> map_of d0 q = None" "plain_path [''t'']"
    by (auto simp: tree_ok_def disk_ok_def sample_disk_def d0_def strict_prefix_def prefix_Cons plain_path_def plain_elem_def dotdot_def slash_def)
  have b: "buildBackupArchive counting_format (\<lambda>_. True) sample_disk ?m sample_layout = Inr ?a"
    using sample_checks by (auto simp: buildBackupArchive_def and_then_def counting_format_def sample_entries_def)
  note v = backup_verifies [OF l t(1) u b x [unfolded r, folded p(4)] t(4,2,3), unfolded p]
  show ?thesis
    using v [THEN conjunct2, THEN spec, of "[''s'']"] v [THEN conjunct2, THEN spec, of "[''ssl'']"] v [THEN conjunct1] b x r
    by (simp add: d0_def sample_files)
qed

end
