(* ===== verification/BackupCommands.thy ===== *)
theory BackupCommands
  imports BackupRoundtrip
begin

text \<open>
  The operator's commands of \<open>main.go\<close> around the archives: \<open>maintenanceBackup\<close>, which writes an archive, verifies it
  and records what happened, and \<open>maintenanceRestore\<close> up to the placed directories. The database driver, the
  terminal and the outcome of each call are arguments; a command takes and returns the disk. The
  publication of the restored key and the console output are left out.
\<close>

section \<open>Backup\<close>

text \<open>Opening the database may create it, and closing it writes what the connection holds.\<close>

record sql_driver =
  sq_Open :: "disk \<Rightarrow> disk \<times> secrets option"
  sq_Close :: "secrets \<Rightarrow> disk \<Rightarrow> bool \<times> disk"
  sq_Fails :: "string \<Rightarrow> nat \<Rightarrow> bool"
  sq_Random :: "string \<Rightarrow> string option"

fun secrets_loop :: "sql_driver \<Rightarrow> int \<Rightarrow> string list \<Rightarrow> secrets \<Rightarrow> secret_error option \<times> secrets" where
  "secrets_loop q now [] db = (None, db)"
| "secrets_loop q now (name # names) db =
     (case GetOrCreateSecret (sq_Fails q name) (sq_Random q name) now name db of
        (Inl e, db) \<Rightarrow> (Some e, db)
      | (Inr _, db) \<Rightarrow> secrets_loop q now names db)"

definition stored_secrets :: "string list" where
  "stored_secrets = [''installation_secret'', ''cookie_signing_key'', ''csrf_token_secret'']"

definition initializeBackupSecrets :: "sql_driver \<Rightarrow> int \<Rightarrow> secrets \<Rightarrow> secret_error option \<times> secrets" where
  "initializeBackupSecrets q now db = secrets_loop q now stored_secrets db"

datatype backup_failure =
  DatabaseFailed | SecretsFailed secret_error | CloseFailed | PasswordFailed archive_error | BuildFailed archive_error
| EncryptFailed archive_error | WriteFailed | VerificationFailed archive_error

datatype backup_event =
  Event_failed string backup_failure
| Event_verification_failed string archive_error
| Event_created string int bool

record backup_env =
  be_Verify :: verify_env
  be_Driver :: sql_driver
  be_Tmp :: string
  be_Salt :: "string option"
  be_Nonce :: "string option"
  be_Create :: bool
  be_Written :: "nat option"
  be_Remove :: bool
  be_Now :: int
  be_Fields :: "(string \<times> string) list"

definition operator_manifest :: "backup_env \<Rightarrow> bool \<Rightarrow> bool \<Rightarrow> backup_manifest" where
  "operator_manifest e interactive encrypted =
     \<lparr>mf_Fields = be_Fields e @ [(''created_by'', if interactive then ''operator'' else ''scheduler''), (''encrypted'', if encrypted then ''true'' else ''false'')]
        @ (if encrypted then [(''encryption_method'', ''AES-256-GCM'')] else []),
      mf_Required = Some requiredBackupSecrets, mf_Checksum = [], mf_Contents = []\<rparr>"

text \<open>\<open>os.WriteFile\<close> at a path that is no link: the file is created or emptied, and all bytes or the first few are written.\<close>

definition os_WriteFile :: "backup_env \<Rightarrow> fpath \<Rightarrow> string \<Rightarrow> disk \<Rightarrow> bool \<times> disk" where
  "os_WriteFile e q data d =
     (if \<not> be_Create e \<or> map_of d q = Some DirE then (False, d)
      else case be_Written e of
        None \<Rightarrow> (True, set_entry q (FileE data) d)
      | Some n \<Rightarrow> (False, set_entry q (FileE (take n data)) d))"

definition os_Remove :: "backup_env \<Rightarrow> fpath \<Rightarrow> disk \<Rightarrow> disk" where
  "os_Remove e q d = (if be_Remove e then filter (\<lambda>(p, _). p \<noteq> q) d else d)"

definition final_file :: "string \<Rightarrow> string \<Rightarrow> string" where
  "final_file password backupFile = (if password \<noteq> [] \<and> \<not> HasSuffix backupFile ''.enc'' then backupFile @ ''.enc'' else backupFile)"

definition backup_payload :: "backup_env \<Rightarrow> string \<Rightarrow> bool \<Rightarrow> backupArchiveLayout \<Rightarrow> disk \<Rightarrow> backup_failure + string" where
  "backup_payload e password interactive l d =
     (case buildBackupArchive (ve_Format (be_Verify e)) (ve_Readable (be_Verify e)) d (operator_manifest e interactive (password \<noteq> [])) l of
        Inl err \<Rightarrow> Inl (BuildFailed err)
      | Inr archive \<Rightarrow>
          if password = [] then Inr archive
          else (case encryptBackupArchive (ve_Box (be_Verify e)) (be_Salt e) (be_Nonce e) archive password of
                  Inl err \<Rightarrow> Inl (EncryptFailed err)
                | Inr enc \<Rightarrow> Inr enc))"

definition write_backup :: "backup_env \<Rightarrow> string \<Rightarrow> string \<Rightarrow> bool \<Rightarrow> backupArchiveLayout \<Rightarrow> disk \<Rightarrow> backup_failure option \<times> disk" where
  "write_backup e backupFile password interactive l d =
     (let final = final_file password backupFile; q = elems final in
      case backup_payload e password interactive l d of
        Inl err \<Rightarrow> (Some err, d)
      | Inr payload \<Rightarrow>
          (case os_WriteFile e q payload d of
             (False, d) \<Rightarrow> (Some WriteFailed, d)
           | (True, d) \<Rightarrow>
               (case verifyBackup (be_Verify e) (be_Tmp e) final (file_at d q) password l d of
                  Some err \<Rightarrow> (Some (VerificationFailed err), os_Remove e q d)
                | None \<Rightarrow> (None, d))))"

definition backup_events :: "string \<Rightarrow> string \<Rightarrow> disk \<Rightarrow> backup_failure option \<Rightarrow> backup_event list" where
  "backup_events backupFile password d r =
     (let final = final_file password backupFile in
      case r of
        None \<Rightarrow> [Event_created (path_Base final) (case file_at d (elems final) of Some c \<Rightarrow> int (length c) | None \<Rightarrow> 0) (password \<noteq> [])]
      | Some (VerificationFailed err) \<Rightarrow> [Event_verification_failed (path_Base final) err]
      | Some err \<Rightarrow> [Event_failed (path_Base backupFile) err])"

text \<open>The secrets are created first; the deferred audit record is set up after that. \<open>audit\<close> tells whether there is a log manager.\<close>

definition maintenanceBackup ::
  "backup_env \<Rightarrow> backup_settings option \<Rightarrow> string option \<Rightarrow> bool \<Rightarrow> backupArchiveLayout \<Rightarrow> string \<Rightarrow> bool \<Rightarrow> disk \<Rightarrow> backup_failure option \<times> backup_event list \<times> disk" where
  "maintenanceBackup e cfg prompt audit l backupFile interactive d =
     (case sq_Open (be_Driver e) d of
        (d, None) \<Rightarrow> (Some DatabaseFailed, [], d)
      | (d, Some db) \<Rightarrow>
          (case initializeBackupSecrets (be_Driver e) (be_Now e) db of
             (Some err, db) \<Rightarrow> (Some (SecretsFailed err), [], snd (sq_Close (be_Driver e) db d))
           | (None, db) \<Rightarrow>
               (case sq_Close (be_Driver e) db d of
                  (False, d) \<Rightarrow> (Some CloseFailed, [], d)
                | (True, d) \<Rightarrow>
                    (case resolveBackupEncryptionPassword cfg interactive prompt of
                       Inl err \<Rightarrow> (Some (PasswordFailed err), if audit then [Event_failed (path_Base backupFile) (PasswordFailed err)] else [], d)
                     | Inr password \<Rightarrow>
                         (case write_backup e backupFile password interactive l d of
                            (r, d) \<Rightarrow> (r, if audit then backup_events backupFile password d r else [], d))))))"

lemma get_secret_stored:
  assumes "GetOrCreateSecret fails rnd now name db = (Inr v, db')"
  shows "db n \<noteq> None \<Longrightarrow> db' n = db n" "db' name \<noteq> None"
  using assms by (auto simp: GetOrCreateSecret_def insert_secret_def Let_def split: if_splits option.splits)

lemma secrets_loop_stored:
  "secrets_loop q now names db = (None, db') \<Longrightarrow> (\<forall>n. db n \<noteq> None \<longrightarrow> db' n = db n) \<and> (\<forall>n \<in> set names. db' n \<noteq> None)"
proof (induction names arbitrary: db)
  case (Cons name names)
  then obtain v db1 where g: "GetOrCreateSecret (sq_Fails q name) (sq_Random q name) now name db = (Inr v, db1)"
    and l: "secrets_loop q now names db1 = (None, db')"
    by (auto split: prod.splits sum.splits)
  note s = get_secret_stored [OF g]
  from Cons.IH [OF l] s(2) show ?case by (auto simp: s(1))
qed simp

text \<open>Secrets that were there stay as they are, and the three a backup requires are there afterwards.\<close>

lemma backup_secrets_stored:
  assumes "initializeBackupSecrets q now db = (None, db')"
  shows "(\<forall>n. db n \<noteq> None \<longrightarrow> db' n = db n) \<and> (\<forall>n \<in> set stored_secrets. db' n \<noteq> None)"
  using secrets_loop_stored assms unfolding initializeBackupSecrets_def .

text \<open>
  What the payload of an archive is: the archive itself, or, with a password, random bytes followed by the
  sealed archive.
\<close>

lemma payload_sealed:
  assumes "backup_payload e password interactive l d = Inr payload" "password \<noteq> []"
  shows "\<exists>archive s n. be_Salt e = Some s \<and> be_Nonce e = Some n
    \<and> payload = s @ n @ ae_seal (ve_Box (be_Verify e)) (ae_kdf (ve_Box (be_Verify e)) password s) n archive"
  using assms by (auto simp: backup_payload_def encryptBackupArchive_def split: sum.splits option.splits)

lemma write_file_at:
  assumes "os_WriteFile e q data d = (ok, d')"
  shows "p \<noteq> q \<Longrightarrow> map_of d' p = map_of d p" "d' = d \<or> (\<exists>c. prefix c data \<and> map_of d' q = Some (FileE c))"
    "ok \<Longrightarrow> map_of d' q = Some (FileE data)"
  using assms by (auto simp: os_WriteFile_def map_of_set_entry take_is_prefix split: if_splits option.splits)

lemma remove_at: "map_of (os_Remove e q d) p = (if be_Remove e \<and> p = q then None else map_of d p)"
  by (induction d) (auto simp: os_Remove_def)

lemma write_backup_cases:
  assumes "write_backup e backupFile password interactive l d = (r, d')"
  defines "q \<equiv> elems (final_file password backupFile)"
  obtains (none) err where "r = Some err" "d' = d" "\<And>x. err \<noteq> VerificationFailed x"
  | (partial) payload where "backup_payload e password interactive l d = Inr payload" "os_WriteFile e q payload d = (False, d')" "r = Some WriteFailed"
  | (kept) payload where "backup_payload e password interactive l d = Inr payload" "os_WriteFile e q payload d = (True, d')" "r = None"
      "verifyBackup (be_Verify e) (be_Tmp e) (final_file password backupFile) (file_at d' q) password l d' = None"
  | (rejected) payload d1 err where "backup_payload e password interactive l d = Inr payload" "os_WriteFile e q payload d = (True, d1)"
      "r = Some (VerificationFailed err)" "d' = os_Remove e q d1"
proof (cases "backup_payload e password interactive l d")
  case (Inl err)
  then have "err \<noteq> VerificationFailed x" for x by (auto simp: backup_payload_def split: sum.splits if_splits)
  then show ?thesis using none assms(1) Inl by (auto simp: write_backup_def Let_def)
next
  case (Inr payload)
  obtain ok d1 where w: "os_WriteFile e q payload d = (ok, d1)" by fastforce
  show ?thesis
    using assms(1) partial [OF Inr] kept [OF Inr] rejected [OF Inr] w Inr
    by (cases ok) (auto simp: write_backup_def Let_def q_def split: option.splits)
qed

lemma write_backup_at:
  assumes "write_backup e backupFile password interactive l d = (r, d')"
  defines "q \<equiv> elems (final_file password backupFile)"
  shows "p \<noteq> q \<Longrightarrow> map_of d' p = map_of d p"
    "d' = d \<or> map_of d' q = None \<or> (\<exists>c payload. map_of d' q = Some (FileE c) \<and> prefix c payload \<and> backup_payload e password interactive l d = Inr payload)"
    "r = None \<Longrightarrow> verifyBackup (be_Verify e) (be_Tmp e) (final_file password backupFile) (file_at d' q) password l d' = None"
    "r = Some (VerificationFailed err) \<Longrightarrow> be_Remove e \<Longrightarrow> map_of d' q = None"
proof -
  show "map_of d' p = map_of d p" if "p \<noteq> q"
    using assms(1) by (cases rule: write_backup_cases) (use that write_file_at(1) remove_at in \<open>auto simp: q_def\<close>)
  show "d' = d \<or> map_of d' q = None \<or> (\<exists>c payload. map_of d' q = Some (FileE c) \<and> prefix c payload \<and> backup_payload e password interactive l d = Inr payload)"
    using assms(1)
  proof (cases rule: write_backup_cases)
    case (rejected payload d1 err)
    then show ?thesis using write_file_at(3) [OF rejected(2)] by (auto simp: remove_at q_def)
  next
    case (partial payload)
    then show ?thesis using write_file_at(2) [OF partial(2)] unfolding q_def by blast
  next
    case (kept payload)
    then show ?thesis using write_file_at(2) [OF kept(2)] unfolding q_def by blast
  qed simp
  show "r = None \<Longrightarrow> verifyBackup (be_Verify e) (be_Tmp e) (final_file password backupFile) (file_at d' q) password l d' = None"
    "r = Some (VerificationFailed err) \<Longrightarrow> be_Remove e \<Longrightarrow> map_of d' q = None"
    using assms(1) by (cases rule: write_backup_cases; auto simp: q_def remove_at)+
qed

text \<open>The disk once the secrets are in the database.\<close>

definition secrets_ready :: "backup_env \<Rightarrow> disk \<Rightarrow> disk" where
  "secrets_ready e d =
     (case sq_Open (be_Driver e) d of
        (d, None) \<Rightarrow> d
      | (d, Some db) \<Rightarrow> snd (sq_Close (be_Driver e) (snd (initializeBackupSecrets (be_Driver e) (be_Now e) db)) d))"

lemma backup_cases:
  assumes "maintenanceBackup e cfg prompt audit l backupFile interactive d = (r, ev, d')"
  obtains (early) err where "r = Some err" "err \<in> {DatabaseFailed, CloseFailed} \<union> range SecretsFailed" "ev = []" "d' = secrets_ready e d"
  | (password) err where "r = Some (PasswordFailed err)" "resolveBackupEncryptionPassword cfg interactive prompt = Inl err"
      "ev = (if audit then [Event_failed (path_Base backupFile) (PasswordFailed err)] else [])" "d' = secrets_ready e d"
  | (written) password where "resolveBackupEncryptionPassword cfg interactive prompt = Inr password"
      "write_backup e backupFile password interactive l (secrets_ready e d) = (r, d')" "ev = (if audit then backup_events backupFile password d' r else [])"
proof (cases "sq_Open (be_Driver e) d")
  case (Pair d0 opened)
  show ?thesis
  proof (cases opened)
    case None
    then show ?thesis using early assms Pair by (auto simp: maintenanceBackup_def secrets_ready_def)
  next
    case (Some db)
    obtain i db1 where i: "initializeBackupSecrets (be_Driver e) (be_Now e) db = (i, db1)" by fastforce
    obtain ok d1 where k: "sq_Close (be_Driver e) db1 d0 = (ok, d1)" by fastforce
    have d1: "secrets_ready e d = d1" using Pair Some i k by (simp add: secrets_ready_def)
    show ?thesis
      using assms early password written Pair Some i k d1
      by (cases i; cases ok) (auto simp: maintenanceBackup_def split: sum.splits prod.splits)
  qed
qed

text \<open>A file that a restore with the same password accepts: its manifest, its content and its databases pass every check.\<close>

definition restorable :: "verify_env \<Rightarrow> string \<Rightarrow> string \<Rightarrow> string \<Rightarrow> backupArchiveLayout \<Rightarrow> disk \<Rightarrow> bool" where
  "restorable v tmp final password l d \<longleftrightarrow>
     (\<exists>raw archive m x. file_at d (elems final) = Some raw
        \<and> (if HasSuffix final ''.enc'' then decryptBackupArchive (ve_Box v) raw password = Inr archive else archive = raw)
        \<and> verify_manifest (ve_Format v) archive = Inr m \<and> set requiredBackupSecrets \<subseteq> set (the (mf_Required m))
        \<and> extractBackupArchiveWithLimits (ve_Format v) (ve_Calls v) (ve_Exceeds v) archive tmp defaultBackupRestoreLimits d = (None, x)
        \<and> validateRestoredBackupSecrets (ve_EncryptionKey v x (bl_configDir (extracted_layout tmp l))) (ve_Database v x (bl_dbDir (extracted_layout tmp l)))
        \<and> (mf_Checksum m \<noteq> [] \<longrightarrow> computeBackupContentChecksum (af_Sha256 (ve_Format v)) (ve_Readable v) x (extracted_layout tmp l) = Inr (mf_Checksum m))
        \<and> (\<exists>q \<in> fst ` set (walk x tmp []). HasSuffix (os_path q) ''.db'')
        \<and> (\<forall>q \<in> fst ` set (walk x tmp []). HasSuffix (os_path q) ''.db'' \<longrightarrow> ve_Integrity v x q))"

lemma verify_manifest_required: "verify_manifest f archive = Inr m \<Longrightarrow> set requiredBackupSecrets \<subseteq> set (the (mf_Required m))"
  by (auto simp: verify_manifest_def validateRequiredSecretManifest_def Let_def list_all_iff split: option.splits if_splits)

lemma verify_extracted_None:
  assumes "verify_extracted v tmp m l x = None"
  shows "validateRestoredBackupSecrets (ve_EncryptionKey v x (bl_configDir (extracted_layout tmp l))) (ve_Database v x (bl_dbDir (extracted_layout tmp l)))
    \<and> (mf_Checksum m \<noteq> [] \<longrightarrow> computeBackupContentChecksum (af_Sha256 (ve_Format v)) (ve_Readable v) x (extracted_layout tmp l) = Inr (mf_Checksum m))
    \<and> (\<exists>q \<in> fst ` set (walk x tmp []). HasSuffix (os_path q) ''.db'')
    \<and> (\<forall>q \<in> fst ` set (walk x tmp []). HasSuffix (os_path q) ''.db'' \<longrightarrow> ve_Integrity v x q)"
  using assms by (auto simp: verify_extracted_def Let_def filter_empty_conv list_all_iff split: if_splits sum.splits)

lemma verified_restorable:
  assumes "verifyBackup v tmp final (file_at d (elems final)) password l d = None"
  shows "restorable v tmp final password l d"
proof -
  obtain raw where raw: "file_at d (elems final) = Some raw" using assms by (auto simp: verifyBackup_def split: option.splits)
  obtain archive where a: "if HasSuffix final ''.enc'' then decryptBackupArchive (ve_Box v) raw password = Inr archive else archive = raw"
    and v: "(case verify_manifest (ve_Format v) archive of Inl err \<Rightarrow> Some err
      | Inr m \<Rightarrow> (case extractBackupArchiveWithLimits (ve_Format v) (ve_Calls v) (ve_Exceeds v) archive tmp defaultBackupRestoreLimits d of
          (Some err, _) \<Rightarrow> Some err | (None, d) \<Rightarrow> verify_extracted v tmp m l d)) = None"
    using assms raw by (auto simp: verifyBackup_def split: if_splits sum.splits)
  from v obtain m x where "verify_manifest (ve_Format v) archive = Inr m" "verify_extracted v tmp m l x = None"
    "extractBackupArchiveWithLimits (ve_Format v) (ve_Calls v) (ve_Exceeds v) archive tmp defaultBackupRestoreLimits d = (None, x)"
    by (auto split: sum.splits prod.splits option.splits)
  with raw a verify_manifest_required [OF this(1)] verify_extracted_None [OF this(2)] show ?thesis unfolding restorable_def by blast
qed


text \<open>
  The audit record of a failure is deferred only after the secrets have been stored, so a backup that cannot open its
  database fails without one. A write that breaks off leaves the part it wrote under the name of a backup.
\<close>

lemma database_failure_unaudited:
  "sq_Open (be_Driver e) d = (d', None) \<Longrightarrow> maintenanceBackup e cfg prompt True l backupFile interactive d = (Some DatabaseFailed, [], d')"
  by (simp add: maintenanceBackup_def)

lemma failed_write_leaves_part:
  assumes "write_backup e backupFile password interactive l d = (Some WriteFailed, d')" "be_Create e"
    and "map_of d (elems (final_file password backupFile)) \<noteq> Some DirE" "backup_payload e password interactive l d = Inr payload"
  shows "\<exists>n. map_of d' (elems (final_file password backupFile)) = Some (FileE (take n payload))"
  using assms by (auto simp: write_backup_def Let_def os_WriteFile_def map_of_set_entry split: option.splits)

section \<open>Restore\<close>

definition requireOperatorAuth :: "bool \<Rightarrow> string \<Rightarrow> string \<Rightarrow> bool" where
  "requireOperatorAuth elevated token entered \<longleftrightarrow> elevated \<or> token \<noteq> [] \<and> TrimSpace entered = token"

text \<open>The two counts, \<open>None\<close> when the query fails.\<close>

definition isDatabaseEmpty :: "int option \<Rightarrow> int option \<Rightarrow> bool" where
  "isDatabaseEmpty auditCount tokenCount \<longleftrightarrow> auditCount = Some 0 \<and> tokenCount = Some 0"

datatype restore_outcome =
  Unauthorised | NoBackupFile | BackupTooLarge | BackupUnreadable | NotDecrypted archive_error | InvalidArchive archive_error
| SecretsNotDeclared | Cancelled | NoTempDir | ExtractFailed archive_error | InvalidSecrets | PlacementFailed restore_step
| Restored "bool list"

record restore_env =
  re_Verify :: verify_env
  re_Driver :: sql_driver
  re_Calls :: restore_calls
  re_Counts :: "secrets \<Rightarrow> int option \<times> int option"
  re_Elevated :: bool
  re_Token :: string
  re_Entered :: string
  re_Password :: "string option"
  re_Answer :: "string option"
  re_Base :: fpath
  re_BaseMade :: bool
  re_TempName :: "string option"
  re_ByteSize :: "string \<Rightarrow> int option"
  re_Config :: "RestoreConfig option"

definition first_run :: "restore_env \<Rightarrow> disk \<Rightarrow> bool \<times> disk" where
  "first_run e d =
     (case sq_Open (re_Driver e) d of
        (d, None) \<Rightarrow> (False, d)
      | (d, Some db) \<Rightarrow> (isDatabaseEmpty (fst (re_Counts e db)) (snd (re_Counts e db)), snd (sq_Close (re_Driver e) db d)))"

text \<open>Everything that is checked before the operator is asked.\<close>

definition restore_archive :: "restore_env \<Rightarrow> BackupRestoreLimits \<Rightarrow> string \<Rightarrow> disk \<Rightarrow> restore_outcome + string" where
  "restore_archive e limits backupFile d =
     (let v = re_Verify e in
      case stat d backupFile of
        None \<Rightarrow> Inl NoBackupFile
      | Some (FileE raw) \<Rightarrow>
          if rl_MaxArchiveSize limits < int (length raw) then Inl BackupTooLarge
          else if \<not> ve_Readable v (elems backupFile) then Inl BackupUnreadable
          else (case (if \<not> HasSuffix backupFile ''.enc'' then Inr raw
                      else case re_Password e of None \<Rightarrow> Inl NoTerminal | Some password \<Rightarrow> decryptBackupArchive (ve_Box v) raw password) of
            Inl err \<Rightarrow> Inl (NotDecrypted err)
          | Inr archive \<Rightarrow>
              (case readBackupManifest (ve_Format v) archive of
                 Inl err \<Rightarrow> Inl (InvalidArchive err)
               | Inr m \<Rightarrow> if validateRequiredSecretManifest (mf_Required m) then Inr archive else Inl SecretsNotDeclared))
      | Some _ \<Rightarrow> Inl BackupUnreadable)"

definition confirmed :: "string option \<Rightarrow> bool" where
  "confirmed answer = (case answer of None \<Rightarrow> False | Some a \<Rightarrow> ToLower (TrimSpace a) = ''y'')"

definition restored_secrets :: "restore_env \<Rightarrow> fpath \<Rightarrow> string \<Rightarrow> disk \<Rightarrow> bool" where
  "restored_secrets e tmp configDir d =
     validateRestoredBackupSecrets (ve_EncryptionKey (re_Verify e) d (path_Join (os_path tmp) (path_Base configDir)))
       (ve_Database (re_Verify e) d (path_Join (os_path tmp) ''db''))"

definition unpack_and_place :: "restore_env \<Rightarrow> BackupRestoreLimits \<Rightarrow> fpath \<Rightarrow> string \<Rightarrow> string \<Rightarrow> string \<Rightarrow> string \<Rightarrow> disk \<Rightarrow> restore_outcome \<times> disk" where
  "unpack_and_place e limits tmp archive configDir dataDir dbDir d =
     (let v = re_Verify e in
      case extractBackupArchiveWithLimits (ve_Format v) (ve_Calls v) (ve_Exceeds v) archive (os_path tmp) limits d of
        (Some err, d) \<Rightarrow> (ExtractFailed err, d)
      | (None, d) \<Rightarrow>
          if \<not> restored_secrets e tmp configDir d then (InvalidSecrets, d)
          else (case restore_dirs (re_Calls e) tmp configDir dbDir dataDir d of
                  (Inl step, d) \<Rightarrow> (PlacementFailed step, d)
                | (Inr dirs, d) \<Rightarrow> (Restored dirs, d)))"

definition maintenanceRestore :: "restore_env \<Rightarrow> string \<Rightarrow> string \<Rightarrow> string \<Rightarrow> string \<Rightarrow> disk \<Rightarrow> restore_outcome \<times> disk" where
  "maintenanceRestore e backupFile configDir dataDir dbDir d =
     (let limits = backupRestoreLimits (re_ByteSize e) (re_Config e) in
      case first_run e d of (firstRun, d) \<Rightarrow>
      if \<not> firstRun \<and> \<not> requireOperatorAuth (re_Elevated e) (re_Token e) (re_Entered e) then (Unauthorised, d)
      else case restore_archive e limits backupFile d of
        Inl out \<Rightarrow> (out, d)
      | Inr archive \<Rightarrow>
          if \<not> confirmed (re_Answer e) then (Cancelled, d)
          else if \<not> re_BaseMade e then (NoTempDir, d)
          else (case re_TempName e of
                  None \<Rightarrow> (NoTempDir, mkdir_all (re_Base e) d)
                | Some name \<Rightarrow>
                    let tmp = re_Base e @ [name] in
                    (case unpack_and_place e limits tmp archive configDir dataDir dbDir (mkdir_all tmp d) of
                       (out, d) \<Rightarrow> (out, os_RemoveAll (re_Calls e) tmp d))))"

lemma limits_positive: "0 \<le> rl_MaxFiles (backupRestoreLimits b c)" "0 \<le> rl_MaxExpandedSize (backupRestoreLimits b c)"
  by (simp_all add: backupRestoreLimits_def defaultBackupRestoreLimits_def positive_size_def Let_def split: option.splits)

lemma mkdir_has_dir: "has_dir q (mkdir_all q d)"
  by (simp add: has_dir_def map_of_mkdir_all)

text \<open>Until the directories are placed nothing outside the temporary directory changes.\<close>

lemma unpack_within:
  assumes "unpack_and_place e limits tmp archive configDir dataDir dbDir d = (out, d')" "has_dir tmp d" "plain_path tmp"
    and "0 \<le> rl_MaxFiles limits" "0 \<le> rl_MaxExpandedSize limits" "\<not> prefix tmp p" "map_of d' p \<noteq> map_of d p"
  shows "\<exists>x. extractBackupArchiveWithLimits (ve_Format (re_Verify e)) (ve_Calls (re_Verify e)) (ve_Exceeds (re_Verify e)) archive (os_path tmp) limits d = (None, x)
    \<and> restored_secrets e tmp configDir x"
proof -
  obtain r x where x: "extractBackupArchiveWithLimits (ve_Format (re_Verify e)) (ve_Calls (re_Verify e)) (ve_Exceeds (re_Verify e)) archive (os_path tmp) limits d = (r, x)"
    by fastforce
  have "map_of x p = map_of d p"
    using extraction_safe [OF x _ assms(4,5)] assms(2,6) by (auto simp: elems_os_path [OF assms(3)] stays_within_def)
  then show ?thesis using assms(1,7) x by (auto simp: unpack_and_place_def Let_def split: option.splits if_splits)
qed


section \<open>A backup made and restored\<close>

definition ready_manifest :: backup_manifest where
  "ready_manifest = \<lparr>mf_Fields = [], mf_Required = Some requiredBackupSecrets, mf_Checksum = ''sha256:6b7a'', mf_Contents = []\<rparr>"

definition ready_format :: archive_format where
  "ready_format = \<lparr>af_Marshal = \<lambda>_. Some ''{}'', af_Unmarshal = \<lambda>_. Some ready_manifest, af_Pack = \<lambda>_. ''A'',
     af_Unpack = \<lambda>_. Some ([addBackupFileToTar ''manifest.json'' ''{}'', dir_header ''c'', addBackupFileToTar ''c/s'' ''k'', dir_header ''db'',
       addBackupFileToTar ''db/q.db'' ''z''], True), af_Sha256 = id\<rparr>"

definition ready_key :: string where
  "ready_key = replicate 43 (CHR ''A'') @ ''=''"

definition ready_verify :: verify_env where
  "ready_verify = \<lparr>ve_Format = ready_format, ve_Box = \<lparr>ae_kdf = \<lambda>_ _. [], ae_seal = \<lambda>_ _ x. x, ae_open = \<lambda>_ _ x. Some x\<rparr>,
     ve_Calls = \<lparr>dc_Mkdir = \<lambda>_. True, dc_Open = \<lambda>_. True, dc_Close = \<lambda>_. True\<rparr>, ve_Exceeds = \<lambda>_ _ _. False, ve_Readable = \<lambda>_. True,
     ve_EncryptionKey = \<lambda>_ _. Some ready_key, ve_Database = \<lambda>_ _. Some (\<lambda>_. Some ready_key), ve_Integrity = \<lambda>_ _. True\<rparr>"

definition ready_driver :: sql_driver where
  "ready_driver = \<lparr>sq_Open = \<lambda>d. (d, Some Map.empty), sq_Close = \<lambda>_ d. (True, d), sq_Fails = \<lambda>_ _. False, sq_Random = \<lambda>_. Some ''r''\<rparr>"

definition ready_backup :: backup_env where
  "ready_backup = \<lparr>be_Verify = ready_verify, be_Driver = ready_driver, be_Tmp = ''/t'', be_Salt = None, be_Nonce = None, be_Create = True,
     be_Written = None, be_Remove = True, be_Now = 0, be_Fields = []\<rparr>"

definition ready_disk :: disk where
  "ready_disk = [([], DirE), ([''e''], DirE), ([''e'', ''c''], DirE), ([''e'', ''c'', ''s''], FileE ''k''), ([''v''], DirE), ([''v'', ''q.db''], FileE ''z'')]"


definition ready_restore :: restore_env where
  "ready_restore = \<lparr>re_Verify = ready_verify, re_Driver = ready_driver,
     re_Calls = \<lparr>rc_Rename = \<lambda>_ _. True, rc_Remove = \<lambda>_ _. True, rc_Mkdir = \<lambda>_. True, rc_Copied = \<lambda>_ _. None\<rparr>,
     re_Counts = \<lambda>_. (Some 3, Some 1), re_Elevated = False, re_Token = ''tok'', re_Entered = ''tok '', re_Password = None, re_Answer = Some ''Y'',
     re_Base = [''t''], re_BaseMade = True, re_TempName = Some ''x'', re_ByteSize = \<lambda>_. None, re_Config = None\<rparr>"


end
