(* ===== verification/Spec2Isabelle.thy ===== *)
theory Spec2Isabelle
  imports AccessChain Csrf BodyLimits Handlers Fqdn CacheBackends GraphqlComplexity Locale ReqStats Scheduler
    Ulid LogHistory BackupRetention Updater SecurityHeaders OperatorAuth HotReload ReportIntake ConfigCheck BackupCommands
begin

text \<open>
  \<^bold>\<open>The program.\<close> ipgaze is an HTTP service, written in Go, that tells a client its own address
  and looks up other addresses. A request passes a chain of middleware (\<open>server/http.go\<close>,
  \<open>buildHandler\<close>): security headers, logging, path normalisation and path security, body
  limit and compression, client identity, allowlist, blocklist, country filter, rate limit,
  maintenance mode, CSRF. Behind it handlers detect the address the request is about and ask the
  lookup service, which answers from a cache or from GeoIP data, the resolver and the threat
  lists. Beside the request path run a scheduler with its tasks (list updates, backups, log
  rotation, updates), the log files, and the settings they are configured by.

  \<^bold>\<open>How the code is modelled.\<close> A Go function is a HOL function with the source's name; a struct
  is a record, a mutex-protected object is state that an operation takes and returns, an error is
  a value of an option or sum type, a clock, a random source, a file system or a network reply is an
  argument. Machine integers are words or carry their wrap-around explicitly. Concurrent use is
  an inductive step relation or a sequence of operations. Loops are total functions with
  termination proofs; no definition uses fuel.

  \<^bold>\<open>The theories.\<close>
  \<^item> \<open>Prelude\<close>, \<open>GoStrings\<close>, \<open>GoNet\<close>, \<open>GoHttp\<close>, \<open>Numerals\<close>, \<open>GoTime\<close>: the parts of Go's standard
    library the sources use (strings, strconv, net, net/http, time), with shared lemmas and the
    interface of a system with an invariant.
  \<^item> \<open>Addresses\<close>, \<open>Ranges\<close>, \<open>IpSet\<close>: package \<open>iputil\<close>, address ranges written as CIDR text, and
    the interface \<open>ip_list\<close> of a loaded address list, interpreted by the three lists below.
  \<^item> \<open>Blocklist\<close>, \<open>Threat\<close>: packages \<open>blocklist\<close> and \<open>threat\<close>. Loading is exact: membership is
    that of the lines of the downloaded files; failures keep what was there.
  \<^item> \<open>Fqdn\<close>, \<open>Trust\<close>: package \<open>netutil\<close>. Forwarding headers count only from a trusted peer.
  \<^item> \<open>AccessControl\<close>, \<open>RateLimit\<close>, \<open>Maintenance\<close>, \<open>AccessChain\<close>: the access decisions of package
    \<open>server\<close> and their composition. The limiters keep their ceilings per client (interface
    \<open>limiter_table\<close>, interpreted twice); maintenance mode is a step relation with an invariant.
  \<^item> \<open>SafePaths\<close>, \<open>Csrf\<close>, \<open>BodyLimits\<close>: path validation, double-submit cookies, body limit and
    compression.
  \<^item> \<open>IpLookup\<close>, \<open>CacheBackends\<close>, \<open>Handlers\<close>, \<open>Negotiate\<close>: the response cache (which refines a bounded
    queue) and the lookup service over the interface \<open>ip_cache\<close>; the cache backends over
    \<open>cache_backend\<close>; the handlers and the form of their answers.
  \<^item> \<open>GraphqlComplexity\<close>, \<open>Locale\<close>, \<open>ReqStats\<close>, \<open>Scheduler\<close>: query limits, translations, request
    counters, and the task scheduler as a step relation.
  \<^item> \<open>Ulid\<close>, \<open>LogLines\<close>, \<open>LogRotate\<close>, \<open>LogHistory\<close>, \<open>LogManager\<close>: package \<open>log\<close>. Identifiers decode to what
    they were made of and sort by time; a writer loses no record and respects its size
    bound; retention keeps exactly what its policy says; one log leaves the others alone.
  \<^item> \<open>BackupRetention\<close> (\<open>backup_retention.go\<close>), \<open>Updater\<close> (\<open>updater\<close>, \<open>common/updatechannel\<close>,
    \<open>config/bool.go\<close>, \<open>mode\<close>): which backups survive; no binary is installed whose digest
    was not verified.
  \<^item> \<open>BackupArchive\<close>, \<open>BackupRestore\<close>, \<open>BackupRoundtrip\<close>, \<open>BackupCommands\<close> (\<open>backup_crypto.go\<close> and the commands of
    \<open>main.go\<close>): what an archive holds, that its extraction stays within its directory and limits, that
    a backup verifies and gives back the files it was made of, that a replaced directory is never lost, and
    what the backup and the restore command leave on the disk.
  \<^item> \<open>SecurityHeaders\<close>, \<open>OperatorAuth\<close>: the remaining middleware of \<open>server/middleware.go\<close> and
    \<open>server/middleware_headers.go\<close>: which headers reach the wire, who passes as operator, what the
    report endpoint and the access log record.
  \<^item> \<open>HotReload\<close> (\<open>config/hot_reload.go\<close>), \<open>ConfigCheck\<close> (\<open>config/config.go\<close>): a changed configuration file is compared
    setting by setting, and each change is in effect or recorded as waiting for a restart; a
    validated configuration has every setting in its range.
  \<^item> \<open>Encodings\<close>, \<open>GoUrl\<close>: hexadecimal, base 32 and base 64, and package \<open>net/url\<close>, with the interface \<open>alphabet\<close>
    of an encoding's letters, interpreted for each encoding.
  \<^item> \<open>Secrets\<close>, \<open>SecurityReports\<close> (\<open>security\<close>): stored secrets under concurrent creation and rotation, security
    identifiers, passwords, and the table of vulnerability reports with its one-a-day access.
  \<^item> \<open>Preferences\<close>, \<open>RemoteFetch\<close>, \<open>Contact\<close>, \<open>ReportIntake\<close>: the forms of \<open>server/handler/pages.go\<close> with their redirects,
    preference codes and consent; the fetch of a remote file (\<open>common/urlutil/fetch.go\<close>); contact
    roles and webhooks (\<open>config\<close>, \<open>notify\<close>); the intake of a security report from form to mail.
  \<^item> This theory composes the chain: a request reaches the application only past every check.

  \<^bold>\<open>Parameters and hypotheses.\<close> Code outside the repository is an argument, and what is
  relied on is a named predicate: \<open>rate_law\<close> (the documented bound of \<open>x/time/rate\<close>), \<open>gocron_ok\<close>
  (a removed job does not fire, a new job has a fresh identity), \<open>sorts\<close> (\<open>sort.Slice\<close> returns a
  sorted permutation), \<open>no_faults\<close> (the system calls of a log writer succeed), \<open>random_ok\<close>,
  \<open>opens_own\<close> and \<open>nonce_ok\<close> (a cipher opens what it sealed, the random source fills the nonce), \<open>draws\<close> (random
  bytes are not empty), \<open>unpacks\<close> (tar and gzip give back what was packed), \<open>remove_sane\<close> (a directory that is gone
  took its content with it). SHA-256, gzip, the HTTP client, the GeoIP reader, the public-suffix list, the resolver, the host parser of \<open>net/url\<close>, Argon2, HMAC, OpenPGP, JSON decoding and \<open>time.Parse\<close> are
  arguments with no assumption, or with the one a theorem states. Each predicate has an
  instance in the theory that uses it.

  \<^bold>\<open>What is not modelled.\<close> Process start-up, flags and signals (\<open>main.go\<close>), YAML decoding, the
  notification of file changes, HTML pages and templates, service
  installation, Tor and I2P control, TLS certificates, database drivers, mail delivery, GeoIP
  download, the terminal client: they are input and output around third-party packages. Floating point
  sizes in the backup settings, Prometheus metrics and the database tables' SQL errors are left out of
  otherwise modelled parts.
\<close>
section \<open>The chain in front of the application\<close>

text \<open>
  The middleware \<open>buildHandler\<close> registers in front of the routes and that can answer a request
  itself, in its order: path normalisation, path security, body limit, the access chain, CSRF.
  \<open>cr_RawPath\<close> is the undecoded path \<open>net/url\<close> keeps when it differs from the decoded one. The
  middleware between them that only adds headers, log lines or counters is left out.
\<close>

definition URLNormalizeMiddleware :: "string \<Rightarrow> string option" where
  "URLNormalizeMiddleware path =
     (let normalized = NormalizeURLPath path in if normalized \<noteq> path then Some normalized else None)"

definition PathSecurityMiddleware :: "string \<Rightarrow> string \<Rightarrow> bool" where
  "PathSecurityMiddleware path rawPath =
     (if \<not> IsPathSafe path then False
      else if \<not> IsPathSafe rawPath \<and> rawPath \<noteq> [] then False
      else True)"

record chain_request =
  cr_Form :: form_request
  cr_RawPath :: string
  cr_ContentLength :: int
  cr_Body :: string

datatype chain_outcome =
  Redirect string
| Refused nat
| Panicked
| Application req_ctx "string option" string

record 'l chain_config =
  ch_Access :: "'l access_config"
  ch_MaxBody :: string
  ch_Csrf :: CSRFConfig
  ch_SSL :: bool
  ch_Random :: random_source

definition request_chain ::
  "'l chain_config \<Rightarrow> gotime \<Rightarrow> chain_request \<Rightarrow> 'l access_state \<Rightarrow> chain_outcome \<times> 'l access_state" where
  "request_chain cfg now r st =
     (let req = fr_Req (cr_Form r) in
      case URLNormalizeMiddleware (rq_Path req) of
        Some p \<Rightarrow> (Redirect p, st)
      | None \<Rightarrow>
          if \<not> PathSecurityMiddleware (rq_Path req) (cr_RawPath r) then (Refused 400, st)
          else case router_body (ch_MaxBody cfg) (cr_ContentLength r) (cr_Body r) of
            TooLarge \<Rightarrow> (Refused 413, st)
          | Handler body _ \<Rightarrow>
              (case access_chain (ch_Access cfg) now req st of
                 (Respond s _ _, st') \<Rightarrow> (Refused s, st')
               | (Next c, st') \<Rightarrow>
                   (case CSRFMiddleware (ch_Random cfg) (ch_Csrf cfg) (ch_SSL cfg) ((cr_Form r)\<lparr>fr_Ctx := c\<rparr>) of
                      (CsrfRefused s _, _, lm) \<Rightarrow> (Refused s, st'\<lparr>as_log := as_log st' @ lm\<rparr>)
                    | (CsrfPanic, _, _) \<Rightarrow> (Panicked, st')
                    | (CsrfNext token _, _, _) \<Rightarrow> (Application c token body, st'))))"

lemma csrf_pass_tokens:
  assumes "fst (CSRFMiddleware rnd cfg ssl r) = CsrfNext t cks" and "csrf_guarded cfg r"
  shows "cookie_token cfg r \<noteq> [] \<and> submitted_token cfg r = cookie_token cfg r"
  using assms
  by (auto simp: csrf_guarded_def CSRFMiddleware_def Let_def ConstantTimeCompare_iff csrfError_def
      split: if_splits option.splits)

text \<open>
  C1. Complete mediation: a request reaches the application only if its path is in normal form and
  has no parent element, the body handed on respects a positive limit, its client is not on the
  blocklist unless it is private, allowlisted or on the onion service, and, where the CSRF
  protection covers it, it submitted the token of its cookie.
\<close>

theorem application_mediated:
  assumes "fst (request_chain cfg now r st) = Application c token body"
  shows "NormalizeURLPath (rq_Path (fr_Req (cr_Form r))) = rq_Path (fr_Req (cr_Form r)) \<and>
    dotdot \<notin> set (SplitByte (rq_Path (fr_Req (cr_Form r))) slash) \<and>
    (0 < parseByteSize (ch_MaxBody cfg) \<longrightarrow> int (length body) \<le> parseByteSize (ch_MaxBody cfg)) \<and>
    (\<forall>l ip. ac_block (ch_Access cfg) = Some l \<and>
       extractIP (ClientIPMiddleware (ac_trust (ch_Access cfg)) (new_ctx (fr_Req (cr_Form r)))) = Some ip \<and>
       Lookup_Contains l (Some ip) \<longrightarrow>
       isPrivateIP ip \<or> client_allowlisted (ch_Access cfg) (fr_Req (cr_Form r)) \<or>
       IsTorRequest (fr_Req (cr_Form r)) (ac_trust (ch_Access cfg))) \<and>
    (csrf_guarded (ch_Csrf cfg) ((cr_Form r)\<lparr>fr_Ctx := c\<rparr>) \<longrightarrow>
       cookie_token (ch_Csrf cfg) (cr_Form r) \<noteq> [] \<and>
       submitted_token (ch_Csrf cfg) ((cr_Form r)\<lparr>fr_Ctx := c\<rparr>) = cookie_token (ch_Csrf cfg) (cr_Form r))"
proof -
  let ?req = "fr_Req (cr_Form r)"
  have norm: "URLNormalizeMiddleware (rq_Path ?req) = None"
    using assms by (auto simp: request_chain_def Let_def split: option.splits)
  have safe: "PathSecurityMiddleware (rq_Path ?req) (cr_RawPath r)"
    using assms norm by (auto simp: request_chain_def Let_def split: if_splits)
  obtain err where body: "router_body (ch_MaxBody cfg) (cr_ContentLength r) (cr_Body r) = Handler body err"
    and acc: "fst (access_chain (ch_Access cfg) now ?req st) = Next c"
    and csrf: "\<exists>cks. fst (CSRFMiddleware (ch_Random cfg) (ch_Csrf cfg) (ch_SSL cfg) ((cr_Form r)\<lparr>fr_Ctx := c\<rparr>)) = CsrfNext token cks"
    using assms norm safe
    by (auto simp: request_chain_def Let_def split: body_outcome.splits prod.splits outcome.splits csrf_outcome.splits)
  have 1: "NormalizeURLPath (rq_Path ?req) = rq_Path ?req"
    using norm by (auto simp: URLNormalizeMiddleware_def Let_def split: if_splits)
  have "\<not> Contains (rq_Path ?req) ''..''"
    using safe no_traversal_no_up by (auto simp: PathSecurityMiddleware_def IsPathSafe_def split: if_splits)
  then have 2: "dotdot \<notin> set (SplitByte (rq_Path ?req) slash)"
    using split_Contains [of dotdot "rq_Path ?req" slash "''..''"] by (auto simp: dotdot_def Contains_def HasPrefix_def)
  have 3: "int (length body) \<le> parseByteSize (ch_MaxBody cfg)" if "0 < parseByteSize (ch_MaxBody cfg)"
    using body that by (auto simp: router_body_def BodyLimitMiddleware_def MaxBytesReader_def Let_def split: if_splits)
  have 4: "cookie_token (ch_Csrf cfg) (cr_Form r) \<noteq> [] \<and>
       submitted_token (ch_Csrf cfg) ((cr_Form r)\<lparr>fr_Ctx := c\<rparr>) = cookie_token (ch_Csrf cfg) (cr_Form r)"
    if "csrf_guarded (ch_Csrf cfg) ((cr_Form r)\<lparr>fr_Ctx := c\<rparr>)"
    using csrf_pass_tokens [OF _ that] csrf by (auto simp: cookie_token_def Cookie_def)
  from 1 2 3 4 chain_next_not_blocked [OF acc] show ?thesis by blast
qed

definition sample_chain :: "bucket_state chain_config" where
  "sample_chain = \<lparr>ch_Access = plain_config [] \<lparr>nets = [], singles = []\<rparr>, ch_MaxBody = ''10'', ch_Csrf = DefaultCSRFConfig,
     ch_SSL = True, ch_Random = zero_source\<rparr>"

definition sample_chain_request :: chain_request where
  "sample_chain_request = \<lparr>cr_Form = \<lparr>fr_Ctx = new_ctx (peer_request ''203.0.113.7:999''), fr_Cookies = [], fr_Form = None\<rparr>,
     cr_RawPath = [], cr_ContentLength = 3, cr_Body = ''abc''\<rparr>"

lemma sample_chain_passes:
  "\<exists>c token. fst (request_chain sample_chain now sample_chain_request
      \<lparr>as_limiter = None, as_maint = healthy, as_log = []\<rparr>) = Application c token ''abc''"
proof -
  let ?req = "peer_request ''203.0.113.7:999''" let ?st = "\<lparr>as_limiter = None, as_maint = healthy, as_log = []\<rparr>"
  have path: "URLNormalizeMiddleware ''/'' = None" "PathSecurityMiddleware ''/'' []"
    by (simp_all add: URLNormalizeMiddleware_def NormalizeURLPath_def PathSecurityMiddleware_def IsPathSafe_def
        containsTraversal_def traversal_patterns_def encoded_patterns_def str_simps)
  have body: "router_body ''10'' 3 ''abc'' = Handler ''abc'' False"
    by (simp add: router_body_def BodyLimitMiddleware_def MaxBytesReader_def parseByteSize_def size_unit_def
        ParseInt64_def parse_uint_def int64_def str_simps)
  have acc: "access_chain (plain_config [] \<lparr>nets = [], singles = []\<rparr>) now ?req ?st =
      (Next (client_ctx (plain_config [] \<lparr>nets = [], singles = []\<rparr>) ?req), ?st)"
    unfolding access_chain_def client_ctx_def [symmetric] Let_def
    by (simp add: BlocklistMiddleware_def rate_stage_def MaintenanceMiddleware_def GeoIPMiddleware_def healthy_def
        plain_config_def Lookup_Contains_def mw_simps split: option.splits)
  have csrf: "\<exists>t cks. CSRFMiddleware zero_source DefaultCSRFConfig True
      \<lparr>fr_Ctx = client_ctx (plain_config [] \<lparr>nets = [], singles = []\<rparr>) ?req, fr_Cookies = [], fr_Form = None\<rparr> =
      (CsrfNext (Some t) cks, [], [])"
    by (simp add: CSRFMiddleware_def mw_simps peer_request_def Header_Get_def safe_method_def ensureCSRFCookie_def Cookie_def
        generateCSRFToken_def zero_source_def DefaultCSRFConfig_def str_simps)
  then show ?thesis
    using path body acc unfolding request_chain_def sample_chain_def sample_chain_request_def
    by (auto simp: Let_def new_ctx_def peer_request_def)
qed

theorem application_mediated_witness:
  "\<exists>c token. fst (request_chain sample_chain 0 sample_chain_request
      \<lparr>as_limiter = None, as_maint = healthy, as_log = []\<rparr>) = Application c token ''abc'' \<and>
   NormalizeURLPath (rq_Path (fr_Req (cr_Form sample_chain_request))) = rq_Path (fr_Req (cr_Form sample_chain_request))"
  using sample_chain_passes [of 0] application_mediated by metis

end
